(* ===== verification/Prelude.thy ===== *)
theory Prelude
  imports
    Main
    "HOL-Library.Word"
    "HOL-Library.List_Lexorder"
    "HOL-Library.Char_ord"
    "HOL-Library.Product_Lexorder"
    "HOL-Library.AList"
    "HOL-Library.Sublist"
begin

text \<open>
  Shared vocabulary of the development: the machine integers of the Rust code at their
  width, big-endian byte strings, results with an error branch, and the list lemmas that
  the table model uses (rows selected, updated in place and sorted).

  Rust's \<open>u8\<close>, \<open>u32\<close>, \<open>u64\<close>, \<open>usize\<close> (a 64-bit target) are words; \<open>i64\<close> is its own
  type over the same 64 bits, ordered by the signed value, so that an \<open>as\<close> cast between
  \<open>i64\<close> and \<open>u64\<close> is the identity on the bits, as in Rust. A Rust \<open>String\<close> is its
  list of UTF-8 bytes (\<open>length\<close> is \<open>str::len\<close>, and the lexicographic order is the one of
  Rust's \<open>Ord for str\<close> and of SQLite's BINARY collation); \<open>Vec<u8>\<close> and SQL blobs are
  lists of 8-bit words.
\<close>

section \<open>Machine integers\<close>

type_synonym u8 = "8 word"
type_synonym u32 = "32 word"
type_synonym u64 = "64 word"
type_synonym usize = "64 word"
type_synonym blob = "u8 list"

datatype i64 = I64 (i64_bits: "64 word")

definition i64_int :: "i64 \<Rightarrow> int" where
  "i64_int a = sint (i64_bits a)"

definition i64_of_int :: "int \<Rightarrow> i64" where
  "i64_of_int n = I64 (word_of_int n)"

definition i64_in_range :: "int \<Rightarrow> bool" where
  "i64_in_range n \<longleftrightarrow> - (2 ^ 63) \<le> n \<and> n < 2 ^ 63"

lemma i64_int_I64 [simp]: "i64_int (I64 w) = sint w"
  by (simp add: i64_int_def)

lemma i64_int_inject [simp]: "i64_int a = i64_int b \<longleftrightarrow> a = b"
  by (cases a; cases b) (auto dest: signed_word_eqI)

lemma i64_int_range: "i64_in_range (i64_int a)"
proof (cases a)
  case (I64 w)
  have "- (2 ^ 63) \<le> sint w" "sint w < 2 ^ 63"
    using sint_greater_eq [of w] sint_less [of w] by simp_all
  with I64 show ?thesis by (simp add: i64_in_range_def)
qed

lemma i64_int_of_int: "i64_in_range n \<Longrightarrow> i64_int (i64_of_int n) = n"
  by (simp add: i64_in_range_def i64_of_int_def sint_sbintrunc' signed_take_bit_int_eq_self)

instantiation i64 :: linorder
begin

definition less_eq_i64 :: "i64 \<Rightarrow> i64 \<Rightarrow> bool" where
  "less_eq_i64 a b \<longleftrightarrow> i64_int a \<le> i64_int b"

definition less_i64 :: "i64 \<Rightarrow> i64 \<Rightarrow> bool" where
  "less_i64 a b \<longleftrightarrow> i64_int a < i64_int b"

instance
  by standard (auto simp: less_eq_i64_def less_i64_def)

end

lemma I64_le [simp]: "I64 a \<le> I64 b \<longleftrightarrow> sint a \<le> sint b"
  by (simp add: less_eq_i64_def)

lemma I64_less [simp]: "I64 a < I64 b \<longleftrightarrow> sint a < sint b"
  by (simp add: less_i64_def)

definition i64_min :: i64 where "i64_min = I64 (- (2 ^ 63))"
definition i64_max :: i64 where "i64_max = I64 (2 ^ 63 - 1)"

lemma i64_min_le [simp]: "i64_min \<le> a"
  using i64_int_range [of a]
  by (simp add: i64_min_def i64_in_range_def less_eq_i64_def)

text \<open>\<open>i64::checked_add\<close> and \<open>u64::checked_add\<close>.\<close>

definition i64_checked_add :: "i64 \<Rightarrow> i64 \<Rightarrow> i64 option" where
  "i64_checked_add a b =
     (let n = i64_int a + i64_int b in if i64_in_range n then Some (i64_of_int n) else None)"

definition u64_checked_add :: "u64 \<Rightarrow> u64 \<Rightarrow> u64 option" where
  "u64_checked_add a b = (if unat a + unat b < 2 ^ 64 then Some (a + b) else None)"

lemma i64_checked_add_Some:
  "i64_checked_add a b = Some c \<longleftrightarrow> i64_int c = i64_int a + i64_int b"
  using i64_int_range [of c]
  by (auto simp: i64_checked_add_def Let_def i64_int_of_int split: if_splits
        intro!: i64_int_inject [THEN iffD1])

lemma u64_checked_add_Some:
  "u64_checked_add a b = Some c \<longleftrightarrow> unat c = unat a + unat b"
proof -
  have "unat a + unat b < 2 ^ 64 \<Longrightarrow> unat (a + b) = unat a + unat b"
    by (simp add: unat_word_ariths)
  moreover have "unat c < 2 ^ 64"
    using unsigned_less [of c] by simp
  ultimately show ?thesis
    by (auto simp: u64_checked_add_def word_unat_eq_iff)
qed

text \<open>Casts: \<open>as i64\<close>, \<open>as u64\<close> keep the bits; \<open>i64::from(u32)\<close> widens; \<open>as u32\<close> truncates;
  \<open>u32::try_from\<close> (the driver's \<open>FromSql for u32\<close>) and \<open>i64::try_from\<close> check the range.\<close>

definition u64_as_i64 :: "u64 \<Rightarrow> i64" where "u64_as_i64 = I64"
definition i64_as_u64 :: "i64 \<Rightarrow> u64" where "i64_as_u64 = i64_bits"
definition i64_from_u32 :: "u32 \<Rightarrow> i64" where "i64_from_u32 w = I64 (ucast w)"
definition i64_as_u32 :: "i64 \<Rightarrow> u32" where "i64_as_u32 a = ucast (i64_bits a)"
definition u64_from_u32 :: "u32 \<Rightarrow> u64" where "u64_from_u32 w = ucast w"

definition u32_try_from :: "i64 \<Rightarrow> u32 option" where
  "u32_try_from a = (if 0 \<le> i64_int a \<and> i64_int a < 2 ^ 32 then Some (i64_as_u32 a) else None)"

definition i64_try_from :: "u64 \<Rightarrow> i64 option" where
  "i64_try_from w = (if unat w < 2 ^ 63 then Some (I64 w) else None)"

lemma u64_as_i64_as_u64 [simp]: "i64_as_u64 (u64_as_i64 w) = w"
  by (simp add: u64_as_i64_def i64_as_u64_def)

lemma i64_as_u64_as_i64 [simp]: "u64_as_i64 (i64_as_u64 a) = a"
  by (simp add: u64_as_i64_def i64_as_u64_def)

lemma u64_as_i64_inject [simp]: "u64_as_i64 v = u64_as_i64 w \<longleftrightarrow> v = w"
  by (simp add: u64_as_i64_def)

lemma i64_as_u64_inject [simp]: "i64_as_u64 a = i64_as_u64 b \<longleftrightarrow> a = b"
  by (cases a; cases b) (simp add: i64_as_u64_def)

lemma i64_as_u32_from_u32 [simp]: "i64_as_u32 (i64_from_u32 w) = w"
  by (simp add: i64_as_u32_def i64_from_u32_def ucast_up_ucast_id is_up)

lemma i64_int_from_u32 [simp]: "i64_int (i64_from_u32 w) = uint w"
proof -
  have "uint (ucast w :: 64 word) = uint w"
    by (rule uint_up_ucast) (simp add: is_up)
  moreover have "- (2 ^ 63) \<le> uint w"
    by (rule order_trans [OF _ uint_nonnegative]) simp
  moreover have "uint w < 2 ^ 63"
    using unsigned_less [of w, where 'a = int] by simp
  ultimately have "uint (ucast w :: 64 word) = uint w" and "signed_take_bit 63 (uint w) = uint w"
    by (simp_all add: signed_take_bit_int_eq_self)
  then show ?thesis
    by (simp add: i64_from_u32_def sint_uint)
qed

lemma i64_from_u32_inject [simp]: "i64_from_u32 v = i64_from_u32 w \<longleftrightarrow> v = w"
  by (metis i64_as_u32_from_u32)

lemma u32_try_from_from_u32 [simp]: "u32_try_from (i64_from_u32 w) = Some w"
  using unsigned_less [of w, where 'a = int] by (simp add: u32_try_from_def)

section \<open>Big-endian byte strings\<close>

text \<open>
  \<open>be_bytes n w\<close> is Rust's \<open>to_be_bytes\<close> for a word of \<open>n\<close> bytes, \<open>be_value\<close> is \<open>from_be_bytes\<close>.
\<close>

fun be_bytes :: "nat \<Rightarrow> 'a::len word \<Rightarrow> u8 list" where
  "be_bytes 0 w = []"
| "be_bytes (Suc n) w = be_bytes n (drop_bit 8 w) @ [ucast w]"

definition be_value :: "u8 list \<Rightarrow> 'a::len word" where
  "be_value bs = foldl (\<lambda>acc b. or (push_bit 8 acc) (ucast b)) 0 bs"

lemma length_be_bytes [simp]: "length (be_bytes n w) = n"
  by (induction n arbitrary: w) auto

lemma be_value_Nil [simp]: "be_value [] = 0"
  by (simp add: be_value_def)

lemma be_value_snoc [simp]: "be_value (bs @ [b]) = or (push_bit 8 (be_value bs)) (ucast b)"
  by (simp add: be_value_def)

lemma be_value_be_bytes: "be_value (be_bytes n w) = take_bit (8 * n) w"
proof (induction n arbitrary: w)
  case 0
  then show ?case by simp
next
  case (Suc n)
  show ?case
    by (rule bit_word_eqI)
       (auto simp: Suc bit_or_iff bit_push_bit_iff bit_take_bit_iff bit_drop_bit_eq bit_ucast_iff
         dest: bit_imp_le_length)
qed

lemma be_value_be_bytes_full: "8 * n = LENGTH('a) \<Longrightarrow> be_value (be_bytes n w) = (w :: 'a::len word)"
  by (simp add: be_value_be_bytes)

lemma be_bytes_inject: "8 * n = LENGTH('a) \<Longrightarrow> be_bytes n v = be_bytes n w \<longleftrightarrow> v = (w :: 'a::len word)"
  by (metis be_value_be_bytes_full)

lemma be_bytes_be_value:
  "8 * length bs \<le> LENGTH('a) \<Longrightarrow> be_bytes (length bs) (be_value bs :: 'a::len word) = bs"
proof (induction bs rule: rev_induct)
  case Nil
  then show ?case by simp
next
  case (snoc b bs)
  let ?v = "be_value bs :: 'a word"
  have drop: "drop_bit 8 (or (push_bit 8 ?v) (ucast b)) = take_bit (LENGTH('a) - 8) ?v"
    by (rule bit_word_eqI)
       (auto simp: bit_or_iff bit_push_bit_iff bit_take_bit_iff bit_drop_bit_eq bit_ucast_iff
         dest: bit_imp_le_length)
  have small: "take_bit (LENGTH('a) - 8) ?v = ?v"
  proof -
    have "8 * length bs \<le> LENGTH('a)"
      using snoc.prems by simp
    then have IH: "be_bytes (length bs) ?v = bs"
      by (rule snoc.IH)
    have v: "take_bit (8 * length bs) ?v = ?v"
      using be_value_be_bytes [of "length bs" ?v] by (simp only: IH)
    have le: "min (LENGTH('a) - 8) (8 * length bs) = 8 * length bs"
      using snoc.prems by simp
    have "take_bit (LENGTH('a) - 8) (take_bit (8 * length bs) ?v) = take_bit (8 * length bs) ?v"
      by (simp only: take_bit_take_bit le)
    then show ?thesis by (simp only: v)
  qed
  have "ucast (or (push_bit 8 ?v) (ucast b)) = b"
    by (rule bit_word_eqI)
       (use snoc.prems in \<open>auto simp: bit_or_iff bit_push_bit_iff bit_ucast_iff\<close>)
  with snoc drop small show ?case by simp
qed

section \<open>Results\<close>

text \<open>
  \<open>Result<T, E>\<close> is \<open>'e + 't\<close> with \<open>Inl\<close> for \<open>Err\<close>. \<open>err_bind\<close> is the \<open>?\<close> operator, \<open>ensure\<close> a guard
  that returns early, \<open>for_each\<close> a \<open>for\<close> loop whose body may return early, \<open>map_err\<close> is
  \<open>Result::map_err\<close> (also the \<open>From\<close> conversion that \<open>?\<close> inserts).
\<close>

fun err_bind :: "'e + 'a \<Rightarrow> ('a \<Rightarrow> 'e + 'b) \<Rightarrow> 'e + 'b" where
  "err_bind (Inl e) f = Inl e"
| "err_bind (Inr x) f = f x"

fun map_err :: "('e \<Rightarrow> 'f) \<Rightarrow> 'e + 'a \<Rightarrow> 'f + 'a" where
  "map_err f (Inl e) = Inl (f e)"
| "map_err f (Inr x) = Inr x"

definition ensure :: "bool \<Rightarrow> 'e \<Rightarrow> 'e + unit" where
  "ensure c e = (if c then Inr () else Inl e)"

fun for_each :: "('a \<Rightarrow> 'e + unit) \<Rightarrow> 'a list \<Rightarrow> 'e + unit" where
  "for_each f [] = Inr ()"
| "for_each f (x # xs) = err_bind (f x) (\<lambda>_. for_each f xs)"

fun ok_or :: "'a option \<Rightarrow> 'e \<Rightarrow> 'e + 'a" where
  "ok_or None e = Inl e"
| "ok_or (Some x) e = Inr x"

fun map_result :: "('a \<Rightarrow> 'e + 'b) \<Rightarrow> 'a list \<Rightarrow> 'e + 'b list" where
  "map_result f [] = Inr []"
| "map_result f (x # xs) =
     err_bind (f x) (\<lambda>y. err_bind (map_result f xs) (\<lambda>ys. Inr (y # ys)))"

lemma err_bind_Inr [simp]: "err_bind m f = Inr y \<longleftrightarrow> (\<exists>x. m = Inr x \<and> f x = Inr y)"
  by (cases m) auto

lemma err_bind_Inl: "err_bind m f = Inl e \<longleftrightarrow> m = Inl e \<or> (\<exists>x. m = Inr x \<and> f x = Inl e)"
  by (cases m) auto

lemma map_err_Inr [simp]: "map_err f m = Inr x \<longleftrightarrow> m = Inr x"
  by (cases m) auto

lemma map_err_Inl: "map_err f m = Inl e \<longleftrightarrow> (\<exists>e'. m = Inl e' \<and> e = f e')"
  by (cases m) auto

lemma ensure_Inr [simp]: "ensure c e = Inr u \<longleftrightarrow> c"
  by (simp add: ensure_def)

lemma ensure_Inl: "ensure c e = Inl e' \<longleftrightarrow> \<not> c \<and> e' = e"
  by (auto simp: ensure_def)

lemma for_each_Inr [simp]: "for_each f xs = Inr u \<longleftrightarrow> (\<forall>x \<in> set xs. f x = Inr ())"
  by (induction xs) auto

lemma ok_or_Inr [simp]: "ok_or m e = Inr x \<longleftrightarrow> m = Some x"
  by (cases m) auto

lemma ok_or_Inl: "ok_or m e = Inl e' \<longleftrightarrow> m = None \<and> e' = e"
  by (cases m) auto

lemma map_result_Inr: "map_result f xs = Inr ys \<longleftrightarrow> list_all2 (\<lambda>x y. f x = Inr y) xs ys"
  by (induction xs arbitrary: ys) (auto simp: list_all2_Cons1)

lemma map_result_all_Inr: "\<forall>x \<in> set xs. f x = Inr (g x) \<Longrightarrow> map_result f xs = Inr (map g xs)"
  by (induction xs) auto

section \<open>Rows of a table\<close>

text \<open>
  A table is the list of its rows in rowid order. \<open>sql_update p u\<close> is \<open>UPDATE .. WHERE p\<close>,
  \<open>filter\<close> a \<open>SELECT\<close> or a \<open>DELETE\<close>, \<open>sort_key\<close> an \<open>ORDER BY\<close>, \<open>sql_limit\<close> a \<open>LIMIT\<close> (SQLite reads
  a negative limit as none), \<open>sql_coalesce_max\<close> is \<open>COALESCE(MAX(c), 0)\<close> over the column's values.
  Two-column tables with a primary key and an upsert are association lists with \<open>AList.update\<close>.
\<close>

definition sql_update :: "('r \<Rightarrow> bool) \<Rightarrow> ('r \<Rightarrow> 'r) \<Rightarrow> 'r list \<Rightarrow> 'r list" where
  "sql_update p u rows = map (\<lambda>r. if p r then u r else r) rows"

definition sql_limit :: "i64 \<Rightarrow> 'r list \<Rightarrow> 'r list" where
  "sql_limit n rows = (if i64_int n < 0 then rows else take (nat (i64_int n)) rows)"

definition sql_coalesce_max :: "i64 list \<Rightarrow> i64" where
  "sql_coalesce_max xs = (case xs of [] \<Rightarrow> I64 0 | y # ys \<Rightarrow> fold max ys y)"

lemma sql_update_Nil [simp]: "sql_update p u [] = []"
  by (simp add: sql_update_def)

lemma sql_update_Cons [simp]:
  "sql_update p u (r # rs) = (if p r then u r else r) # sql_update p u rs"
  by (simp add: sql_update_def)

lemma set_sql_update: "set (sql_update p u rows) = (\<lambda>r. if p r then u r else r) ` set rows"
  by (simp add: sql_update_def)

lemma map_sql_update: "(\<And>r. p r \<Longrightarrow> f (u r) = f r) \<Longrightarrow> map f (sql_update p u rows) = map f rows"
  by (simp add: sql_update_def)

lemma length_sql_update [simp]: "length (sql_update p u rows) = length rows"
  by (simp add: sql_update_def)

lemma set_sql_limit: "set (sql_limit n rows) \<subseteq> set rows"
  by (auto simp: sql_limit_def dest: in_set_takeD)

lemma sql_coalesce_max_Max: "xs \<noteq> [] \<Longrightarrow> sql_coalesce_max xs = Max (set xs)"
  by (cases xs) (simp_all only: sql_coalesce_max_def list.case Max.set_eq_fold simp_thms)

lemma sql_coalesce_max_ge: "x \<in> set xs \<Longrightarrow> x \<le> sql_coalesce_max xs"
  using sql_coalesce_max_Max [of xs] by (cases "xs = []") auto

lemma sql_coalesce_max_in: "xs \<noteq> [] \<Longrightarrow> sql_coalesce_max xs \<in> set xs"
  using Max_in [of "set xs"] by (simp add: sql_coalesce_max_Max)

lemma insort_key_map: "insort_key f (g x) (map g xs) = map g (insort_key (\<lambda>x. f (g x)) x xs)"
  by (induction xs) simp_all

lemma sort_key_map: "sort_key f (map g xs) = map g (sort_key (\<lambda>x. f (g x)) xs)"
  by (induction xs) (simp_all add: insort_key_map)

lemma find_Some_iff_distinct:
  assumes "distinct (map f xs)"
  shows "List.find (\<lambda>x. f x = k) xs = Some y \<longleftrightarrow> y \<in> set xs \<and> f y = k"
  using assms by (induction xs) (auto simp: image_iff)

lemma find_None_key: "List.find (\<lambda>x. f x = k) xs = None \<longleftrightarrow> k \<notin> f ` set xs"
  by (auto simp: find_None_iff)

section \<open>Strings and their bytes\<close>

definition str_bytes :: "string \<Rightarrow> u8 list" where
  "str_bytes s = map of_char s"

lemma unat_of_char [simp]: "unat (of_char c :: u8) = of_char c"
proof -
  have "(of_char c :: nat) < 256"
    using of_char_mod_256 [of c, where 'a = nat] by (metis mod_less_divisor zero_less_numeral)
  then have "unat (of_nat (of_char c) :: u8) = of_char c"
    by (simp add: unat_of_nat del: of_nat_of_char)
  then show ?thesis
    by (simp only: of_nat_of_char)
qed

lemma of_char_u8_inject [simp]: "(of_char c :: u8) = of_char d \<longleftrightarrow> c = d"
  by (metis unat_of_char of_char_eq_iff)

lemma length_str_bytes [simp]: "length (str_bytes s) = length s"
  by (simp add: str_bytes_def)

lemma str_bytes_inject [simp]: "str_bytes s = str_bytes t \<longleftrightarrow> s = t"
proof -
  have "inj (of_char :: char \<Rightarrow> u8)"
    by (simp add: inj_def)
  then show ?thesis
    by (simp add: str_bytes_def inj_map_eq_map)
qed

section \<open>Decimal texts\<close>

text \<open>What Rust's \<open>Display\<close> prints for integers.\<close>

fun show_nat :: "nat \<Rightarrow> string" where
  "show_nat n = (if n < 10 then [char_of (48 + n)] else show_nat (n div 10) @ [char_of (48 + n mod 10)])"

declare show_nat.simps [simp del]

definition show_i64 :: "i64 \<Rightarrow> string" where
  "show_i64 a = (if i64_int a < 0 then ''-'' @ show_nat (nat (- i64_int a)) else show_nat (nat (i64_int a)))"

definition show_u32 :: "u32 \<Rightarrow> string" where
  "show_u32 w = show_nat (unat w)"

definition show_u64 :: "u64 \<Rightarrow> string" where
  "show_u64 w = show_nat (unat w)"

definition show_usize :: "usize \<Rightarrow> string" where
  "show_usize w = show_nat (unat w)"

section \<open>Interfaces: codecs\<close>

text \<open>
  The store keeps states, modes and identifiers as integers and blobs and decodes them again
  on every read. The contract between the two directions: a value survives the round trip
  (\<open>codec\<close>), and only encodings decode (\<open>exact_codec\<close>).
\<close>

locale codec =
  fixes encode :: "'a \<Rightarrow> 'b"
    and decode :: "'b \<Rightarrow> 'a option"
  assumes decode_encode: "decode (encode x) = Some x"
begin

lemma encode_inject: "encode x = encode y \<longleftrightarrow> x = y"
  by (metis decode_encode option.inject)

lemma decode_inject: "decode (encode x) = Some y \<longleftrightarrow> y = x"
  by (auto simp: decode_encode)

end

locale exact_codec = codec encode decode
  for encode :: "'a \<Rightarrow> 'b"
    and decode :: "'b \<Rightarrow> 'a option" +
  assumes encode_decode: "decode y = Some x \<Longrightarrow> encode x = y"
begin

lemma decode_Some_iff: "decode y = Some x \<longleftrightarrow> y = encode x"
  by (auto simp: decode_encode encode_decode)

lemma decode_None_iff: "decode y = None \<longleftrightarrow> y \<notin> range encode"
  using decode_Some_iff by (metis not_Some_eq rangeE rangeI)

end

end
