(* ===== verification/Identifiers.thy ===== *)
theory Identifiers
  imports Prelude
begin

text \<open>
  The 128-bit identifiers of \<open>src/id.rs\<close> and their hexadecimal form. The code keeps the sixteen
  bytes; the model keeps the same 128 bits as one word, \<open>as_bytes\<close> lists them big-endian (the
  order of \<open>From<u128>\<close>). The derived \<open>Ord\<close> compares the byte arrays lexicographically, and so
  does the \<open>linorder\<close> instance here. The hexadecimal helpers \<open>hex\<close> and \<open>hex_value\<close> are shared
  by the exports and the command line.
\<close>

section \<open>The identifier type\<close>

datatype id = Id (id_word: "128 word")

definition id_zero :: id where "id_zero = Id 0"

definition as_bytes :: "id \<Rightarrow> u8 list" where
  "as_bytes i = be_bytes 16 (id_word i)"

definition from_bytes :: "u8 list \<Rightarrow> id" where
  "from_bytes bs = Id (be_value bs)"

definition id_from_u128 :: "128 word \<Rightarrow> id" where "id_from_u128 w = Id w"
definition u128_from_id :: "id \<Rightarrow> 128 word" where "u128_from_id i = be_value (as_bytes i)"

text \<open>\<open><[u8; 16]>::try_from(blob)\<close>, as in \<open>id_from_blob\<close> and \<open>blob_to_id\<close>.\<close>

definition id_try_from :: "blob \<Rightarrow> id option" where
  "id_try_from b = (if length b = 16 then Some (from_bytes b) else None)"

lemma length_as_bytes [simp]: "length (as_bytes i) = 16"
  by (simp add: as_bytes_def)

lemma from_bytes_as_bytes [simp]: "from_bytes (as_bytes i) = i"
  by (cases i) (simp add: as_bytes_def from_bytes_def be_value_be_bytes_full)

lemma as_bytes_from_bytes: "length bs = 16 \<Longrightarrow> as_bytes (from_bytes bs) = bs"
  using be_bytes_be_value [of bs, where 'a = 128] by (simp add: as_bytes_def from_bytes_def)

interpretation id_blob: exact_codec as_bytes id_try_from
  by unfold_locales (auto simp: id_try_from_def as_bytes_from_bytes split: if_splits)

lemmas id_blob_simps [simp] = id_blob.decode_encode id_blob.encode_inject

lemma u128_roundtrip: "u128_from_id (id_from_u128 w) = w"
  by (simp add: u128_from_id_def id_from_u128_def as_bytes_def be_value_be_bytes_full)

section \<open>Order\<close>

text \<open>The derived order of \<open>Id\<close>: that of its sixteen bytes.\<close>

definition id_less_eq :: "id \<Rightarrow> id \<Rightarrow> bool" where
  "id_less_eq i j \<longleftrightarrow> as_bytes i \<le> as_bytes j"

definition id_less :: "id \<Rightarrow> id \<Rightarrow> bool" where
  "id_less i j \<longleftrightarrow> as_bytes i < as_bytes j"

instantiation id :: linorder
begin

definition less_eq_id :: "id \<Rightarrow> id \<Rightarrow> bool" where
  "less_eq_id = id_less_eq"

definition less_id :: "id \<Rightarrow> id \<Rightarrow> bool" where
  "less_id = id_less"

instance
  by standard (auto simp: less_eq_id_def less_id_def id_less_eq_def id_less_def less_le)

end

lemma less_snoc_list:
  fixes xs ys :: "'a::linorder list"
  assumes "length xs = length ys"
  shows "xs @ [a] < ys @ [b] \<longleftrightarrow> xs < ys \<or> xs = ys \<and> a < b"
  using assms by (induction xs ys rule: list_induct2) auto

lemma unat_div_mod_256: "unat (w :: 'a::len word) = 256 * unat (drop_bit 8 w) + unat w mod 256"
  using unat_drop_bit_eq [of 8 w] by (simp only: drop_bit_eq_div [where 'a = nat]) simp

lemma be_bytes_less:
  fixes v w :: "'a::len word"
  assumes "8 \<le> LENGTH('a)" "unat v < 256 ^ n" "unat w < 256 ^ n"
  shows "be_bytes n v < be_bytes n w \<longleftrightarrow> v < w"
  using assms
proof (induction n arbitrary: v w)
  case 0
  then show ?case by (simp add: word_less_nat_alt)
next
  case (Suc n)
  let ?dv = "unat (drop_bit 8 v)" and ?dw = "unat (drop_bit 8 w)"
  have v: "unat v = 256 * ?dv + unat v mod 256" and w: "unat w = 256 * ?dw + unat w mod 256"
    by (rule unat_div_mod_256)+
  have low: "unat (ucast x :: u8) = unat x mod 256" for x :: "'a word"
    by (simp add: unsigned_ucast_eq take_bit_eq_mod)
  have bounds: "?dv < 256 ^ n" "?dw < 256 ^ n"
    using Suc.prems v w by auto
  have "be_bytes n (drop_bit 8 v) = be_bytes n (drop_bit 8 w) \<longleftrightarrow> ?dv = ?dw"
    using Suc.IH [OF Suc.prems(1)] bounds
    by (metis word_unat_eq_iff linorder_neq_iff)
  then have "be_bytes (Suc n) v < be_bytes (Suc n) w \<longleftrightarrow>
      ?dv < ?dw \<or> ?dv = ?dw \<and> unat v mod 256 < unat w mod 256"
    using Suc.IH [OF Suc.prems(1)] bounds
    by (simp add: less_snoc_list word_less_nat_alt low)
  also have "\<dots> \<longleftrightarrow> unat v < unat w"
    using v w mod_less_divisor [of 256 "unat v"] mod_less_divisor [of 256 "unat w"] by linarith
  finally show ?case by (simp add: word_less_nat_alt)
qed

lemma id_less_iff: "i < j \<longleftrightarrow> id_word i < id_word j"
  using unsigned_less [of "id_word i", where 'a = nat] unsigned_less [of "id_word j", where 'a = nat]
  by (simp add: less_id_def id_less_def as_bytes_def be_bytes_less)

section \<open>Hexadecimal text\<close>

definition hex_digits :: string where "hex_digits = ''0123456789abcdef''"

text \<open>\<open>Id::to_hex\<close>, and the two functions \<open>hex\<close> of the exports and the command line.\<close>

definition hex :: "u8 list \<Rightarrow> string" where
  "hex bs = concat (map (\<lambda>b. [hex_digits ! unat (drop_bit 4 b), hex_digits ! unat (and b 15)]) bs)"

definition to_hex :: "id \<Rightarrow> string" where
  "to_hex i = hex (as_bytes i)"

definition hex_value :: "u8 \<Rightarrow> u8 option" where
  "hex_value b =
     (if 48 \<le> b \<and> b \<le> 57 then Some (b - 48)
      else if 97 \<le> b \<and> b \<le> 102 then Some (b - 97 + 10)
      else if 65 \<le> b \<and> b \<le> 70 then Some (b - 65 + 10)
      else None)"

datatype invalid_id = InvalidId

text \<open>The loop over \<open>chunks_exact(2)\<close>: a trailing single byte is not visited.\<close>

fun from_hex_pairs :: "u8 list \<Rightarrow> invalid_id + u8 list" where
  "from_hex_pairs (h # l # rest) =
     err_bind (ok_or (hex_value h) InvalidId) (\<lambda>high.
     err_bind (ok_or (hex_value l) InvalidId) (\<lambda>low.
     err_bind (from_hex_pairs rest) (\<lambda>bs. Inr (or (push_bit 4 high) low # bs))))"
| "from_hex_pairs [] = Inr []"
| "from_hex_pairs [_] = Inr []"

definition from_hex :: "string \<Rightarrow> invalid_id + id" where
  "from_hex s =
     (if length s \<noteq> 32 then Inl InvalidId
      else err_bind (from_hex_pairs (str_bytes s)) (\<lambda>bs. Inr (from_bytes bs)))"

text \<open>\<open>str::to_ascii_lowercase\<close>, a byte at a time.\<close>

definition ascii_lower :: "char \<Rightarrow> char" where
  "ascii_lower c = (let n = of_char c :: nat in if 65 \<le> n \<and> n \<le> 90 then char_of (n + 32) else c)"

lemma length_hex [simp]: "length (hex bs) = 2 * length bs"
  by (induction bs) (simp_all add: hex_def)

lemma length_to_hex: "length (to_hex i) = 32"
  by (simp add: to_hex_def)

lemma hex_Nil [simp]: "hex [] = []" and
  hex_Cons: "hex (b # bs) =
    hex_digits ! unat (drop_bit 4 b) # hex_digits ! unat (and b 15) # hex bs"
  by (simp_all add: hex_def)

lemma hex_value_digit: "n < 16 \<Longrightarrow> hex_value (of_char (hex_digits ! n)) = Some (of_nat n)"
proof -
  have "list_all (\<lambda>n. hex_value (of_char (hex_digits ! n)) = Some (of_nat n)) [0..<16]"
    by code_simp
  then show "n < 16 \<Longrightarrow> ?thesis"
    by (simp add: list_all_iff)
qed

definition hex_table_ok :: "char \<Rightarrow> bool" where
  "hex_table_ok c \<longleftrightarrow>
     (case hex_value (of_char c) of
        None \<Rightarrow> hex_value (of_char (ascii_lower c)) = None
      | Some v \<Rightarrow> unat v < 16 \<and> hex_digits ! unat v = ascii_lower c \<and>
          hex_value (of_char (ascii_lower c)) = Some v)"

lemma hex_value_char:
  "hex_value (of_char c) =
     (let n = of_char c :: nat in
      if 48 \<le> n \<and> n \<le> 57 \<or> 97 \<le> n \<and> n \<le> 102 \<or> 65 \<le> n \<and> n \<le> 70
      then hex_value (of_char c) else None)"
  by (simp add: hex_value_def word_le_nat_alt Let_def)

lemma hex_table: "hex_table_ok c"
proof -
  let ?n = "of_char c :: nat" and ?ds = "[48..<58] @ [97..<103] @ [65..<71]"
  have n: "?n < 256"
    using unsigned_less [of "of_char c :: u8", where 'a = nat] by simp
  show ?thesis
  proof (cases "?n \<in> set ?ds")
    case True
    have "list_all (\<lambda>n. hex_table_ok (char_of n)) ?ds"
      by code_simp
    then have "hex_table_ok (char_of ?n)"
      using True by (simp only: list_all_iff)
    then show ?thesis
      by (simp only: char_of_char)
  next
    case False
    then have outside: "\<not> (48 \<le> ?n \<and> ?n \<le> 57 \<or> 97 \<le> ?n \<and> ?n \<le> 102 \<or> 65 \<le> ?n \<and> ?n \<le> 70)"
      by (simp only: set_append set_upt Un_iff atLeastLessThan_iff) linarith
    have none: "hex_value (of_char c) = None"
      using outside by (subst hex_value_char) (simp only: Let_def if_False)
    moreover have "hex_value (of_char (ascii_lower c)) = None"
    proof (cases "65 \<le> ?n \<and> ?n \<le> 90")
      case True
      then have "(of_char (ascii_lower c) :: nat) = ?n + 32"
        by (simp add: ascii_lower_def Let_def)
      with True outside show ?thesis
        by (subst hex_value_char) auto
    next
      case False
      then have "ascii_lower c = c"
        unfolding ascii_lower_def Let_def by (rule if_not_P)
      then show ?thesis
        using none by simp
    qed
    ultimately show ?thesis
      by (simp add: hex_table_ok_def)
  qed
qed

lemma hex_value_bound: "hex_value (of_char c) = Some v \<Longrightarrow> unat v < 16"
  and hex_value_lower: "hex_value (of_char c) = Some v \<Longrightarrow> hex_digits ! unat v = ascii_lower c"
  and hex_value_case: "hex_value (of_char (ascii_lower c)) = hex_value (of_char c)"
  using hex_table [of c] by (auto simp: hex_table_ok_def split: option.splits)

lemma and_15: "and b 15 = take_bit 4 (b :: u8)"
  by (simp add: take_bit_eq_mask mask_eq_exp_minus_1)

lemma nibbles_join: "or (push_bit 4 (drop_bit 4 b)) (and b 15) = (b :: u8)"
  by (rule bit_word_eqI)
     (auto simp: and_15 bit_or_iff bit_take_bit_iff bit_push_bit_iff bit_drop_bit_eq)

lemma nibbles_split:
  fixes h l :: u8
  assumes "unat h < 16" "unat l < 16"
  shows "drop_bit 4 (or (push_bit 4 h) l) = h" and "and (or (push_bit 4 h) l) 15 = l"
proof -
  have small: "take_bit 4 x = x" if "unat x < 16" for x :: u8
    using that by (simp add: word_unat_eq_iff unsigned_take_bit_eq take_bit_nat_eq_self)
  have h: "bit h k \<Longrightarrow> k < 4" and l: "bit l k \<Longrightarrow> k < 4" for k
    using small [OF assms(1)] small [OF assms(2)] by (metis bit_take_bit_iff)+
  show "drop_bit 4 (or (push_bit 4 h) l) = h"
    by (rule bit_word_eqI) (auto simp: bit_or_iff bit_push_bit_iff bit_drop_bit_eq dest: h l)
  have "and (or (push_bit 4 h) l) 15 = take_bit 4 (or (push_bit 4 h) l)"
    by (rule and_15)
  also have "\<dots> = l"
    by (rule bit_word_eqI) (auto simp: bit_or_iff bit_push_bit_iff bit_take_bit_iff dest: h l)
  finally show "and (or (push_bit 4 h) l) 15 = l" .
qed

lemma unat_high_nibble: "unat (drop_bit 4 (b :: u8)) < 16"
  using unsigned_less [of b, where 'a = nat]
  by (simp only: unat_drop_bit_eq drop_bit_eq_div [where 'a = nat]) simp

lemma unat_low_nibble: "unat (and b 15 :: u8) < 16"
  by (simp only: and_15 unsigned_take_bit_eq take_bit_eq_mod [where 'a = nat]) simp

lemma from_hex_pairs_hex: "from_hex_pairs (str_bytes (hex bs)) = Inr bs"
  by (induction bs)
     (simp_all add: str_bytes_def hex_Cons hex_value_digit unat_high_nibble unat_low_nibble
        nibbles_join)

lemma hex_from_hex_pairs:
  "even (length s) \<Longrightarrow> from_hex_pairs (str_bytes s) = Inr bs \<Longrightarrow> hex bs = map ascii_lower s"
proof (induction s arbitrary: bs rule: induct_list012)
  case (3 h l s)
  then obtain vh vl bs' where v: "hex_value (of_char h) = Some vh" "hex_value (of_char l) = Some vl"
    and rest: "from_hex_pairs (str_bytes s) = Inr bs'" and bs: "bs = or (push_bit 4 vh) vl # bs'"
    by (auto simp: str_bytes_def)
  then have "hex bs' = map ascii_lower s"
    using 3 by auto
  moreover have "hex bs = hex_digits ! unat vh # hex_digits ! unat vl # hex bs'"
    unfolding bs hex_Cons nibbles_split [OF v [THEN hex_value_bound]] ..
  ultimately show ?case
    using v by (simp add: hex_value_lower)
qed (simp_all add: str_bytes_def)

lemma from_hex_pairs_case:
  "from_hex_pairs (str_bytes (map ascii_lower s)) = from_hex_pairs (str_bytes s)"
  by (induction s rule: induct_list012) (simp_all add: str_bytes_def hex_value_case)

lemma length_from_hex_pairs: "from_hex_pairs bs = Inr xs \<Longrightarrow> length xs = length bs div 2"
  by (induction bs arbitrary: xs rule: from_hex_pairs.induct) auto

text \<open>
  What \<open>Id::from_hex\<close> accepts: exactly the strings that are the printed form of an identifier
  up to the case of the letters.
\<close>

lemma from_hex_iff: "from_hex s = Inr i \<longleftrightarrow> map ascii_lower s = to_hex i"
proof
  assume "from_hex s = Inr i"
  then obtain bs where len: "length s = 32" and bs: "from_hex_pairs (str_bytes s) = Inr bs"
    and i: "i = from_bytes bs"
    by (auto simp: from_hex_def split: if_splits)
  have "length bs = 16"
    using length_from_hex_pairs [OF bs] len by simp
  then show "map ascii_lower s = to_hex i"
    using hex_from_hex_pairs [OF _ bs] len i by (simp add: to_hex_def as_bytes_from_bytes)
next
  assume lower: "map ascii_lower s = to_hex i"
  then have "length s = 32"
    by (metis length_map to_hex_def length_hex length_as_bytes numeral_Bit0 mult_2)
  moreover have "from_hex_pairs (str_bytes s) = Inr (as_bytes i)"
    using from_hex_pairs_case [of s] lower by (simp add: to_hex_def from_hex_pairs_hex)
  ultimately show "from_hex s = Inr i"
    by (simp add: from_hex_def)
qed

end
