(* ===== verification/Job_States.thy ===== *)
theory Job_States
  imports Identifiers
begin

text \<open>
  The durable state of a job (\<open>JobState\<close> of \<open>src/jobs.rs\<close>): its integer encoding in the
  \<open>jobs\<close> table, its printed name, and the allowed state machine.
\<close>

datatype job_state =
    Pending | Leased | RetryWait | Uncertain | Succeeded | Dead | Cancelled

fun job_state_encode :: "job_state \<Rightarrow> i64" where
  "job_state_encode Pending = I64 0"
| "job_state_encode Leased = I64 1"
| "job_state_encode RetryWait = I64 2"
| "job_state_encode Uncertain = I64 3"
| "job_state_encode Succeeded = I64 4"
| "job_state_encode Dead = I64 5"
| "job_state_encode Cancelled = I64 6"

fun job_state_name :: "job_state \<Rightarrow> string" where
  "job_state_name Pending = ''pending''"
| "job_state_name Leased = ''leased''"
| "job_state_name RetryWait = ''retry_wait''"
| "job_state_name Uncertain = ''uncertain''"
| "job_state_name Succeeded = ''succeeded''"
| "job_state_name Dead = ''dead''"
| "job_state_name Cancelled = ''cancelled''"

text \<open>The derived \<open>Debug\<close> of a state.\<close>

fun job_state_debug :: "job_state \<Rightarrow> string" where
  "job_state_debug Pending = ''Pending''"
| "job_state_debug Leased = ''Leased''"
| "job_state_debug RetryWait = ''RetryWait''"
| "job_state_debug Uncertain = ''Uncertain''"
| "job_state_debug Succeeded = ''Succeeded''"
| "job_state_debug Dead = ''Dead''"
| "job_state_debug Cancelled = ''Cancelled''"

definition job_state_decode :: "i64 \<Rightarrow> job_state option" where
  "job_state_decode v =
     (if v = I64 0 then Some Pending
      else if v = I64 1 then Some Leased
      else if v = I64 2 then Some RetryWait
      else if v = I64 3 then Some Uncertain
      else if v = I64 4 then Some Succeeded
      else if v = I64 5 then Some Dead
      else if v = I64 6 then Some Cancelled
      else None)"

fun is_terminal :: "job_state \<Rightarrow> bool" where
  "is_terminal Succeeded = True"
| "is_terminal Dead = True"
| "is_terminal Cancelled = True"
| "is_terminal _ = False"

fun can_transition_to :: "job_state \<Rightarrow> job_state \<Rightarrow> bool" where
  "can_transition_to Pending Leased = True"
| "can_transition_to Pending Cancelled = True"
| "can_transition_to RetryWait Leased = True"
| "can_transition_to Leased Succeeded = True"
| "can_transition_to Leased RetryWait = True"
| "can_transition_to Leased Dead = True"
| "can_transition_to Leased Cancelled = True"
| "can_transition_to Leased Uncertain = True"
| "can_transition_to Leased Pending = True"
| "can_transition_to Leased Leased = True"
| "can_transition_to Uncertain Pending = True"
| "can_transition_to Uncertain Succeeded = True"
| "can_transition_to Uncertain Dead = True"
| "can_transition_to _ _ = False"

interpretation state_code: exact_codec job_state_encode job_state_decode
proof unfold_locales
  fix s show "job_state_decode (job_state_encode s) = Some s"
    by (cases s) (simp_all add: job_state_decode_def)
next
  fix v s show "job_state_decode v = Some s \<Longrightarrow> job_state_encode s = v"
    by (auto simp: job_state_decode_def split: if_splits)
qed

lemmas state_code_simps [simp] = state_code.decode_encode state_code.encode_inject

text \<open>The two SQL lists of state codes, \<open>TERMINAL_STATES_SQL\<close> and \<open>ACTIVE_STATES_SQL\<close>.\<close>

definition terminal_states_sql :: "i64 list" where
  "terminal_states_sql = map job_state_encode [Succeeded, Dead, Cancelled]"

definition active_states_sql :: "i64 list" where
  "active_states_sql = map job_state_encode [Pending, Leased, RetryWait, Uncertain]"

lemma terminal_states_sql_iff [simp]:
  "job_state_encode s \<in> set terminal_states_sql \<longleftrightarrow> is_terminal s"
  by (cases s) (simp_all add: terminal_states_sql_def)

lemma active_states_sql_iff [simp]:
  "job_state_encode s \<in> set active_states_sql \<longleftrightarrow> \<not> is_terminal s"
  by (cases s) (simp_all add: active_states_sql_def)

lemma terminal_no_transition: "is_terminal s \<Longrightarrow> \<not> can_transition_to s t"
  by (cases s; cases t) simp_all

lemma can_transition_to_Leased:
  "can_transition_to s Leased \<longleftrightarrow> s = Pending \<or> s = RetryWait \<or> s = Leased"
  by (cases s) simp_all

lemma can_transition_from_Pending:
  "can_transition_to Pending s \<longleftrightarrow> s = Leased \<or> s = Cancelled"
  by (cases s) simp_all

end
