(* ===== verification/Errors.thy ===== *)
theory Errors
  imports Job_States
begin

text \<open>
  The error types of \<open>src/error.rs\<close>. The code carries formatted messages; the model carries
  the data they are formatted from: \<open>validation_error\<close> has one constructor per message of the
  source, and a driver failure keeps the driver's error instead of its text. The
  \<open>Display\<close> implementations are in \<open>Error_Texts\<close>.
\<close>

text \<open>
  What the SQLite driver reports: a violated constraint of the schema, a value that does
  not fit the requested column type, a full table, a write through a read-only connection, or
  any failure of the environment (busy, disk full, I/O).
\<close>

datatype sqlite_error =
    UniqueViolation string
  | CheckViolation string
  | ForeignKeyViolation string
  | InvalidColumnType
  | DatabaseFull
  | ReadOnlyDatabase
  | DriverFault string

text \<open>
  \<open>StorageError::Sqlite\<close> carries a text: of a driver error, of a corrupt column, of a schema older
  than the supported one, or of an indeterminate outcome. \<open>indeterminate_cause\<close> is the text of an indeterminate outcome: of the
  error of the COMMIT step, or of the fault injection of \<open>store/failpoints.rs\<close>.
\<close>

datatype storage_error =
    StorageError_Io string
  | StorageError_Sqlite sqlite_message
  | MigrationChecksumMismatch u32
  | SchemaTooNew u32 u32
and sqlite_message =
    Driver sqlite_error
  | Corrupt string
  | Schema_Older u32 u32
  | Indeterminate_Text indeterminate_cause
and indeterminate_cause =
    Commit_Step storage_error
  | Failpoint

definition from_sqlite :: "sqlite_error \<Rightarrow> storage_error" where
  "from_sqlite e = StorageError_Sqlite (Driver e)"

datatype validation_error =
    TooLarge string nat usize
  | MaxOperationsZero
  | MaxReplaceEntriesZero
  | TransactionIdZero
  | OperationCountExceeds nat usize
  | EventIdZero
  | ReplaceEntryCountExceeds nat usize
  | JobIdZero
  | MaxAttemptsZero
  | LeaseTokenZero
  | StreamVersionOverflow string
  | PatchVersionNotNext string u64 u64
  | PatchDuplicateKey string
  | ReplaceDuplicateKey string
  | JobDoesNotExist id
  | JobAlreadyExists id
  | StaleLeaseToken id
  | DefaultRetryOverflow
  | CancelRequiresToken id
  | ClaimQueueEmpty
  | ClaimWorkerEmpty
  | ClaimLeaseNotPositive
  | LeaseExpiryOverflow
  | AfterSequenceOutOfRange u64
  | PageLimitOutOfRange usize
  | BackupDestinationExists string

datatype lease_conflict =
    JobNotFound id
  | InvalidToken id
  | NotLeased id job_state
  | ExpiryNotLater id i64 i64
  | LeaseExpired id i64 i64

datatype conflict =
    Conflict_StreamVersion string u64 u64
  | Conflict_ProjectionVersion string u64 u64
  | Conflict_JobTransition id job_state job_state
  | Conflict_Lease lease_conflict

datatype error =
    Error_Storage storage_error
  | Error_Validation validation_error
  | Error_Conflict conflict

record indeterminate_commit =
  ic_transaction_id :: id
  ic_storage_error :: indeterminate_cause

datatype commit_error =
    CommitError_Conflict conflict
  | CommitError_Validation validation_error
  | DuplicateIdWithDifferentContent
  | CommitError_Indeterminate indeterminate_commit
  | CommitError_Storage storage_error

record indeterminate_claim =
  icl_transaction_id :: id
  icl_proposed_jobs :: "id list"
  icl_storage_error :: indeterminate_cause

datatype claim_error =
    ClaimError_Indeterminate indeterminate_claim
  | ClaimError_Validation validation_error
  | ClaimError_Conflict conflict
  | ClaimError_Storage storage_error

datatype recovery_error = RecoveryError_Storage storage_error

record indeterminate_lease =
  il_job_id :: id
  il_storage_error :: indeterminate_cause

datatype lease_error =
    LeaseError_Conflict lease_conflict
  | LeaseError_Indeterminate indeterminate_lease
  | LeaseError_Storage storage_error

text \<open>\<open>impl From<Error> for CommitError\<close> and \<open>error_to_claim\<close>.\<close>

fun error_to_commit :: "error \<Rightarrow> commit_error" where
  "error_to_commit (Error_Storage s) = CommitError_Storage s"
| "error_to_commit (Error_Validation v) = CommitError_Validation v"
| "error_to_commit (Error_Conflict c) = CommitError_Conflict c"

fun error_to_claim :: "error \<Rightarrow> claim_error" where
  "error_to_claim (Error_Storage s) = ClaimError_Storage s"
| "error_to_claim (Error_Validation v) = ClaimError_Validation v"
| "error_to_claim (Error_Conflict c) = ClaimError_Conflict c"

text \<open>
  \<open>Id::new\<close>: sixteen bytes of the operating system's random generator, which may fail, with
  the reserved zero value replaced by one. The draw is a parameter.
\<close>

definition id_new :: "string + 128 word \<Rightarrow> error + id" where
  "id_new draw =
     (case draw of
        Inl msg \<Rightarrow> Inl (Error_Storage (StorageError_Io msg))
      | Inr w \<Rightarrow> Inr (if w = 0 then Id 1 else Id w))"

lemma id_new_nonzero: "id_new draw = Inr i \<Longrightarrow> i \<noteq> id_zero"
  by (auto simp: id_new_def id_zero_def split: sum.splits if_splits)

end
