(* ===== verification/Config.thy ===== *)
theory Config
  imports Errors
begin

text \<open>
  \<open>src/config.rs\<close>: the durability level, the effect mode of a job with its encoding in the
  \<open>jobs\<close> table, and the size limits with their checks. A length is a \<open>nat\<close>, a configured limit
  a \<open>usize\<close>.
\<close>

datatype durability = Strict | Relaxed

fun synchronous_pragma :: "durability \<Rightarrow> string" where
  "synchronous_pragma Strict = ''FULL''"
| "synchronous_pragma Relaxed = ''NORMAL''"

datatype effect_mode = RequiresReconciliation | ExplicitlyIdempotent

fun effect_mode_encode :: "effect_mode \<Rightarrow> i64" where
  "effect_mode_encode RequiresReconciliation = I64 0"
| "effect_mode_encode ExplicitlyIdempotent = I64 1"

definition effect_mode_decode :: "i64 \<Rightarrow> effect_mode option" where
  "effect_mode_decode v =
     (if v = I64 0 then Some RequiresReconciliation
      else if v = I64 1 then Some ExplicitlyIdempotent
      else None)"

interpretation mode_code: exact_codec effect_mode_encode effect_mode_decode
proof unfold_locales
  fix m show "effect_mode_decode (effect_mode_encode m) = Some m"
    by (cases m) (simp_all add: effect_mode_decode_def)
next
  fix v m show "effect_mode_decode v = Some m \<Longrightarrow> effect_mode_encode m = v"
    by (auto simp: effect_mode_decode_def split: if_splits)
qed

lemmas mode_code_simps [simp] = mode_code.decode_encode mode_code.encode_inject

record limits =
  max_event_payload :: usize
  max_metadata :: usize
  max_projection_key :: usize
  max_projection_value :: usize
  max_job_payload :: usize
  max_operations_per_commit :: usize
  max_string_len :: usize
  max_summary_len :: usize
  max_replace_entries :: usize

definition limits_new :: limits where
  "limits_new = \<lparr>
     max_event_payload = push_bit 20 1,
     max_metadata = push_bit 10 64,
     max_projection_key = push_bit 20 1,
     max_projection_value = push_bit 20 4,
     max_job_payload = push_bit 20 1,
     max_operations_per_commit = 1024,
     max_string_len = 4096,
     max_summary_len = 4096,
     max_replace_entries = 10000\<rparr>"

definition within_limit :: "string \<Rightarrow> nat \<Rightarrow> usize \<Rightarrow> validation_error + unit" where
  "within_limit kind n limit = ensure (n \<le> unat limit) (TooLarge kind n limit)"

definition validate_metadata :: "limits \<Rightarrow> nat \<Rightarrow> validation_error + unit" where
  "validate_metadata l n = within_limit ''metadata'' n (max_metadata l)"

definition validate_event :: "limits \<Rightarrow> nat \<Rightarrow> nat \<Rightarrow> validation_error + unit" where
  "validate_event l payload_len metadata_len =
     err_bind (within_limit ''event payload'' payload_len (max_event_payload l))
       (\<lambda>_. validate_metadata l metadata_len)"

definition validate_projection_key :: "limits \<Rightarrow> nat \<Rightarrow> validation_error + unit" where
  "validate_projection_key l n = within_limit ''projection key'' n (max_projection_key l)"

definition validate_projection_value :: "limits \<Rightarrow> nat \<Rightarrow> validation_error + unit" where
  "validate_projection_value l n = within_limit ''projection value'' n (max_projection_value l)"

definition validate_job_payload :: "limits \<Rightarrow> nat \<Rightarrow> validation_error + unit" where
  "validate_job_payload l n = within_limit ''job payload'' n (max_job_payload l)"

definition validate_string :: "limits \<Rightarrow> string \<Rightarrow> string \<Rightarrow> validation_error + unit" where
  "validate_string l field s = within_limit field (length s) (max_string_len l)"

definition validate_summary :: "limits \<Rightarrow> string \<Rightarrow> validation_error + unit" where
  "validate_summary l s = within_limit ''error summary'' (length s) (max_summary_len l)"

definition validate_limits :: "limits \<Rightarrow> validation_error + unit" where
  "validate_limits l =
     err_bind (ensure (max_operations_per_commit l \<noteq> 0) MaxOperationsZero)
       (\<lambda>_. ensure (max_replace_entries l \<noteq> 0) MaxReplaceEntriesZero)"

lemma within_limit_Inr [simp]: "within_limit k n l = Inr u \<longleftrightarrow> n \<le> unat l"
  by (simp add: within_limit_def)

lemmas limit_defs = validate_metadata_def validate_event_def validate_projection_key_def
  validate_projection_value_def validate_job_payload_def validate_string_def validate_summary_def

end
