(* ===== verification/Job_Types.thy ===== *)
theory Job_Types
  imports Config
begin

text \<open>
  The request, receipt and snapshot types of \<open>src/jobs.rs\<close>. Record fields carry a prefix
  naming their type, since Isabelle's field names are global.
\<close>

record job_spec =
  spec_job_id :: id
  spec_queue :: string
  spec_partition_key :: string
  spec_payload :: blob
  spec_not_before_ms :: i64
  spec_max_attempts :: u32
  spec_effect_mode :: effect_mode
  spec_idempotency_key :: "string option"

definition job_spec_base ::
  "id \<Rightarrow> string \<Rightarrow> string \<Rightarrow> blob \<Rightarrow> effect_mode \<Rightarrow> string option \<Rightarrow> job_spec" where
  "job_spec_base job_id queue partition_key payload effect_mode idempotency_key = \<lparr>
     spec_job_id = job_id, spec_queue = queue, spec_partition_key = partition_key,
     spec_payload = payload, spec_not_before_ms = I64 0, spec_max_attempts = 3,
     spec_effect_mode = effect_mode, spec_idempotency_key = idempotency_key\<rparr>"

definition job_spec_reconcilable :: "id \<Rightarrow> string \<Rightarrow> string \<Rightarrow> blob \<Rightarrow> job_spec" where
  "job_spec_reconcilable job_id queue partition_key payload =
     job_spec_base job_id queue partition_key payload RequiresReconciliation None"

definition job_spec_idempotent :: "id \<Rightarrow> string \<Rightarrow> string \<Rightarrow> blob \<Rightarrow> string \<Rightarrow> job_spec" where
  "job_spec_idempotent job_id queue partition_key payload key =
     job_spec_base job_id queue partition_key payload ExplicitlyIdempotent (Some key)"

definition job_spec_intrinsically_idempotent ::
  "id \<Rightarrow> string \<Rightarrow> string \<Rightarrow> blob \<Rightarrow> job_spec" where
  "job_spec_intrinsically_idempotent job_id queue partition_key payload =
     job_spec_base job_id queue partition_key payload ExplicitlyIdempotent None"

definition with_not_before_ms :: "i64 \<Rightarrow> job_spec \<Rightarrow> job_spec" where
  "with_not_before_ms t spec = spec\<lparr>spec_not_before_ms := t\<rparr>"

definition with_max_attempts :: "u32 \<Rightarrow> job_spec \<Rightarrow> job_spec" where
  "with_max_attempts n spec = spec\<lparr>spec_max_attempts := n\<rparr>"

record job_info =
  info_job_id :: id
  info_spec :: job_spec
  info_state :: job_state
  info_attempt :: u32
  info_lease_expires_at_ms :: "i64 option"
  info_worker_id :: "string option"
  info_retry_after_ms :: "i64 option"
  info_terminal_at_ms :: "i64 option"
  info_result_digest :: "blob option"
  info_error_summary :: "string option"

record claimed_job =
  claimed_job_id :: id
  claimed_queue :: string
  claimed_partition_key :: string
  claimed_payload :: blob
  claimed_worker_id :: string
  claimed_lease_token :: id
  claimed_attempt :: u32
  claimed_lease_expires_at_ms :: i64
  claimed_idempotency_key :: "string option"

record claim_request =
  req_queue :: string
  req_worker_id :: string
  req_now_ms :: i64
  req_lease_ms :: i64
  req_limit :: usize

record committed_claims =
  claims_transaction_id :: id
  claims_jobs :: "claimed_job list"
  claims_stale_jobs :: "id list"

datatype claim_outcome =
    ClaimOutcome_Noop
  | ClaimOutcome_MaintenanceCommitted id
  | ClaimOutcome_Committed committed_claims

datatype claim_recovery =
    ClaimRecovery_Committed committed_claims
  | ClaimRecovery_MaintenanceCommitted id
  | ClaimRecovery_Absent

datatype resolution = Retry | MarkSucceeded | MarkDead

record job_ack =
  ack_job_id :: id
  ack_lease_token :: id
  ack_result_digest :: "blob option"

record job_failure =
  fail_job_id :: id
  fail_lease_token :: id
  fail_error_summary :: string
  fail_retry_after_ms :: "i64 option"

record job_cancellation =
  cancel_job_id :: id
  cancel_lease_token :: "id option"

record job_resolution =
  resolve_job_id :: id
  resolve_resolution :: resolution

record lease_extension =
  extend_job_id :: id
  extend_lease_token :: id
  extend_new_expiry_ms :: i64

record lease_extension_receipt =
  ext_receipt_job_id :: id
  ext_receipt_attempt :: u32
  ext_receipt_lease_expires_at_ms :: i64

end
