(* ===== verification/Projection_Types.thy ===== *)
theory Projection_Types
  imports Errors
begin

text \<open>
  \<open>src/projection.rs\<close> and \<open>src/event.rs\<close>: projection entries, mutations and patches with the
  static check \<open>ProjectionPatch::validate\<close>, and the event types. A patch means a change of a finite map
  (\<open>mutation_map\<close>); the check is characterised by what may not happen between two
  baselines.
\<close>

section \<open>Projection patches\<close>

record projection_entry =
  entry_key :: blob
  entry_value :: blob

datatype projection_mutation =
    Put blob blob
  | Delete blob
  | Clear
  | Replace "projection_entry list"

record projection_patch =
  patch_projection :: string
  patch_expected_version :: u64
  patch_new_version :: u64
  patch_mutations :: "projection_mutation list"

definition u64_saturating_add :: "u64 \<Rightarrow> u64 \<Rightarrow> u64" where
  "u64_saturating_add a b = (if unat a + unat b < 2 ^ 64 then a + b else - 1)"

definition projection_patch_new :: "string \<Rightarrow> u64 \<Rightarrow> projection_patch" where
  "projection_patch_new projection expected_version = \<lparr>
     patch_projection = projection, patch_expected_version = expected_version,
     patch_new_version = u64_saturating_add expected_version 1, patch_mutations = []\<rparr>"

definition patch_push :: "projection_mutation \<Rightarrow> projection_patch \<Rightarrow> projection_patch" where
  "patch_push m p = p\<lparr>patch_mutations := patch_mutations p @ [m]\<rparr>"

text \<open>The keys of a \<open>Replace\<close>, inserted one by one into the emptied \<open>seen\<close> set.\<close>

fun validate_replace :: "string \<Rightarrow> blob set \<Rightarrow> projection_entry list \<Rightarrow>
    validation_error + blob set" where
  "validate_replace p seen [] = Inr seen"
| "validate_replace p seen (e # es) =
     (if entry_key e \<in> seen then Inl (ReplaceDuplicateKey p)
      else validate_replace p (insert (entry_key e) seen) es)"

fun validate_mutations :: "string \<Rightarrow> blob set \<Rightarrow> projection_mutation list \<Rightarrow>
    validation_error + unit" where
  "validate_mutations p seen [] = Inr ()"
| "validate_mutations p seen (Put key v # ms) =
     (if key \<in> seen then Inl (PatchDuplicateKey p)
      else validate_mutations p (insert key seen) ms)"
| "validate_mutations p seen (Delete key # ms) =
     (if key \<in> seen then Inl (PatchDuplicateKey p)
      else validate_mutations p (insert key seen) ms)"
| "validate_mutations p seen (Clear # ms) = validate_mutations p {} ms"
| "validate_mutations p seen (Replace entries # ms) =
     err_bind (validate_replace p {} entries) (\<lambda>seen'. validate_mutations p seen' ms)"

definition patch_validate :: "projection_patch \<Rightarrow> validation_error + unit" where
  "patch_validate p =
     (if patch_new_version p \<noteq> patch_expected_version p + 1 \<or> patch_new_version p = 0
      then Inl (PatchVersionNotNext (patch_projection p) (patch_new_version p)
                 (patch_expected_version p))
      else validate_mutations (patch_projection p) {} (patch_mutations p))"

lemma validate_replace_Inr:
  "validate_replace p seen es = Inr seen' \<longleftrightarrow>
     distinct (map entry_key es) \<and> seen \<inter> entry_key ` set es = {} \<and>
     seen' = seen \<union> entry_key ` set es"
  by (induction es arbitrary: seen) auto

text \<open>The map a patch describes: the mutations applied in order to the projection's contents.\<close>

fun mutation_map :: "projection_mutation \<Rightarrow> (blob \<rightharpoonup> blob) \<Rightarrow> (blob \<rightharpoonup> blob)" where
  "mutation_map (Put key v) m = m(key \<mapsto> v)"
| "mutation_map (Delete key) m = m(key := None)"
| "mutation_map Clear m = Map.empty"
| "mutation_map (Replace entries) m = map_of (map (\<lambda>e. (entry_key e, entry_value e)) entries)"

definition patch_map :: "projection_mutation list \<Rightarrow> (blob \<rightharpoonup> blob) \<Rightarrow> (blob \<rightharpoonup> blob)" where
  "patch_map ms m = fold mutation_map ms m"

text \<open>The mutations after the last \<open>Clear\<close> or \<open>Replace\<close>, and the keys that one defines.\<close>

fun mutation_keys :: "projection_mutation \<Rightarrow> blob set" where
  "mutation_keys (Put key v) = {key}"
| "mutation_keys (Delete key) = {key}"
| "mutation_keys Clear = {}"
| "mutation_keys (Replace entries) = entry_key ` set entries"

fun mutation_is_baseline :: "projection_mutation \<Rightarrow> bool" where
  "mutation_is_baseline Clear = True"
| "mutation_is_baseline (Replace _) = True"
| "mutation_is_baseline _ = False"

section \<open>Events\<close>

record event =
  event_id :: id
  event_stream_id :: string
  event_type :: string
  event_schema_version :: u32
  event_occurred_at_ms :: i64
  event_causation_id :: "id option"
  event_correlation_id :: "id option"
  event_payload :: blob
  event_metadata :: blob

definition event_with_json_payload :: "id \<Rightarrow> string \<Rightarrow> string \<Rightarrow> i64 \<Rightarrow> blob \<Rightarrow> event" where
  "event_with_json_payload i stream_id type_name occurred_at_ms payload = \<lparr>
     event_id = i, event_stream_id = stream_id, event_type = type_name,
     event_schema_version = 1, event_occurred_at_ms = occurred_at_ms,
     event_causation_id = None, event_correlation_id = None,
     event_payload = payload, event_metadata = []\<rparr>"

record persisted_event =
  persisted_transaction_id :: id
  persisted_global_sequence :: u64
  persisted_stream_version :: u64
  persisted_event :: event

end
