(* ===== verification/Sha256.thy ===== *)
theory Sha256
  imports Prelude "HOL-Library.While_Combinator"
begin

unbundle bit_operations_syntax

text \<open>
  \<open>src/sha256.rs\<close>: the incremental SHA-256 hasher behind the request digest. The hasher is
  modelled with its 64-byte buffer, stale bytes included; \<open>sha_repr h m\<close> says that \<open>h\<close> has
  absorbed the message \<open>m\<close>. Absorbing in any split gives the digest of the whole message,
  \<open>sha256_ref\<close>, which pads and folds the compression function over the blocks. The padding
  loop of \<open>finish\<close> is a \<open>while_option\<close>; it always stops on a state the hasher can be in.
\<close>

section \<open>The hasher\<close>

text \<open>The constants of the standard, one row of the source per list.\<close>

definition sha_K :: "u32 list" where
  "sha_K = concat [
    [0x428a2f98, 0x71374491, 0xb5c0fbcf, 0xe9b5dba5, 0x3956c25b, 0x59f111f1, 0x923f82a4, 0xab1c5ed5],
    [0xd807aa98, 0x12835b01, 0x243185be, 0x550c7dc3, 0x72be5d74, 0x80deb1fe, 0x9bdc06a7, 0xc19bf174],
    [0xe49b69c1, 0xefbe4786, 0x0fc19dc6, 0x240ca1cc, 0x2de92c6f, 0x4a7484aa, 0x5cb0a9dc, 0x76f988da],
    [0x983e5152, 0xa831c66d, 0xb00327c8, 0xbf597fc7, 0xc6e00bf3, 0xd5a79147, 0x06ca6351, 0x14292967],
    [0x27b70a85, 0x2e1b2138, 0x4d2c6dfc, 0x53380d13, 0x650a7354, 0x766a0abb, 0x81c2c92e, 0x92722c85],
    [0xa2bfe8a1, 0xa81a664b, 0xc24b8b70, 0xc76c51a3, 0xd192e819, 0xd6990624, 0xf40e3585, 0x106aa070],
    [0x19a4c116, 0x1e376c08, 0x2748774c, 0x34b0bcb5, 0x391c0cb3, 0x4ed8aa4a, 0x5b9cca4f, 0x682e6ff3],
    [0x748f82ee, 0x78a5636f, 0x84c87814, 0x8cc70208, 0x90befffa, 0xa4506ceb, 0xbef9a3f7, 0xc67178f2]]"

definition sha_H0 :: "u32 list" where
  "sha_H0 = [
    0x6a09e667, 0xbb67ae85, 0x3c6ef372, 0xa54ff53a, 0x510e527f, 0x9b05688c, 0x1f83d9ab, 0x5be0cd19]"

record sha256 =
  sha_state :: "u32 list"
  sha_buffer :: "u8 list"
  sha_buffer_len :: nat
  sha_total_len :: u64

definition sha_new :: sha256 where
  "sha_new = \<lparr>sha_state = sha_H0, sha_buffer = replicate 64 0, sha_buffer_len = 0,
     sha_total_len = 0\<rparr>"

fun chunks4 :: "u8 list \<Rightarrow> u32 list" where
  "chunks4 (a # b # c # d # rest) = be_value [a, b, c, d] # chunks4 rest"
| "chunks4 _ = []"

definition sha_schedule_step :: "u32 list \<Rightarrow> nat \<Rightarrow> u32 list" where
  "sha_schedule_step w i =
     (let w15 = w ! (i - 15); w2 = w ! (i - 2);
          s0 = word_rotr 7 w15 XOR word_rotr 18 w15 XOR drop_bit 3 w15;
          s1 = word_rotr 17 w2 XOR word_rotr 19 w2 XOR drop_bit 10 w2
      in w[i := w ! (i - 16) + s0 + w ! (i - 7) + s1])"

definition sha_schedule :: "u8 list \<Rightarrow> u32 list" where
  "sha_schedule block =
     foldl sha_schedule_step (chunks4 block @ replicate 48 0) [16..<64]"

type_synonym sha_vars = "u32 \<times> u32 \<times> u32 \<times> u32 \<times> u32 \<times> u32 \<times> u32 \<times> u32"

definition sha_round :: "u32 list \<Rightarrow> sha_vars \<Rightarrow> nat \<Rightarrow> sha_vars" where
  "sha_round w v i =
     (let (a, b, c, d, e, f, g, h) = v;
          s1 = word_rotr 6 e XOR word_rotr 11 e XOR word_rotr 25 e;
          ch = (e AND f) XOR (NOT e AND g);
          t1 = h + s1 + ch + sha_K ! i + w ! i;
          s0 = word_rotr 2 a XOR word_rotr 13 a XOR word_rotr 22 a;
          maj = (a AND b) XOR (a AND c) XOR (b AND c);
          t2 = s0 + maj
      in (t1 + t2, a, b, c, d + t1, e, f, g))"

fun sha_vars_of :: "u32 list \<Rightarrow> sha_vars" where
  "sha_vars_of [a, b, c, d, e, f, g, h] = (a, b, c, d, e, f, g, h)"
| "sha_vars_of _ = (0, 0, 0, 0, 0, 0, 0, 0)"

definition compress_state :: "u32 list \<Rightarrow> u8 list \<Rightarrow> u32 list" where
  "compress_state st block =
     (let (a, b, c, d, e, f, g, h) = foldl (sha_round (sha_schedule block)) (sha_vars_of st) [0..<64]
      in map2 (+) st [a, b, c, d, e, f, g, h])"

definition compress :: "sha256 \<Rightarrow> u8 list \<Rightarrow> sha256" where
  "compress s block = s\<lparr>sha_state := compress_state (sha_state s) block\<rparr>"

text \<open>The middle loop of \<open>update\<close> (whole blocks straight from the input) and its tail.\<close>

function update_blocks :: "sha256 \<Rightarrow> u8 list \<Rightarrow> sha256 \<times> u8 list" where
  "update_blocks s data =
     (if 64 \<le> length data then update_blocks (compress s (take 64 data)) (drop 64 data)
      else (s, data))"
  by pat_completeness auto
termination
  by (relation "measure (\<lambda>(s, data). length data)") auto

declare update_blocks.simps [simp del]

definition buffer_fill :: "sha256 \<Rightarrow> u8 list \<Rightarrow> sha256 \<times> u8 list" where
  "buffer_fill s data =
     (let bl = sha_buffer_len s; tk = min (64 - bl) (length data);
          s1 = s\<lparr>sha_buffer := take bl (sha_buffer s) @ take tk data @ drop (bl + tk) (sha_buffer s),
                 sha_buffer_len := bl + tk\<rparr>
      in (if sha_buffer_len s1 = 64
          then (compress s1 (sha_buffer s1))\<lparr>sha_buffer_len := 0\<rparr> else s1,
          drop tk data))"

definition buffer_rest :: "sha256 \<Rightarrow> u8 list \<Rightarrow> sha256" where
  "buffer_rest s data =
     (if data = [] then s
      else s\<lparr>sha_buffer := data @ drop (length data) (sha_buffer s),
             sha_buffer_len := length data\<rparr>)"

definition update :: "sha256 \<Rightarrow> u8 list \<Rightarrow> sha256" where
  "update s data =
     (let s0 = s\<lparr>sha_total_len := sha_total_len s + word_of_nat (length data)\<rparr>;
          (s1, data1) = (if 0 < sha_buffer_len s0 then buffer_fill s0 data else (s0, data));
          (s2, data2) = update_blocks s1 data1
      in buffer_rest s2 data2)"

definition pad_loop :: "sha256 \<Rightarrow> sha256 option" where
  "pad_loop = while_option (\<lambda>s. sha_buffer_len s \<noteq> 56) (\<lambda>s. update s [0])"

definition finish :: "sha256 \<Rightarrow> u8 list option" where
  "finish s =
     (let bit_len = sha_total_len s * 8
      in case pad_loop (update s [0x80]) of
           None \<Rightarrow> None
         | Some s1 \<Rightarrow>
             Some (concat (map (be_bytes 4) (sha_state (update s1 (be_bytes 8 bit_len))))))"

section \<open>The digest of a whole message\<close>

function absorb_blocks :: "u32 list \<Rightarrow> u8 list \<Rightarrow> u32 list" where
  "absorb_blocks st m =
     (if 64 \<le> length m then absorb_blocks (compress_state st (take 64 m)) (drop 64 m) else st)"
  by pat_completeness auto
termination
  by (relation "measure (\<lambda>(st, m). length m)") auto

declare absorb_blocks.simps [simp del]

definition whole_blocks :: "u8 list \<Rightarrow> u8 list" where
  "whole_blocks m = take (64 * (length m div 64)) m"

definition partial_block :: "u8 list \<Rightarrow> u8 list" where
  "partial_block m = drop (64 * (length m div 64)) m"

definition sha_pad :: "u8 list \<Rightarrow> u8 list" where
  "sha_pad m = m @ [0x80] @ replicate ((119 - length m mod 64) mod 64) 0 @
     be_bytes 8 (word_of_nat (length m) * 8 :: u64)"

definition sha256_ref :: "u8 list \<Rightarrow> u8 list" where
  "sha256_ref m = concat (map (be_bytes 4) (absorb_blocks sha_H0 (sha_pad m)))"

definition sha_core :: "sha256 \<Rightarrow> u8 list \<Rightarrow> bool" where
  "sha_core s m \<longleftrightarrow>
     length (sha_buffer s) = 64 \<and>
     sha_state s = absorb_blocks sha_H0 m \<and>
     sha_buffer_len s = length m mod 64 \<and>
     take (length m mod 64) (sha_buffer s) = partial_block m"

definition sha_repr :: "sha256 \<Rightarrow> u8 list \<Rightarrow> bool" where
  "sha_repr s m \<longleftrightarrow> sha_core s m \<and> sha_total_len s = word_of_nat (length m)"

lemma absorb_short: "length m < 64 \<Longrightarrow> absorb_blocks st m = st"
  by (simp add: absorb_blocks.simps)

lemma absorb_step:
  "64 \<le> length m \<Longrightarrow> absorb_blocks st m = absorb_blocks (compress_state st (take 64 m)) (drop 64 m)"
  by (simp add: absorb_blocks.simps)

lemma absorb_append:
  "length m mod 64 = 0 \<Longrightarrow> absorb_blocks st (m @ d) = absorb_blocks (absorb_blocks st m) d"
proof (induction st m rule: absorb_blocks.induct)
  case (1 st m)
  show ?case
  proof (cases "64 \<le> length m")
    case True
    with "1.IH" "1.prems" show ?thesis
      by (simp add: absorb_step [of m] absorb_step [of "m @ d"] le_mod_geq)
  next
    case False
    with "1.prems" have "m = []" by simp
    then show ?thesis by (simp add: absorb_short)
  qed
qed

lemma blocks_split: "whole_blocks m @ partial_block m = m"
  by (simp add: whole_blocks_def partial_block_def)

lemma length_whole_blocks: "length (whole_blocks m) mod 64 = 0"
  and length_partial_block [simp]: "length (partial_block m) = length m mod 64"
proof -
  have "64 * (length m div 64) \<le> length m" by simp
  then show "length (whole_blocks m) mod 64 = 0"
    by (simp add: whole_blocks_def min_absorb2 del: div_times_less_eq_dividend)
  show "length (partial_block m) = length m mod 64"
    by (simp add: partial_block_def minus_mult_div_eq_mod)
qed

lemma absorb_whole: "absorb_blocks st m = absorb_blocks st (whole_blocks m)"
  using absorb_append [OF length_whole_blocks, of st m "partial_block m"]
  by (simp add: blocks_split absorb_short)

lemma absorb_continue:
  "absorb_blocks st (m @ d) = absorb_blocks (absorb_blocks st m) (partial_block m @ d)"
proof -
  have "absorb_blocks st (whole_blocks m @ partial_block m @ d) =
      absorb_blocks (absorb_blocks st (whole_blocks m)) (partial_block m @ d)"
    by (rule absorb_append [OF length_whole_blocks])
  then show ?thesis
    by (simp add: blocks_split absorb_whole [of st m] flip: append_assoc)
qed

lemma partial_block_append: "length m mod 64 = 0 \<Longrightarrow> partial_block (m @ d) = partial_block d"
proof -
  assume "length m mod 64 = 0"
  then obtain k where k: "length m = 64 * k" by (auto elim: dvdE simp: mod_eq_0_iff_dvd)
  then have "64 * ((length m + length d) div 64) = length m + 64 * (length d div 64)" by simp
  then show ?thesis by (simp add: partial_block_def)
qed

lemma partial_block_short: "length m mod 64 + length d < 64 \<Longrightarrow>
    partial_block (m @ d) = partial_block m @ d"
proof -
  assume short: "length m mod 64 + length d < 64"
  have "(length m + length d) div 64 = length m div 64"
  proof -
    have "length m + length d = 64 * (length m div 64) + (length m mod 64 + length d)" by simp
    then show ?thesis using short by (metis div_mult_self4 zero_neq_numeral div_less add_0_right)
  qed
  moreover have "64 * (length m div 64) \<le> length m" by simp
  ultimately show ?thesis by (simp add: partial_block_def)
qed

lemma update_blocks_eq:
  "update_blocks s d = (s\<lparr>sha_state := absorb_blocks (sha_state s) d\<rparr>, partial_block d)"
proof (induction s d rule: update_blocks.induct)
  case (1 s d)
  show ?case
  proof (cases "64 \<le> length d")
    case True
    have "partial_block (take 64 d @ drop 64 d) = partial_block (drop 64 d)"
      by (rule partial_block_append) (use True in simp)
    with "1.IH" [OF True] True show ?thesis
      by (simp add: update_blocks.simps [of s d] absorb_step [of d] compress_def)
  next
    case False
    then show ?thesis
      by (simp add: update_blocks.simps [of s d] absorb_short partial_block_def)
  qed
qed

lemma sha_core_blocks:
  assumes core: "sha_core s m" and full: "length m mod 64 = 0"
  shows "sha_core (case update_blocks s d of (s2, d2) \<Rightarrow> buffer_rest s2 d2) (m @ d)"
proof -
  have "partial_block (m @ d) = partial_block d"
    using full by (rule partial_block_append)
  moreover have "length (m @ d) mod 64 = length d mod 64"
    using full by (metis length_append mod_add_left_eq add_0)
  ultimately show ?thesis
    using core full mod_less_divisor [of 64 "length d"]
    by (auto simp: update_blocks_eq buffer_rest_def sha_core_def absorb_append Let_def
        dest: arg_cong [where f = length])
qed

lemma buffer_fill_core:
  assumes core: "sha_core s m" and fill: "buffer_fill s d = (s1, d1)"
    and tk: "tk = min (64 - length m mod 64) (length d)"
  shows "sha_core s1 (m @ take tk d)" and "d1 = drop tk d"
proof -
  have bl: "sha_buffer_len s = length m mod 64" "length (sha_buffer s) = 64"
    "take (length m mod 64) (sha_buffer s) = partial_block m"
    "sha_state s = absorb_blocks sha_H0 m"
    using core by (simp_all add: sha_core_def)
  have lt: "length m mod 64 < 64" by simp
  show "d1 = drop tk d"
    using fill by (simp add: buffer_fill_def Let_def bl tk split: if_splits)
  have len_tk: "length (take tk d) = tk" by (simp add: tk)
  show "sha_core s1 (m @ take tk d)"
  proof (cases "length m mod 64 + tk = 64")
    case True
    let ?b = "partial_block m @ take tk d"
    have s1: "s1 = (compress (s\<lparr>sha_buffer := ?b, sha_buffer_len := 64\<rparr>) ?b)\<lparr>sha_buffer_len := 0\<rparr>"
      using fill True by (simp add: buffer_fill_def Let_def bl tk [symmetric] compress_def)
    have "length (m @ take tk d) = 64 * (length m div 64) + (length m mod 64 + tk)"
      using len_tk by simp
    then have m0: "length (m @ take tk d) mod 64 = 0" using True by simp
    have lb: "length ?b = 64" using True len_tk by simp
    then have "take 64 ?b = ?b" and "drop 64 ?b = []"
      by (simp_all only: take_all drop_all order_refl)
    then have "absorb_blocks sha_H0 (m @ take tk d) = compress_state (absorb_blocks sha_H0 m) ?b"
      using lb absorb_step [of ?b "absorb_blocks sha_H0 m"]
      by (simp only: absorb_continue [of _ m] absorb_short list.size order_refl zero_less_numeral)
    moreover have "partial_block (m @ take tk d) = []"
      by (simp only: m0 length_partial_block flip: length_0_conv)
    ultimately show ?thesis
      using lb m0 by (simp add: s1 sha_core_def compress_def bl)
  next
    case False
    then have short: "length m mod 64 + length (take tk d) < 64"
      using lt len_tk tk by linarith
    have s1: "s1 = s\<lparr>sha_buffer := partial_block m @ take tk d @ drop (length m mod 64 + tk) (sha_buffer s),
        sha_buffer_len := length m mod 64 + tk\<rparr>"
      using fill False by (simp add: buffer_fill_def Let_def bl tk [symmetric])
    have "length (m @ take tk d) mod 64 = length m mod 64 + tk"
      using short len_tk by (metis length_append mod_add_left_eq mod_less)
    moreover have "absorb_blocks sha_H0 (m @ take tk d) = absorb_blocks sha_H0 m"
      using short by (simp add: absorb_continue [of _ m] absorb_short)
    ultimately show ?thesis
      using short len_tk by (simp add: s1 sha_core_def bl partial_block_short)
  qed
qed

lemma sha_core_total [simp]: "sha_core (s\<lparr>sha_total_len := n\<rparr>) m = sha_core s m"
  by (simp add: sha_core_def)

lemma sha_core_update: "sha_core s m \<Longrightarrow> sha_core (update s d) (m @ d)"
proof -
  assume core: "sha_core s m"
  let ?s0 = "s\<lparr>sha_total_len := sha_total_len s + word_of_nat (length d)\<rparr>"
  have core0: "sha_core ?s0 m" using core by simp
  have bl: "sha_buffer_len s = length m mod 64" using core by (simp add: sha_core_def)
  show ?thesis
  proof (cases "length m mod 64 = 0")
    case True
    then show ?thesis
      using sha_core_blocks [OF core0 True, of d] bl by (simp add: update_def)
  next
    case False
    obtain s1 d1 where fill: "buffer_fill ?s0 d = (s1, d1)" by (cases "buffer_fill ?s0 d")
    define tk where "tk = min (64 - length m mod 64) (length d)"
    have core1: "sha_core s1 (m @ take tk d)" and d1: "d1 = drop tk d"
      using buffer_fill_core [OF core0 fill tk_def] by simp_all
    have upd: "update s d = (case update_blocks s1 d1 of (s2, d2) \<Rightarrow> buffer_rest s2 d2)"
      using False bl fill by (simp add: update_def)
    show ?thesis
    proof (cases "tk = length d")
      case True
      then have "d1 = []" using d1 by simp
      then have "update s d = s1"
        by (simp add: upd update_blocks_eq buffer_rest_def partial_block_def absorb_short)
      then show ?thesis using core1 True by simp
    next
      case short: False
      then have "length m mod 64 + tk = 64" "tk \<le> length d" by (auto simp: tk_def)
      then have "length (m @ take tk d) = 64 * (length m div 64) + 64"
        by (simp add: min_absorb2) (metis add.assoc mult_div_mod_eq)
      then have "length (m @ take tk d) mod 64 = 0" by simp
      from sha_core_blocks [OF core1 this, of d1] show ?thesis
        by (simp add: upd d1)
    qed
  qed
qed

lemma sha_total_update: "sha_total_len (update s d) = sha_total_len s + word_of_nat (length d)"
  by (auto simp: update_def buffer_fill_def buffer_rest_def update_blocks_eq compress_def Let_def)

lemma sha_repr_new: "sha_repr sha_new []"
  by (simp add: sha_repr_def sha_core_def sha_new_def absorb_short partial_block_def)

lemma sha_repr_update: "sha_repr s m \<Longrightarrow> sha_repr (update s d) (m @ d)"
  by (simp add: sha_repr_def sha_core_update sha_total_update)

lemma pad_loop_stop: "sha_buffer_len s = 56 \<Longrightarrow> pad_loop s = Some s"
  by (simp add: pad_loop_def while_option_unfold)

lemma pad_loop_step: "sha_buffer_len s \<noteq> 56 \<Longrightarrow> pad_loop s = pad_loop (update s [0])"
  by (simp add: pad_loop_def while_option_unfold [of _ _ s])

lemma pad_loop_returns:
  assumes "sha_core s m" "(length m + k) mod 64 = 56" "k < 64"
  shows "\<exists>s'. pad_loop s = Some s' \<and> sha_core s' (m @ replicate k 0)"
  using assms
proof (induction k arbitrary: s m)
  case 0
  then show ?case by (simp add: pad_loop_stop sha_core_def)
next
  case (Suc k)
  have "length m mod 64 \<noteq> 56"
  proof
    assume "length m mod 64 = 56"
    then have "(56 + Suc k) mod 64 = 56"
      using Suc.prems(2) by (metis mod_add_left_eq)
    then show False
      using Suc.prems(3) by (simp add: mod_if split: if_splits)
  qed
  then have step: "pad_loop s = pad_loop (update s [0])"
    using Suc.prems(1) by (intro pad_loop_step) (simp add: sha_core_def)
  have "sha_core (update s [0]) (m @ [0])"
    by (rule sha_core_update [OF Suc.prems(1)])
  with Suc.IH [of "update s [0]" "m @ [0]"] Suc.prems(2,3)
  show ?case by (simp add: step)
qed

text \<open>The incremental hasher computes the digest of what it absorbed, whatever the split.\<close>

lemma finish_repr: "sha_repr s m \<Longrightarrow> finish s = Some (sha256_ref m)"
proof -
  assume repr: "sha_repr s m"
  define k where "k = (119 - length m mod 64) mod 64"
  have core: "sha_core (update s [0x80]) (m @ [0x80])"
    using repr by (simp add: sha_repr_def sha_core_update)
  have "length m mod 64 + 1 + (119 - length m mod 64) = (120 :: nat)"
    using mod_less_divisor [of 64 "length m"] by linarith
  then have "(length m mod 64 + 1 + (119 - length m mod 64)) mod 64 = (56 :: nat)"
    by simp
  then have "(length m + 1 + k) mod 64 = 56"
    unfolding k_def by (metis mod_add_left_eq mod_add_right_eq)
  then have "(length (m @ [0x80]) + k) mod 64 = 56" "k < 64"
    by (simp_all add: k_def)
  from pad_loop_returns [OF core this] obtain s1
    where pad: "pad_loop (update s [0x80]) = Some s1"
      and core1: "sha_core s1 ((m @ [0x80]) @ replicate k 0)" by blast
  have "sha_state (update s1 (be_bytes 8 (sha_total_len s * 8))) =
      absorb_blocks sha_H0 (sha_pad m)"
    using sha_core_update [OF core1, of "be_bytes 8 (sha_total_len s * 8)"] repr
    by (simp add: sha_core_def sha_pad_def k_def sha_repr_def)
  then show ?thesis
    by (simp add: finish_def pad sha256_ref_def)
qed

end
