(* ===== verification/Transactions.thy ===== *)
theory Transactions
  imports Job_Types Projection_Types Sha256
begin

text \<open>
  \<open>src/transaction.rs\<close>: operations, the commit batch with its builder, the receipts, and the
  canonical request digest. The digest is written field by field into the SHA-256 hasher as
  the code does; \<open>ser_batch\<close> is the byte string it amounts to. That byte string determines the
  batch (all but its transaction ID): every field's encoding can be cut off the front of the
  stream again, which is the law of the locale \<open>prefix_code\<close>.
\<close>

section \<open>Batches\<close>

datatype operation =
    AppendEvent event
  | ProjectionPatch projection_patch
  | EnqueueJob job_spec
  | AckJob job_ack
  | FailJob job_failure
  | CancelJob job_cancellation
  | ResolveJob job_resolution
  | ExtendLease lease_extension

record expected_stream_version =
  esv_stream_id :: string
  esv_version :: u64

record commit_batch =
  batch_transaction_id :: id
  batch_committed_at_ms :: i64
  batch_correlation_id :: "id option"
  batch_metadata :: blob
  batch_expected_stream_versions :: "expected_stream_version list"
  batch_operations :: "operation list"

definition commit_batch_new :: "id \<Rightarrow> i64 \<Rightarrow> commit_batch" where
  "commit_batch_new transaction_id committed_at_ms = \<lparr>
     batch_transaction_id = transaction_id, batch_committed_at_ms = committed_at_ms,
     batch_correlation_id = None, batch_metadata = [],
     batch_expected_stream_versions = [], batch_operations = []\<rparr>"

definition with_correlation_id :: "id \<Rightarrow> commit_batch \<Rightarrow> commit_batch" where
  "with_correlation_id i b = b\<lparr>batch_correlation_id := Some i\<rparr>"

definition with_metadata :: "blob \<Rightarrow> commit_batch \<Rightarrow> commit_batch" where
  "with_metadata m b = b\<lparr>batch_metadata := m\<rparr>"

definition expect_stream_version :: "string \<Rightarrow> u64 \<Rightarrow> commit_batch \<Rightarrow> commit_batch" where
  "expect_stream_version stream_id version b =
     b\<lparr>batch_expected_stream_versions := batch_expected_stream_versions b @
         [\<lparr>esv_stream_id = stream_id, esv_version = version\<rparr>]\<rparr>"

text \<open>All operation builders push one operation.\<close>

definition push_operation :: "operation \<Rightarrow> commit_batch \<Rightarrow> commit_batch" where
  "push_operation op b = b\<lparr>batch_operations := batch_operations b @ [op]\<rparr>"

definition acknowledge_job :: "id \<Rightarrow> id \<Rightarrow> blob option \<Rightarrow> commit_batch \<Rightarrow> commit_batch" where
  "acknowledge_job job_id lease_token result_digest =
     push_operation (AckJob \<lparr>ack_job_id = job_id, ack_lease_token = lease_token,
       ack_result_digest = result_digest\<rparr>)"

definition fail_job :: "id \<Rightarrow> id \<Rightarrow> string \<Rightarrow> i64 option \<Rightarrow> commit_batch \<Rightarrow> commit_batch" where
  "fail_job job_id lease_token error_summary retry_after_ms =
     push_operation (FailJob \<lparr>fail_job_id = job_id, fail_lease_token = lease_token,
       fail_error_summary = error_summary, fail_retry_after_ms = retry_after_ms\<rparr>)"

definition cancel_job :: "id \<Rightarrow> id option \<Rightarrow> commit_batch \<Rightarrow> commit_batch" where
  "cancel_job job_id lease_token =
     push_operation (CancelJob \<lparr>cancel_job_id = job_id, cancel_lease_token = lease_token\<rparr>)"

definition resolve_uncertain_job :: "id \<Rightarrow> resolution \<Rightarrow> commit_batch \<Rightarrow> commit_batch" where
  "resolve_uncertain_job job_id res =
     push_operation (ResolveJob \<lparr>resolve_job_id = job_id, resolve_resolution = res\<rparr>)"

definition extend_lease_op :: "id \<Rightarrow> id \<Rightarrow> i64 \<Rightarrow> commit_batch \<Rightarrow> commit_batch" where
  "extend_lease_op job_id lease_token new_expiry_ms =
     push_operation (ExtendLease \<lparr>extend_job_id = job_id, extend_lease_token = lease_token,
       extend_new_expiry_ms = new_expiry_ms\<rparr>)"

record commit_receipt =
  receipt_transaction_id :: id
  receipt_transaction_sequence :: u64
  receipt_committed_at_ms :: i64

datatype transaction_recovery =
    TransactionRecovery_Committed commit_receipt
  | TransactionRecovery_Absent

section \<open>The request digest\<close>

definition write_raw :: "sha256 \<Rightarrow> u8 list \<Rightarrow> sha256" where
  "write_raw d bs = Sha256.update d bs"

definition write_u8 :: "sha256 \<Rightarrow> u8 \<Rightarrow> sha256" where
  "write_u8 d v = write_raw d [v]"

definition write_u64 :: "sha256 \<Rightarrow> u64 \<Rightarrow> sha256" where
  "write_u64 d v = write_raw d (be_bytes 8 v)"

definition write_i64 :: "sha256 \<Rightarrow> i64 \<Rightarrow> sha256" where
  "write_i64 d v = write_raw d (be_bytes 8 (i64_bits v))"

definition write_bytes :: "sha256 \<Rightarrow> u8 list \<Rightarrow> sha256" where
  "write_bytes d bs = write_raw (write_u64 d (word_of_nat (length bs))) bs"

definition write_str :: "sha256 \<Rightarrow> string \<Rightarrow> sha256" where
  "write_str d s = write_bytes d (str_bytes s)"

definition write_id :: "sha256 \<Rightarrow> id \<Rightarrow> sha256" where
  "write_id d i = write_raw d (as_bytes i)"

text \<open>
  The optional fields: a presence byte, then the value (\<open>write_opt_id\<close>, and the \<open>match\<close>es of
  \<open>digest_operation\<close> on optional strings, digests and times).
\<close>

fun write_opt :: "(sha256 \<Rightarrow> 'a \<Rightarrow> sha256) \<Rightarrow> sha256 \<Rightarrow> 'a option \<Rightarrow> sha256" where
  "write_opt w d (Some x) = w (write_u8 d 1) x"
| "write_opt w d None = write_u8 d 0"

definition write_opt_id :: "sha256 \<Rightarrow> id option \<Rightarrow> sha256" where
  "write_opt_id = write_opt write_id"

definition digest_entry :: "sha256 \<Rightarrow> projection_entry \<Rightarrow> sha256" where
  "digest_entry d e = write_bytes (write_bytes d (entry_key e)) (entry_value e)"

fun digest_mutation :: "sha256 \<Rightarrow> projection_mutation \<Rightarrow> sha256" where
  "digest_mutation d (Put key v) = write_bytes (write_bytes (write_u8 d 1) key) v"
| "digest_mutation d (Delete key) = write_bytes (write_u8 d 2) key"
| "digest_mutation d Clear = write_u8 d 3"
| "digest_mutation d (Replace entries) =
     foldl digest_entry (write_u64 (write_u8 d 4) (word_of_nat (length entries))) entries"

fun resolution_tag :: "resolution \<Rightarrow> u8" where
  "resolution_tag Retry = 1"
| "resolution_tag MarkSucceeded = 2"
| "resolution_tag MarkDead = 3"

fun digest_operation :: "sha256 \<Rightarrow> operation \<Rightarrow> sha256" where
  "digest_operation d (AppendEvent e) =
     (let d = write_u8 d 1;
          d = write_id d (event_id e);
          d = write_str d (event_stream_id e);
          d = write_str d (event_type e);
          d = write_u64 d (u64_from_u32 (event_schema_version e));
          d = write_i64 d (event_occurred_at_ms e);
          d = write_opt_id d (event_causation_id e);
          d = write_opt_id d (event_correlation_id e);
          d = write_bytes d (event_payload e)
      in write_bytes d (event_metadata e))"
| "digest_operation d (ProjectionPatch p) =
     (let d = write_u8 d 2;
          d = write_str d (patch_projection p);
          d = write_u64 d (patch_expected_version p);
          d = write_u64 d (patch_new_version p);
          d = write_u64 d (word_of_nat (length (patch_mutations p)))
      in foldl digest_mutation d (patch_mutations p))"
| "digest_operation d (EnqueueJob j) =
     (let d = write_u8 d 3;
          d = write_id d (spec_job_id j);
          d = write_str d (spec_queue j);
          d = write_str d (spec_partition_key j);
          d = write_bytes d (spec_payload j);
          d = write_i64 d (spec_not_before_ms j);
          d = write_u64 d (u64_from_u32 (spec_max_attempts j));
          d = write_u8 d (ucast (i64_bits (effect_mode_encode (spec_effect_mode j))))
      in write_opt write_str d (spec_idempotency_key j))"
| "digest_operation d (AckJob a) =
     (let d = write_u8 d 4;
          d = write_id d (ack_job_id a);
          d = write_id d (ack_lease_token a)
      in write_opt write_bytes d (ack_result_digest a))"
| "digest_operation d (FailJob f) =
     (let d = write_u8 d 5;
          d = write_id d (fail_job_id f);
          d = write_id d (fail_lease_token f);
          d = write_str d (fail_error_summary f)
      in write_opt write_i64 d (fail_retry_after_ms f))"
| "digest_operation d (CancelJob c) =
     (let d = write_u8 d 6;
          d = write_id d (cancel_job_id c)
      in write_opt_id d (cancel_lease_token c))"
| "digest_operation d (ResolveJob r) =
     (let d = write_u8 d 7;
          d = write_id d (resolve_job_id r)
      in write_u8 d (resolution_tag (resolve_resolution r)))"
| "digest_operation d (ExtendLease e) =
     (let d = write_u8 d 8;
          d = write_id d (extend_job_id e);
          d = write_id d (extend_lease_token e)
      in write_i64 d (extend_new_expiry_ms e))"

definition digest_expected :: "sha256 \<Rightarrow> expected_stream_version \<Rightarrow> sha256" where
  "digest_expected d e = write_u64 (write_str d (esv_stream_id e)) (esv_version e)"

definition digest_batch :: "commit_batch \<Rightarrow> sha256" where
  "digest_batch b =
     (let d = sha_new;
          d = write_i64 d (batch_committed_at_ms b);
          d = write_opt_id d (batch_correlation_id b);
          d = write_bytes d (batch_metadata b);
          d = write_u64 d (word_of_nat (length (batch_expected_stream_versions b)));
          d = foldl digest_expected d (batch_expected_stream_versions b);
          d = write_u64 d (word_of_nat (length (batch_operations b)))
      in foldl digest_operation d (batch_operations b))"

text \<open>\<open>finish\<close> always returns here (\<open>request_digest_eq\<close>), so the last branch is dead.\<close>

definition request_digest :: "commit_batch \<Rightarrow> blob" where
  "request_digest b = (case finish (digest_batch b) of Some out \<Rightarrow> out | None \<Rightarrow> [])"

end
