(* ===== verification/Sequences.thy ===== *)
theory Sequences
  imports Prelude
begin

text \<open>
  Numbered columns. Transactions, events, jobs and the versions of a stream are all numbered
  1, 2, 3 .. in the order of insertion; \<open>numbered\<close> says so of a list of column values, and the
  lemmas give what the SQL over such a column returns: the next number of \<open>MAX + 1\<close>, the order of
  an \<open>ORDER BY\<close>, and the rows above a cursor.
\<close>

definition numbered :: "i64 list \<Rightarrow> bool" where
  "numbered xs \<longleftrightarrow> map i64_int xs = map int [1..<Suc (length xs)]"

lemma numbered_Nil [simp]: "numbered []"
  by (simp add: numbered_def)

lemma numbered_snoc [simp]:
  "numbered (xs @ [x]) \<longleftrightarrow> numbered xs \<and> i64_int x = int (length xs) + 1"
  by (auto simp: numbered_def)

lemma numbered_nth: "numbered xs \<Longrightarrow> i < length xs \<Longrightarrow> i64_int (xs ! i) = int i + 1"
  by (induction xs rule: rev_induct) (auto simp: nth_append less_Suc_eq)

lemma numbered_set: "numbered xs \<Longrightarrow> x \<in> set xs \<Longrightarrow> 1 \<le> i64_int x \<and> i64_int x \<le> int (length xs)"
  by (induction xs rule: rev_induct) auto

lemma numbered_length: "numbered xs \<Longrightarrow> int (length xs) < 2 ^ 63"
proof (cases xs rule: rev_cases)
  case (snoc ys y)
  then show "numbered xs \<Longrightarrow> ?thesis"
    using i64_int_range [of y] by (simp add: i64_in_range_def)
qed simp

lemma numbered_sorted: "numbered xs \<Longrightarrow> sorted xs"
  by (induction xs rule: rev_induct)
    (auto simp: sorted_append less_eq_i64_def dest: numbered_set)

lemma numbered_distinct: "numbered xs \<Longrightarrow> distinct xs"
  by (induction xs rule: rev_induct) (auto dest: numbered_set)

lemma numbered_coalesce_max: "numbered xs \<Longrightarrow> i64_int (sql_coalesce_max xs) = int (length xs)"
proof (cases xs rule: rev_cases)
  case Nil
  then show ?thesis by (simp add: sql_coalesce_max_def)
next
  case (snoc ys y)
  assume "numbered xs"
  then have "y \<le> sql_coalesce_max xs" "i64_int (sql_coalesce_max xs) \<le> int (length xs)"
    using snoc sql_coalesce_max_ge [of y xs] sql_coalesce_max_in [of xs] numbered_set [of xs]
    by auto
  with snoc \<open>numbered xs\<close> show ?thesis by (simp add: less_eq_i64_def)
qed

lemma numbered_sort_key:
  "numbered (map f rows) \<Longrightarrow> sort_key f (filter p rows) = filter p rows"
  by (intro sort_key_id_if_sorted sorted_filter numbered_sorted)

lemma numbered_filter_greater:
  "numbered (map f rows) \<Longrightarrow> filter (\<lambda>r. a < f r) rows = drop (nat (i64_int a)) rows"
proof (induction rows rule: rev_induct)
  case (snoc r rows)
  then show ?case by (auto simp: less_i64_def nat_le_iff)
qed simp

lemma numbered_filter_at_least:
  assumes "numbered (map f rows)" "1 \<le> i64_int a"
  shows "filter (\<lambda>r. a \<le> f r) rows = drop (nat (i64_int a) - 1) rows"
  using assms
proof (induction rows rule: rev_induct)
  case (snoc r rows)
  then show ?case by (auto simp: less_eq_i64_def)
qed simp

text \<open>\<open>LIMIT\<close> with a bound that \<open>as i64\<close> keeps non-negative.\<close>

lemma u64_as_i64_int: "unat v < 2 ^ 63 \<Longrightarrow> i64_int (u64_as_i64 v) = int (unat v)"
proof -
  assume "unat v < 2 ^ 63"
  then have "int (unat v) < int (2 ^ 63)" by (simp only: of_nat_less_iff)
  then have small: "uint v < 2 ^ 63" by (simp only: uint_nat of_nat_power of_nat_numeral)
  have "- (2 ^ 63) \<le> uint v"
    by (rule order_trans [OF _ uint_nonnegative]) simp
  with small have "signed_take_bit 63 (uint v) = uint v"
    by (simp only: signed_take_bit_int_eq_self)
  then have "i64_int (u64_as_i64 v) = uint v"
    by (simp add: u64_as_i64_def sint_uint)
  then show ?thesis
    by (simp only: uint_nat)
qed

lemma i64_as_u64_unat: "0 \<le> i64_int a \<Longrightarrow> int (unat (i64_as_u64 a)) = i64_int a"
proof (cases a)
  case (I64 w)
  assume "0 \<le> i64_int a"
  moreover have "i64_int a < 2 ^ 63"
    using i64_int_range [of a] by (simp add: i64_in_range_def)
  moreover have "uint w = sint w mod 2 ^ 64"
    using uint_word_of_int [of "sint w", where 'a = 64] by simp
  ultimately have "uint w = sint w"
    using I64 by simp
  then show ?thesis
    by (simp only: I64 i64_as_u64_def i64.sel i64_int_I64 uint_nat)
qed

lemma sql_limit_take:
  "unat limit < 2 ^ 63 \<Longrightarrow> sql_limit (u64_as_i64 limit) rows = take (unat limit) rows"
  by (simp add: sql_limit_def u64_as_i64_int)

text \<open>A page of such a table, by its cursor.\<close>

lemma numbered_select_greater:
  assumes "numbered (map f rows)" "unat a < 2 ^ 63"
  shows "sort_key f (filter (\<lambda>r. u64_as_i64 a < f r) rows) = drop (unat a) rows"
  by (rule trans [OF numbered_sort_key [OF assms(1)]])
    (simp only: numbered_filter_greater [OF assms(1)] u64_as_i64_int [OF assms(2)] nat_int)

lemma numbered_select_at_least:
  assumes "numbered (map f rows)" "1 \<le> unat a" "unat a < 2 ^ 63"
  shows "sort_key f (filter (\<lambda>r. u64_as_i64 a \<le> f r) rows) = drop (unat a - 1) rows"
proof -
  have "1 \<le> i64_int (u64_as_i64 a)"
    unfolding u64_as_i64_int [OF assms(3)] using assms(2) by linarith
  from numbered_filter_at_least [OF assms(1) this] show ?thesis
    by (intro trans [OF numbered_sort_key [OF assms(1)]])
      (simp only: u64_as_i64_int [OF assms(3)] nat_int)
qed

lemma numbered_find:
  assumes "numbered (map f rows)" "r \<in> set rows" "s \<in> set rows" "f r = f s"
  shows "r = s"
  using numbered_distinct [OF assms(1)] assms(2-4) by (auto simp: distinct_map dest: inj_onD)

end
