(* ===== verification/Database.thy ===== *)
theory Database
  imports Transactions Sequences
begin

text \<open>
  The SQLite database under the store: the tables of \<open>src/store/migrations.rs\<close> (schema version
  2) with their constraints, and transactions over them.

  A table is the list of its rows in rowid order, a row the record of its columns as SQLite
  stores them (identifiers are blobs, states and modes integers). An \<open>INSERT\<close> computes the
  constraints the schema declares and fails where one is violated; an \<open>UPDATE\<close> of \<open>jobs\<close>
  computes the CHECK constraints. \<open>('e, 'a) tx\<close> is a computation inside one transaction: it
  reads and changes the transaction's database, may fail, and gets its faults and random draws
  from an environment \<open>env\<close>. Every statement is one driver call (\<open>sql\<close>) and each call may
  fail for a reason of the environment; an error leaves the transaction, which drops it, and
  dropping a transaction rolls it back (\<open>run_tx\<close>). The outcome of COMMIT is the
  environment's too: it can fail with the changes durable or with the changes lost.
\<close>

section \<open>Tables\<close>

record transactions_row =
  tx_transaction_id :: blob
  tx_transaction_sequence :: i64
  tx_committed_at_ms :: i64
  tx_correlation_id :: "blob option"
  tx_metadata :: blob
  tx_request_digest :: blob
  tx_operation_count :: i64

record events_row =
  ev_global_sequence :: i64
  ev_event_id :: blob
  ev_transaction_id :: blob
  ev_stream_id :: string
  ev_stream_version :: i64
  ev_event_type :: string
  ev_schema_version :: i64
  ev_occurred_at_ms :: i64
  ev_causation_id :: "blob option"
  ev_correlation_id :: "blob option"
  ev_payload :: blob
  ev_metadata :: blob

record jobs_row =
  jobs_job_id :: blob
  jobs_enqueue_sequence :: i64
  jobs_enqueue_transaction_id :: blob
  jobs_queue :: string
  jobs_partition_key :: string
  jobs_payload :: blob
  jobs_not_before_ms :: i64
  jobs_max_attempts :: i64
  jobs_effect_mode :: i64
  jobs_idempotency_key :: "string option"
  jobs_state :: i64
  jobs_attempt :: i64
  jobs_lease_token :: "blob option"
  jobs_worker_id :: "string option"
  jobs_lease_expires_at_ms :: "i64 option"
  jobs_retry_after_ms :: "i64 option"
  jobs_terminal_at_ms :: "i64 option"
  jobs_result_digest :: "blob option"
  jobs_error_summary :: "string option"
  jobs_updated_transaction_id :: blob

record claim_receipts_row =
  cr_transaction_id :: blob
  cr_job_id :: blob
  cr_lease_token :: blob
  cr_attempt :: i64
  cr_worker_id :: string
  cr_lease_expires_at_ms :: i64

text \<open>
  \<open>events_seq\<close> is the largest rowid that AUTOINCREMENT has given out (0 at first). The tables
  of two columns, and \<open>active_partitions\<close> and \<open>projection_entries\<close> with their composite keys,
  are association lists.
\<close>

record db =
  transactions :: "transactions_row list"
  events :: "events_row list"
  events_seq :: i64
  streams :: "(string \<times> i64) list"
  projection_meta :: "(string \<times> i64) list"
  projection_entries :: "((string \<times> blob) \<times> blob) list"
  jobs :: "jobs_row list"
  queue_cursors :: "(string \<times> string option) list"
  active_partitions :: "((string \<times> string) \<times> i64) list"
  claim_receipts :: "claim_receipts_row list"

definition empty_db :: db where
  "empty_db = \<lparr>transactions = [], events = [], events_seq = I64 0, streams = [],
     projection_meta = [], projection_entries = [], jobs = [], queue_cursors = [],
     active_partitions = [], claim_receipts = []\<rparr>"

section \<open>Constraints\<close>

text \<open>\<open>MAX + 1\<close>: an integer sum that leaves 64 bits is a REAL, which is no \<open>i64\<close> column value.\<close>

definition sql_max_plus_one :: "i64 list \<Rightarrow> sqlite_error + i64" where
  "sql_max_plus_one xs = ok_or (i64_checked_add (sql_coalesce_max xs) (I64 1)) InvalidColumnType"

lemma sql_max_plus_one_numbered:
  "numbered xs \<Longrightarrow> sql_max_plus_one xs = Inr n \<longleftrightarrow> i64_int n = int (length xs) + 1"
  by (simp add: sql_max_plus_one_def i64_checked_add_Some numbered_coalesce_max)

definition transaction_exists :: "blob \<Rightarrow> db \<Rightarrow> bool" where
  "transaction_exists i d \<longleftrightarrow> i \<in> tx_transaction_id ` set (transactions d)"

lemma transaction_exists_simps [simp]:
  "transaction_exists i (d\<lparr>events := v1\<rparr>) = transaction_exists i d"
  "transaction_exists i (d\<lparr>events_seq := v2\<rparr>) = transaction_exists i d"
  "transaction_exists i (d\<lparr>streams := v3\<rparr>) = transaction_exists i d"
  "transaction_exists i (d\<lparr>projection_meta := v4\<rparr>) = transaction_exists i d"
  "transaction_exists i (d\<lparr>projection_entries := v5\<rparr>) = transaction_exists i d"
  "transaction_exists i (d\<lparr>jobs := v6\<rparr>) = transaction_exists i d"
  "transaction_exists i (d\<lparr>queue_cursors := v7\<rparr>) = transaction_exists i d"
  "transaction_exists i (d\<lparr>active_partitions := v8\<rparr>) = transaction_exists i d"
  "transaction_exists i (d\<lparr>claim_receipts := v9\<rparr>) = transaction_exists i d"
  by (simp_all add: transaction_exists_def)

lemma transaction_exists_append [simp]:
  "transaction_exists i (d\<lparr>transactions := transactions d @ [r]\<rparr>) \<longleftrightarrow>
     transaction_exists i d \<or> i = tx_transaction_id r"
  by (auto simp: transaction_exists_def)

definition insert_transactions :: "transactions_row \<Rightarrow> db \<Rightarrow> sqlite_error + db" where
  "insert_transactions r d =
     err_bind (ensure (\<not> transaction_exists (tx_transaction_id r) d)
       (UniqueViolation ''transactions.transaction_id'')) (\<lambda>_.
     err_bind (ensure (tx_transaction_sequence r \<notin> tx_transaction_sequence ` set (transactions d))
       (UniqueViolation ''transactions.transaction_sequence'')) (\<lambda>_.
     Inr (d\<lparr>transactions := transactions d @ [r]\<rparr>)))"

text \<open>
  The row given to \<open>insert_events\<close> has no global sequence yet: AUTOINCREMENT takes the next one, and reports a full
  database when the largest rowid is used up.
\<close>

definition insert_events :: "events_row \<Rightarrow> db \<Rightarrow> sqlite_error + db" where
  "insert_events r d =
     err_bind (ok_or (i64_checked_add (events_seq d) (I64 1)) DatabaseFull) (\<lambda>seq.
     err_bind (ensure (ev_event_id r \<notin> ev_event_id ` set (events d))
       (UniqueViolation ''events.event_id'')) (\<lambda>_.
     err_bind (ensure (\<not> (\<exists>e \<in> set (events d).
         ev_stream_id e = ev_stream_id r \<and> ev_stream_version e = ev_stream_version r))
       (UniqueViolation ''events.stream_id, events.stream_version'')) (\<lambda>_.
     err_bind (ensure (transaction_exists (ev_transaction_id r) d)
       (ForeignKeyViolation ''events.transaction_id'')) (\<lambda>_.
     Inr (d\<lparr>events := events d @ [r\<lparr>ev_global_sequence := seq\<rparr>], events_seq := seq\<rparr>)))))"

text \<open>The CHECK constraints of \<open>jobs\<close>, as in migration 2.\<close>

definition jobs_check :: "jobs_row \<Rightarrow> bool" where
  "jobs_check r \<longleftrightarrow>
     I64 0 < jobs_max_attempts r \<and>
     I64 0 \<le> jobs_state r \<and> jobs_state r \<le> I64 6 \<and>
     I64 0 \<le> jobs_attempt r \<and>
     (jobs_state r \<noteq> I64 1 \<or>
        jobs_lease_token r \<noteq> None \<and> jobs_worker_id r \<noteq> None \<and> jobs_lease_expires_at_ms r \<noteq> None) \<and>
     (jobs_state r = I64 1 \<or>
        jobs_lease_token r = None \<and> jobs_worker_id r = None \<and> jobs_lease_expires_at_ms r = None) \<and>
     (jobs_state r \<noteq> I64 2 \<or> jobs_retry_after_ms r \<noteq> None) \<and>
     (jobs_state r \<in> {I64 4, I64 5, I64 6} \<longleftrightarrow> jobs_terminal_at_ms r \<noteq> None)"

definition insert_jobs :: "jobs_row \<Rightarrow> db \<Rightarrow> sqlite_error + db" where
  "insert_jobs r d =
     err_bind (ensure (jobs_job_id r \<notin> jobs_job_id ` set (jobs d))
       (UniqueViolation ''jobs.job_id'')) (\<lambda>_.
     err_bind (ensure (jobs_enqueue_sequence r \<notin> jobs_enqueue_sequence ` set (jobs d))
       (UniqueViolation ''jobs.enqueue_sequence'')) (\<lambda>_.
     err_bind (ensure (jobs_check r) (CheckViolation ''jobs'')) (\<lambda>_.
     err_bind (ensure (transaction_exists (jobs_enqueue_transaction_id r) d)
       (ForeignKeyViolation ''jobs.enqueue_transaction_id'')) (\<lambda>_.
     Inr (d\<lparr>jobs := jobs d @ [r]\<rparr>)))))"

text \<open>\<open>UPDATE jobs SET .. WHERE job_id = ?\<close>: no statement of the store updates a key column.\<close>

definition update_job :: "blob \<Rightarrow> (jobs_row \<Rightarrow> jobs_row) \<Rightarrow> db \<Rightarrow> sqlite_error + db" where
  "update_job i u d =
     err_bind (ensure (\<forall>r \<in> set (jobs d). jobs_job_id r = i \<longrightarrow> jobs_check (u r))
       (CheckViolation ''jobs'')) (\<lambda>_.
     Inr (d\<lparr>jobs := sql_update (\<lambda>r. jobs_job_id r = i) u (jobs d)\<rparr>))"

definition insert_claim_receipts :: "claim_receipts_row \<Rightarrow> db \<Rightarrow> sqlite_error + db" where
  "insert_claim_receipts r d =
     err_bind (ensure (\<not> (\<exists>c \<in> set (claim_receipts d).
         cr_transaction_id c = cr_transaction_id r \<and> cr_job_id c = cr_job_id r))
       (UniqueViolation ''claim_receipts.transaction_id, claim_receipts.job_id'')) (\<lambda>_.
     err_bind (ensure (transaction_exists (cr_transaction_id r) d)
       (ForeignKeyViolation ''claim_receipts.transaction_id'')) (\<lambda>_.
     Inr (d\<lparr>claim_receipts := claim_receipts d @ [r]\<rparr>)))"

text \<open>A key of \<open>projection_entries\<close> refers to its row of \<open>projection_meta\<close>.\<close>

definition upsert_projection_entry :: "string \<Rightarrow> blob \<Rightarrow> blob \<Rightarrow> db \<Rightarrow> sqlite_error + db" where
  "upsert_projection_entry p k v d =
     err_bind (ensure (map_of (projection_meta d) p \<noteq> None)
       (ForeignKeyViolation ''projection_entries.projection'')) (\<lambda>_.
     Inr (d\<lparr>projection_entries := AList.update (p, k) v (projection_entries d)\<rparr>))"

definition insert_projection_entry :: "string \<Rightarrow> blob \<Rightarrow> blob \<Rightarrow> db \<Rightarrow> sqlite_error + db" where
  "insert_projection_entry p k v d =
     err_bind (ensure (map_of (projection_entries d) (p, k) = None)
       (UniqueViolation ''projection_entries.projection, projection_entries.key'')) (\<lambda>_.
     upsert_projection_entry p k v d)"

text \<open>The transactions are numbered 1, 2, 3 .. and their IDs have sixteen bytes.\<close>

definition transactions_ok :: "db \<Rightarrow> bool" where
  "transactions_ok d \<longleftrightarrow> numbered (map tx_transaction_sequence (transactions d)) \<and>
     distinct (map tx_transaction_id (transactions d)) \<and>
     (\<forall>r \<in> set (transactions d). length (tx_transaction_id r) = 16)"

lemma insert_transactions_Inr:
  "insert_transactions r d = Inr d' \<longleftrightarrow> \<not> transaction_exists (tx_transaction_id r) d \<and>
     tx_transaction_sequence r \<notin> tx_transaction_sequence ` set (transactions d) \<and>
     d' = d\<lparr>transactions := transactions d @ [r]\<rparr>"
  by (auto simp: insert_transactions_def)

lemma transactions_ok_insert:
  assumes "insert_transactions r d = Inr d'" "transactions_ok d"
    and "sql_max_plus_one (map tx_transaction_sequence (transactions d)) = Inr (tx_transaction_sequence r)"
    and "length (tx_transaction_id r) = 16"
  shows "transactions_ok d'"
  using assms
  by (auto simp: insert_transactions_Inr transactions_ok_def sql_max_plus_one_numbered transaction_exists_def)

section \<open>Transactions\<close>

datatype commit_outcome =
    Commit_Ok
  | Commit_Failed sqlite_error bool

text \<open>
  The environment of one transaction: whether BEGIN IMMEDIATE fails, which driver calls
  fail, the draws of the random generator, the outcome of COMMIT (a failure with the flag
  set left the changes durable), whether the failpoint is armed, and whether the connection
  was opened read-only.
\<close>

record env =
  env_begin :: "sqlite_error option"
  env_fault :: "nat \<Rightarrow> sqlite_error option"
  env_random :: "nat \<Rightarrow> string + 128 word"
  env_commit :: commit_outcome
  env_failpoint :: bool
  env_read_only :: bool

record tx_state =
  tx_db :: db
  tx_env :: env
  tx_calls :: nat
  tx_draws :: nat

type_synonym ('e, 'a) tx = "tx_state \<Rightarrow> 'e + 'a \<times> tx_state"

definition tx_start :: "env \<Rightarrow> db \<Rightarrow> tx_state" where
  "tx_start e d = \<lparr>tx_db = d, tx_env = e, tx_calls = 0, tx_draws = 0\<rparr>"

definition tx_return :: "'a \<Rightarrow> ('e, 'a) tx" where
  "tx_return x = (\<lambda>s. Inr (x, s))"

definition tx_bind :: "('e, 'a) tx \<Rightarrow> ('a \<Rightarrow> ('e, 'b) tx) \<Rightarrow> ('e, 'b) tx" where
  "tx_bind m f = (\<lambda>s. err_bind (m s) (\<lambda>(x, s'). f x s'))"

definition tx_lift :: "'e + 'a \<Rightarrow> ('e, 'a) tx" where
  "tx_lift r = (\<lambda>s. err_bind r (\<lambda>x. Inr (x, s)))"

definition tx_map_err :: "('e \<Rightarrow> 'f) \<Rightarrow> ('e, 'a) tx \<Rightarrow> ('f, 'a) tx" where
  "tx_map_err f m = (\<lambda>s. map_err f (m s))"

fun tx_for_each :: "('a \<Rightarrow> ('e, unit) tx) \<Rightarrow> 'a list \<Rightarrow> ('e, unit) tx" where
  "tx_for_each f [] = tx_return ()"
| "tx_for_each f (x # xs) = tx_bind (f x) (\<lambda>_. tx_for_each f xs)"

fun tx_fold :: "('s \<Rightarrow> 'a \<Rightarrow> ('e, 's) tx) \<Rightarrow> 's \<Rightarrow> 'a list \<Rightarrow> ('e, 's) tx" where
  "tx_fold f v [] = tx_return v"
| "tx_fold f v (x # xs) = tx_bind (f v x) (\<lambda>v'. tx_fold f v' xs)"

text \<open>
  One driver call; \<open>query\<close> reads, \<open>execute\<close> writes. SQLite refuses a write statement on a
  read-only connection before it runs.
\<close>

definition sql :: "(db \<Rightarrow> sqlite_error + 'a \<times> db) \<Rightarrow> (storage_error, 'a) tx" where
  "sql stmt = (\<lambda>s.
     case env_fault (tx_env s) (tx_calls s) of
       Some e \<Rightarrow> Inl (from_sqlite e)
     | None \<Rightarrow> map_err from_sqlite (err_bind (stmt (tx_db s)) (\<lambda>(x, d).
         Inr (x, s\<lparr>tx_db := d, tx_calls := Suc (tx_calls s)\<rparr>))))"

definition query :: "(db \<Rightarrow> sqlite_error + 'a) \<Rightarrow> (storage_error, 'a) tx" where
  "query q = sql (\<lambda>d. err_bind (q d) (\<lambda>x. Inr (x, d)))"

definition execute :: "(db \<Rightarrow> sqlite_error + db) \<Rightarrow> (storage_error, unit) tx" where
  "execute w = (\<lambda>s.
     if env_read_only (tx_env s) then Inl (from_sqlite ReadOnlyDatabase)
     else sql (\<lambda>d. err_bind (w d) (\<lambda>d'. Inr ((), d'))) s)"

definition tx_random_id :: "(error, id) tx" where
  "tx_random_id = (\<lambda>s. err_bind (id_new (env_random (tx_env s) (tx_draws s)))
     (\<lambda>i. Inr (i, s\<lparr>tx_draws := Suc (tx_draws s)\<rparr>)))"

text \<open>
  One transaction: a body that ends in \<open>Roll_Back\<close> returns early and drops the transaction,
  one that ends in \<open>To_Commit\<close> reaches COMMIT. \<open>indet\<close> builds the error for an indeterminate
  outcome from the value that would have been returned.
\<close>

datatype ('a, 'b) tx_end = Roll_Back 'a | To_Commit 'b

definition run_tx :: "env \<Rightarrow> (storage_error \<Rightarrow> 'e) \<Rightarrow> ('b \<Rightarrow> indeterminate_cause \<Rightarrow> 'e) \<Rightarrow>
    ('e, ('a, 'b) tx_end) tx \<Rightarrow> db \<Rightarrow> ('e + ('a, 'b) tx_end) \<times> db" where
  "run_tx e storage indet body d =
     (case env_begin e of
        Some err \<Rightarrow> (Inl (storage (from_sqlite err)), d)
      | None \<Rightarrow>
          (case body (tx_start e d) of
             Inl err \<Rightarrow> (Inl err, d)
           | Inr (Roll_Back x, s) \<Rightarrow> (Inr (Roll_Back x), d)
           | Inr (To_Commit x, s) \<Rightarrow>
               (case env_commit e of
                  Commit_Failed err durable \<Rightarrow>
                    (Inl (indet x (Commit_Step (from_sqlite err))), if durable then tx_db s else d)
                | Commit_Ok \<Rightarrow>
                    (if env_failpoint e then (Inl (indet x Failpoint), tx_db s)
                     else (Inr (To_Commit x), tx_db s)))))"

section \<open>What a successful computation does\<close>

text \<open>
  \<open>tx_yields m d x d'\<close>: from the database \<open>d\<close> and under some faults and draws, \<open>m\<close> returns \<open>x\<close> and
  leaves \<open>d'\<close>. The rules read a returned value backwards through the program.
\<close>

definition tx_yields :: "('e, 'a) tx \<Rightarrow> db \<Rightarrow> 'a \<Rightarrow> db \<Rightarrow> bool" where
  "tx_yields m d x d' \<longleftrightarrow> (\<exists>s s'. tx_db s = d \<and> m s = Inr (x, s') \<and> tx_db s' = d')"

named_theorems yields

lemma yields_return [yields]: "tx_yields (tx_return x) d y d' \<Longrightarrow> y = x \<and> d' = d"
  by (auto simp: tx_yields_def tx_return_def)

lemma yields_bind [yields]:
  "tx_yields (tx_bind m f) d y d' \<Longrightarrow> \<exists>x e. tx_yields m d x e \<and> tx_yields (f x) e y d'"
  unfolding tx_yields_def tx_bind_def by fastforce

lemma yields_lift [yields]: "tx_yields (tx_lift r) d x d' \<Longrightarrow> r = Inr x \<and> d' = d"
  by (auto simp: tx_yields_def tx_lift_def)

lemma yields_map_err [yields]: "tx_yields (tx_map_err f m) d x d' \<Longrightarrow> tx_yields m d x d'"
  by (auto simp: tx_yields_def tx_map_err_def)

lemma yields_sql [yields]: "tx_yields (sql stmt) d x d' \<Longrightarrow> stmt d = Inr (x, d')"
  by (auto simp: tx_yields_def sql_def split: option.splits)

lemma yields_query [yields]: "tx_yields (query q) d x d' \<Longrightarrow> q d = Inr x \<and> d' = d"
  by (auto simp: query_def dest!: yields_sql)

lemma yields_execute [yields]: "tx_yields (execute w) d x d' \<Longrightarrow> w d = Inr d'"
  by (auto simp: tx_yields_def execute_def sql_def split: option.splits if_splits)

lemma yields_random_id [yields]: "tx_yields tx_random_id d i d' \<Longrightarrow> i \<noteq> id_zero \<and> d' = d"
  by (auto simp: tx_yields_def tx_random_id_def dest!: id_new_nonzero)

lemma yields_for_each_Nil [yields]: "tx_yields (tx_for_each f []) d u d' \<Longrightarrow> d' = d"
  by (auto dest!: yields)

lemma yields_for_each_Cons [yields]:
  "tx_yields (tx_for_each f (x # xs)) d u d' \<Longrightarrow>
     \<exists>e. tx_yields (f x) d () e \<and> tx_yields (tx_for_each f xs) e () d'"
  by (auto dest!: yields)

lemma yields_for_each_induct:
  assumes "tx_yields (tx_for_each f xs) d u d'" "P d"
    and "\<And>x d d'. x \<in> set xs \<Longrightarrow> P d \<Longrightarrow> tx_yields (f x) d () d' \<Longrightarrow> P d'"
  shows "P d'"
  using assms
proof (induction xs arbitrary: d)
  case Nil
  then show ?case by (auto dest!: yields_return)
next
  case (Cons x xs)
  from yields_for_each_Cons [OF Cons.prems(1)] obtain e
    where "tx_yields (f x) d () e" "tx_yields (tx_for_each f xs) e () d'" by blast
  with Cons.IH [of e] Cons.prems show ?case by auto
qed

lemma yields_fold_induct:
  assumes "tx_yields (tx_fold f v xs) d v' d'" "P v d"
    and "\<And>v x d v' d'. x \<in> set xs \<Longrightarrow> P v d \<Longrightarrow> tx_yields (f v x) d v' d' \<Longrightarrow> P v' d'"
  shows "P v' d'"
  using assms
proof (induction xs arbitrary: v d)
  case Nil
  then show ?case by (auto dest!: yields_return)
next
  case (Cons x xs)
  then obtain w e where "tx_yields (f v x) d w e" "tx_yields (tx_fold f w xs) e v' d'"
    by (auto dest!: yields_bind)
  with Cons show ?case by (metis list.set_intros)
qed

text \<open>A computation that makes one driver call, changes nothing and returns \<open>x\<close>.\<close>

definition one_read :: "'a \<Rightarrow> (storage_error, 'a) tx" where
  "one_read x = query (\<lambda>_. Inr x)"

lemma query_lift_one_read:
  "g (f (tx_db s)) = Inr x \<Longrightarrow>
     tx_bind (query (\<lambda>d. Inr (f d))) (\<lambda>r. tx_lift (g r)) s = one_read x s"
  by (simp add: tx_bind_def tx_lift_def one_read_def query_def sql_def split: option.split)

lemma query_return_one_read:
  "tx_bind (query (\<lambda>d. Inr (f d))) (\<lambda>r. tx_return (h r)) s = one_read (h (f (tx_db s))) s"
  by (simp add: tx_bind_def tx_return_def one_read_def query_def sql_def split: option.split)

section \<open>Read-only connections\<close>

text \<open>A computation that leaves the database as it is when the connection is read-only.\<close>

definition reads_only :: "('e, 'a) tx \<Rightarrow> bool" where
  "reads_only m \<longleftrightarrow> (\<forall>s x s'. env_read_only (tx_env s) \<longrightarrow> m s = Inr (x, s') \<longrightarrow>
     tx_db s' = tx_db s \<and> tx_env s' = tx_env s)"

named_theorems read_only

lemma reads_only_return [read_only]: "reads_only (tx_return x)"
  by (simp add: reads_only_def tx_return_def)

lemma reads_only_bind [read_only]:
  "reads_only m \<Longrightarrow> (\<And>x. reads_only (f x)) \<Longrightarrow> reads_only (tx_bind m f)"
  unfolding reads_only_def tx_bind_def err_bind_Inr by (metis (no_types, lifting) case_prod_conv surj_pair)

lemma reads_only_lift [read_only]: "reads_only (tx_lift r)"
  by (auto simp: reads_only_def tx_lift_def)

lemma reads_only_map_err [read_only]: "reads_only m \<Longrightarrow> reads_only (tx_map_err f m)"
  unfolding reads_only_def tx_map_err_def map_err_Inr .

lemma reads_only_sql:
  assumes "\<And>d x d'. stmt d = Inr (x, d') \<Longrightarrow> d' = d"
  shows "reads_only (sql stmt)"
  unfolding reads_only_def
proof (intro allI impI)
  fix s x s' assume "sql stmt s = Inr (x, s')"
  then obtain d' where "stmt (tx_db s) = Inr (x, d')" "s' = s\<lparr>tx_db := d', tx_calls := Suc (tx_calls s)\<rparr>"
    by (auto simp: sql_def split: option.splits)
  with assms show "tx_db s' = tx_db s \<and> tx_env s' = tx_env s" by simp
qed

lemma reads_only_query [read_only]: "reads_only (query q)"
  unfolding query_def by (rule reads_only_sql) auto

lemma reads_only_execute [read_only]: "reads_only (execute w)"
  by (simp add: reads_only_def execute_def)

lemma reads_only_random_id [read_only]: "reads_only tx_random_id"
  by (auto simp: reads_only_def tx_random_id_def)

lemma reads_only_for_each [read_only]: "(\<And>x. reads_only (f x)) \<Longrightarrow> reads_only (tx_for_each f xs)"
  by (induction xs) (auto intro: read_only)

lemma reads_only_fold [read_only]: "(\<And>v x. reads_only (f v x)) \<Longrightarrow> reads_only (tx_fold f v xs)"
  by (induction xs arbitrary: v) (auto intro: read_only)

lemma reads_only_run_tx:
  assumes "reads_only body" "env_read_only e"
  shows "snd (run_tx e storage indet body d) = d"
proof -
  have "tx_db (tx_start e d) = d" "env_read_only (tx_env (tx_start e d))"
    using assms(2) by (simp_all add: tx_start_def)
  then have "tx_db s = d" if "body (tx_start e d) = Inr (x, s)" for x s
    using assms(1) that unfolding reads_only_def by metis
  then show ?thesis
    by (auto simp: run_tx_def split: option.split sum.split tx_end.split commit_outcome.split)
qed

section \<open>The outcomes of a transaction\<close>

text \<open>The outcomes of a transaction: nothing changed, or the body's database is durable.\<close>

lemma run_tx_cases:
  assumes "run_tx e storage indet body d = (r, d')"
  obtains (begin_failed) err where "r = Inl (storage err)" "d' = d"
  | (failed) err where "body (tx_start e d) = Inl err" "r = Inl err" "d' = d"
  | (rolled_back) x b where "tx_yields body d (Roll_Back x) b" "r = Inr (Roll_Back x)" "d' = d"
  | (committed) x where "tx_yields body d (To_Commit x) d'" "r = Inr (To_Commit x)"
  | (indeterminate) x c b where "tx_yields body d (To_Commit x) b" "r = Inl (indet x c)"
      "d' = d \<or> d' = b"
proof (cases "env_begin e")
  case (Some err)
  with assms begin_failed show ?thesis by (auto simp: run_tx_def)
next
  case None
  note begun = this
  show ?thesis
  proof (cases "body (tx_start e d)")
    case (Inl err)
    then have "r = Inl err" "d' = d"
      using assms begun by (simp_all add: run_tx_def)
    with Inl show ?thesis by (rule failed)
  next
    case (Inr p)
    obtain x s where p: "p = (x, s)" by (cases p)
    have y: "tx_yields body d x (tx_db s)"
      unfolding tx_yields_def
      by (rule exI [where x = "tx_start e d"], rule exI [where x = s])
        (use Inr p in \<open>simp add: tx_start_def\<close>)
    show ?thesis
    proof (cases x)
      case (Roll_Back v)
      then have "r = Inr (Roll_Back v)" "d' = d"
        using assms begun Inr p by (simp_all add: run_tx_def)
      with y Roll_Back show ?thesis by (intro rolled_back) simp_all
    next
      case (To_Commit v)
      then have "r = Inr (To_Commit v) \<and> d' = tx_db s \<or> (\<exists>c. r = Inl (indet v c)) \<and> (d' = d \<or> d' = tx_db s)"
        using assms begun Inr p by (auto simp: run_tx_def split: commit_outcome.splits if_splits)
      then show ?thesis
      proof (elim disjE conjE exE)
        assume "r = Inr (To_Commit v)" "d' = tx_db s"
        with y To_Commit show ?thesis by (intro committed) simp_all
      next
        fix c assume "r = Inl (indet v c)" "d' = d"
        with y To_Commit show ?thesis by (intro indeterminate) simp_all
      next
        fix c assume r: "r = Inl (indet v c)" and "d' = tx_db s"
        then have "d' = d \<or> d' = tx_db s" by simp
        with y To_Commit r show ?thesis by (intro indeterminate) simp_all
      qed
    qed
  qed
qed

text \<open>
  The contract of an invariant: it holds of the empty database, so it holds of every database
  that transactions with preserving bodies lead to.
\<close>

locale tx_invariant =
  fixes I :: "db \<Rightarrow> bool"
  assumes initially: "I empty_db"
begin

lemma preserved_for_each:
  assumes "tx_yields (tx_for_each f xs) d u d'" "I d"
    and "\<And>x d d'. x \<in> set xs \<Longrightarrow> I d \<Longrightarrow> tx_yields (f x) d () d' \<Longrightarrow> I d'"
  shows "I d'"
  using assms by (rule yields_for_each_induct)

lemma preserved_run_tx:
  assumes "run_tx e storage indet body d = (r, d')" "I d"
    and "\<And>x b. tx_yields body d (To_Commit x) b \<Longrightarrow> I b"
  shows "I d'"
  using assms(1) by (cases rule: run_tx_cases) (use assms(2, 3) in auto)

end

end
