(* ===== verification/Store_Events.thy ===== *)
theory Store_Events
  imports Database
begin

text \<open>
  \<open>src/store/events.rs\<close>: inserting and reading events, and \<open>current_stream_version\<close> of
  \<open>src/store/commit.rs\<close>. The invariant of the two tables: the global sequences are 1, 2, 3 ..,
  every stream's versions are 1, 2, 3 .. in the order of its events, and the version that
  \<open>streams\<close> keeps is their number. A commit inserts events first and writes \<open>streams\<close> at its
  end; in between, the versions are those of its hash map (\<open>streams_ahead\<close>).
\<close>

section \<open>Operations\<close>

definition event_to_row :: "id \<Rightarrow> event \<Rightarrow> u64 \<Rightarrow> events_row" where
  "event_to_row transaction_id e stream_version = \<lparr>
     ev_global_sequence = I64 0,
     ev_event_id = as_bytes (event_id e),
     ev_transaction_id = as_bytes transaction_id,
     ev_stream_id = event_stream_id e,
     ev_stream_version = u64_as_i64 stream_version,
     ev_event_type = event_type e,
     ev_schema_version = i64_from_u32 (event_schema_version e),
     ev_occurred_at_ms = event_occurred_at_ms e,
     ev_causation_id = map_option as_bytes (event_causation_id e),
     ev_correlation_id = map_option as_bytes (event_correlation_id e),
     ev_payload = event_payload e,
     ev_metadata = event_metadata e\<rparr>"

definition insert_event :: "id \<Rightarrow> event \<Rightarrow> u64 \<Rightarrow> (storage_error, unit) tx" where
  "insert_event transaction_id e stream_version =
     execute (insert_events (event_to_row transaction_id e stream_version))"

definition blob_to_id :: "blob \<Rightarrow> storage_error + id" where
  "blob_to_id b = ok_or (id_try_from b) (StorageError_Sqlite (Corrupt ''16-byte id column''))"

text \<open>\<open>Option::map(..).transpose()\<close> of a fallible conversion.\<close>

fun map_transpose :: "('a \<Rightarrow> 'e + 'b) \<Rightarrow> 'a option \<Rightarrow> 'e + 'b option" where
  "map_transpose f None = Inr None"
| "map_transpose f (Some x) = err_bind (f x) (\<lambda>y. Inr (Some y))"

text \<open>
  Of the column reads only \<open>row.get::<u32>\<close> can fail on a row of this table's types; the inner
  result is the closure's.
\<close>

definition row_to_persisted_event ::
  "events_row \<Rightarrow> sqlite_error + (storage_error + persisted_event)" where
  "row_to_persisted_event r =
     err_bind (ok_or (u32_try_from (ev_schema_version r)) InvalidColumnType) (\<lambda>schema_version.
     Inr (err_bind (blob_to_id (ev_transaction_id r)) (\<lambda>transaction_id.
       err_bind (blob_to_id (ev_event_id r)) (\<lambda>eid.
       err_bind (map_transpose blob_to_id (ev_causation_id r)) (\<lambda>causation_id.
       err_bind (map_transpose blob_to_id (ev_correlation_id r)) (\<lambda>correlation_id.
       Inr \<lparr>persisted_transaction_id = transaction_id,
            persisted_global_sequence = i64_as_u64 (ev_global_sequence r),
            persisted_stream_version = i64_as_u64 (ev_stream_version r),
            persisted_event = \<lparr>event_id = eid, event_stream_id = ev_stream_id r,
              event_type = ev_event_type r, event_schema_version = schema_version,
              event_occurred_at_ms = ev_occurred_at_ms r, event_causation_id = causation_id,
              event_correlation_id = correlation_id, event_payload = ev_payload r,
              event_metadata = ev_metadata r\<rparr>\<rparr>))))))"

text \<open>The two question marks of \<open>row.map_err(StorageError::from_sqlite)??\<close>.\<close>

definition flatten_row :: "sqlite_error + (storage_error + 'a) \<Rightarrow> storage_error + 'a" where
  "flatten_row r = err_bind (map_err from_sqlite r) (\<lambda>inner. inner)"

definition collect_events :: "events_row list \<Rightarrow> storage_error + persisted_event list" where
  "collect_events rows = map_result (\<lambda>r. flatten_row (row_to_persisted_event r)) rows"

definition events_after :: "u64 \<Rightarrow> usize \<Rightarrow> (storage_error, persisted_event list) tx" where
  "events_after after limit =
     tx_bind (query (\<lambda>d. Inr (sql_limit (u64_as_i64 limit) (sort_key ev_global_sequence
       (filter (\<lambda>r. u64_as_i64 after < ev_global_sequence r) (events d))))))
     (\<lambda>rows. tx_lift (collect_events rows))"

definition stream_events ::
  "string \<Rightarrow> u64 \<Rightarrow> usize \<Rightarrow> (storage_error, persisted_event list) tx" where
  "stream_events stream_id from_version limit =
     tx_bind (query (\<lambda>d. Inr (sql_limit (u64_as_i64 limit) (sort_key ev_stream_version
       (filter (\<lambda>r. ev_stream_id r = stream_id \<and> u64_as_i64 from_version \<le> ev_stream_version r)
         (events d))))))
     (\<lambda>rows. tx_lift (collect_events rows))"

definition last_events :: "usize \<Rightarrow> (storage_error, persisted_event list) tx" where
  "last_events limit =
     tx_bind (query (\<lambda>d. Inr (sql_limit (u64_as_i64 limit)
       (rev (sort_key ev_global_sequence (events d))))))
     (\<lambda>rows. tx_bind (tx_lift (collect_events rows)) (\<lambda>es. tx_return (rev es)))"

definition get_event :: "id \<Rightarrow> (storage_error, persisted_event option) tx" where
  "get_event eid =
     tx_bind (query (\<lambda>d. Inr (List.find (\<lambda>r. ev_event_id r = as_bytes eid) (events d))))
     (\<lambda>row. tx_lift (map_transpose (\<lambda>r. flatten_row (row_to_persisted_event r)) row))"

definition stream_version :: "string \<Rightarrow> (storage_error, u64) tx" where
  "stream_version stream_id =
     tx_bind (query (\<lambda>d. Inr (map_of (streams d) stream_id)))
     (\<lambda>version. tx_return (i64_as_u64 (case version of Some v \<Rightarrow> v | None \<Rightarrow> I64 0)))"

text \<open>\<open>commit.rs\<close> has the same query inside the transaction.\<close>

definition current_stream_version :: "string \<Rightarrow> (storage_error, u64) tx" where
  "current_stream_version stream_id =
     tx_bind (query (\<lambda>d. Inr (map_of (streams d) stream_id)))
     (\<lambda>version. tx_return (i64_as_u64 (case version of Some v \<Rightarrow> v | None \<Rightarrow> I64 0)))"

section \<open>Rows and events\<close>

lemma blob_to_id_as_bytes [simp]: "blob_to_id (as_bytes i) = Inr i"
  by (simp add: blob_to_id_def)

lemma blob_to_id_Inr: "blob_to_id b = Inr i \<longleftrightarrow> b = as_bytes i"
  by (simp add: blob_to_id_def id_blob.decode_Some_iff)

lemma map_transpose_as_bytes [simp]:
  "map_transpose blob_to_id (map_option as_bytes v) = Inr v"
  by (cases v) simp_all

lemma flatten_row_Inr [simp]: "flatten_row r = Inr x \<longleftrightarrow> r = Inr (Inr x)"
  by (cases r) (auto simp: flatten_row_def)

text \<open>The event that a row was inserted for, under the sequence it got.\<close>

definition persisted :: "id \<Rightarrow> event \<Rightarrow> u64 \<Rightarrow> u64 \<Rightarrow> persisted_event" where
  "persisted transaction_id e version sequence = \<lparr>
     persisted_transaction_id = transaction_id, persisted_global_sequence = sequence,
     persisted_stream_version = version, persisted_event = e\<rparr>"

lemma row_to_persisted_event_row:
  "row_to_persisted_event ((event_to_row t e v)\<lparr>ev_global_sequence := u64_as_i64 n\<rparr>) =
     Inr (Inr (persisted t e v n))"
  by (simp add: row_to_persisted_event_def event_to_row_def persisted_def)

text \<open>A row that decodes, and what it decodes to.\<close>

definition event_row_ok :: "events_row \<Rightarrow> bool" where
  "event_row_ok r \<longleftrightarrow>
     length (ev_transaction_id r) = 16 \<and> length (ev_event_id r) = 16 \<and>
     pred_option (\<lambda>b. length b = 16) (ev_causation_id r) \<and>
     pred_option (\<lambda>b. length b = 16) (ev_correlation_id r) \<and>
     u32_try_from (ev_schema_version r) \<noteq> None"

definition decoded_event :: "events_row \<Rightarrow> persisted_event" where
  "decoded_event r = \<lparr>persisted_transaction_id = from_bytes (ev_transaction_id r),
     persisted_global_sequence = i64_as_u64 (ev_global_sequence r),
     persisted_stream_version = i64_as_u64 (ev_stream_version r),
     persisted_event = \<lparr>event_id = from_bytes (ev_event_id r), event_stream_id = ev_stream_id r,
       event_type = ev_event_type r, event_schema_version = i64_as_u32 (ev_schema_version r),
       event_occurred_at_ms = ev_occurred_at_ms r,
       event_causation_id = map_option from_bytes (ev_causation_id r),
       event_correlation_id = map_option from_bytes (ev_correlation_id r),
       event_payload = ev_payload r, event_metadata = ev_metadata r\<rparr>\<rparr>"

lemma map_transpose_ok:
  "pred_option (\<lambda>b. length b = 16) v \<Longrightarrow> map_transpose blob_to_id v = Inr (map_option from_bytes v)"
  by (cases v) (simp_all add: blob_to_id_def id_try_from_def)

lemma row_to_persisted_event_ok:
  "event_row_ok r \<Longrightarrow> row_to_persisted_event r = Inr (Inr (decoded_event r))"
  by (auto simp: event_row_ok_def row_to_persisted_event_def decoded_event_def map_transpose_ok
      blob_to_id_def id_try_from_def u32_try_from_def split: if_splits)

lemma event_to_row_ok [simp]: "event_row_ok ((event_to_row t e v)\<lparr>ev_global_sequence := n\<rparr>)"
  by (cases "event_causation_id e"; cases "event_correlation_id e")
    (simp_all add: event_row_ok_def event_to_row_def)

lemma decoded_event_row [simp]:
  "decoded_event ((event_to_row t e v)\<lparr>ev_global_sequence := n\<rparr>) = persisted t e v (i64_as_u64 n)"
  by (cases "event_causation_id e"; cases "event_correlation_id e")
    (simp_all add: decoded_event_def event_to_row_def persisted_def)

lemma collect_events_ok:
  "\<forall>r \<in> set rows. event_row_ok r \<Longrightarrow> collect_events rows = Inr (map decoded_event rows)"
  unfolding collect_events_def by (rule map_result_all_Inr) (simp add: row_to_persisted_event_ok)

section \<open>The invariant\<close>

definition events_ok :: "db \<Rightarrow> bool" where
  "events_ok d \<longleftrightarrow>
     numbered (map ev_global_sequence (events d)) \<and>
     i64_int (events_seq d) = int (length (events d)) \<and>
     distinct (map ev_event_id (events d)) \<and>
     (\<forall>r \<in> set (events d). event_row_ok r \<and> transaction_exists (ev_transaction_id r) d)"

definition history :: "db \<Rightarrow> string \<Rightarrow> events_row list" where
  "history d s = filter (\<lambda>r. ev_stream_id r = s) (events d)"

definition versions_ok :: "db \<Rightarrow> bool" where
  "versions_ok d \<longleftrightarrow> (\<forall>s. numbered (map ev_stream_version (history d s)))"

definition stored_version :: "db \<Rightarrow> string \<Rightarrow> i64" where
  "stored_version d s = (case map_of (streams d) s of Some v \<Rightarrow> v | None \<Rightarrow> I64 0)"

definition streams_ok :: "db \<Rightarrow> bool" where
  "streams_ok d \<longleftrightarrow> versions_ok d \<and> distinct (map fst (streams d)) \<and>
     (\<forall>s. i64_int (stored_version d s) = int (length (history d s)))"

definition version_at :: "(string \<times> u64) list \<Rightarrow> db \<Rightarrow> string \<Rightarrow> int" where
  "version_at sv d s =
     (case map_of sv s of Some v \<Rightarrow> int (unat v) | None \<Rightarrow> i64_int (stored_version d s))"

lemma version_at_None: "map_of sv s = None \<Longrightarrow> version_at sv d s = i64_int (stored_version d s)"
  by (simp add: version_at_def)

definition streams_ahead :: "(string \<times> u64) list \<Rightarrow> db \<Rightarrow> bool" where
  "streams_ahead sv d \<longleftrightarrow> versions_ok d \<and> distinct (map fst (streams d)) \<and> distinct (map fst sv) \<and>
     (\<forall>s. version_at sv d s = int (length (history d s)))"

lemma version_at_Nil [simp]: "version_at [] d s = i64_int (stored_version d s)"
  by (simp add: version_at_def)

lemma version_at_update [simp]:
  "version_at (AList.update k v sv) d s = (if s = k then int (unat v) else version_at sv d s)"
  by (simp add: version_at_def update_conv')

lemma streams_ahead_Nil [simp]: "streams_ahead [] d \<longleftrightarrow> streams_ok d"
  by (simp add: streams_ahead_def streams_ok_def)

lemma history_le: "length (history d s) \<le> length (events d)"
  by (simp add: history_def)

lemma event_to_row_sel [simp]:
  "ev_event_id (event_to_row t e v) = as_bytes (event_id e)"
  "ev_transaction_id (event_to_row t e v) = as_bytes t"
  "ev_stream_id (event_to_row t e v) = event_stream_id e"
  "ev_stream_version (event_to_row t e v) = u64_as_i64 v"
  by (simp_all add: event_to_row_def)

lemma version_at_events [simp]:
  "version_at sv (d\<lparr>events := es, events_seq := n\<rparr>) s = version_at sv d s"
  by (simp add: version_at_def stored_version_def split: option.split)

lemma insert_event_yields:
  assumes "tx_yields (insert_event t e v) d u d'"
  obtains n where "i64_int n = i64_int (events_seq d) + 1"
    "d' = d\<lparr>events := events d @ [(event_to_row t e v)\<lparr>ev_global_sequence := n\<rparr>], events_seq := n\<rparr>"
    "as_bytes (event_id e) \<notin> ev_event_id ` set (events d)" "transaction_exists (as_bytes t) d"
  using yields_execute [OF assms [unfolded insert_event_def]]
  by (auto simp: insert_events_def i64_checked_add_Some)

lemma events_ok_insert_event:
  assumes "tx_yields (insert_event t e v) d u d'" "events_ok d"
  shows "events_ok d'"
  using assms(1)
proof (cases rule: insert_event_yields)
  case (1 n)
  then show ?thesis
    using assms(2) by (auto simp: events_ok_def)
qed

lemma history_insert:
  "history (d\<lparr>events := events d @ [r], events_seq := n\<rparr>) s =
     history d s @ (if ev_stream_id r = s then [r] else [])"
  by (simp add: history_def)

text \<open>An event that gets the next version of its stream keeps the versions contiguous.\<close>

lemma streams_ahead_insert_event:
  assumes "tx_yields (insert_event t e v) d u d'" "events_ok d" "streams_ahead sv d"
    and "unat v = length (history d (event_stream_id e)) + 1"
  shows "streams_ahead (AList.update (event_stream_id e) v sv) d'"
  using assms(1)
proof (cases rule: insert_event_yields)
  case (1 n)
  let ?r = "(event_to_row t e v)\<lparr>ev_global_sequence := n\<rparr>"
  have "events_ok d'"
    using assms(1, 2) by (rule events_ok_insert_event)
  then have "numbered (map ev_global_sequence (events d'))"
    by (simp add: events_ok_def)
  then have "int (length (events d')) < 2 ^ 63"
    using numbered_length by fastforce
  then have "unat v < 2 ^ 63"
    using assms(4) history_le [of d "event_stream_id e"] 1(2) by simp
  then have "i64_int (ev_stream_version ?r) = int (length (history d (event_stream_id e))) + 1"
    using assms(4) by (simp add: u64_as_i64_int)
  then show ?thesis
    using assms(3, 4) unfolding 1(2)
    by (auto simp: streams_ahead_def versions_ok_def history_insert distinct_update)
qed

lemma current_stream_version_yields:
  "tx_yields (current_stream_version s) d v d' \<Longrightarrow> v = i64_as_u64 (stored_version d s) \<and> d' = d"
  unfolding current_stream_version_def stored_version_def by (auto dest!: yields)

lemma current_stream_version_length:
  assumes "tx_yields (current_stream_version s) d v d'" "streams_ahead sv d" "map_of sv s = None"
  shows "unat v = length (history d s)"
proof -
  have "i64_int (stored_version d s) = int (length (history d s))"
    using assms(2) assms(3) [THEN version_at_None, of d] by (simp add: streams_ahead_def)
  moreover from this have "int (unat (i64_as_u64 (stored_version d s))) = i64_int (stored_version d s)"
    by (intro i64_as_u64_unat) simp
  ultimately show ?thesis
    using current_stream_version_yields [OF assms(1)] by (metis of_nat_eq_iff)
qed

text \<open>The hash map of a commit is written back to \<open>streams\<close> in the end.\<close>

definition flush_stream_versions :: "(string \<times> u64) list \<Rightarrow> (storage_error, unit) tx" where
  "flush_stream_versions sv =
     tx_for_each (\<lambda>(stream_id, version). execute (\<lambda>d. Inr
       (d\<lparr>streams := AList.update stream_id (u64_as_i64 version) (streams d)\<rparr>))) sv"

lemma versions_ok_streams [simp]: "versions_ok (d\<lparr>streams := x\<rparr>) = versions_ok d"
  and history_streams [simp]: "history (d\<lparr>streams := x\<rparr>) s = history d s"
  by (simp_all add: versions_ok_def history_def)

lemma flush_stream_versions_yields:
  assumes "tx_yields (flush_stream_versions sv) d u d'" "events_ok d" "streams_ahead sv d"
  obtains st where "d' = d\<lparr>streams := st\<rparr>" "streams_ok d'"
  using assms
proof (induction sv arbitrary: d thesis)
  case Nil
  then show ?case
    by (auto simp: flush_stream_versions_def dest!: yields_return intro: Nil(1) [of "streams d"])
next
  case (Cons p sv)
  obtain k v where p: "p = (k, v)" by (cases p)
  let ?e = "d\<lparr>streams := AList.update k (u64_as_i64 v) (streams d)\<rparr>"
  have rest: "tx_yields (flush_stream_versions sv) ?e u d'"
    using Cons.prems(2) p by (cases u) (auto simp: flush_stream_versions_def dest!: yields)
  have len: "int (unat v) = int (length (history d k))"
    using Cons.prems(4) by (auto simp: streams_ahead_def version_at_def p split: option.splits)
  have "int (length (events d)) < 2 ^ 63"
    using Cons.prems(3) numbered_length by (fastforce simp: events_ok_def)
  then have v: "i64_int (u64_as_i64 v) = int (length (history d k))"
    using len [unfolded of_nat_eq_iff] history_le [of d k] by (subst u64_as_i64_int) simp_all
  have "version_at sv ?e s = int (length (history ?e s))" for s
  proof (cases "s = k")
    case True
    with Cons.prems(4) v show ?thesis
      by (auto simp: streams_ahead_def version_at_def stored_version_def p update_conv'
          map_of_eq_None_iff [THEN iffD2])
  next
    case False
    have "version_at (p # sv) d s = int (length (history d s))"
      using Cons.prems(4) by (simp add: streams_ahead_def)
    with False show ?thesis
      by (auto simp: version_at_def stored_version_def p update_conv' split: option.splits)
  qed
  then have "streams_ahead sv ?e"
    using Cons.prems(4) by (simp add: streams_ahead_def distinct_update)
  moreover have "events_ok ?e"
    using Cons.prems(3) by (simp add: events_ok_def)
  ultimately obtain st where "d' = ?e\<lparr>streams := st\<rparr>" "streams_ok d'"
    using Cons.IH [OF _ rest] by blast
  then show ?case
    by (intro Cons.prems(1) [of st]) simp_all
qed

section \<open>What the reads return\<close>

lemma events_after_one_read:
  assumes "events_ok (tx_db s)" "unat after < 2 ^ 63" "unat limit < 2 ^ 63"
  shows "events_after after limit s =
    one_read (map decoded_event (take (unat limit) (drop (unat after) (events (tx_db s))))) s"
proof -
  let ?rows = "events (tx_db s)"
  have numbered: "numbered (map ev_global_sequence ?rows)"
    using assms(1) by (simp add: events_ok_def)
  have "collect_events (take (unat limit) (drop (unat after) ?rows)) =
      Inr (map decoded_event (take (unat limit) (drop (unat after) ?rows)))"
    using assms(1)
    by (intro collect_events_ok) (auto simp: events_ok_def dest: in_set_takeD in_set_dropD)
  then show ?thesis
    unfolding events_after_def
    by (intro query_lift_one_read)
      (simp only: sql_limit_take [OF assms(3)] numbered_select_greater [OF numbered assms(2)])
qed

lemma stream_events_one_read:
  assumes "events_ok (tx_db s)" "versions_ok (tx_db s)"
    and "1 \<le> unat from_version" "unat from_version < 2 ^ 63" "unat limit < 2 ^ 63"
  shows "stream_events stream_id from_version limit s =
    one_read (map decoded_event (take (unat limit)
      (drop (unat from_version - 1) (history (tx_db s) stream_id)))) s"
proof -
  let ?rows = "history (tx_db s) stream_id"
  have numbered: "numbered (map ev_stream_version ?rows)"
    using assms(2) by (simp add: versions_ok_def)
  have "filter (\<lambda>r. ev_stream_id r = stream_id \<and> u64_as_i64 from_version \<le> ev_stream_version r)
      (events (tx_db s)) = filter (\<lambda>r. u64_as_i64 from_version \<le> ev_stream_version r) ?rows"
    by (simp add: history_def conj_commute)
  also have "sort_key ev_stream_version \<dots> = drop (unat from_version - 1) ?rows"
    by (rule numbered_select_at_least [OF numbered assms(3, 4)])
  moreover have "collect_events (take (unat limit) (drop (unat from_version - 1) ?rows)) =
      Inr (map decoded_event (take (unat limit) (drop (unat from_version - 1) ?rows)))"
    using assms(1)
    by (intro collect_events_ok)
      (auto simp: events_ok_def history_def dest!: in_set_takeD in_set_dropD)
  ultimately show ?thesis
    unfolding stream_events_def
    by (intro query_lift_one_read) (simp add: sql_limit_take [OF assms(5)])
qed

end
