(* ===== verification/Store_Jobs.thy ===== *)
theory Store_Jobs
  imports Store_Events
begin

text \<open>
  The job operations of \<open>src/store/jobs.rs\<close> that run inside a commit: enqueue, acknowledge,
  fail, cancel, resolve and extend a lease, and the single-job and listing reads. The claim algorithm is in
  \<open>Store_Claims\<close>.
\<close>

section \<open>Decoding\<close>

record job_row =
  row_job_id :: id
  row_queue :: string
  row_partition_key :: string
  row_payload :: blob
  row_not_before_ms :: i64
  row_max_attempts :: u32
  row_effect_mode :: effect_mode
  row_idempotency_key :: "string option"
  row_state :: job_state
  row_attempt :: u32
  row_lease_token :: "id option"
  row_worker_id :: "string option"
  row_lease_expires_at_ms :: "i64 option"
  row_retry_after_ms :: "i64 option"
  row_terminal_at_ms :: "i64 option"
  row_result_digest :: "blob option"
  row_error_summary :: "string option"

definition into_info :: "job_row \<Rightarrow> job_info" where
  "into_info j = \<lparr>
     info_job_id = row_job_id j,
     info_spec = \<lparr>spec_job_id = row_job_id j, spec_queue = row_queue j,
       spec_partition_key = row_partition_key j, spec_payload = row_payload j,
       spec_not_before_ms = row_not_before_ms j, spec_max_attempts = row_max_attempts j,
       spec_effect_mode = row_effect_mode j, spec_idempotency_key = row_idempotency_key j\<rparr>,
     info_state = row_state j, info_attempt = row_attempt j,
     info_lease_expires_at_ms = row_lease_expires_at_ms j, info_worker_id = row_worker_id j,
     info_retry_after_ms = row_retry_after_ms j, info_terminal_at_ms = row_terminal_at_ms j,
     info_result_digest = row_result_digest j, info_error_summary = row_error_summary j\<rparr>"

definition id_from_blob :: "blob \<Rightarrow> storage_error + id" where
  "id_from_blob b = ok_or (id_try_from b) (StorageError_Sqlite (Corrupt ''16-byte id column''))"

definition opt_id_from_blob :: "blob option \<Rightarrow> storage_error + id option" where
  "opt_id_from_blob b = map_transpose id_from_blob b"

definition row_to_job :: "jobs_row \<Rightarrow> storage_error + job_row" where
  "row_to_job r =
     err_bind (id_from_blob (jobs_job_id r)) (\<lambda>job_id.
     err_bind (ok_or (effect_mode_decode (jobs_effect_mode r))
       (StorageError_Sqlite (Corrupt (''effect mode '' @ show_i64 (jobs_effect_mode r))))) (\<lambda>effect_mode.
     err_bind (ok_or (job_state_decode (jobs_state r))
       (StorageError_Sqlite (Corrupt (''job state '' @ show_i64 (jobs_state r))))) (\<lambda>state.
     err_bind (opt_id_from_blob (jobs_lease_token r)) (\<lambda>lease_token.
     Inr \<lparr>row_job_id = job_id, row_queue = jobs_queue r, row_partition_key = jobs_partition_key r,
          row_payload = jobs_payload r, row_not_before_ms = jobs_not_before_ms r,
          row_max_attempts = i64_as_u32 (jobs_max_attempts r), row_effect_mode = effect_mode,
          row_idempotency_key = jobs_idempotency_key r, row_state = state,
          row_attempt = i64_as_u32 (jobs_attempt r), row_lease_token = lease_token,
          row_worker_id = jobs_worker_id r,
          row_lease_expires_at_ms = jobs_lease_expires_at_ms r,
          row_retry_after_ms = jobs_retry_after_ms r, row_terminal_at_ms = jobs_terminal_at_ms r,
          row_result_digest = jobs_result_digest r, row_error_summary = jobs_error_summary r\<rparr>))))"

definition load_job :: "id \<Rightarrow> (storage_error, job_row option) tx" where
  "load_job job_id =
     tx_bind (query (\<lambda>d. Inr (List.find (\<lambda>r. jobs_job_id r = as_bytes job_id) (jobs d))))
     (\<lambda>row. tx_lift (map_transpose row_to_job row))"

definition require_job :: "id \<Rightarrow> (error, job_row) tx" where
  "require_job job_id =
     tx_bind (tx_map_err Error_Storage (load_job job_id))
     (\<lambda>job. tx_lift (ok_or job (Error_Validation (JobDoesNotExist job_id))))"

definition ensure_transition :: "job_row \<Rightarrow> job_state \<Rightarrow> error + unit" where
  "ensure_transition job to =
     ensure (can_transition_to (row_state job) to)
       (Error_Conflict (Conflict_JobTransition (row_job_id job) (row_state job) to))"

definition ensure_lease_token :: "job_row \<Rightarrow> id \<Rightarrow> error + unit" where
  "ensure_lease_token job token =
     ensure (row_lease_token job = Some token)
       (Error_Validation (StaleLeaseToken (row_job_id job)))"

section \<open>Statements\<close>

definition is_active_in :: "string \<Rightarrow> string \<Rightarrow> jobs_row \<Rightarrow> bool" where
  "is_active_in q p r \<longleftrightarrow> jobs_queue r = q \<and> jobs_partition_key r = p \<and>
     jobs_state r \<in> set active_states_sql"

definition drain_partition :: "string \<Rightarrow> string \<Rightarrow> db \<Rightarrow> db" where
  "drain_partition q p d = d\<lparr>active_partitions :=
     filter (\<lambda>a. \<not> (fst a = (q, p) \<and> \<not> list_ex (is_active_in q p) (jobs d)))
       (active_partitions d)\<rparr>"

definition drain_partition_if_empty :: "string \<Rightarrow> string \<Rightarrow> (storage_error, unit) tx" where
  "drain_partition_if_empty q p = execute (\<lambda>d. Inr (drain_partition q p d))"

text \<open>\<open>COALESCE(?, column)\<close>\<close>

fun coalesce :: "'a option \<Rightarrow> 'a option \<Rightarrow> 'a option" where
  "coalesce (Some x) y = Some x"
| "coalesce None y = y"

definition terminal_row :: "job_state \<Rightarrow> i64 \<Rightarrow> id \<Rightarrow> blob option \<Rightarrow> string option \<Rightarrow>
    jobs_row \<Rightarrow> jobs_row" where
  "terminal_row state now_ms transaction_id result_digest error_summary r =
     r\<lparr>jobs_state := job_state_encode state, jobs_lease_token := None, jobs_worker_id := None,
       jobs_lease_expires_at_ms := None, jobs_retry_after_ms := None,
       jobs_terminal_at_ms := Some now_ms,
       jobs_result_digest := coalesce result_digest (jobs_result_digest r),
       jobs_error_summary := coalesce error_summary (jobs_error_summary r),
       jobs_updated_transaction_id := as_bytes transaction_id\<rparr>"

definition set_terminal :: "job_row \<Rightarrow> job_state \<Rightarrow> i64 \<Rightarrow> id \<Rightarrow> blob option \<Rightarrow> string option \<Rightarrow>
    (storage_error, unit) tx" where
  "set_terminal job state now_ms transaction_id result_digest error_summary =
     tx_bind (execute (update_job (as_bytes (row_job_id job))
       (terminal_row state now_ms transaction_id result_digest error_summary)))
     (\<lambda>_. drain_partition_if_empty (row_queue job) (row_partition_key job))"

definition nonterminal_row :: "job_state \<Rightarrow> i64 option \<Rightarrow> id \<Rightarrow> jobs_row \<Rightarrow> jobs_row" where
  "nonterminal_row state retry_after_ms transaction_id r =
     r\<lparr>jobs_state := job_state_encode state, jobs_lease_token := None, jobs_worker_id := None,
       jobs_lease_expires_at_ms := None, jobs_retry_after_ms := retry_after_ms,
       jobs_updated_transaction_id := as_bytes transaction_id\<rparr>"

definition set_nonterminal :: "id \<Rightarrow> job_state \<Rightarrow> i64 option \<Rightarrow> id \<Rightarrow> (storage_error, unit) tx" where
  "set_nonterminal job_id state retry_after_ms transaction_id =
     execute (update_job (as_bytes job_id) (nonterminal_row state retry_after_ms transaction_id))"

section \<open>Operations of a commit\<close>

definition new_jobs_row :: "id \<Rightarrow> job_spec \<Rightarrow> i64 \<Rightarrow> jobs_row" where
  "new_jobs_row transaction_id spec sequence = \<lparr>
     jobs_job_id = as_bytes (spec_job_id spec), jobs_enqueue_sequence = sequence,
     jobs_enqueue_transaction_id = as_bytes transaction_id, jobs_queue = spec_queue spec,
     jobs_partition_key = spec_partition_key spec, jobs_payload = spec_payload spec,
     jobs_not_before_ms = spec_not_before_ms spec,
     jobs_max_attempts = i64_from_u32 (spec_max_attempts spec),
     jobs_effect_mode = effect_mode_encode (spec_effect_mode spec),
     jobs_idempotency_key = spec_idempotency_key spec, jobs_state = job_state_encode Pending,
     jobs_attempt = I64 0, jobs_lease_token = None, jobs_worker_id = None,
     jobs_lease_expires_at_ms = None, jobs_retry_after_ms = None, jobs_terminal_at_ms = None,
     jobs_result_digest = None, jobs_error_summary = None,
     jobs_updated_transaction_id = as_bytes transaction_id\<rparr>"

text \<open>\<open>INSERT OR IGNORE INTO active_partitions\<close>: an existing row of the partition stays.\<close>

definition activate_partition :: "string \<Rightarrow> string \<Rightarrow> i64 \<Rightarrow> db \<Rightarrow> db" where
  "activate_partition q p sequence d =
     (if map_of (active_partitions d) (q, p) \<noteq> None then d
      else d\<lparr>active_partitions := active_partitions d @ [((q, p), sequence)]\<rparr>)"

definition apply_enqueue :: "id \<Rightarrow> job_spec \<Rightarrow> (error, unit) tx" where
  "apply_enqueue transaction_id spec =
     tx_bind (tx_map_err Error_Storage (load_job (spec_job_id spec))) (\<lambda>existing.
     tx_bind (tx_lift (ensure (existing = None)
       (Error_Validation (JobAlreadyExists (spec_job_id spec))))) (\<lambda>_.
     tx_map_err Error_Storage (
       tx_bind (query (\<lambda>d. sql_max_plus_one (map jobs_enqueue_sequence (jobs d)))) (\<lambda>sequence.
       tx_bind (execute (insert_jobs (new_jobs_row transaction_id spec sequence))) (\<lambda>_.
       execute (\<lambda>d. Inr (activate_partition (spec_queue spec) (spec_partition_key spec)
         sequence d)))))))"

definition apply_ack :: "id \<Rightarrow> i64 \<Rightarrow> job_ack \<Rightarrow> (error, unit) tx" where
  "apply_ack transaction_id now_ms ack =
     tx_bind (require_job (ack_job_id ack)) (\<lambda>job.
     tx_bind (tx_lift (ensure_transition job Succeeded)) (\<lambda>_.
     tx_bind (tx_lift (ensure_lease_token job (ack_lease_token ack))) (\<lambda>_.
     tx_map_err Error_Storage
       (set_terminal job Succeeded now_ms transaction_id (ack_result_digest ack) None))))"

definition default_retry_delay_ms :: i64 where "default_retry_delay_ms = I64 30000"

definition apply_fail :: "id \<Rightarrow> i64 \<Rightarrow> job_failure \<Rightarrow> (error, unit) tx" where
  "apply_fail transaction_id now_ms failure =
     tx_bind (require_job (fail_job_id failure)) (\<lambda>job.
     let exhausted = row_max_attempts job \<le> row_attempt job;
         to = (if exhausted then Dead else RetryWait) in
     tx_bind (tx_lift (ensure_transition job to)) (\<lambda>_.
     tx_bind (tx_lift (ensure_lease_token job (fail_lease_token failure))) (\<lambda>_.
     if exhausted
     then tx_map_err Error_Storage
            (set_terminal job Dead now_ms transaction_id None (Some (fail_error_summary failure)))
     else
       tx_bind (tx_lift (case fail_retry_after_ms failure of
           Some ms \<Rightarrow> Inr ms
         | None \<Rightarrow> ok_or (i64_checked_add now_ms default_retry_delay_ms)
             (Error_Validation DefaultRetryOverflow))) (\<lambda>retry_after.
       tx_map_err Error_Storage (
         tx_bind (set_nonterminal (row_job_id job) RetryWait (Some retry_after) transaction_id) (\<lambda>_.
         execute (update_job (as_bytes (row_job_id job))
           (\<lambda>r. r\<lparr>jobs_error_summary := Some (fail_error_summary failure)\<rparr>))))))))"

definition apply_cancel :: "id \<Rightarrow> i64 \<Rightarrow> job_cancellation \<Rightarrow> (error, unit) tx" where
  "apply_cancel transaction_id now_ms cancellation =
     tx_bind (require_job (cancel_job_id cancellation)) (\<lambda>job.
     tx_bind (tx_lift (ensure_transition job Cancelled)) (\<lambda>_.
     tx_bind (tx_lift (case cancel_lease_token cancellation of
         Some token \<Rightarrow> ensure_lease_token job token
       | None \<Rightarrow> if row_state job = Pending then Inr ()
           else Inl (Error_Validation (CancelRequiresToken (row_job_id job))))) (\<lambda>_.
     tx_map_err Error_Storage (set_terminal job Cancelled now_ms transaction_id None None))))"

definition apply_resolve :: "id \<Rightarrow> i64 \<Rightarrow> job_resolution \<Rightarrow> (error, unit) tx" where
  "apply_resolve transaction_id now_ms res =
     tx_bind (require_job (resolve_job_id res)) (\<lambda>job.
     case resolve_resolution res of
       Retry \<Rightarrow>
         (if row_max_attempts job \<le> row_attempt job
          then tx_bind (tx_lift (ensure_transition job Dead)) (\<lambda>_.
            tx_map_err Error_Storage (set_terminal job Dead now_ms transaction_id None
              (Some ''retry resolution exhausted max_attempts'')))
          else tx_bind (tx_lift (ensure_transition job Pending)) (\<lambda>_.
            tx_map_err Error_Storage
              (set_nonterminal (row_job_id job) Pending None transaction_id)))
     | MarkSucceeded \<Rightarrow>
         tx_bind (tx_lift (ensure_transition job Succeeded)) (\<lambda>_.
         tx_map_err Error_Storage (set_terminal job Succeeded now_ms transaction_id None None))
     | MarkDead \<Rightarrow>
         tx_bind (tx_lift (ensure_transition job Dead)) (\<lambda>_.
         tx_map_err Error_Storage
           (set_terminal job Dead now_ms transaction_id None (Some ''resolved as dead''))))"

definition apply_extend_lease ::
  "lease_extension \<Rightarrow> i64 \<Rightarrow> (lease_error, lease_extension_receipt) tx" where
  "apply_extend_lease ext now_ms =
     (let job_id = extend_job_id ext; lease_token = extend_lease_token ext;
          new_expiry_ms = extend_new_expiry_ms ext;
          conflict = (\<lambda>c. LeaseError_Conflict c) in
     tx_bind (tx_map_err LeaseError_Storage (load_job job_id)) (\<lambda>found.
     tx_bind (tx_lift (ok_or found (conflict (JobNotFound job_id)))) (\<lambda>job.
     tx_bind (tx_lift (ensure (row_state job = Leased)
       (conflict (NotLeased job_id (row_state job))))) (\<lambda>_.
     tx_bind (tx_lift (ensure (row_lease_token job = Some lease_token)
       (conflict (InvalidToken job_id)))) (\<lambda>_.
     let current_ms = (case row_lease_expires_at_ms job of Some e \<Rightarrow> e | None \<Rightarrow> i64_min) in
     tx_bind (tx_lift (ensure (\<not> current_ms < now_ms)
       (conflict (LeaseExpired job_id current_ms now_ms)))) (\<lambda>_.
     tx_bind (tx_lift (ensure (\<not> new_expiry_ms \<le> current_ms)
       (conflict (ExpiryNotLater job_id current_ms new_expiry_ms)))) (\<lambda>_.
     tx_map_err LeaseError_Storage (
       tx_bind (execute (update_job (as_bytes job_id)
         (\<lambda>r. r\<lparr>jobs_lease_expires_at_ms := Some new_expiry_ms\<rparr>))) (\<lambda>_.
       tx_bind (execute (\<lambda>d. Inr (d\<lparr>claim_receipts :=
         sql_update (\<lambda>c. cr_job_id c = as_bytes job_id \<and> cr_lease_token c = as_bytes lease_token)
           (\<lambda>c. c\<lparr>cr_lease_expires_at_ms := new_expiry_ms\<rparr>) (claim_receipts d)\<rparr>))) (\<lambda>_.
       tx_return \<lparr>ext_receipt_job_id = job_id, ext_receipt_attempt = row_attempt job,
         ext_receipt_lease_expires_at_ms = new_expiry_ms\<rparr>))))))))))"

section \<open>Reads\<close>

definition get_job :: "id \<Rightarrow> (error, job_info option) tx" where
  "get_job job_id = tx_map_err Error_Storage
     (tx_bind (load_job job_id) (\<lambda>job. tx_return (map_option into_info job)))"

definition job_matches :: "string option \<Rightarrow> job_state option \<Rightarrow> jobs_row \<Rightarrow> bool" where
  "job_matches queue state r \<longleftrightarrow>
     (queue = None \<or> queue = Some (jobs_queue r)) \<and>
     (state = None \<or> map_option job_state_encode state = Some (jobs_state r))"

definition list_jobs :: "string option \<Rightarrow> job_state option \<Rightarrow> usize \<Rightarrow> (error, job_info list) tx" where
  "list_jobs queue state limit = tx_map_err Error_Storage (
     tx_bind (query (\<lambda>d. Inr (sql_limit (u64_as_i64 limit) (sort_key jobs_enqueue_sequence
       (filter (job_matches queue state) (jobs d))))))
     (\<lambda>rows. tx_lift (err_bind (map_result row_to_job rows) (\<lambda>js. Inr (map into_info js)))))"

definition list_jobs_page :: "string option \<Rightarrow> job_state option \<Rightarrow> u64 \<Rightarrow> usize \<Rightarrow>
    (error, job_info list \<times> u64) tx" where
  "list_jobs_page queue state after_sequence limit =
     tx_bind (tx_lift (ok_or (i64_try_from after_sequence)
       (Error_Validation (AfterSequenceOutOfRange after_sequence)))) (\<lambda>after_sequence_i64.
     tx_bind (tx_lift (ok_or (i64_try_from limit)
       (Error_Validation (PageLimitOutOfRange limit)))) (\<lambda>limit_i64.
     tx_map_err Error_Storage (
       tx_bind (query (\<lambda>d. Inr (sql_limit limit_i64 (sort_key jobs_enqueue_sequence
         (filter (\<lambda>r. after_sequence_i64 < jobs_enqueue_sequence r \<and> job_matches queue state r)
           (jobs d))))))
       (\<lambda>rows. tx_lift (err_bind (map_result row_to_job rows) (\<lambda>js.
         Inr (map into_info js,
              if rows = [] then after_sequence
              else i64_as_u64 (jobs_enqueue_sequence (last rows)))))))))"

end
