(* ===== verification/Job_Invariant.thy ===== *)
theory Job_Invariant
  imports Store_Jobs
begin

text \<open>
  The invariant \<open>jobs_ok\<close>: every row decodes and satisfies the CHECK constraints; no job has
  run more often than its \<open>max_attempts\<close>, and one that may run again has an attempt left; the
  enqueue sequences are 1, 2, 3 ..; \<open>active_partitions\<close> lists exactly the partitions with
  nonterminal jobs; and in a partition only the first nonterminal job can be anything but
  \<open>Pending\<close>, so at most one of its jobs is leased, waits for a retry or is uncertain.

  The lemmas of this theory are about changing one row of \<open>jobs\<close>; \<open>Job_Steps\<close> applies them to
  the operations.
\<close>

section \<open>Well-formed rows\<close>

definition state_of :: "jobs_row \<Rightarrow> job_state" where
  "state_of r = the (job_state_decode (jobs_state r))"

definition decoded_job :: "jobs_row \<Rightarrow> job_row" where
  "decoded_job r = \<lparr>row_job_id = from_bytes (jobs_job_id r), row_queue = jobs_queue r,
     row_partition_key = jobs_partition_key r, row_payload = jobs_payload r,
     row_not_before_ms = jobs_not_before_ms r,
     row_max_attempts = i64_as_u32 (jobs_max_attempts r),
     row_effect_mode = the (effect_mode_decode (jobs_effect_mode r)),
     row_idempotency_key = jobs_idempotency_key r, row_state = state_of r,
     row_attempt = i64_as_u32 (jobs_attempt r),
     row_lease_token = map_option from_bytes (jobs_lease_token r),
     row_worker_id = jobs_worker_id r, row_lease_expires_at_ms = jobs_lease_expires_at_ms r,
     row_retry_after_ms = jobs_retry_after_ms r, row_terminal_at_ms = jobs_terminal_at_ms r,
     row_result_digest = jobs_result_digest r, row_error_summary = jobs_error_summary r\<rparr>"

text \<open>A job that will be leased again must have an attempt left.\<close>

fun will_retry :: "job_state \<Rightarrow> bool" where
  "will_retry Pending = True"
| "will_retry RetryWait = True"
| "will_retry _ = False"

definition job_row_ok :: "jobs_row \<Rightarrow> bool" where
  "job_row_ok r \<longleftrightarrow>
     length (jobs_job_id r) = 16 \<and>
     effect_mode_decode (jobs_effect_mode r) \<noteq> None \<and> job_state_decode (jobs_state r) \<noteq> None \<and>
     pred_option (\<lambda>b. length b = 16) (jobs_lease_token r) \<and>
     u32_try_from (jobs_max_attempts r) \<noteq> None \<and> u32_try_from (jobs_attempt r) \<noteq> None \<and>
     jobs_check r \<and> jobs_attempt r \<le> jobs_max_attempts r \<and>
     (will_retry (state_of r) \<longrightarrow> jobs_attempt r < jobs_max_attempts r)"

lemma id_from_blob_as_bytes [simp]: "id_from_blob (as_bytes i) = Inr i"
  by (simp add: id_from_blob_def)

lemma opt_id_from_blob_ok:
  "pred_option (\<lambda>b. length b = 16) v \<Longrightarrow> opt_id_from_blob v = Inr (map_option from_bytes v)"
  by (cases v) (simp_all add: opt_id_from_blob_def id_from_blob_def id_try_from_def)

lemma row_to_job_ok: "job_row_ok r \<Longrightarrow> row_to_job r = Inr (decoded_job r)"
  by (auto simp: job_row_ok_def row_to_job_def decoded_job_def state_of_def id_from_blob_def
      id_try_from_def opt_id_from_blob_ok)

lemma jobs_state_encode: "job_row_ok r \<Longrightarrow> jobs_state r = job_state_encode (state_of r)"
  by (auto simp: job_row_ok_def state_of_def state_code.decode_Some_iff)

lemma job_state_codes [simp]:
  "job_state_encode s = I64 0 \<longleftrightarrow> s = Pending" "job_state_encode s = I64 1 \<longleftrightarrow> s = Leased"
  "job_state_encode s = I64 2 \<longleftrightarrow> s = RetryWait" "job_state_encode s = I64 3 \<longleftrightarrow> s = Uncertain"
  by (cases s; simp)+

lemma jobs_active_iff:
  "job_row_ok r \<Longrightarrow> jobs_state r \<in> set active_states_sql \<longleftrightarrow> \<not> is_terminal (state_of r)"
  by (simp add: jobs_state_encode)

lemma jobs_check_state:
  assumes "jobs_check r" "jobs_state r = job_state_encode s"
  shows "s = Leased \<longleftrightarrow> jobs_lease_token r \<noteq> None"
    and "s = Leased \<longleftrightarrow> jobs_worker_id r \<noteq> None"
    and "s = Leased \<longleftrightarrow> jobs_lease_expires_at_ms r \<noteq> None"
    and "s = RetryWait \<Longrightarrow> jobs_retry_after_ms r \<noteq> None"
    and "is_terminal s \<longleftrightarrow> jobs_terminal_at_ms r \<noteq> None"
  using assms by (cases s; auto simp: jobs_check_def)+

lemma state_of_set [simp]: "state_of (r\<lparr>jobs_state := job_state_encode s\<rparr>) = s"
  by (simp add: state_of_def)

lemma terminal_row_sel [simp]:
  "jobs_job_id (terminal_row s n t g e r) = jobs_job_id r"
  "jobs_enqueue_sequence (terminal_row s n t g e r) = jobs_enqueue_sequence r"
  "jobs_enqueue_transaction_id (terminal_row s n t g e r) = jobs_enqueue_transaction_id r"
  "jobs_queue (terminal_row s n t g e r) = jobs_queue r"
  "jobs_partition_key (terminal_row s n t g e r) = jobs_partition_key r"
  "jobs_state (terminal_row s n t g e r) = job_state_encode s"
  "jobs_attempt (terminal_row s n t g e r) = jobs_attempt r"
  "jobs_max_attempts (terminal_row s n t g e r) = jobs_max_attempts r"
  "jobs_effect_mode (terminal_row s n t g e r) = jobs_effect_mode r"
  "jobs_lease_token (terminal_row s n t g e r) = None"
  "state_of (terminal_row s n t g e r) = s"
  by (simp_all add: terminal_row_def state_of_def)

lemma nonterminal_row_sel [simp]:
  "jobs_job_id (nonterminal_row s m t r) = jobs_job_id r"
  "jobs_enqueue_sequence (nonterminal_row s m t r) = jobs_enqueue_sequence r"
  "jobs_enqueue_transaction_id (nonterminal_row s m t r) = jobs_enqueue_transaction_id r"
  "jobs_queue (nonterminal_row s m t r) = jobs_queue r"
  "jobs_partition_key (nonterminal_row s m t r) = jobs_partition_key r"
  "jobs_state (nonterminal_row s m t r) = job_state_encode s"
  "jobs_attempt (nonterminal_row s m t r) = jobs_attempt r"
  "jobs_max_attempts (nonterminal_row s m t r) = jobs_max_attempts r"
  "jobs_effect_mode (nonterminal_row s m t r) = jobs_effect_mode r"
  "jobs_lease_token (nonterminal_row s m t r) = None"
  "state_of (nonterminal_row s m t r) = s"
  by (simp_all add: nonterminal_row_def state_of_def)

lemma jobs_check_terminal:
  "jobs_check r \<Longrightarrow> is_terminal s \<Longrightarrow> jobs_check (terminal_row s n t g e r)"
  by (cases s) (simp_all add: terminal_row_def jobs_check_def)

lemma jobs_check_nonterminal:
  assumes "jobs_check r" "jobs_terminal_at_ms r = None" "\<not> is_terminal s" "s \<noteq> Leased"
    and "s = RetryWait \<longrightarrow> m \<noteq> None"
  shows "jobs_check (nonterminal_row s m t r)"
  using assms by (cases s) (auto simp: nonterminal_row_def jobs_check_def)

lemma job_row_ok_terminal:
  "job_row_ok r \<Longrightarrow> is_terminal s \<Longrightarrow> job_row_ok (terminal_row s n t g e r)"
  unfolding job_row_ok_def terminal_row_sel state_code_simps
  by (cases s) (simp_all add: jobs_check_terminal)

lemma job_row_ok_nonterminal:
  assumes "job_row_ok r" "\<not> is_terminal s" "s \<noteq> Leased" "\<not> is_terminal (state_of r)"
    and "will_retry s \<longrightarrow> jobs_attempt r < jobs_max_attempts r"
    and "s = RetryWait \<longrightarrow> m \<noteq> None"
  shows "job_row_ok (nonterminal_row s m t r)"
proof -
  have "jobs_terminal_at_ms r = None"
    using assms(1, 4) jobs_check_state(5) [OF _ jobs_state_encode] by (auto simp: job_row_ok_def)
  then have "jobs_check (nonterminal_row s m t r)"
    using assms by (intro jobs_check_nonterminal) (simp_all add: job_row_ok_def)
  with assms show ?thesis
    unfolding job_row_ok_def nonterminal_row_sel state_code_simps by simp
qed

lemma u32_try_from_iff: "u32_try_from a = Some w \<longleftrightarrow> a = i64_from_u32 w"
proof
  assume "u32_try_from a = Some w"
  then have a: "0 \<le> i64_int a" "i64_int a < 2 ^ 32" and w: "w = i64_as_u32 a"
    by (auto simp: u32_try_from_def split: if_splits)
  have v: "uint (i64_bits a) = i64_int a"
    using i64_as_u64_unat [OF a(1)] by (simp only: i64_as_u64_def uint_nat)
  have "uint (ucast (i64_bits a) :: u32) = take_bit 32 (uint (i64_bits a))"
    by (simp add: unsigned_ucast_eq)
  also have "\<dots> = i64_int a"
    using a by (simp only: v take_bit_int_eq_self)
  finally have "uint (ucast (i64_bits a) :: u32) = i64_int a" .
  then have "i64_int (i64_from_u32 w) = i64_int a"
    by (simp add: w i64_as_u32_def)
  then show "a = i64_from_u32 w" by (simp only: i64_int_inject)
qed simp

text \<open>Attempts compare as \<open>u32\<close> values in the code and as integers in the table.\<close>

lemma job_row_attempts:
  assumes "job_row_ok r"
  shows "row_max_attempts (decoded_job r) \<le> row_attempt (decoded_job r) \<longleftrightarrow>
      \<not> jobs_attempt r < jobs_max_attempts r"
    and "i64_from_u32 (row_attempt (decoded_job r)) = jobs_attempt r"
proof -
  obtain m a where "jobs_max_attempts r = i64_from_u32 m" "jobs_attempt r = i64_from_u32 a"
    using assms u32_try_from_iff by (auto simp: job_row_ok_def)
  then show "row_max_attempts (decoded_job r) \<le> row_attempt (decoded_job r) \<longleftrightarrow>
      \<not> jobs_attempt r < jobs_max_attempts r"
    "i64_from_u32 (row_attempt (decoded_job r)) = jobs_attempt r"
    by (simp_all add: decoded_job_def less_i64_def word_le_def not_less)
qed

section \<open>The invariant of the job tables\<close>

definition partition_jobs :: "jobs_row list \<Rightarrow> string \<Rightarrow> string \<Rightarrow> jobs_row list" where
  "partition_jobs rows q p = filter (is_active_in q p) rows"

definition rows_ok :: "db \<Rightarrow> bool" where
  "rows_ok d \<longleftrightarrow>
     numbered (map jobs_enqueue_sequence (jobs d)) \<and> distinct (map jobs_job_id (jobs d)) \<and>
     (\<forall>r \<in> set (jobs d). job_row_ok r \<and> transaction_exists (jobs_enqueue_transaction_id r) d)"

definition heads_ok :: "jobs_row list \<Rightarrow> bool" where
  "heads_ok rows \<longleftrightarrow>
     (\<forall>q p. \<forall>r \<in> set (tl (partition_jobs rows q p)). jobs_state r = job_state_encode Pending)"

definition partitions_ok :: "db \<Rightarrow> bool" where
  "partitions_ok d \<longleftrightarrow> distinct (map fst (active_partitions d)) \<and>
     (\<forall>q p. (q, p) \<in> fst ` set (active_partitions d) \<longleftrightarrow> partition_jobs (jobs d) q p \<noteq> [])"

definition receipts_ok :: "db \<Rightarrow> bool" where
  "receipts_ok d \<longleftrightarrow>
     distinct (map (\<lambda>c. (cr_transaction_id c, cr_job_id c)) (claim_receipts d)) \<and>
     (\<forall>c \<in> set (claim_receipts d). transaction_exists (cr_transaction_id c) d \<and>
        cr_job_id c \<in> jobs_job_id ` set (jobs d) \<and> length (cr_lease_token c) = 16)"

text \<open>The current lease of a job stands in a claim receipt.\<close>

definition records_lease :: "claim_receipts_row \<Rightarrow> jobs_row \<Rightarrow> bool" where
  "records_lease c r \<longleftrightarrow> cr_job_id c = jobs_job_id r \<and> Some (cr_lease_token c) = jobs_lease_token r \<and>
     cr_attempt c = jobs_attempt r \<and> Some (cr_worker_id c) = jobs_worker_id r \<and>
     Some (cr_lease_expires_at_ms c) = jobs_lease_expires_at_ms r"

definition leases_recorded :: "db \<Rightarrow> bool" where
  "leases_recorded d \<longleftrightarrow> (\<forall>r \<in> set (jobs d). jobs_state r = job_state_encode Leased \<longrightarrow>
     (\<exists>c \<in> set (claim_receipts d). records_lease c r))"

definition jobs_ok :: "db \<Rightarrow> bool" where
  "jobs_ok d \<longleftrightarrow> rows_ok d \<and> heads_ok (jobs d) \<and> partitions_ok d \<and> receipts_ok d \<and>
     leases_recorded d"

text \<open>An update keeps what identifies a job.\<close>

definition keeps_key :: "(jobs_row \<Rightarrow> jobs_row) \<Rightarrow> bool" where
  "keeps_key u \<longleftrightarrow> (\<forall>r. jobs_job_id (u r) = jobs_job_id r \<and>
     jobs_enqueue_sequence (u r) = jobs_enqueue_sequence r \<and>
     jobs_enqueue_transaction_id (u r) = jobs_enqueue_transaction_id r \<and>
     jobs_queue (u r) = jobs_queue r \<and> jobs_partition_key (u r) = jobs_partition_key r)"

definition set_job :: "blob \<Rightarrow> (jobs_row \<Rightarrow> jobs_row) \<Rightarrow> db \<Rightarrow> db" where
  "set_job i u d = d\<lparr>jobs := sql_update (\<lambda>r. jobs_job_id r = i) u (jobs d)\<rparr>"

lemma update_job_Inr: "update_job i u d = Inr d' \<Longrightarrow> d' = set_job i u d"
  by (simp add: update_job_def set_job_def)

lemma keeps_key_rows [simp]:
  "keeps_key (terminal_row s n t g e)" "keeps_key (nonterminal_row s m t)"
  by (simp_all add: keeps_key_def)

lemma set_job_tables [simp]:
  "active_partitions (set_job i u d) = active_partitions d"
  "claim_receipts (set_job i u d) = claim_receipts d"
  "transaction_exists t (set_job i u d) = transaction_exists t d"
  by (simp_all add: set_job_def)

lemma job_by_id:
  assumes "rows_ok d" "r \<in> set (jobs d)" "s \<in> set (jobs d)" "jobs_job_id r = jobs_job_id s"
  shows "r = s"
  using assms by (auto simp: rows_ok_def distinct_map dest: inj_onD)

lemma map_keys_set_job:
  assumes "keeps_key u"
  shows "map jobs_enqueue_sequence (jobs (set_job i u d)) = map jobs_enqueue_sequence (jobs d)"
    and "map jobs_job_id (jobs (set_job i u d)) = map jobs_job_id (jobs d)"
  using assms by (simp_all add: set_job_def keeps_key_def map_sql_update)

lemma job_ids_set_job [simp]:
  "keeps_key u \<Longrightarrow> jobs_job_id ` set (jobs (set_job i u d)) = jobs_job_id ` set (jobs d)"
  using map_keys_set_job(2) [THEN arg_cong [where f = set]] by simp

lemma in_set_job:
  assumes "x \<in> set (jobs (set_job i u d))"
  obtains r where "r \<in> set (jobs d)" "x = (if jobs_job_id r = i then u r else r)"
  using assms unfolding set_job_def by (auto simp: set_sql_update)

lemma rows_ok_set_job:
  assumes "rows_ok d" "keeps_key u" "r \<in> set (jobs d)" "jobs_job_id r = i" "job_row_ok (u r)"
  shows "rows_ok (set_job i u d)"
proof -
  have "job_row_ok x \<and> transaction_exists (jobs_enqueue_transaction_id x) d"
    if x: "x \<in> set (jobs (set_job i u d))" for x
  proof -
    obtain y where y: "y \<in> set (jobs d)" and x: "x = (if jobs_job_id y = i then u y else y)"
      using x by (rule in_set_job)
    have "job_row_ok y" "transaction_exists (jobs_enqueue_transaction_id y) d"
      using assms(1) y by (auto simp: rows_ok_def)
    moreover have "jobs_job_id y = i \<Longrightarrow> y = r"
      using job_by_id [OF assms(1) y assms(3)] assms(4) by simp
    ultimately show ?thesis
      using x assms(2, 5) by (auto simp: keeps_key_def)
  qed
  then show ?thesis
    using assms(1) unfolding rows_ok_def map_keys_set_job [OF assms(2)] set_job_tables by blast
qed

lemma receipts_ok_set_job:
  "receipts_ok d \<Longrightarrow> keeps_key u \<Longrightarrow> receipts_ok (set_job i u d)"
  by (simp add: receipts_ok_def)

lemma leases_recorded_set_job:
  assumes "leases_recorded d"
    and "\<And>r. jobs_job_id r = i \<Longrightarrow> jobs_state (u r) \<noteq> job_state_encode Leased"
  shows "leases_recorded (set_job i u d)"
  using assms unfolding leases_recorded_def set_job_tables
  by (metis in_set_job)

text \<open>A row that leaves its partition's nonterminal jobs, and one that stays among them.\<close>

lemma partition_jobs_leave:
  assumes "rows_ok d" "r \<in> set (jobs d)" "jobs_job_id r = i" "jobs_state (u r) \<notin> set active_states_sql"
  shows "partition_jobs (jobs (set_job i u d)) q p =
    filter (\<lambda>r. jobs_job_id r \<noteq> i) (partition_jobs (jobs d) q p)"
proof -
  have "filter (is_active_in q p) (sql_update (\<lambda>r. jobs_job_id r = i) u rows) =
      filter (\<lambda>r. jobs_job_id r \<noteq> i) (filter (is_active_in q p) rows)"
    if "set rows \<subseteq> set (jobs d)" for rows
    using that job_by_id [OF assms(1) _ assms(2)] assms(3, 4)
    by (induction rows) (auto simp: is_active_in_def)
  then show ?thesis by (simp add: partition_jobs_def set_job_def)
qed

lemma partition_jobs_stay:
  assumes "rows_ok d" "r \<in> set (jobs d)" "jobs_job_id r = i" "keeps_key u"
    and "jobs_state r \<in> set active_states_sql" "jobs_state (u r) \<in> set active_states_sql"
  shows "partition_jobs (jobs (set_job i u d)) q p =
    sql_update (\<lambda>r. jobs_job_id r = i) u (partition_jobs (jobs d) q p)"
proof -
  have "filter (is_active_in q p) (sql_update (\<lambda>r. jobs_job_id r = i) u rows) =
      sql_update (\<lambda>r. jobs_job_id r = i) u (filter (is_active_in q p) rows)"
    if "set rows \<subseteq> set (jobs d)" for rows
    using that job_by_id [OF assms(1) _ assms(2)] assms(3-6)
    by (induction rows) (auto simp: is_active_in_def keeps_key_def)
  then show ?thesis by (simp add: partition_jobs_def set_job_def)
qed

lemma in_tl: "x \<in> set (tl xs) \<Longrightarrow> x \<in> set xs"
  by (cases xs) simp_all

lemma set_tl_filter: "set (tl (filter P xs)) \<subseteq> set (tl xs)"
  by (cases xs) (auto dest: in_tl)

lemma sql_update_other: "\<forall>r \<in> set rows. \<not> p r \<Longrightarrow> sql_update p u rows = rows"
  by (simp add: sql_update_def map_idI)

lemma tl_sql_update: "tl (sql_update p u rows) = sql_update p u (tl rows)"
  by (cases rows) simp_all

text \<open>A row may change its state within the active ones when it is no tail row.\<close>

lemma heads_ok_stay:
  assumes "rows_ok d" "heads_ok (jobs d)" "r \<in> set (jobs d)" "jobs_job_id r = i" "keeps_key u"
    and "jobs_state r \<in> set active_states_sql" "jobs_state (u r) \<in> set active_states_sql"
    and "\<And>q p. r \<notin> set (tl (partition_jobs (jobs d) q p))"
  shows "heads_ok (jobs (set_job i u d))"
proof -
  have "tl (partition_jobs (jobs (set_job i u d)) q p) = tl (partition_jobs (jobs d) q p)" for q p
  proof -
    have "x = r" if "x \<in> set (tl (partition_jobs (jobs d) q p))" "jobs_job_id x = i" for x
      using in_tl [OF that(1)] that(2) job_by_id [OF assms(1) _ assms(3)] assms(4)
      by (simp add: partition_jobs_def)
    then have "\<forall>x \<in> set (tl (partition_jobs (jobs d) q p)). jobs_job_id x \<noteq> i"
      using assms(8) [of q p] by blast
    then show ?thesis
      unfolding partition_jobs_stay [OF assms(1, 3-7)] tl_sql_update by (rule sql_update_other)
  qed
  then show ?thesis using assms(2) by (simp add: heads_ok_def)
qed

lemma not_pending_not_tail:
  assumes "heads_ok rows" "jobs_state r \<noteq> job_state_encode Pending"
  shows "r \<notin> set (tl (partition_jobs rows q p))"
  using assms by (auto simp: heads_ok_def)

lemma heads_ok_leave:
  assumes "rows_ok d" "heads_ok (jobs d)" "r \<in> set (jobs d)" "jobs_job_id r = i"
    and "jobs_state (u r) \<notin> set active_states_sql"
  shows "heads_ok (jobs (set_job i u d))"
  using assms(2) unfolding heads_ok_def partition_jobs_leave [where u = u, OF assms(1, 3-5)]
  using set_tl_filter by fast

lemma partitions_ok_stay:
  assumes "rows_ok d" "partitions_ok d" "r \<in> set (jobs d)" "jobs_job_id r = i" "keeps_key u"
    and "jobs_state r \<in> set active_states_sql" "jobs_state (u r) \<in> set active_states_sql"
  shows "partitions_ok (set_job i u d)"
proof -
  have "partition_jobs (jobs (set_job i u d)) q p = [] \<longleftrightarrow> partition_jobs (jobs d) q p = []" for q p
    unfolding partition_jobs_stay [OF assms(1, 3-7)] by (simp add: sql_update_def)
  then show ?thesis
    using assms(2) by (simp add: partitions_ok_def)
qed

lemma list_ex_partition_jobs: "list_ex (is_active_in q p) rows \<longleftrightarrow> partition_jobs rows q p \<noteq> []"
  by (auto simp: partition_jobs_def list_ex_iff filter_empty_conv)

lemma drain_keys:
  "fst ` set (active_partitions (drain_partition q p d)) =
     (if partition_jobs (jobs d) q p = [] then fst ` set (active_partitions d) - {(q, p)}
      else fst ` set (active_partitions d))"
  by (auto simp: drain_partition_def list_ex_partition_jobs image_iff)

lemma drain_tables [simp]:
  "jobs (drain_partition q p d) = jobs d"
  "claim_receipts (drain_partition q p d) = claim_receipts d"
  "transaction_exists t (drain_partition q p d) = transaction_exists t d"
  by (simp_all add: drain_partition_def)

lemma partitions_ok_leave:
  assumes "rows_ok d" "partitions_ok d" "r \<in> set (jobs d)" "jobs_job_id r = i" "keeps_key u"
    and "jobs_state (u r) \<notin> set active_states_sql"
  shows "partitions_ok (drain_partition (jobs_queue r) (jobs_partition_key r) (set_job i u d))"
proof -
  let ?q = "jobs_queue r" and ?p = "jobs_partition_key r"
  have leave: "partition_jobs (jobs (set_job i u d)) q p =
      filter (\<lambda>r. jobs_job_id r \<noteq> i) (partition_jobs (jobs d) q p)" for q p
    by (rule partition_jobs_leave) (use assms in auto)
  have "partition_jobs (jobs (set_job i u d)) q p = partition_jobs (jobs d) q p"
    if "(q, p) \<noteq> (?q, ?p)" for q p
  proof -
    have "\<forall>x \<in> set (partition_jobs (jobs d) q p). jobs_job_id x \<noteq> i"
      using that job_by_id [OF assms(1) _ assms(3)] assms(4)
      by (auto simp: partition_jobs_def is_active_in_def)
    then show ?thesis unfolding leave by (simp add: filter_id_conv)
  qed
  then have "(q, p) \<in> fst ` set (active_partitions (drain_partition ?q ?p (set_job i u d))) \<longleftrightarrow>
      partition_jobs (jobs (set_job i u d)) q p \<noteq> []" for q p
    using assms(2) leave unfolding partitions_ok_def drain_keys set_job_tables
    by (cases "(q, p) = (?q, ?p)") auto
  moreover have "distinct (map fst (active_partitions (drain_partition ?q ?p (set_job i u d))))"
    using assms(2) by (simp add: drain_partition_def partitions_ok_def distinct_map_filter)
  ultimately show ?thesis
    unfolding partitions_ok_def drain_tables by blast
qed

lemma jobs_ok_drain [simp]:
  "rows_ok (drain_partition q p d) = rows_ok d"
  "receipts_ok (drain_partition q p d) = receipts_ok d"
  "leases_recorded (drain_partition q p d) = leases_recorded d"
  by (simp_all add: rows_ok_def receipts_ok_def leases_recorded_def)

text \<open>The three ways in which a job changes: it ends, it goes back, it is leased or extended.\<close>

lemma jobs_ok_terminal:
  assumes "jobs_ok d" "r \<in> set (jobs d)" "jobs_job_id r = i" "is_terminal s"
  shows "jobs_ok (drain_partition (jobs_queue r) (jobs_partition_key r)
    (set_job i (terminal_row s n t g e) d))"
proof -
  let ?u = "terminal_row s n t g e"
  have ok: "rows_ok d" "heads_ok (jobs d)" "partitions_ok d" "receipts_ok d" "leases_recorded d"
    using assms(1) by (simp_all add: jobs_ok_def)
  have row: "job_row_ok r"
    using ok(1) assms(2) by (simp add: rows_ok_def)
  have inactive: "jobs_state (?u r) \<notin> set active_states_sql"
    using assms(4) by simp
  have "s \<noteq> Leased"
    using assms(4) by auto
  then show ?thesis
    unfolding jobs_ok_def jobs_ok_drain drain_tables
    using rows_ok_set_job [OF ok(1) keeps_key_rows(1) assms(2, 3) job_row_ok_terminal [OF row assms(4)]]
      heads_ok_leave [where u = ?u, OF ok(1, 2) assms(2, 3) inactive]
      partitions_ok_leave [OF ok(1, 3) assms(2, 3) keeps_key_rows(1) inactive]
      receipts_ok_set_job [OF ok(4) keeps_key_rows(1)]
      leases_recorded_set_job [OF ok(5), of i ?u]
    by simp
qed

lemma jobs_ok_nonterminal:
  assumes "jobs_ok d" "r \<in> set (jobs d)" "jobs_job_id r = i"
    and "state_of r = Leased \<or> state_of r = RetryWait \<or> state_of r = Uncertain"
    and "\<not> is_terminal s" "s \<noteq> Leased"
    and "will_retry s \<longrightarrow> jobs_attempt r < jobs_max_attempts r" "s = RetryWait \<longrightarrow> m \<noteq> None"
  shows "jobs_ok (set_job i (nonterminal_row s m t) d)"
proof -
  let ?u = "nonterminal_row s m t"
  have ok: "rows_ok d" "heads_ok (jobs d)" "partitions_ok d" "receipts_ok d" "leases_recorded d"
    using assms(1) by (simp_all add: jobs_ok_def)
  have row: "job_row_ok r"
    using ok(1) assms(2) by (simp add: rows_ok_def)
  have state: "\<not> is_terminal (state_of r)" "state_of r \<noteq> Pending"
    using assms(4) by auto
  have active: "jobs_state r \<in> set active_states_sql" "jobs_state (?u r) \<in> set active_states_sql"
    using state(1) assms(5) by (simp_all add: jobs_state_encode [OF row])
  have tail: "\<And>q p. r \<notin> set (tl (partition_jobs (jobs d) q p))"
    by (rule not_pending_not_tail [OF ok(2)]) (simp add: jobs_state_encode [OF row] state(2))
  have "job_row_ok (?u r)"
    using row assms(5, 6) state(1) assms(7, 8) by (rule job_row_ok_nonterminal)
  then show ?thesis
    unfolding jobs_ok_def
    using rows_ok_set_job [OF ok(1) keeps_key_rows(2) assms(2, 3)]
      heads_ok_stay [OF ok(1, 2) assms(2, 3) keeps_key_rows(2) active tail]
      partitions_ok_stay [OF ok(1, 3) assms(2, 3) keeps_key_rows(2) active]
      receipts_ok_set_job [OF ok(4) keeps_key_rows(2)]
      leases_recorded_set_job [OF ok(5), of i ?u] assms(6)
    by simp
qed

end
