(* ===== verification/Job_Steps.thy ===== *)
theory Job_Steps
  imports Job_Invariant
begin

text \<open>
  What the job operations of a commit do to the database, one lemma per operation
  (\<open>apply_ack_yields\<close> and its siblings): the row an operation was applied to, the state and token it had, and the
  database after it, written with \<open>finish_job\<close> (a job ends and its partition is drained) and
  \<open>return_job\<close> (a job goes back to a nonterminal state without a lease). Each operation preserves
  \<open>jobs_ok\<close>.
\<close>

section \<open>Loading\<close>

lemma decoded_job_sel [simp]:
  "row_queue (decoded_job r) = jobs_queue r"
  "row_partition_key (decoded_job r) = jobs_partition_key r"
  "row_state (decoded_job r) = state_of r"
  "row_payload (decoded_job r) = jobs_payload r"
  "row_not_before_ms (decoded_job r) = jobs_not_before_ms r"
  "row_retry_after_ms (decoded_job r) = jobs_retry_after_ms r"
  "row_idempotency_key (decoded_job r) = jobs_idempotency_key r"
  "row_lease_expires_at_ms (decoded_job r) = jobs_lease_expires_at_ms r"
  "row_lease_token (decoded_job r) = map_option from_bytes (jobs_lease_token r)"
  by (simp_all add: decoded_job_def)

lemma as_bytes_row_job_id: "job_row_ok r \<Longrightarrow> as_bytes (row_job_id (decoded_job r)) = jobs_job_id r"
  by (simp add: decoded_job_def job_row_ok_def as_bytes_from_bytes)

lemma row_token_iff:
  "job_row_ok r \<Longrightarrow> row_lease_token (decoded_job r) = Some t \<longleftrightarrow> jobs_lease_token r = Some (as_bytes t)"
  by (auto simp: decoded_job_def job_row_ok_def as_bytes_from_bytes)

lemma load_job_yields:
  assumes "tx_yields (load_job i) d j d'" "rows_ok d"
  shows "d' = d"
    and "j = None \<Longrightarrow> as_bytes i \<notin> jobs_job_id ` set (jobs d)"
    and "j = Some x \<Longrightarrow> \<exists>r \<in> set (jobs d). jobs_job_id r = as_bytes i \<and> x = decoded_job r"
proof -
  let ?row = "List.find (\<lambda>r. jobs_job_id r = as_bytes i) (jobs d)"
  have *: "map_transpose row_to_job ?row = Inr j \<and> d' = d"
    using assms(1) unfolding load_job_def by (auto dest!: yields)
  show "d' = d"
    using * by simp
  show "as_bytes i \<notin> jobs_job_id ` set (jobs d)" if "j = None"
    using * that by (cases ?row) (auto simp: find_None_key)
  show "\<exists>r \<in> set (jobs d). jobs_job_id r = as_bytes i \<and> x = decoded_job r" if "j = Some x"
  proof (cases ?row)
    case None
    with * that show ?thesis by simp
  next
    case (Some r)
    then have r: "r \<in> set (jobs d)" "jobs_job_id r = as_bytes i"
      by (auto simp: find_Some_iff)
    then have "row_to_job r = Inr (decoded_job r)"
      using assms(2) by (auto simp: rows_ok_def row_to_job_ok)
    with * that Some r show ?thesis by auto
  qed
qed

lemma require_job_yields:
  assumes "tx_yields (require_job i) d j d'" "rows_ok d"
  obtains r where "r \<in> set (jobs d)" "jobs_job_id r = as_bytes i" "j = decoded_job r" "job_row_ok r"
    "d' = d"
proof -
  from assms(1) obtain x e where load: "tx_yields (load_job i) d x e" and x: "x = Some j" and d': "d' = e"
    unfolding require_job_def by (auto dest!: yields)
  obtain r where "r \<in> set (jobs d)" "jobs_job_id r = as_bytes i" "j = decoded_job r"
    using load_job_yields(3) [OF load assms(2) x] by blast
  with that load_job_yields(1) [OF load assms(2)] d' assms(2) show ?thesis
    by (auto simp: rows_ok_def)
qed

section \<open>Ending a job, returning a job\<close>

definition finish_job :: "jobs_row \<Rightarrow> job_state \<Rightarrow> i64 \<Rightarrow> id \<Rightarrow> blob option \<Rightarrow> string option \<Rightarrow>
    db \<Rightarrow> db" where
  "finish_job r s now_ms t g e d = drain_partition (jobs_queue r) (jobs_partition_key r)
     (set_job (jobs_job_id r) (terminal_row s now_ms t g e) d)"

definition return_job :: "jobs_row \<Rightarrow> job_state \<Rightarrow> i64 option \<Rightarrow> id \<Rightarrow> db \<Rightarrow> db" where
  "return_job r s m t d = set_job (jobs_job_id r) (nonterminal_row s m t) d"

lemma set_terminal_yields:
  "tx_yields (set_terminal (decoded_job r) s n t g e) d u d' \<Longrightarrow> job_row_ok r \<Longrightarrow>
     d' = finish_job r s n t g e d"
  unfolding set_terminal_def drain_partition_if_empty_def finish_job_def
  by (auto dest!: yields update_job_Inr simp: as_bytes_row_job_id)

lemma set_nonterminal_yields:
  "tx_yields (set_nonterminal (row_job_id (decoded_job r)) s m t) d u d' \<Longrightarrow> job_row_ok r \<Longrightarrow>
     d' = return_job r s m t d"
  unfolding set_nonterminal_def return_job_def
  by (auto dest!: yields update_job_Inr simp: as_bytes_row_job_id)

lemma jobs_ok_rows: "jobs_ok d \<Longrightarrow> rows_ok d"
  by (simp add: jobs_ok_def)

lemma jobs_ok_finish_job:
  "jobs_ok d \<Longrightarrow> r \<in> set (jobs d) \<Longrightarrow> is_terminal s \<Longrightarrow> jobs_ok (finish_job r s n t g e d)"
  unfolding finish_job_def by (rule jobs_ok_terminal) auto

lemma jobs_ok_return_job:
  assumes "jobs_ok d" "r \<in> set (jobs d)" "can_transition_to (state_of r) s" "\<not> is_terminal s" "s \<noteq> Leased"
    and "will_retry s \<longrightarrow> jobs_attempt r < jobs_max_attempts r" "s = RetryWait \<longrightarrow> m \<noteq> None"
  shows "jobs_ok (return_job r s m t d)"
  unfolding return_job_def using assms(1, 2) refl
  by (rule jobs_ok_nonterminal)
    (use assms(3-7) in \<open>cases "state_of r"; cases s; simp\<close>)+

lemma ensure_transition_yields:
  "tx_yields (tx_lift (ensure_transition (decoded_job r) s)) d u d' \<Longrightarrow>
     can_transition_to (state_of r) s \<and> d' = d"
  by (auto simp: ensure_transition_def dest!: yields)

text \<open>Only a leased job has a token, so a matching token says that the job is leased.\<close>

lemma token_leased: "job_row_ok r \<Longrightarrow> jobs_lease_token r = Some t \<Longrightarrow> state_of r = Leased"
  using jobs_check_state(1) [of r "state_of r"] by (auto simp: job_row_ok_def jobs_state_encode)

lemma leased_has_lease:
  assumes "job_row_ok r" "state_of r = Leased"
  obtains t w e where "jobs_lease_token r = Some t" "jobs_worker_id r = Some w"
    "jobs_lease_expires_at_ms r = Some e"
proof -
  have check: "jobs_check r" and "jobs_state r = job_state_encode Leased"
    using assms jobs_state_encode [OF assms(1)] by (simp_all add: job_row_ok_def)
  from jobs_check_state(1-3) [OF this] that show ?thesis by auto
qed

lemma ensure_lease_token_Inr:
  "ensure_lease_token (decoded_job r) t = Inr u \<Longrightarrow> job_row_ok r \<Longrightarrow>
     jobs_lease_token r = Some (as_bytes t) \<and> state_of r = Leased"
  using row_token_iff [of r t] token_leased [of r] by (simp add: ensure_lease_token_def)

lemma ensure_lease_token_yields:
  "tx_yields (tx_lift (ensure_lease_token (decoded_job r) t)) d u d' \<Longrightarrow> job_row_ok r \<Longrightarrow>
     jobs_lease_token r = Some (as_bytes t) \<and> state_of r = Leased \<and> d' = d"
  using ensure_lease_token_Inr [of r t u] by (auto dest!: yields_lift)

section \<open>Acknowledge, fail, cancel, resolve\<close>

lemma apply_ack_yields:
  assumes "tx_yields (apply_ack t now_ms a) d u d'" "rows_ok d"
  obtains r where "r \<in> set (jobs d)" "jobs_job_id r = as_bytes (ack_job_id a)"
    "state_of r = Leased" "jobs_lease_token r = Some (as_bytes (ack_lease_token a))"
    "d' = finish_job r Succeeded now_ms t (ack_result_digest a) None d"
  using assms unfolding apply_ack_def
  by (auto dest!: yields_bind yields_map_err elim!: require_job_yields
      dest: ensure_transition_yields ensure_lease_token_yields set_terminal_yields)

lemma jobs_ok_apply_ack:
  assumes "tx_yields (apply_ack t now_ms a) d u d'" "jobs_ok d"
  shows "jobs_ok d'"
  using assms(1) jobs_ok_rows [OF assms(2)]
  by (rule apply_ack_yields) (simp add: jobs_ok_finish_job assms(2))

text \<open>A failure: the last attempt ends the job, an earlier one sets the retry time.\<close>

definition retry_job :: "jobs_row \<Rightarrow> i64 \<Rightarrow> string \<Rightarrow> id \<Rightarrow> db \<Rightarrow> db" where
  "retry_job r retry_after summary t d = set_job (jobs_job_id r)
     (\<lambda>r. (nonterminal_row RetryWait (Some retry_after) t r)\<lparr>jobs_error_summary := Some summary\<rparr>) d"

lemma set_job_set_job:
  "keeps_key u \<Longrightarrow> set_job i v (set_job i u d) = set_job i (\<lambda>r. v (u r)) d"
  by (auto simp: set_job_def sql_update_def keeps_key_def intro!: map_cong)

lemma apply_fail_yields:
  assumes "tx_yields (apply_fail t now_ms f) d u d'" "rows_ok d"
  obtains (dead) r where "r \<in> set (jobs d)" "jobs_job_id r = as_bytes (fail_job_id f)"
      "state_of r = Leased" "jobs_lease_token r = Some (as_bytes (fail_lease_token f))"
      "\<not> jobs_attempt r < jobs_max_attempts r"
      "d' = finish_job r Dead now_ms t None (Some (fail_error_summary f)) d"
  | (retry) r m where "r \<in> set (jobs d)" "jobs_job_id r = as_bytes (fail_job_id f)"
      "state_of r = Leased" "jobs_lease_token r = Some (as_bytes (fail_lease_token f))"
      "jobs_attempt r < jobs_max_attempts r"
      "(case fail_retry_after_ms f of Some m' \<Rightarrow> m = m'
        | None \<Rightarrow> i64_checked_add now_ms default_retry_delay_ms = Some m)"
      "d' = retry_job r m (fail_error_summary f) t d"
proof -
  from assms(1) obtain j e where "tx_yields (require_job (fail_job_id f)) d j e"
    and rest: "tx_yields (let exhausted = row_max_attempts j \<le> row_attempt j;
         to = (if exhausted then Dead else RetryWait) in
     tx_bind (tx_lift (ensure_transition j to)) (\<lambda>_.
     tx_bind (tx_lift (ensure_lease_token j (fail_lease_token f))) (\<lambda>_.
     if exhausted
     then tx_map_err Error_Storage
            (set_terminal j Dead now_ms t None (Some (fail_error_summary f)))
     else
       tx_bind (tx_lift (case fail_retry_after_ms f of
           Some ms \<Rightarrow> Inr ms
         | None \<Rightarrow> ok_or (i64_checked_add now_ms default_retry_delay_ms)
             (Error_Validation DefaultRetryOverflow))) (\<lambda>retry_after.
       tx_map_err Error_Storage (
         tx_bind (set_nonterminal (row_job_id j) RetryWait (Some retry_after) t) (\<lambda>_.
         execute (update_job (as_bytes (row_job_id j))
           (\<lambda>r. r\<lparr>jobs_error_summary := Some (fail_error_summary f)\<rparr>)))))))) e u d'"
    unfolding apply_fail_def by (auto dest!: yields_bind)
  then obtain r where r: "r \<in> set (jobs d)" "jobs_job_id r = as_bytes (fail_job_id f)"
    and j: "j = decoded_job r" and ok: "job_row_ok r" and e: "e = d"
    using assms(2) by (auto elim: require_job_yields)
  note attempts = job_row_attempts(1) [OF ok]
  have lease: "jobs_lease_token r = Some (as_bytes (fail_lease_token f)) \<and> state_of r = Leased"
    using rest ok unfolding j Let_def
    by (auto dest!: yields_bind dest: ensure_lease_token_yields)
  show thesis
  proof (cases "jobs_attempt r < jobs_max_attempts r")
    case False
    with rest attempts ok have "d' = finish_job r Dead now_ms t None (Some (fail_error_summary f)) d"
      unfolding j e Let_def
      by (auto dest!: yields_bind yields_map_err
          dest: ensure_lease_token_yields ensure_transition_yields set_terminal_yields)
    with r lease False show ?thesis by (intro dead) auto
  next
    case True
    with rest attempts ok obtain m b where m: "(case fail_retry_after_ms f of Some ms \<Rightarrow> Inr ms
         | None \<Rightarrow> ok_or (i64_checked_add now_ms default_retry_delay_ms)
             (Error_Validation DefaultRetryOverflow)) = Inr m"
      and b: "b = return_job r RetryWait (Some m) t d"
      and d': "d' = set_job (as_bytes (row_job_id j))
           (\<lambda>r. r\<lparr>jobs_error_summary := Some (fail_error_summary f)\<rparr>) b"
      unfolding j e Let_def
      by (auto dest!: yields_bind yields_map_err yields_lift yields_execute update_job_Inr
          dest: ensure_lease_token_yields ensure_transition_yields set_nonterminal_yields)
    have "d' = retry_job r m (fail_error_summary f) t d"
      unfolding d' b j as_bytes_row_job_id [OF ok] return_job_def retry_job_def
      by (rule set_job_set_job) simp
    with r lease True m show ?thesis
      by (intro retry) (auto split: option.splits)
  qed
qed

lemma retry_job_eq:
  "retry_job r m summary t d =
     set_job (jobs_job_id r) (\<lambda>r. r\<lparr>jobs_error_summary := Some summary\<rparr>) (return_job r RetryWait (Some m) t d)"
  unfolding retry_job_def return_job_def by (rule set_job_set_job [symmetric]) simp

text \<open>A change of a nonterminal, non-pending row that keeps its state.\<close>

lemma jobs_ok_same_state:
  assumes "jobs_ok d" "r \<in> set (jobs d)" "jobs_job_id r = i" "keeps_key u"
    and "jobs_state r = job_state_encode s" "jobs_state (u r) = job_state_encode s"
    and "\<not> is_terminal s" "s \<noteq> Pending" "job_row_ok (u r)"
  shows "rows_ok (set_job i u d)" "heads_ok (jobs (set_job i u d))"
    "partitions_ok (set_job i u d)" "receipts_ok (set_job i u d)"
proof -
  have ok: "rows_ok d" "heads_ok (jobs d)" "partitions_ok d" "receipts_ok d"
    using assms(1) by (simp_all add: jobs_ok_def)
  have active: "jobs_state r \<in> set active_states_sql" "jobs_state (u r) \<in> set active_states_sql"
    using assms(5-7) by simp_all
  have tail: "\<And>q p. r \<notin> set (tl (partition_jobs (jobs d) q p))"
    by (rule not_pending_not_tail [OF ok(2)]) (simp add: assms(5, 8))
  show "rows_ok (set_job i u d)"
    using ok(1) assms(4, 2, 3, 9) by (rule rows_ok_set_job)
  show "heads_ok (jobs (set_job i u d))"
    by (rule heads_ok_stay [where u = u, OF ok(1, 2) assms(2-4) active tail])
  show "partitions_ok (set_job i u d)"
    by (rule partitions_ok_stay [where u = u, OF ok(1, 3) assms(2-4) active])
  show "receipts_ok (set_job i u d)"
    using ok(4) assms(4) by (rule receipts_ok_set_job)
qed

lemma jobs_ok_retry_job:
  assumes "jobs_ok d" "r \<in> set (jobs d)" "state_of r = Leased" "jobs_attempt r < jobs_max_attempts r"
  shows "jobs_ok (retry_job r m summary t d)"
proof -
  let ?d = "return_job r RetryWait (Some m) t d" and ?r = "nonterminal_row RetryWait (Some m) t r"
  let ?u = "\<lambda>r. r\<lparr>jobs_error_summary := Some summary\<rparr>"
  have ok: "jobs_ok ?d"
    using assms by (intro jobs_ok_return_job) simp_all
  have r: "?r \<in> set (jobs ?d)" "jobs_job_id ?r = jobs_job_id r"
    using assms(2) by (auto simp: return_job_def set_job_def set_sql_update)
  have "job_row_ok ?r"
    using ok r(1) by (auto simp: jobs_ok_def rows_ok_def)
  then have "job_row_ok (?u ?r)"
    by (simp add: job_row_ok_def jobs_check_def state_of_def)
  from jobs_ok_same_state [where u = ?u and s = RetryWait, OF ok r _ _ _ _ _ this]
  have "rows_ok (set_job (jobs_job_id r) ?u ?d)" "heads_ok (jobs (set_job (jobs_job_id r) ?u ?d))"
    "partitions_ok (set_job (jobs_job_id r) ?u ?d)" "receipts_ok (set_job (jobs_job_id r) ?u ?d)"
    by (simp_all add: keeps_key_def)
  moreover have "leases_recorded (set_job (jobs_job_id r) ?u ?d)"
    unfolding retry_job_eq [symmetric] retry_job_def
    using assms(1) by (intro leases_recorded_set_job) (simp_all add: jobs_ok_def)
  ultimately show ?thesis
    unfolding jobs_ok_def retry_job_eq by blast
qed

lemma jobs_ok_apply_fail:
  assumes "tx_yields (apply_fail t now_ms f) d u d'" "jobs_ok d"
  shows "jobs_ok d'"
  using assms(1) jobs_ok_rows [OF assms(2)]
proof (cases rule: apply_fail_yields)
  case (dead r)
  then show ?thesis using assms(2) by (simp add: jobs_ok_finish_job)
next
  case (retry r m)
  then show ?thesis using assms(2) by (simp add: jobs_ok_retry_job)
qed

lemma apply_cancel_yields:
  assumes "tx_yields (apply_cancel t now_ms c) d u d'" "rows_ok d"
  obtains r where "r \<in> set (jobs d)" "jobs_job_id r = as_bytes (cancel_job_id c)"
    "case cancel_lease_token c of
       Some token \<Rightarrow> state_of r = Leased \<and> jobs_lease_token r = Some (as_bytes token)
     | None \<Rightarrow> state_of r = Pending"
    "d' = finish_job r Cancelled now_ms t None None d"
proof -
  obtain j e where "tx_yields (require_job (cancel_job_id c)) d j e"
    and rest: "tx_yields (tx_bind (tx_lift (ensure_transition j Cancelled)) (\<lambda>_.
     tx_bind (tx_lift (case cancel_lease_token c of
         Some token \<Rightarrow> ensure_lease_token j token
       | None \<Rightarrow> if row_state j = Pending then Inr ()
           else Inl (Error_Validation (CancelRequiresToken (row_job_id j))))) (\<lambda>_.
     tx_map_err Error_Storage (set_terminal j Cancelled now_ms t None None)))) e u d'"
    using yields_bind [OF assms(1) [unfolded apply_cancel_def]] by blast
  then obtain r where r: "r \<in> set (jobs d)" "jobs_job_id r = as_bytes (cancel_job_id c)"
    and j: "j = decoded_job r" and ok: "job_row_ok r" and e: "e = d"
    using assms(2) by (auto elim: require_job_yields)
  from rest obtain a b where "can_transition_to (state_of r) Cancelled"
    and token: "tx_yields (tx_lift (case cancel_lease_token c of
         Some token \<Rightarrow> ensure_lease_token j token
       | None \<Rightarrow> if row_state j = Pending then Inr ()
           else Inl (Error_Validation (CancelRequiresToken (row_job_id j))))) d a b"
    and final: "tx_yields (set_terminal j Cancelled now_ms t None None) b u d'"
    unfolding j e by (auto dest!: yields_bind yields_map_err dest: ensure_transition_yields)
  have "b = d"
    using yields_lift [OF token] by simp
  then have "d' = finish_job r Cancelled now_ms t None None d"
    using set_terminal_yields [OF final [unfolded j] ok] by simp
  with r show thesis
    using token ok unfolding j
    by (intro that) (auto split: option.splits if_splits dest!: yields_lift
        dest: ensure_lease_token_Inr)
qed

lemma jobs_ok_apply_cancel:
  assumes "tx_yields (apply_cancel t now_ms c) d u d'" "jobs_ok d"
  shows "jobs_ok d'"
  using assms(1) jobs_ok_rows [OF assms(2)]
  by (rule apply_cancel_yields) (simp add: jobs_ok_finish_job assms(2))

text \<open>
  A resolution applies to an uncertain job, and to a leased one as well: nothing but the state
  machine restricts it, and that lets a leased job end or return without its token.
\<close>

lemma apply_resolve_yields:
  assumes "tx_yields (apply_resolve t now_ms c) d u d'" "rows_ok d"
  obtains (retry) r where "r \<in> set (jobs d)" "jobs_job_id r = as_bytes (resolve_job_id c)"
      "state_of r = Leased \<or> state_of r = Uncertain" "resolve_resolution c = Retry"
      "jobs_attempt r < jobs_max_attempts r" "d' = return_job r Pending None t d"
  | (finish) r s g where "r \<in> set (jobs d)" "jobs_job_id r = as_bytes (resolve_job_id c)"
      "state_of r = Leased \<or> state_of r = Uncertain"
      "s = Succeeded \<and> resolve_resolution c = MarkSucceeded \<or>
       s = Dead \<and> (resolve_resolution c = MarkDead \<or>
         resolve_resolution c = Retry \<and> \<not> jobs_attempt r < jobs_max_attempts r)"
      "g = (case resolve_resolution c of MarkSucceeded \<Rightarrow> None | MarkDead \<Rightarrow> Some ''resolved as dead''
         | Retry \<Rightarrow> Some ''retry resolution exhausted max_attempts'')"
      "d' = finish_job r s now_ms t None g d"
proof -
  obtain j e where load: "tx_yields (require_job (resolve_job_id c)) d j e"
    and rest: "tx_yields (case resolve_resolution c of
       Retry \<Rightarrow>
         (if row_max_attempts j \<le> row_attempt j
          then tx_bind (tx_lift (ensure_transition j Dead)) (\<lambda>_.
            tx_map_err Error_Storage (set_terminal j Dead now_ms t None
              (Some ''retry resolution exhausted max_attempts'')))
          else tx_bind (tx_lift (ensure_transition j Pending)) (\<lambda>_.
            tx_map_err Error_Storage
              (set_nonterminal (row_job_id j) Pending None t)))
     | MarkSucceeded \<Rightarrow>
         tx_bind (tx_lift (ensure_transition j Succeeded)) (\<lambda>_.
         tx_map_err Error_Storage (set_terminal j Succeeded now_ms t None None))
     | MarkDead \<Rightarrow>
         tx_bind (tx_lift (ensure_transition j Dead)) (\<lambda>_.
         tx_map_err Error_Storage
           (set_terminal j Dead now_ms t None (Some ''resolved as dead'')))) e u d'"
    using yields_bind [OF assms(1) [unfolded apply_resolve_def]] by blast
  from load assms(2) obtain r where r: "r \<in> set (jobs d)" "jobs_job_id r = as_bytes (resolve_job_id c)"
    and j: "j = decoded_job r" and ok: "job_row_ok r" and e: "e = d"
    by (rule require_job_yields)
  have finishes: "(state_of r = Leased \<or> state_of r = Uncertain) \<and> d' = finish_job r s now_ms t None g d"
    if "tx_yields (tx_bind (tx_lift (ensure_transition j s)) (\<lambda>_.
         tx_map_err Error_Storage (set_terminal j s now_ms t None g))) e u d'"
      and "s = Succeeded \<or> s = Dead" for s g
  proof -
    have "can_transition_to (state_of r) s \<and>
        tx_yields (set_terminal (decoded_job r) s now_ms t None g) d u d'"
      using that(1) unfolding j e
      by (auto dest!: yields_bind yields_map_err dest: ensure_transition_yields)
    then show ?thesis
      using that(2) set_terminal_yields [OF _ ok] by (cases "state_of r") auto
  qed
  show thesis
  proof (cases "resolve_resolution c")
    case Retry
    show ?thesis
    proof (cases "jobs_attempt r < jobs_max_attempts r")
      case True
      with rest Retry job_row_attempts(1) [OF ok] ok
      have "can_transition_to (state_of r) Pending \<and> d' = return_job r Pending None t d"
        unfolding j e
        by (auto dest!: yields_bind yields_map_err
            dest: ensure_transition_yields set_nonterminal_yields)
      moreover from this have "state_of r = Leased \<or> state_of r = Uncertain"
        by (cases "state_of r") auto
      ultimately show ?thesis
        using r True Retry by (intro retry) auto
    next
      case False
      then have "row_max_attempts j \<le> row_attempt j"
        using job_row_attempts(1) [OF ok] j by simp
      with rest Retry have "tx_yields (tx_bind (tx_lift (ensure_transition j Dead)) (\<lambda>_.
            tx_map_err Error_Storage (set_terminal j Dead now_ms t None
              (Some ''retry resolution exhausted max_attempts'')))) e u d'" by simp
      from finishes [OF this] r Retry False show ?thesis by (intro finish) auto
    qed
  next
    case MarkSucceeded
    with rest have "tx_yields (tx_bind (tx_lift (ensure_transition j Succeeded)) (\<lambda>_.
         tx_map_err Error_Storage (set_terminal j Succeeded now_ms t None None))) e u d'" by simp
    from finishes [OF this] r MarkSucceeded show ?thesis by (intro finish) auto
  next
    case MarkDead
    with rest have "tx_yields (tx_bind (tx_lift (ensure_transition j Dead)) (\<lambda>_.
         tx_map_err Error_Storage
           (set_terminal j Dead now_ms t None (Some ''resolved as dead'')))) e u d'" by simp
    from finishes [OF this] r MarkDead show ?thesis by (intro finish) auto
  qed
qed

lemma jobs_ok_apply_resolve:
  assumes "tx_yields (apply_resolve t now_ms c) d u d'" "jobs_ok d"
  shows "jobs_ok d'"
  using assms(1) jobs_ok_rows [OF assms(2)]
proof (cases rule: apply_resolve_yields)
  case (retry r)
  then show ?thesis using assms(2) by (auto intro!: jobs_ok_return_job)
next
  case (finish r s g)
  then show ?thesis using assms(2) by (auto intro!: jobs_ok_finish_job)
qed

section \<open>Extend a lease, enqueue\<close>

definition extend_job :: "jobs_row \<Rightarrow> id \<Rightarrow> i64 \<Rightarrow> db \<Rightarrow> db" where
  "extend_job r token expiry d =
     (set_job (jobs_job_id r) (\<lambda>r. r\<lparr>jobs_lease_expires_at_ms := Some expiry\<rparr>) d)
       \<lparr>claim_receipts := sql_update
          (\<lambda>c. cr_job_id c = jobs_job_id r \<and> cr_lease_token c = as_bytes token)
          (\<lambda>c. c\<lparr>cr_lease_expires_at_ms := expiry\<rparr>) (claim_receipts d)\<rparr>"

lemma apply_extend_lease_yields:
  assumes "tx_yields (apply_extend_lease x now_ms) d receipt d'" "rows_ok d"
  obtains r e where "r \<in> set (jobs d)" "jobs_job_id r = as_bytes (extend_job_id x)"
    "state_of r = Leased" "jobs_lease_token r = Some (as_bytes (extend_lease_token x))"
    "jobs_lease_expires_at_ms r = Some e" "now_ms \<le> e" "e < extend_new_expiry_ms x"
    "d' = extend_job r (extend_lease_token x) (extend_new_expiry_ms x) d"
    "receipt = \<lparr>ext_receipt_job_id = extend_job_id x,
       ext_receipt_attempt = row_attempt (decoded_job r),
       ext_receipt_lease_expires_at_ms = extend_new_expiry_ms x\<rparr>"
proof -
  from assms(1) obtain found b j where load: "tx_yields (load_job (extend_job_id x)) d found b"
    and j: "found = Some j" and leased: "row_state j = Leased"
    and token: "row_lease_token j = Some (extend_lease_token x)"
    and fresh: "\<not> (case row_lease_expires_at_ms j of Some e \<Rightarrow> e | None \<Rightarrow> i64_min) < now_ms"
    and later: "\<not> extend_new_expiry_ms x \<le> (case row_lease_expires_at_ms j of Some e \<Rightarrow> e | None \<Rightarrow> i64_min)"
    and receipt: "receipt = \<lparr>ext_receipt_job_id = extend_job_id x, ext_receipt_attempt = row_attempt j,
       ext_receipt_lease_expires_at_ms = extend_new_expiry_ms x\<rparr>"
    and d': "d' = (set_job (as_bytes (extend_job_id x))
        (\<lambda>r. r\<lparr>jobs_lease_expires_at_ms := Some (extend_new_expiry_ms x)\<rparr>) b)
       \<lparr>claim_receipts := sql_update (\<lambda>c. cr_job_id c = as_bytes (extend_job_id x) \<and>
           cr_lease_token c = as_bytes (extend_lease_token x))
          (\<lambda>c. c\<lparr>cr_lease_expires_at_ms := extend_new_expiry_ms x\<rparr>) (claim_receipts b)\<rparr>"
    unfolding apply_extend_lease_def Let_def by (auto dest!: yields update_job_Inr)
  from load_job_yields [OF load assms(2)] j obtain r where b: "b = d" and r: "r \<in> set (jobs d)"
    "jobs_job_id r = as_bytes (extend_job_id x)" "j = decoded_job r" by blast
  have ok: "job_row_ok r"
    using r(1) assms(2) by (simp add: rows_ok_def)
  obtain e where e: "jobs_lease_expires_at_ms r = Some e"
    using leased_has_lease [OF ok] leased r(3) by auto
  have "jobs_lease_token r = Some (as_bytes (extend_lease_token x))"
    using token row_token_iff [OF ok] unfolding r(3) by blast
  then show thesis
    using r leased fresh later receipt d' e
    by (intro that [of r e]) (simp_all add: extend_job_def b not_less not_le)
qed

lemma jobs_ok_apply_extend_lease:
  assumes "tx_yields (apply_extend_lease x now_ms) d receipt d'" "jobs_ok d"
  shows "jobs_ok d'"
  using assms(1) jobs_ok_rows [OF assms(2)]
proof (cases rule: apply_extend_lease_yields)
  case (1 r e)
  let ?u = "\<lambda>r. r\<lparr>jobs_lease_expires_at_ms := Some (extend_new_expiry_ms x)\<rparr>"
  let ?i = "jobs_job_id r" and ?tok = "as_bytes (extend_lease_token x)"
  have ok: "job_row_ok r" and rows: "rows_ok d"
    using 1(1) assms(2) by (simp_all add: jobs_ok_def rows_ok_def)
  have state: "jobs_state r = job_state_encode Leased"
    using jobs_state_encode [OF ok] 1(3) by simp
  have "job_row_ok (?u r)"
    using ok 1(5) state by (simp add: job_row_ok_def jobs_check_def state_of_def)
  from jobs_ok_same_state [where u = ?u and s = Leased, OF assms(2) 1(1) refl _ state _ _ _ this]
  have parts: "rows_ok (set_job ?i ?u d)" "heads_ok (jobs (set_job ?i ?u d))"
    "partitions_ok (set_job ?i ?u d)" "receipts_ok (set_job ?i ?u d)"
    using state by (simp_all add: keeps_key_def)
  have "map (\<lambda>c. (cr_transaction_id c, cr_job_id c)) (claim_receipts d') =
      map (\<lambda>c. (cr_transaction_id c, cr_job_id c)) (claim_receipts d)"
    by (simp add: 1(8) extend_job_def map_sql_update)
  moreover have "jobs_job_id ` set (jobs d') = jobs_job_id ` set (jobs d)"
    by (simp add: 1(8) extend_job_def keeps_key_def)
  moreover have "transaction_exists t d' = transaction_exists t d" for t
    by (simp add: 1(8) extend_job_def)
  moreover have "\<exists>b \<in> set (claim_receipts d). cr_transaction_id c = cr_transaction_id b \<and>
      cr_job_id c = cr_job_id b \<and> cr_lease_token c = cr_lease_token b"
    if "c \<in> set (claim_receipts d')" for c
    using that by (auto simp: 1(8) extend_job_def set_sql_update split: if_splits)
  ultimately have receipts: "receipts_ok d'"
    using assms(2) unfolding jobs_ok_def receipts_ok_def by metis
  have "\<exists>c \<in> set (claim_receipts d'). records_lease c y"
    if y: "y \<in> set (jobs d')" "jobs_state y = job_state_encode Leased" for y
  proof -
    obtain z where z: "z \<in> set (jobs d)" "y = (if jobs_job_id z = ?i then ?u z else z)"
      using y(1) by (auto simp: 1(8) extend_job_def elim: in_set_job)
    then have "jobs_state z = job_state_encode Leased"
      using y(2) by (simp split: if_splits)
    then obtain c where c: "c \<in> set (claim_receipts d)" "records_lease c z"
      using assms(2) z(1) by (auto simp: jobs_ok_def leases_recorded_def)
    show ?thesis
    proof (cases "jobs_job_id z = ?i")
      case True
      then have "z = r"
        using job_by_id [OF rows z(1) 1(1)] by simp
      with c 1(4) have "cr_job_id c = ?i \<and> cr_lease_token c = ?tok"
        by (simp add: records_lease_def)
      then have "c\<lparr>cr_lease_expires_at_ms := extend_new_expiry_ms x\<rparr> \<in> set (claim_receipts d')"
        using c(1) by (auto simp: 1(8) extend_job_def set_sql_update)
      moreover have "records_lease (c\<lparr>cr_lease_expires_at_ms := extend_new_expiry_ms x\<rparr>) y"
        using c(2) z(2) True by (simp add: records_lease_def)
      ultimately show ?thesis by blast
    next
      case False
      with c have "cr_job_id c \<noteq> ?i"
        by (simp add: records_lease_def)
      then have "c \<in> set (claim_receipts d')"
        using c(1) by (force simp: 1(8) extend_job_def set_sql_update)
      with c(2) z(2) False show ?thesis by auto
    qed
  qed
  then have "leases_recorded d'"
    by (simp add: leases_recorded_def)
  moreover have "rows_ok d'" "heads_ok (jobs d')" "partitions_ok d'"
    using parts(1-3) by (simp_all add: 1(8) extend_job_def rows_ok_def partitions_ok_def)
  ultimately show ?thesis
    using receipts by (simp add: jobs_ok_def)
qed

lemma new_jobs_row_sel [simp]:
  "jobs_job_id (new_jobs_row t spec n) = as_bytes (spec_job_id spec)"
  "jobs_enqueue_sequence (new_jobs_row t spec n) = n"
  "jobs_enqueue_transaction_id (new_jobs_row t spec n) = as_bytes t"
  "jobs_queue (new_jobs_row t spec n) = spec_queue spec"
  "jobs_partition_key (new_jobs_row t spec n) = spec_partition_key spec"
  "jobs_state (new_jobs_row t spec n) = job_state_encode Pending"
  "state_of (new_jobs_row t spec n) = Pending"
  by (simp_all add: new_jobs_row_def state_of_def job_state_decode_def)

lemma new_jobs_row_ok:
  assumes "jobs_check (new_jobs_row t spec n)"
  shows "job_row_ok (new_jobs_row t spec n)"
proof -
  have "u32_try_from (I64 0) = Some 0"
    by (simp add: u32_try_from_def i64_as_u32_def)
  with assms show ?thesis
    by (simp add: job_row_ok_def new_jobs_row_def jobs_check_def job_state_decode_def)
qed

lemma apply_enqueue_yields:
  assumes "tx_yields (apply_enqueue t spec) d u d'" "rows_ok d"
  obtains n where "i64_int n = int (length (jobs d)) + 1"
    "as_bytes (spec_job_id spec) \<notin> jobs_job_id ` set (jobs d)"
    "job_row_ok (new_jobs_row t spec n)" "transaction_exists (as_bytes t) d"
    "d' = activate_partition (spec_queue spec) (spec_partition_key spec) n
       (d\<lparr>jobs := jobs d @ [new_jobs_row t spec n]\<rparr>)"
proof -
  from assms(1) obtain n b e where load: "tx_yields (load_job (spec_job_id spec)) d None e"
    and n: "sql_max_plus_one (map jobs_enqueue_sequence (jobs e)) = Inr n"
    and b: "insert_jobs (new_jobs_row t spec n) e = Inr b"
    and d': "d' = activate_partition (spec_queue spec) (spec_partition_key spec) n b"
    unfolding apply_enqueue_def by (auto dest!: yields)
  have e: "e = d" and fresh: "as_bytes (spec_job_id spec) \<notin> jobs_job_id ` set (jobs d)"
    using load_job_yields [OF load assms(2)] by auto
  have "numbered (map jobs_enqueue_sequence (jobs d))"
    using assms(2) by (simp add: rows_ok_def)
  with n have "i64_int n = int (length (jobs d)) + 1"
    unfolding e by (simp add: sql_max_plus_one_numbered)
  with fresh b d' show thesis
    unfolding e by (intro that [of n]) (auto simp: insert_jobs_def intro: new_jobs_row_ok)
qed

lemma activate_tables [simp]:
  "jobs (activate_partition q p n d) = jobs d"
  "claim_receipts (activate_partition q p n d) = claim_receipts d"
  "transaction_exists t (activate_partition q p n d) = transaction_exists t d"
  by (simp_all add: activate_partition_def)

lemma activate_keys:
  "fst ` set (active_partitions (activate_partition q p n d)) =
     insert (q, p) (fst ` set (active_partitions d))"
  by (auto simp: activate_partition_def map_of_eq_None_iff dest: map_of_SomeD intro: rev_image_eqI)

lemma jobs_ok_apply_enqueue:
  assumes "tx_yields (apply_enqueue t spec) d u d'" "jobs_ok d"
  shows "jobs_ok d'"
  using assms(1) jobs_ok_rows [OF assms(2)]
proof (cases rule: apply_enqueue_yields)
  case (1 n)
  let ?r = "new_jobs_row t spec n"
  have ok: "rows_ok d" "heads_ok (jobs d)" "partitions_ok d" "receipts_ok d" "leases_recorded d"
    using assms(2) by (simp_all add: jobs_ok_def)
  have part: "partition_jobs (jobs d') q p =
      partition_jobs (jobs d) q p @ (if spec_queue spec = q \<and> spec_partition_key spec = p then [?r] else [])" for q p
    by (simp add: 1(5) partition_jobs_def is_active_in_def active_states_sql_def)
  have "rows_ok d'"
    using ok(1) 1(1-4) by (auto simp: rows_ok_def 1(5))
  moreover have "heads_ok (jobs d')"
    unfolding heads_ok_def part
  proof (intro allI ballI)
    fix q p r
    let ?new = "if spec_queue spec = q \<and> spec_partition_key spec = p then [?r] else []"
    assume "r \<in> set (tl (partition_jobs (jobs d) q p @ ?new))"
    then have "r \<in> set (tl (partition_jobs (jobs d) q p)) \<or> r \<in> set ?new"
      by (cases "partition_jobs (jobs d) q p") (auto dest: in_tl)
    with ok(2) show "jobs_state r = job_state_encode Pending"
      unfolding heads_ok_def by (auto split: if_splits)
  qed
  moreover have "partitions_ok d'"
  proof -
    have "distinct (map fst (active_partitions d'))"
      using ok(3) by (auto simp: 1(5) activate_partition_def partitions_ok_def map_of_eq_None_iff)
    then show ?thesis
      using ok(3) unfolding partitions_ok_def part
      by (auto simp: 1(5) activate_keys)
  qed
  moreover have "receipts_ok d'"
    using ok(4) by (auto simp: receipts_ok_def 1(5))
  moreover have "leases_recorded d'"
    using ok(5) by (auto simp: leases_recorded_def 1(5))
  ultimately show ?thesis by (simp add: jobs_ok_def)
qed

end
