(* ===== verification/Checksum.thy ===== *)
theory Checksum
  imports Identifiers
begin

text \<open>
  The FNV-1a-128 checksum of \<open>src/store/migrations.rs\<close>, which the claims use as request digest
  as well.
\<close>

definition fnv_offset_basis :: "128 word" where
  "fnv_offset_basis = 0x6c62272e07bb014262b821756295c58d"

definition fnv_prime :: "128 word" where
  "fnv_prime = 0x0000000001000000000000000000013b"

definition checksum :: "string \<Rightarrow> blob" where
  "checksum sql = be_bytes 16 (foldl (\<lambda>state b. (xor state (ucast (b :: u8))) * fnv_prime)
     fnv_offset_basis (str_bytes sql))"

lemma length_checksum [simp]: "length (checksum s) = 16"
  by (simp add: checksum_def)

end
