(* ===== verification/Store_Claims.thy ===== *)
theory Store_Claims
  imports Job_Steps Checksum
begin

text \<open>
  The claim algorithm of \<open>src/store/jobs.rs\<close>: expired-lease maintenance, the round-robin over
  the active partitions of a queue, the grants, the cursor, and the recovery of an
  indeterminate claim. A claim is one transaction; maintenance and leases are planned before
  it writes.
\<close>

section \<open>Planning\<close>

record maintenance_action =
  action_job :: job_row
  action_to :: job_state

record proposed_lease =
  lease_job :: job_row
  lease_lease_token :: id

definition maintenance_limit :: usize where "maintenance_limit = 64"

text \<open>A comparison with NULL is no match; an \<open>ORDER BY\<close> would put NULL first.\<close>

definition expired_before :: "i64 \<Rightarrow> jobs_row \<Rightarrow> bool" where
  "expired_before now_ms r =
     (case jobs_lease_expires_at_ms r of Some e \<Rightarrow> e < now_ms | None \<Rightarrow> False)"

definition expiry_key :: "jobs_row \<Rightarrow> i64" where
  "expiry_key r = (case jobs_lease_expires_at_ms r of Some e \<Rightarrow> e | None \<Rightarrow> i64_min)"

definition maintenance_target :: "job_row \<Rightarrow> job_state" where
  "maintenance_target job =
     (case row_effect_mode job of
        RequiresReconciliation \<Rightarrow> Uncertain
      | ExplicitlyIdempotent \<Rightarrow> if row_max_attempts job \<le> row_attempt job then Dead else Pending)"

definition plan_maintenance :: "claim_request \<Rightarrow> (storage_error, maintenance_action list) tx" where
  "plan_maintenance req =
     tx_bind (query (\<lambda>d. Inr (sql_limit (u64_as_i64 maintenance_limit) (sort_key expiry_key
       (filter (\<lambda>r. jobs_queue r = req_queue req \<and> jobs_state r = job_state_encode Leased \<and>
          expired_before (req_now_ms req) r) (jobs d))))))
     (\<lambda>rows. tx_bind (tx_lift (map_result row_to_job rows)) (\<lambda>js.
     tx_return (map (\<lambda>j. \<lparr>action_job = j, action_to = maintenance_target j\<rparr>) js)))"

definition job_ready :: "i64 \<Rightarrow> job_row \<Rightarrow> bool" where
  "job_ready now_ms job =
     (case row_state job of
        Pending \<Rightarrow> row_not_before_ms job \<le> now_ms
      | RetryWait \<Rightarrow> row_not_before_ms job \<le> now_ms \<and>
          (case row_retry_after_ms job of Some t \<Rightarrow> t | None \<Rightarrow> i64_min) \<le> now_ms
      | _ \<Rightarrow> False)"

text \<open>The first nonterminal job of a partition.\<close>

definition partition_head :: "string \<Rightarrow> string \<Rightarrow> (storage_error, job_row option) tx" where
  "partition_head q p =
     tx_bind (query (\<lambda>d. Inr (sql_limit (I64 1)
       (sort_key jobs_enqueue_sequence (filter (is_active_in q p) (jobs d))))))
     (\<lambda>rows. tx_lift (map_transpose row_to_job (case rows of [] \<Rightarrow> None | r # _ \<Rightarrow> Some r)))"

fun lease_loop :: "claim_request \<Rightarrow> proposed_lease list \<Rightarrow> string option \<Rightarrow> string list \<Rightarrow>
    (error, proposed_lease list \<times> string option) tx" where
  "lease_loop req leases last_leased [] = tx_return (leases, last_leased)"
| "lease_loop req leases last_leased (p # ps) =
     (if unat (req_limit req) \<le> length leases then tx_return (leases, last_leased)
      else tx_bind (tx_map_err Error_Storage (partition_head (req_queue req) p)) (\<lambda>head.
        case head of
          None \<Rightarrow> lease_loop req leases last_leased ps
        | Some job \<Rightarrow>
            if \<not> job_ready (req_now_ms req) job then lease_loop req leases last_leased ps
            else tx_bind tx_random_id (\<lambda>token.
              lease_loop req (leases @ [\<lparr>lease_job = job, lease_lease_token = token\<rparr>]) (Some p) ps)))"

text \<open>The partitions in the order of the round: those after the cursor, then those up to it.\<close>

definition partition_point :: "('a \<Rightarrow> bool) \<Rightarrow> 'a list \<Rightarrow> nat" where
  "partition_point pred xs = length (takeWhile pred xs)"

definition claim_order :: "string option \<Rightarrow> string list \<Rightarrow> string list" where
  "claim_order cursor partitions =
     (let start = (case cursor of
          Some c \<Rightarrow> partition_point (\<lambda>p. p \<le> c) partitions
        | None \<Rightarrow> 0)
      in drop start partitions @ take start partitions)"

definition queue_partitions :: "string \<Rightarrow> db \<Rightarrow> string list" where
  "queue_partitions q d =
     sort (map (\<lambda>a. snd (fst a)) (filter (\<lambda>a. fst (fst a) = q) (active_partitions d)))"

fun flatten :: "'a option option \<Rightarrow> 'a option" where
  "flatten (Some x) = x"
| "flatten None = None"

definition plan_leases ::
  "claim_request \<Rightarrow> (error, proposed_lease list \<times> string option) tx" where
  "plan_leases req =
     (if req_limit req = 0 then tx_return ([], None)
      else
        tx_bind (tx_map_err Error_Storage (query (\<lambda>d.
          Inr (flatten (map_of (queue_cursors d) (req_queue req)))))) (\<lambda>cursor.
        tx_bind (tx_map_err Error_Storage (query (\<lambda>d.
          Inr (queue_partitions (req_queue req) d)))) (\<lambda>partitions.
        lease_loop req [] None (claim_order cursor partitions))))"

section \<open>Executing a claim\<close>

definition claim_digest_text :: "id \<Rightarrow> claim_request \<Rightarrow> string" where
  "claim_digest_text transaction_id req =
     ''claim:'' @ to_hex transaction_id @ '':'' @ req_queue req @ '':'' @ req_worker_id req @ '':'' @
     show_i64 (req_now_ms req) @ '':'' @ show_i64 (req_lease_ms req) @ '':'' @
     show_usize (req_limit req)"

definition claim_transaction_row :: "id \<Rightarrow> claim_request \<Rightarrow> nat \<Rightarrow> i64 \<Rightarrow> transactions_row" where
  "claim_transaction_row transaction_id req operation_count sequence = \<lparr>
     tx_transaction_id = as_bytes transaction_id, tx_transaction_sequence = sequence,
     tx_committed_at_ms = req_now_ms req, tx_correlation_id = None, tx_metadata = [],
     tx_request_digest = checksum (claim_digest_text transaction_id req),
     tx_operation_count = u64_as_i64 (word_of_nat operation_count)\<rparr>"

definition next_transaction_sequence :: "(storage_error, i64) tx" where
  "next_transaction_sequence =
     query (\<lambda>d. sql_max_plus_one (map tx_transaction_sequence (transactions d)))"

definition insert_claim_transaction :: "id \<Rightarrow> claim_request \<Rightarrow> nat \<Rightarrow> (storage_error, unit) tx" where
  "insert_claim_transaction transaction_id req operation_count =
     tx_bind next_transaction_sequence (\<lambda>sequence.
     execute (insert_transactions (claim_transaction_row transaction_id req operation_count sequence)))"

definition perform_maintenance :: "claim_request \<Rightarrow> id \<Rightarrow> maintenance_action \<Rightarrow> (claim_error, unit) tx" where
  "perform_maintenance req transaction_id action =
     tx_bind (tx_map_err error_to_claim
       (tx_lift (ensure_transition (action_job action) (action_to action)))) (\<lambda>_.
     tx_map_err ClaimError_Storage
       (case action_to action of
          Dead \<Rightarrow> set_terminal (action_job action) Dead (req_now_ms req) transaction_id None
            (Some ''lease expired at final attempt'')
        | to \<Rightarrow> set_nonterminal (row_job_id (action_job action)) to None transaction_id))"

definition leased_row :: "u32 \<Rightarrow> id \<Rightarrow> string \<Rightarrow> i64 \<Rightarrow> id \<Rightarrow> jobs_row \<Rightarrow> jobs_row" where
  "leased_row attempt token worker_id expires_at transaction_id r =
     r\<lparr>jobs_state := job_state_encode Leased, jobs_attempt := i64_from_u32 attempt,
       jobs_lease_token := Some (as_bytes token), jobs_worker_id := Some worker_id,
       jobs_lease_expires_at_ms := Some expires_at, jobs_retry_after_ms := None,
       jobs_updated_transaction_id := as_bytes transaction_id\<rparr>"

definition claimed_of :: "claim_request \<Rightarrow> i64 \<Rightarrow> proposed_lease \<Rightarrow> claimed_job" where
  "claimed_of req expires_at lease = \<lparr>
     claimed_job_id = row_job_id (lease_job lease), claimed_queue = row_queue (lease_job lease),
     claimed_partition_key = row_partition_key (lease_job lease),
     claimed_payload = row_payload (lease_job lease), claimed_worker_id = req_worker_id req,
     claimed_lease_token = lease_lease_token lease, claimed_attempt = row_attempt (lease_job lease) + 1,
     claimed_lease_expires_at_ms = expires_at,
     claimed_idempotency_key = row_idempotency_key (lease_job lease)\<rparr>"

definition grant_lease :: "claim_request \<Rightarrow> i64 \<Rightarrow> id \<Rightarrow> claimed_job list \<Rightarrow> proposed_lease \<Rightarrow>
    (claim_error, claimed_job list) tx" where
  "grant_lease req expires_at transaction_id claimed lease =
     (let job_id = as_bytes (row_job_id (lease_job lease));
          attempt = row_attempt (lease_job lease) + 1;
          token = lease_lease_token lease in
     tx_map_err ClaimError_Storage (
       tx_bind (execute (update_job job_id
         (leased_row attempt token (req_worker_id req) expires_at transaction_id))) (\<lambda>_.
       tx_bind (execute (insert_claim_receipts \<lparr>cr_transaction_id = as_bytes transaction_id,
         cr_job_id = job_id, cr_lease_token = as_bytes token, cr_attempt = i64_from_u32 attempt,
         cr_worker_id = req_worker_id req, cr_lease_expires_at_ms = expires_at\<rparr>)) (\<lambda>_.
       tx_return (claimed @ [claimed_of req expires_at lease])))))"

definition advance_cursor :: "claim_request \<Rightarrow> string option \<Rightarrow> (claim_error, unit) tx" where
  "advance_cursor req last_leased =
     (case last_leased of
        None \<Rightarrow> tx_return ()
      | Some p \<Rightarrow> tx_map_err ClaimError_Storage (execute (\<lambda>d. Inr (d\<lparr>queue_cursors :=
          AList.update (req_queue req) (Some p) (queue_cursors d)\<rparr>))))"

text \<open>The transaction: nothing to do rolls back, otherwise its ID and the grants reach COMMIT.\<close>

definition claim_body :: "claim_request \<Rightarrow> i64 \<Rightarrow>
    (claim_error, (unit, id \<times> claimed_job list) tx_end) tx" where
  "claim_body req expires_at =
     tx_bind (tx_map_err ClaimError_Storage (plan_maintenance req)) (\<lambda>maintenance.
     tx_bind (tx_map_err error_to_claim (plan_leases req)) (\<lambda>(leases, last_leased).
     if maintenance = [] \<and> leases = [] then tx_return (Roll_Back ())
     else
     tx_bind (tx_map_err error_to_claim tx_random_id) (\<lambda>transaction_id.
     tx_bind (tx_map_err ClaimError_Storage (insert_claim_transaction transaction_id req
       (length maintenance + length leases))) (\<lambda>_.
     tx_bind (tx_for_each (perform_maintenance req transaction_id) maintenance) (\<lambda>_.
     tx_bind (tx_fold (grant_lease req expires_at transaction_id) [] leases) (\<lambda>claimed.
     tx_bind (advance_cursor req last_leased) (\<lambda>_.
     tx_return (To_Commit (transaction_id, claimed)))))))))"

definition claim_indeterminate :: "id \<times> claimed_job list \<Rightarrow> indeterminate_cause \<Rightarrow> claim_error" where
  "claim_indeterminate p cause = ClaimError_Indeterminate \<lparr>icl_transaction_id = fst p,
     icl_proposed_jobs = map claimed_job_id (snd p), icl_storage_error = cause\<rparr>"

fun claim_outcome_of :: "(unit, id \<times> claimed_job list) tx_end \<Rightarrow> claim_outcome" where
  "claim_outcome_of (Roll_Back _) = ClaimOutcome_Noop"
| "claim_outcome_of (To_Commit (transaction_id, claimed)) =
     (if claimed = [] then ClaimOutcome_MaintenanceCommitted transaction_id
      else ClaimOutcome_Committed \<lparr>claims_transaction_id = transaction_id, claims_jobs = claimed,
        claims_stale_jobs = []\<rparr>)"

definition validate_claim :: "claim_request \<Rightarrow> validation_error + i64" where
  "validate_claim req =
     err_bind (ensure (req_queue req \<noteq> []) ClaimQueueEmpty) (\<lambda>_.
     err_bind (ensure (req_worker_id req \<noteq> []) ClaimWorkerEmpty) (\<lambda>_.
     err_bind (ensure (\<not> req_lease_ms req \<le> I64 0) ClaimLeaseNotPositive) (\<lambda>_.
     ok_or (i64_checked_add (req_now_ms req) (req_lease_ms req)) LeaseExpiryOverflow)))"

definition claim_jobs :: "env \<Rightarrow> claim_request \<Rightarrow> db \<Rightarrow> (claim_error + claim_outcome) \<times> db" where
  "claim_jobs e req d =
     (case validate_claim req of
        Inl v \<Rightarrow> (Inl (ClaimError_Validation v), d)
      | Inr expires_at \<Rightarrow>
          (let (r, d') = run_tx e ClaimError_Storage claim_indeterminate (claim_body req expires_at) d
           in (err_bind r (\<lambda>x. Inr (claim_outcome_of x)), d')))"

section \<open>Extending a lease\<close>

definition lease_indeterminate :: "lease_extension_receipt \<Rightarrow> indeterminate_cause \<Rightarrow> lease_error" where
  "lease_indeterminate receipt cause = LeaseError_Indeterminate
     \<lparr>il_job_id = ext_receipt_job_id receipt, il_storage_error = cause\<rparr>"

fun committed_value :: "('a, 'a) tx_end \<Rightarrow> 'a" where
  "committed_value (Roll_Back x) = x"
| "committed_value (To_Commit x) = x"

definition extend_lease :: "env \<Rightarrow> id \<Rightarrow> id \<Rightarrow> i64 \<Rightarrow> i64 \<Rightarrow> db \<Rightarrow>
    (lease_error + lease_extension_receipt) \<times> db" where
  "extend_lease e job_id lease_token new_expiry_ms now_ms d =
     (let (r, d') = run_tx e LeaseError_Storage lease_indeterminate
        (tx_bind (apply_extend_lease \<lparr>extend_job_id = job_id, extend_lease_token = lease_token,
           extend_new_expiry_ms = new_expiry_ms\<rparr> now_ms) (\<lambda>receipt. tx_return (To_Commit receipt))) d
      in (err_bind r (\<lambda>x. Inr (committed_value x)), d'))"

section \<open>Recovering a claim\<close>

text \<open>A receipt of the transaction, decoded: a live lease or a stale job.\<close>

definition recover_row :: "i64 \<Rightarrow> claim_receipts_row \<times> jobs_row \<Rightarrow> storage_error + claimed_job + id" where
  "recover_row now_ms = (\<lambda>(c, j).
     err_bind (id_from_blob (cr_job_id c)) (\<lambda>job_id.
     err_bind (id_from_blob (cr_lease_token c)) (\<lambda>lease_token.
     err_bind (if jobs_state j = job_state_encode Leased
               then err_bind (opt_id_from_blob (jobs_lease_token j))
                 (\<lambda>current_token. Inr (current_token = Some lease_token))
               else Inr False) (\<lambda>token_current.
     if token_current \<and>
        (case jobs_lease_expires_at_ms j of Some expiry \<Rightarrow> now_ms \<le> expiry | None \<Rightarrow> False)
     then Inr (Inl \<lparr>claimed_job_id = job_id, claimed_queue = jobs_queue j,
       claimed_partition_key = jobs_partition_key j, claimed_payload = jobs_payload j,
       claimed_worker_id = cr_worker_id c, claimed_lease_token = lease_token,
       claimed_attempt = i64_as_u32 (cr_attempt c),
       claimed_lease_expires_at_ms = cr_lease_expires_at_ms c,
       claimed_idempotency_key = jobs_idempotency_key j\<rparr>)
     else Inr (Inr job_id)))))"

text \<open>The join of \<open>claim_receipts\<close> with \<open>jobs\<close>, in the order of the job IDs.\<close>

definition receipt_rows :: "id \<Rightarrow> db \<Rightarrow> (claim_receipts_row \<times> jobs_row) list" where
  "receipt_rows transaction_id d =
     sort_key (\<lambda>x. cr_job_id (fst x))
       (concat (map (\<lambda>c. map (\<lambda>j. (c, j)) (filter (\<lambda>j. jobs_job_id j = cr_job_id c) (jobs d)))
         (filter (\<lambda>c. cr_transaction_id c = as_bytes transaction_id) (claim_receipts d))))"

definition lefts :: "('a + 'b) list \<Rightarrow> 'a list" where
  "lefts xs = concat (map (case_sum (\<lambda>x. [x]) (\<lambda>_. [])) xs)"

definition rights :: "('a + 'b) list \<Rightarrow> 'b list" where
  "rights xs = concat (map (case_sum (\<lambda>_. []) (\<lambda>x. [x])) xs)"

definition recover_claim :: "id \<Rightarrow> i64 \<Rightarrow> (recovery_error, claim_recovery) tx" where
  "recover_claim transaction_id now_ms = tx_map_err RecoveryError_Storage (
     tx_bind (query (\<lambda>d. Inr (receipt_rows transaction_id d))) (\<lambda>rows.
     tx_bind (tx_lift (map_result (recover_row now_ms) rows)) (\<lambda>rs.
     if rows \<noteq> [] then tx_return (ClaimRecovery_Committed \<lparr>claims_transaction_id = transaction_id,
       claims_jobs = lefts rs, claims_stale_jobs = rights rs\<rparr>)
     else tx_bind (query (\<lambda>d. Inr (transaction_exists (as_bytes transaction_id) d))) (\<lambda>committed.
       tx_return (if committed then ClaimRecovery_MaintenanceCommitted transaction_id
                  else ClaimRecovery_Absent)))))"

end
