(* ===== verification/Job_Evolution.thy ===== *)
theory Job_Evolution
  imports Job_Steps
begin

text \<open>
  How the jobs of a database may differ from those of an earlier one (\<open>job_evolves\<close>): every
  job is still there with the specification it was enqueued with, its attempts have not
  decreased, its state is reachable by the transitions of \<open>can_transition_to\<close>, and a job that
  was terminal has exactly the same row. Every operation of the store evolves the jobs.
\<close>

section \<open>Evolution\<close>

definition keeps_spec :: "(jobs_row \<Rightarrow> jobs_row) \<Rightarrow> bool" where
  "keeps_spec u \<longleftrightarrow> keeps_key u \<and> (\<forall>r. jobs_payload (u r) = jobs_payload r \<and>
     jobs_not_before_ms (u r) = jobs_not_before_ms r \<and>
     jobs_max_attempts (u r) = jobs_max_attempts r \<and>
     jobs_effect_mode (u r) = jobs_effect_mode r \<and>
     jobs_idempotency_key (u r) = jobs_idempotency_key r)"

definition same_spec :: "jobs_row \<Rightarrow> jobs_row \<Rightarrow> bool" where
  "same_spec r s \<longleftrightarrow> jobs_job_id s = jobs_job_id r \<and>
     jobs_enqueue_sequence s = jobs_enqueue_sequence r \<and>
     jobs_enqueue_transaction_id s = jobs_enqueue_transaction_id r \<and>
     jobs_queue s = jobs_queue r \<and> jobs_partition_key s = jobs_partition_key r \<and>
     jobs_payload s = jobs_payload r \<and> jobs_not_before_ms s = jobs_not_before_ms r \<and>
     jobs_max_attempts s = jobs_max_attempts r \<and> jobs_effect_mode s = jobs_effect_mode r \<and>
     jobs_idempotency_key s = jobs_idempotency_key r"

definition row_evolves :: "jobs_row \<Rightarrow> jobs_row \<Rightarrow> bool" where
  "row_evolves r s \<longleftrightarrow> same_spec r s \<and> jobs_attempt r \<le> jobs_attempt s \<and>
     can_transition_to\<^sup>*\<^sup>* (state_of r) (state_of s) \<and> (is_terminal (state_of r) \<longrightarrow> s = r)"

definition job_evolves :: "db \<Rightarrow> db \<Rightarrow> bool" where
  "job_evolves d d' \<longleftrightarrow> (\<forall>r \<in> set (jobs d). \<exists>s \<in> set (jobs d'). row_evolves r s)"

lemma row_evolves_refl [simp]: "row_evolves r r"
  by (simp add: row_evolves_def same_spec_def)

lemma row_evolves_trans: "row_evolves r s \<Longrightarrow> row_evolves s t \<Longrightarrow> row_evolves r t"
  unfolding row_evolves_def same_spec_def by (auto intro: order_trans rtranclp_trans)

lemma job_evolves_refl [simp]: "job_evolves d d"
  unfolding job_evolves_def by (blast intro: row_evolves_refl)

lemma job_evolves_trans: "job_evolves d e \<Longrightarrow> job_evolves e f \<Longrightarrow> job_evolves d f"
  unfolding job_evolves_def by (meson row_evolves_trans)

lemma job_evolves_jobs: "jobs d' = jobs d @ new \<Longrightarrow> job_evolves d d'"
  unfolding job_evolves_def by (auto intro: row_evolves_refl)

lemma job_evolves_eq: "jobs d' = jobs d \<Longrightarrow> job_evolves d d'"
  by (rule job_evolves_jobs [of _ _ "[]"]) simp

lemma job_evolves_cong: "jobs d' = jobs e \<Longrightarrow> job_evolves d e \<Longrightarrow> job_evolves d d'"
  by (simp add: job_evolves_def)

lemma keeps_spec_rows [simp]:
  "keeps_spec (terminal_row s n t g e)" "keeps_spec (nonterminal_row s m t)"
  by (simp_all add: keeps_spec_def terminal_row_def nonterminal_row_def keeps_key_def)

text \<open>One row changes along an allowed transition.\<close>

lemma job_evolves_set_job:
  assumes "rows_ok d" "r \<in> set (jobs d)" "jobs_job_id r = i" "keeps_spec u"
    and "can_transition_to\<^sup>*\<^sup>* (state_of r) (state_of (u r))" "\<not> is_terminal (state_of r)"
    and "jobs_attempt r \<le> jobs_attempt (u r)"
  shows "job_evolves d (set_job i u d)"
  unfolding job_evolves_def
proof
  fix x assume x: "x \<in> set (jobs d)"
  show "\<exists>s \<in> set (jobs (set_job i u d)). row_evolves x s"
  proof (cases "jobs_job_id x = i")
    case True
    then have "x = r"
      using job_by_id [OF assms(1) x assms(2)] assms(3) by simp
    then have "u r \<in> set (jobs (set_job i u d))"
      using assms(2, 3) by (auto simp: set_job_def set_sql_update)
    moreover have "row_evolves r (u r)"
      using assms(4-7) by (simp add: row_evolves_def same_spec_def keeps_spec_def keeps_key_def)
    ultimately show ?thesis
      using \<open>x = r\<close> by blast
  next
    case False
    with x have "x \<in> set (jobs (set_job i u d))"
      by (force simp: set_job_def set_sql_update)
    then show ?thesis by (blast intro: row_evolves_refl)
  qed
qed

lemma job_evolves_finish_job:
  assumes "rows_ok d" "r \<in> set (jobs d)" "can_transition_to (state_of r) s"
  shows "job_evolves d (finish_job r s n t g e d)"
proof (rule job_evolves_cong)
  show "job_evolves d (set_job (jobs_job_id r) (terminal_row s n t g e) d)"
    using assms terminal_no_transition by (intro job_evolves_set_job) auto
qed (simp add: finish_job_def)

lemma job_evolves_return_job:
  assumes "rows_ok d" "r \<in> set (jobs d)" "can_transition_to (state_of r) s"
  shows "job_evolves d (return_job r s m t d)"
  unfolding return_job_def
  using assms terminal_no_transition by (intro job_evolves_set_job) auto

section \<open>The operations evolve the jobs\<close>

lemma job_evolves_apply_enqueue:
  "tx_yields (apply_enqueue t s) d u d' \<Longrightarrow> rows_ok d \<Longrightarrow> job_evolves d d'"
  by (elim apply_enqueue_yields) (auto intro: job_evolves_jobs)

lemma job_evolves_apply_ack:
  "tx_yields (apply_ack t n a) d u d' \<Longrightarrow> rows_ok d \<Longrightarrow> job_evolves d d'"
  by (erule (1) apply_ack_yields) (auto intro: job_evolves_finish_job)

lemma job_evolves_retry_job:
  assumes "rows_ok d" "r \<in> set (jobs d)" "state_of r = Leased"
  shows "job_evolves d (retry_job r m summary t d)"
  unfolding retry_job_def
  using assms
  by (intro job_evolves_set_job)
    (auto simp: keeps_spec_def keeps_key_def nonterminal_row_def state_of_def job_state_decode_def
      intro!: r_into_rtranclp)

lemma job_evolves_apply_fail:
  assumes "tx_yields (apply_fail t n f) d u d'" "rows_ok d"
  shows "job_evolves d d'"
  using assms
proof (cases rule: apply_fail_yields)
  case (dead r)
  with assms(2) show ?thesis by (auto intro!: job_evolves_finish_job)
next
  case (retry r m)
  with assms(2) show ?thesis by (auto intro!: job_evolves_retry_job)
qed

lemma job_evolves_apply_cancel:
  "tx_yields (apply_cancel t n c) d u d' \<Longrightarrow> rows_ok d \<Longrightarrow> job_evolves d d'"
  by (erule (1) apply_cancel_yields) (auto intro!: job_evolves_finish_job split: option.splits)

lemma job_evolves_apply_resolve:
  assumes "tx_yields (apply_resolve t n c) d u d'" "rows_ok d"
  shows "job_evolves d d'"
  using assms
proof (cases rule: apply_resolve_yields)
  case (retry r)
  with assms(2) show ?thesis by (auto intro!: job_evolves_return_job)
next
  case (finish r s g)
  with assms(2) show ?thesis by (auto intro!: job_evolves_finish_job)
qed

lemma job_evolves_apply_extend_lease:
  assumes "tx_yields (apply_extend_lease x n) d v d'" "rows_ok d"
  shows "job_evolves d d'"
  using assms
proof (cases rule: apply_extend_lease_yields)
  case (1 r e)
  let ?u = "\<lambda>r. r\<lparr>jobs_lease_expires_at_ms := Some (extend_new_expiry_ms x)\<rparr>"
  have "job_evolves d (set_job (jobs_job_id r) ?u d)"
    using assms(2) 1(1, 3)
    by (intro job_evolves_set_job) (auto simp: keeps_spec_def keeps_key_def state_of_def)
  then show ?thesis
    by (rule job_evolves_cong [rotated]) (simp add: 1(8) extend_job_def)
qed

section \<open>Changes outside the queue\<close>

lemma jobs_ok_transactions:
  "jobs_ok d \<Longrightarrow> jobs_ok (d\<lparr>transactions := transactions d @ [r]\<rparr>)"
  by (auto simp: jobs_ok_def rows_ok_def partitions_ok_def receipts_ok_def leases_recorded_def)

lemma jobs_ok_cursor [simp]: "jobs_ok (d\<lparr>queue_cursors := c\<rparr>) = jobs_ok d"
  by (simp add: jobs_ok_def rows_ok_def partitions_ok_def receipts_ok_def leases_recorded_def)

end
