(* ===== verification/Claim_Steps.thy ===== *)
theory Claim_Steps
  imports Store_Claims Job_Evolution
begin

text \<open>
  What a claim does. \<open>planned_maintenance\<close> and \<open>planned_leases\<close> describe the two plans as
  functions of the database; \<open>claim_body_yields\<close> says that the transaction inserts its row,
  applies the maintenance (\<open>maintained\<close>), grants the leases (\<open>granted\<close>) and moves the cursor,
  in this order, and \<open>jobs_ok_claim_body\<close> that it preserves the invariant. The two plans never meet in
  a partition: a partition with an expired lease has that leased job at its head.
\<close>

section \<open>The plans\<close>

definition expired_rows :: "claim_request \<Rightarrow> db \<Rightarrow> jobs_row list" where
  "expired_rows req d = sql_limit (u64_as_i64 maintenance_limit) (sort_key expiry_key
     (filter (\<lambda>r. jobs_queue r = req_queue req \<and> jobs_state r = job_state_encode Leased \<and>
        expired_before (req_now_ms req) r) (jobs d)))"

definition maintenance_of :: "jobs_row \<Rightarrow> maintenance_action" where
  "maintenance_of r = \<lparr>action_job = decoded_job r, action_to = maintenance_target (decoded_job r)\<rparr>"

lemma map_result_row_to_job:
  "\<forall>r \<in> set rows. job_row_ok r \<Longrightarrow> map_result row_to_job rows = Inr (map decoded_job rows)"
  by (rule map_result_all_Inr) (simp add: row_to_job_ok)

lemma expired_rows_job:
  "r \<in> set (expired_rows req d) \<Longrightarrow> r \<in> set (jobs d) \<and> jobs_queue r = req_queue req \<and>
     jobs_state r = job_state_encode Leased \<and> expired_before (req_now_ms req) r"
  unfolding expired_rows_def using set_sql_limit by fastforce

lemma expired_rows_leased:
  assumes "rows_ok d" "r \<in> set (expired_rows req d)"
  shows "state_of r = Leased"
proof -
  have "job_row_ok r" "jobs_state r = job_state_encode Leased"
    using assms expired_rows_job [OF assms(2)] by (auto simp: rows_ok_def)
  then show ?thesis
    by (simp add: state_of_def job_state_decode_def)
qed

lemma plan_maintenance_yields:
  assumes "tx_yields (plan_maintenance req) d ms d'" "rows_ok d"
  shows "ms = map maintenance_of (expired_rows req d) \<and> d' = d"
proof -
  have "map_result row_to_job (expired_rows req d) = Inr (map decoded_job (expired_rows req d))"
    using assms(2) by (intro map_result_row_to_job) (auto simp: rows_ok_def dest!: expired_rows_job)
  then show ?thesis
    using assms(1) unfolding plan_maintenance_def expired_rows_def [symmetric]
    by (auto simp: maintenance_of_def dest!: yields)
qed

lemma length_expired_rows: "length (expired_rows req d) \<le> 64"
proof -
  have "unat maintenance_limit = 64"
    by (simp add: maintenance_limit_def)
  then show ?thesis
    by (simp add: expired_rows_def sql_limit_take)
qed

lemma distinct_expired_rows:
  assumes "rows_ok d"
  shows "distinct (map jobs_job_id (expired_rows req d))"
proof -
  let ?rows = "filter (\<lambda>r. jobs_queue r = req_queue req \<and> jobs_state r = job_state_encode Leased \<and>
        expired_before (req_now_ms req) r) (jobs d)"
  have "distinct (map jobs_job_id ?rows)"
    using assms by (simp add: rows_ok_def distinct_map_filter)
  then have "distinct (map jobs_job_id (sort_key expiry_key ?rows))"
    by (simp add: distinct_map)
  then show ?thesis
    unfolding expired_rows_def sql_limit_def by (auto simp: take_map [symmetric] distinct_take)
qed

text \<open>A job that can be leased: the first nonterminal one of its partition, and ready.\<close>

definition leaseable :: "claim_request \<Rightarrow> db \<Rightarrow> string \<Rightarrow> proposed_lease \<Rightarrow> bool" where
  "leaseable req d p l \<longleftrightarrow> lease_lease_token l \<noteq> id_zero \<and>
     (\<exists>r rest. partition_jobs (jobs d) (req_queue req) p = r # rest \<and>
        lease_job l = decoded_job r \<and> job_ready (req_now_ms req) (decoded_job r))"

definition will_lease :: "claim_request \<Rightarrow> db \<Rightarrow> string \<Rightarrow> bool" where
  "will_lease req d p = (case partition_jobs (jobs d) (req_queue req) p of
     [] \<Rightarrow> False | r # _ \<Rightarrow> job_ready (req_now_ms req) (decoded_job r))"

text \<open>The partitions leased in this round, in the order of the round.\<close>

definition leased_partitions :: "claim_request \<Rightarrow> db \<Rightarrow> string list" where
  "leased_partitions req d = take (unat (req_limit req)) (filter (will_lease req d)
     (claim_order (flatten (map_of (queue_cursors d) (req_queue req)))
       (queue_partitions (req_queue req) d)))"

lemma partition_head_yields:
  assumes "tx_yields (partition_head q p) d j d'" "rows_ok d"
  shows "d' = d \<and> j = (case partition_jobs (jobs d) q p of [] \<Rightarrow> None | r # _ \<Rightarrow> Some (decoded_job r))"
proof -
  have "numbered (map jobs_enqueue_sequence (jobs d))"
    using assms(2) by (simp add: rows_ok_def)
  then have sorted: "sort_key jobs_enqueue_sequence (filter (is_active_in q p) (jobs d)) =
      partition_jobs (jobs d) q p"
    by (simp add: numbered_sort_key partition_jobs_def)
  have ok: "\<forall>r \<in> set (partition_jobs (jobs d) q p). job_row_ok r"
    using assms(2) by (auto simp: partition_jobs_def rows_ok_def)
  then show ?thesis
    using assms(1) unfolding partition_head_def
    by (cases "partition_jobs (jobs d) q p")
      (auto simp: sorted sql_limit_def row_to_job_ok dest!: yields)
qed

lemma lease_loop_yields:
  assumes "tx_yields (lease_loop req leases last_leased ps) d res d'" "rows_ok d"
  shows "d' = d \<and> (\<exists>new. fst res = leases @ new \<and>
    (let qs = take (unat (req_limit req) - length leases) (filter (will_lease req d) ps) in
       list_all2 (leaseable req d) qs new \<and>
       snd res = (if qs = [] then last_leased else Some (last qs))))"
  using assms
proof (induction ps arbitrary: leases last_leased)
  case Nil
  then show ?case by (auto dest!: yields_return)
next
  case (Cons p ps)
  show ?case
  proof (cases "unat (req_limit req) \<le> length leases")
    case True
    with Cons.prems show ?thesis by (auto dest!: yields_return)
  next
    case False
    then obtain n where n: "unat (req_limit req) - length leases = Suc n"
      by (metis Suc_diff_Suc not_le)
    obtain head where head: "head = (case partition_jobs (jobs d) (req_queue req) p of
        [] \<Rightarrow> None | r # _ \<Rightarrow> Some (decoded_job r))"
      and rest: "tx_yields (case head of
          None \<Rightarrow> lease_loop req leases last_leased ps
        | Some job \<Rightarrow>
            if \<not> job_ready (req_now_ms req) job then lease_loop req leases last_leased ps
            else tx_bind tx_random_id (\<lambda>token.
              lease_loop req (leases @ [\<lparr>lease_job = job, lease_lease_token = token\<rparr>]) (Some p) ps))
        d res d'"
      using Cons.prems False
      by (auto dest!: yields_bind yields_map_err dest: partition_head_yields)
    show ?thesis
    proof (cases "will_lease req d p")
      case skip: False
      then have "tx_yields (lease_loop req leases last_leased ps) d res d'"
        using rest head by (auto simp: will_lease_def split: list.splits)
      from Cons.IH [OF this Cons.prems(2)] skip show ?thesis by simp
    next
      case lease: True
      then obtain r tail where r: "partition_jobs (jobs d) (req_queue req) p = r # tail"
        "job_ready (req_now_ms req) (decoded_job r)"
        by (auto simp: will_lease_def split: list.splits)
      let ?l = "\<lambda>token. \<lparr>lease_job = decoded_job r, lease_lease_token = token\<rparr>"
      obtain token where token: "token \<noteq> id_zero"
        and loop: "tx_yields (lease_loop req (leases @ [?l token]) (Some p) ps) d res d'"
        using rest head r by (auto dest!: yields_bind yields_random_id)
      have "leaseable req d p (?l token)"
        using r token by (simp add: leaseable_def)
      moreover have "unat (req_limit req) - length (leases @ [?l token]) = n"
        using n by simp
      ultimately show ?thesis
        using Cons.IH [OF loop Cons.prems(2)] lease
        by (auto simp: n Let_def list_all2_Cons1 split: if_splits)
    qed
  qed
qed

lemma plan_leases_yields:
  assumes "tx_yields (plan_leases req) d res d'" "rows_ok d"
  shows "d' = d \<and> list_all2 (leaseable req d) (leased_partitions req d) (fst res) \<and>
    snd res = (if leased_partitions req d = [] then None else Some (last (leased_partitions req d)))"
proof (cases "req_limit req = 0")
  case True
  with assms show ?thesis
    by (auto simp: plan_leases_def leased_partitions_def dest!: yields_return)
next
  case False
  with assms(1) have "tx_yields (lease_loop req [] None (claim_order
      (flatten (map_of (queue_cursors d) (req_queue req))) (queue_partitions (req_queue req) d)))
      d res d'"
    unfolding plan_leases_def by (auto dest!: yields_bind yields_map_err yields_query)
  from lease_loop_yields [OF this assms(2)] show ?thesis
    by (auto simp: leased_partitions_def Let_def split: if_splits)
qed

text \<open>The order of the round is a rotation of the queue's active partitions.\<close>

lemma set_claim_order: "set (claim_order c ps) = set ps"
  unfolding claim_order_def Let_def by (metis append_take_drop_id set_append Un_commute)

lemma distinct_claim_order: "distinct ps \<Longrightarrow> distinct (claim_order c ps)"
  unfolding claim_order_def Let_def
  by (metis append_take_drop_id distinct_append inf_commute)

lemma queue_partitions_set: "p \<in> set (queue_partitions q d) \<longleftrightarrow> (q, p) \<in> fst ` set (active_partitions d)"
  by (force simp: queue_partitions_def)

lemma distinct_queue_partitions:
  assumes "partitions_ok d"
  shows "distinct (queue_partitions q d)"
proof -
  have "distinct (map fst (filter (\<lambda>a. fst (fst a) = q) (active_partitions d)))"
    using assms by (simp add: partitions_ok_def distinct_map_filter)
  moreover have "inj_on snd (fst ` set (filter (\<lambda>a. fst (fst a) = q) (active_partitions d)))"
    by (auto simp: inj_on_def)
  ultimately have "distinct (map snd (map fst (filter (\<lambda>a. fst (fst a) = q) (active_partitions d))))"
    by (simp add: distinct_map del: map_map)
  then show ?thesis by (simp add: queue_partitions_def comp_def)
qed

lemma distinct_leased_partitions: "partitions_ok d \<Longrightarrow> distinct (leased_partitions req d)"
  unfolding leased_partitions_def
  by (intro distinct_take distinct_filter distinct_claim_order distinct_queue_partitions)

section \<open>Maintenance\<close>

definition maintained :: "claim_request \<Rightarrow> id \<Rightarrow> jobs_row \<Rightarrow> db \<Rightarrow> db" where
  "maintained req t r d =
     (if maintenance_target (decoded_job r) = Dead
      then finish_job r Dead (req_now_ms req) t None (Some ''lease expired at final attempt'') d
      else return_job r (maintenance_target (decoded_job r)) None t d)"

lemma maintenance_target_cases:
  "maintenance_target j = Uncertain \<or> maintenance_target j = Dead \<or>
   maintenance_target j = Pending \<and> \<not> row_max_attempts j \<le> row_attempt j"
  by (simp add: maintenance_target_def split: effect_mode.split)

lemma perform_maintenance_yields:
  assumes "tx_yields (perform_maintenance req t (maintenance_of r)) d u d'" "job_row_ok r"
  shows "d' = maintained req t r d"
  using assms(1) maintenance_target_cases [of "decoded_job r"]
  unfolding perform_maintenance_def maintenance_of_def maintained_def
  by (auto dest!: yields_bind yields_map_err ensure_transition_yields
      dest: set_terminal_yields [OF _ assms(2)] set_nonterminal_yields [OF _ assms(2)])

lemma jobs_ok_maintained:
  assumes "jobs_ok d" "r \<in> set (jobs d)" "state_of r = Leased"
  shows "jobs_ok (maintained req t r d)"
proof -
  have "job_row_ok r"
    using assms(1, 2) by (simp add: jobs_ok_def rows_ok_def)
  note attempts = job_row_attempts(1) [OF this]
  show ?thesis
    using assms maintenance_target_cases [of "decoded_job r"] attempts
    by (auto simp: maintained_def intro!: jobs_ok_finish_job jobs_ok_return_job)
qed

lemma job_evolves_maintained:
  assumes "jobs_ok d" "r \<in> set (jobs d)" "state_of r = Leased"
  shows "job_evolves d (maintained req t r d)"
  using assms maintenance_target_cases [of "decoded_job r"] jobs_ok_rows [OF assms(1)]
  by (auto simp: maintained_def intro!: job_evolves_finish_job job_evolves_return_job)

text \<open>An operation on the row of one job: the other jobs and the other partitions stay.\<close>

definition changes_job :: "blob \<Rightarrow> db \<Rightarrow> db \<Rightarrow> bool" where
  "changes_job i d d' \<longleftrightarrow> (\<exists>u. keeps_key u \<and> jobs d' = jobs (set_job i u d))"

lemma changes_jobI: "keeps_key u \<Longrightarrow> jobs d' = jobs (set_job i u d) \<Longrightarrow> changes_job i d d'"
  unfolding changes_job_def by blast

lemma changes_job_other:
  "changes_job i d d' \<Longrightarrow> x \<in> set (jobs d) \<Longrightarrow> jobs_job_id x \<noteq> i \<Longrightarrow> x \<in> set (jobs d')"
  by (force simp: changes_job_def set_job_def set_sql_update)

lemma changes_job_partition:
  assumes "changes_job i d d'" "rows_ok d" "r \<in> set (jobs d)" "jobs_job_id r = i"
    and "(jobs_queue r, jobs_partition_key r) \<noteq> (q, p)"
  shows "partition_jobs (jobs d') q p = partition_jobs (jobs d) q p"
proof -
  obtain u where u: "keeps_key u" "jobs d' = sql_update (\<lambda>r. jobs_job_id r = i) u (jobs d)"
    using assms(1) by (auto simp: changes_job_def set_job_def)
  have "filter (is_active_in q p) (sql_update (\<lambda>r. jobs_job_id r = i) u rows) =
      filter (is_active_in q p) rows" if "set rows \<subseteq> set (jobs d)" for rows
    using that job_by_id [OF assms(2) _ assms(3)] assms(4, 5) u(1)
    by (induction rows) (auto simp: is_active_in_def keeps_key_def)
  then show ?thesis by (simp add: partition_jobs_def u(2))
qed

lemma changes_job_maintained: "changes_job (jobs_job_id r) d (maintained req t r d)"
  unfolding maintained_def finish_job_def return_job_def
  by (auto intro: changes_jobI [OF keeps_key_rows(1)] changes_jobI [OF keeps_key_rows(2)])

lemma maintained_transactions [simp]: "transactions (maintained req t r d) = transactions d"
  by (simp add: maintained_def finish_job_def return_job_def drain_partition_def set_job_def)

lemma maintained_receipts [simp]: "claim_receipts (maintained req t r d) = claim_receipts d"
  by (simp add: maintained_def finish_job_def return_job_def)

lemma perform_all_maintenance:
  assumes "tx_yields (tx_for_each (perform_maintenance req t) (map maintenance_of rows)) d u d'"
    and "jobs_ok d" "distinct (map jobs_job_id rows)"
    and "\<forall>r \<in> set rows. r \<in> set (jobs d) \<and> state_of r = Leased"
  shows "d' = fold (maintained req t) rows d \<and> jobs_ok d' \<and> job_evolves d d' \<and>
    (\<forall>q p. (\<forall>r \<in> set rows. (jobs_queue r, jobs_partition_key r) \<noteq> (q, p)) \<longrightarrow>
       partition_jobs (jobs d') q p = partition_jobs (jobs d) q p)"
  using assms
proof (induction rows arbitrary: d)
  case Nil
  then show ?case by (auto dest!: yields_return)
next
  case (Cons r rows)
  let ?d = "maintained req t r d"
  have r: "r \<in> set (jobs d)" "state_of r = Leased" "job_row_ok r" "rows_ok d"
    using Cons.prems by (auto simp: jobs_ok_def rows_ok_def)
  obtain b where "tx_yields (perform_maintenance req t (maintenance_of r)) d () b"
    and "tx_yields (tx_for_each (perform_maintenance req t) (map maintenance_of rows)) b u d'"
    using Cons.prems(1) by (cases u) (auto dest!: yields_bind)
  then have rest: "tx_yields (tx_for_each (perform_maintenance req t) (map maintenance_of rows)) ?d u d'"
    using perform_maintenance_yields r(3) by metis
  have ok: "jobs_ok ?d"
    using Cons.prems(2) r(1, 2) by (rule jobs_ok_maintained)
  have "x \<in> set (jobs ?d) \<and> state_of x = Leased" if x: "x \<in> set rows" for x
  proof -
    have "jobs_job_id x \<noteq> jobs_job_id r"
      using Cons.prems(3) imageI [OF x, of jobs_job_id] by auto
    then show ?thesis
      using x Cons.prems(4) changes_job_other [OF changes_job_maintained] by simp
  qed
  then have "\<forall>x \<in> set rows. x \<in> set (jobs ?d) \<and> state_of x = Leased" by blast
  moreover have "distinct (map jobs_job_id rows)"
    using Cons.prems(3) by simp
  ultimately have "d' = fold (maintained req t) rows ?d \<and> jobs_ok d' \<and> job_evolves ?d d' \<and>
    (\<forall>q p. (\<forall>r \<in> set rows. (jobs_queue r, jobs_partition_key r) \<noteq> (q, p)) \<longrightarrow>
       partition_jobs (jobs d') q p = partition_jobs (jobs ?d) q p)"
    using Cons.IH [OF rest ok] by blast
  moreover have "job_evolves d ?d"
    using Cons.prems(2) r(1, 2) by (rule job_evolves_maintained)
  ultimately show ?case
    using changes_job_partition [OF changes_job_maintained [of r d req t] r(4, 1) refl]
    by (auto intro: job_evolves_trans)
qed

section \<open>Grants\<close>

definition receipt_of :: "claim_request \<Rightarrow> i64 \<Rightarrow> id \<Rightarrow> proposed_lease \<Rightarrow> claim_receipts_row" where
  "receipt_of req ex t l = \<lparr>cr_transaction_id = as_bytes t,
     cr_job_id = as_bytes (row_job_id (lease_job l)), cr_lease_token = as_bytes (lease_lease_token l),
     cr_attempt = i64_from_u32 (row_attempt (lease_job l) + 1), cr_worker_id = req_worker_id req,
     cr_lease_expires_at_ms = ex\<rparr>"

definition grant_row :: "claim_request \<Rightarrow> i64 \<Rightarrow> id \<Rightarrow> proposed_lease \<Rightarrow> jobs_row \<Rightarrow> jobs_row" where
  "grant_row req ex t l = leased_row (row_attempt (lease_job l) + 1) (lease_lease_token l)
     (req_worker_id req) ex t"

definition granted :: "claim_request \<Rightarrow> i64 \<Rightarrow> id \<Rightarrow> proposed_lease \<Rightarrow> db \<Rightarrow> db" where
  "granted req ex t l d =
     (set_job (as_bytes (row_job_id (lease_job l))) (grant_row req ex t l) d)
       \<lparr>claim_receipts := claim_receipts d @ [receipt_of req ex t l]\<rparr>"

lemma grant_lease_yields:
  assumes "tx_yields (grant_lease req ex t cl l) d res d'"
  shows "res = cl @ [claimed_of req ex l]" "d' = granted req ex t l d"
    and "\<not> (\<exists>c \<in> set (claim_receipts d). cr_transaction_id c = as_bytes t \<and>
          cr_job_id c = as_bytes (row_job_id (lease_job l)))"
    and "transaction_exists (as_bytes t) d"
  using assms unfolding grant_lease_def Let_def
  by (auto simp: granted_def grant_row_def receipt_of_def insert_claim_receipts_def
      dest!: yields update_job_Inr)

text \<open>The lease still fits: its job is the head of its partition and may be leased.\<close>

definition fits :: "db \<Rightarrow> string \<Rightarrow> string \<Rightarrow> proposed_lease \<Rightarrow> bool" where
  "fits d q p l \<longleftrightarrow> (\<exists>r rest. partition_jobs (jobs d) q p = r # rest \<and>
     lease_job l = decoded_job r \<and> (state_of r = Pending \<or> state_of r = RetryWait))"

lemma job_ready_state: "job_ready n j \<Longrightarrow> row_state j = Pending \<or> row_state j = RetryWait"
  by (cases "row_state j") (simp_all add: job_ready_def)

lemma leaseable_fits: "leaseable req d p l \<Longrightarrow> fits d (req_queue req) p l"
  unfolding leaseable_def fits_def using job_ready_state by fastforce

lemma partition_head_job:
  assumes "partition_jobs rows q p = r # rest"
  shows "r \<in> set rows" "jobs_queue r = q" "jobs_partition_key r = p"
proof -
  have "r \<in> set (partition_jobs rows q p)"
    using assms by simp
  then show "r \<in> set rows" "jobs_queue r = q" "jobs_partition_key r = p"
    unfolding partition_jobs_def is_active_in_def by auto
qed

lemma keeps_key_grant [simp]: "keeps_key (grant_row req ex t l)"
  by (simp add: keeps_key_def grant_row_def leased_row_def)

lemma attempt_plus_one:
  assumes "job_row_ok r" "jobs_attempt r < jobs_max_attempts r"
  shows "i64_int (i64_from_u32 (row_attempt (decoded_job r) + 1)) = i64_int (jobs_attempt r) + 1"
proof -
  obtain m a where m: "jobs_max_attempts r = i64_from_u32 m" and a: "jobs_attempt r = i64_from_u32 a"
    using assms(1) by (auto simp: job_row_ok_def u32_try_from_iff)
  then have "uint a < uint m"
    using assms(2) by (simp add: less_i64_def)
  moreover have "uint m < 2 ^ 32"
    using unsigned_less [of m, where 'a = int] by simp
  ultimately have "uint (a + 1) = uint a + 1"
    by (simp add: uint_word_ariths)
  then show ?thesis by (simp add: decoded_job_def a)
qed

lemma keeps_spec_grant [simp]: "keeps_spec (grant_row req ex t l)"
  by (simp add: keeps_spec_def keeps_key_def grant_row_def leased_row_def)

lemma job_row_ok_grant:
  assumes "job_row_ok r" "jobs_attempt r < jobs_max_attempts r" "lease_job l = decoded_job r"
    and "\<not> is_terminal (state_of r)"
  shows "job_row_ok (grant_row req ex t l r)"
proof -
  let ?a = "i64_from_u32 (row_attempt (decoded_job r) + 1)"
  have "jobs_terminal_at_ms r = None"
    using assms(1, 4) jobs_check_state(5) [OF _ jobs_state_encode] by (auto simp: job_row_ok_def)
  moreover have "?a \<le> jobs_max_attempts r" "I64 0 \<le> ?a"
    using attempt_plus_one [OF assms(1, 2)] assms(1, 2)
    by (auto simp: less_i64_def less_eq_i64_def job_row_ok_def jobs_check_def)
  ultimately show ?thesis
    using assms by (simp add: job_row_ok_def grant_row_def leased_row_def jobs_check_def state_of_def
        job_state_decode_def)
qed

lemma changes_job_granted: "changes_job (as_bytes (row_job_id (lease_job l))) d (granted req ex t l d)"
  by (rule changes_jobI [of "grant_row req ex t l"]) (simp_all add: granted_def)

lemma granted_tables [simp]:
  "transactions (granted req ex t l d) = transactions d"
  "transaction_exists i (granted req ex t l d) = transaction_exists i d"
  "active_partitions (granted req ex t l d) = active_partitions d"
  by (simp_all add: granted_def set_job_def)

lemma jobs_ok_granted:
  assumes "jobs_ok d" "fits d q p l" "transaction_exists (as_bytes t) d"
    and "\<not> (\<exists>c \<in> set (claim_receipts d). cr_transaction_id c = as_bytes t \<and>
          cr_job_id c = as_bytes (row_job_id (lease_job l)))"
  shows "jobs_ok (granted req ex t l d)"
proof -
  let ?u = "grant_row req ex t l" and ?d = "granted req ex t l d"
  obtain r rest where part: "partition_jobs (jobs d) q p = r # rest" and l: "lease_job l = decoded_job r"
    and state: "state_of r = Pending \<or> state_of r = RetryWait"
    using assms(2) by (auto simp: fits_def)
  have ok: "rows_ok d" "heads_ok (jobs d)" "partitions_ok d" "receipts_ok d" "leases_recorded d"
    using assms(1) by (simp_all add: jobs_ok_def)
  note r = partition_head_job [OF part]
  have row: "job_row_ok r"
    using ok(1) r(1) by (simp add: rows_ok_def)
  let ?i = "jobs_job_id r"
  have i: "as_bytes (row_job_id (lease_job l)) = ?i"
    using row l by (simp add: as_bytes_row_job_id)
  have attempt: "jobs_attempt r < jobs_max_attempts r"
    using row state by (auto simp: job_row_ok_def)
  have new: "job_row_ok (?u r)"
    using row attempt l state by (auto intro: job_row_ok_grant)
  have active: "jobs_state r \<in> set active_states_sql" "jobs_state (?u r) \<in> set active_states_sql"
    using state jobs_state_encode [OF row] by (auto simp: grant_row_def leased_row_def active_states_sql_def)
  have tail: "r \<notin> set (tl (partition_jobs (jobs d) q' p'))" for q' p'
  proof (cases "q' = q \<and> p' = p")
    case True
    have "distinct (map jobs_job_id (partition_jobs (jobs d) q p))"
      using ok(1) by (simp add: rows_ok_def partition_jobs_def distinct_map_filter)
    with True part show ?thesis by auto
  next
    case False
    with r show ?thesis by (auto simp: partition_jobs_def is_active_in_def dest!: in_tl)
  qed
  have rows: "rows_ok (set_job ?i ?u d)"
    by (rule rows_ok_set_job [OF ok(1) keeps_key_grant r(1) refl new])
  have "rows_ok ?d"
    using rows by (simp add: granted_def i rows_ok_def)
  moreover have "heads_ok (jobs ?d)"
    using heads_ok_stay [where u = ?u, OF ok(1, 2) r(1) refl keeps_key_grant active tail]
    by (simp add: granted_def i)
  moreover have "partitions_ok ?d"
    using partitions_ok_stay [where u = ?u, OF ok(1, 3) r(1) refl keeps_key_grant active]
    by (simp add: granted_def i partitions_ok_def)
  moreover have "receipts_ok ?d"
  proof -
    have ids: "jobs_job_id ` set (jobs ?d) = jobs_job_id ` set (jobs d)"
      by (simp add: granted_def)
    have "distinct (map (\<lambda>c. (cr_transaction_id c, cr_job_id c)) (claim_receipts ?d))"
      using ok(4) assms(4) by (auto simp: receipts_ok_def granted_def receipt_of_def)
    then show ?thesis
      using ok(4) assms(3) r(1) unfolding receipts_ok_def ids
      by (auto simp: granted_def receipt_of_def i)
  qed
  moreover have "leases_recorded ?d"
    unfolding leases_recorded_def
  proof (intro ballI impI)
    fix y assume y: "y \<in> set (jobs ?d)" "jobs_state y = job_state_encode Leased"
    obtain z where z: "z \<in> set (jobs d)" "y = (if jobs_job_id z = ?i then ?u z else z)"
      using y(1) by (auto simp: granted_def i elim: in_set_job)
    show "\<exists>c \<in> set (claim_receipts ?d). records_lease c y"
    proof (cases "jobs_job_id z = ?i")
      case True
      then have "z = r"
        using job_by_id [OF ok(1) z(1) r(1)] by simp
      then have "records_lease (receipt_of req ex t l) y"
        using z(2) i by (simp add: records_lease_def receipt_of_def grant_row_def leased_row_def)
      then show ?thesis by (simp add: granted_def)
    next
      case False
      then obtain c where "c \<in> set (claim_receipts d)" "records_lease c y"
        using ok(5) z y(2) by (auto simp: leases_recorded_def)
      then show ?thesis by (auto simp: granted_def)
    qed
  qed
  ultimately show ?thesis by (simp add: jobs_ok_def)
qed

lemma job_evolves_granted:
  assumes "jobs_ok d" "fits d q p l"
  shows "job_evolves d (granted req ex t l d)"
proof -
  obtain r rest where part: "partition_jobs (jobs d) q p = r # rest" and l: "lease_job l = decoded_job r"
    and state: "state_of r = Pending \<or> state_of r = RetryWait"
    using assms(2) by (auto simp: fits_def)
  have rows: "rows_ok d" and r: "r \<in> set (jobs d)"
    using assms(1) partition_head_job(1) [OF part] by (simp_all add: jobs_ok_rows)
  have row: "job_row_ok r"
    using rows r by (simp add: rows_ok_def)
  have attempt: "jobs_attempt r < jobs_max_attempts r"
    using row state by (auto simp: job_row_ok_def)
  let ?u = "grant_row req ex t l"
  have "job_evolves d (set_job (jobs_job_id r) ?u d)"
  proof (rule job_evolves_set_job [OF rows r refl keeps_spec_grant])
    show "can_transition_to\<^sup>*\<^sup>* (state_of r) (state_of (?u r))"
      using state by (auto simp: grant_row_def leased_row_def state_of_def job_state_decode_def
          intro!: r_into_rtranclp)
    show "\<not> is_terminal (state_of r)"
      using state by auto
    show "jobs_attempt r \<le> jobs_attempt (?u r)"
      using attempt_plus_one [OF row attempt] l
      by (simp add: grant_row_def leased_row_def less_eq_i64_def)
  qed
  then show ?thesis
    by (rule job_evolves_cong [rotated]) (simp add: granted_def l as_bytes_row_job_id [OF row])
qed

lemma fits_other:
  assumes "fits d q p l" "changes_job i d d'" "rows_ok d" "r \<in> set (jobs d)" "jobs_job_id r = i"
    and "(jobs_queue r, jobs_partition_key r) \<noteq> (q, p)"
  shows "fits d' q p l"
  using assms(1) changes_job_partition [OF assms(2-6)] by (simp add: fits_def)

lemma grant_all_leases:
  assumes "tx_yields (tx_fold (grant_lease req ex t) cl leases) d res d'"
    and "jobs_ok d" "distinct ps" "list_all2 (fits d q) ps leases"
  shows "res = cl @ map (claimed_of req ex) leases \<and> d' = fold (granted req ex t) leases d \<and> jobs_ok d' \<and>
    job_evolves d d'"
  using assms
proof (induction leases arbitrary: cl d ps)
  case Nil
  then show ?case by (auto dest!: yields_return)
next
  case (Cons l leases)
  obtain p ps' where ps: "ps = p # ps'" and fits: "fits d q p l" "list_all2 (fits d q) ps' leases"
    using Cons.prems(4) by (auto simp: list_all2_Cons2)
  obtain c b where grant: "tx_yields (grant_lease req ex t cl l) d c b"
    and rest: "tx_yields (tx_fold (grant_lease req ex t) c leases) b res d'"
    using Cons.prems(1) by (auto dest!: yields_bind)
  note g = grant_lease_yields [OF grant]
  have ok: "jobs_ok b"
    unfolding g(2) using Cons.prems(2) fits(1) g(4, 3) by (rule jobs_ok_granted)
  obtain r tail where part: "partition_jobs (jobs d) q p = r # tail" and l: "lease_job l = decoded_job r"
    using fits(1) by (auto simp: fits_def)
  note r = partition_head_job [OF part]
  have rows: "rows_ok d"
    using Cons.prems(2) by (rule jobs_ok_rows)
  have i: "jobs_job_id r = as_bytes (row_job_id (lease_job l))"
    using rows r(1) l by (simp add: rows_ok_def as_bytes_row_job_id)
  have "list_all2 (fits b q) ps' leases"
    using fits(2)
  proof (rule list.rel_mono_strong)
    fix p' l' assume "p' \<in> set ps'" "fits d q p' l'"
    moreover from this have "p' \<noteq> p"
      using Cons.prems(3) ps by auto
    ultimately show "fits b q p' l'"
      unfolding g(2) using fits_other [OF _ changes_job_granted rows r(1) i] r(2, 3) by simp
  qed
  moreover have "distinct ps'"
    using Cons.prems(3) ps by simp
  ultimately have "res = c @ map (claimed_of req ex) leases \<and>
      d' = fold (granted req ex t) leases b \<and> jobs_ok d' \<and> job_evolves b d'"
    using Cons.IH [OF rest ok] by blast
  moreover have "job_evolves d b"
    unfolding g(2) using Cons.prems(2) fits(1) by (rule job_evolves_granted)
  ultimately show ?case
    using g(1, 2) by (auto intro: job_evolves_trans)
qed

section \<open>The transaction\<close>

definition claim_inserted :: "claim_request \<Rightarrow> id \<Rightarrow> nat \<Rightarrow> i64 \<Rightarrow> db \<Rightarrow> db" where
  "claim_inserted req t n seq d =
     d\<lparr>transactions := transactions d @ [claim_transaction_row t req n seq]\<rparr>"

definition cursor_moved :: "claim_request \<Rightarrow> string list \<Rightarrow> db \<Rightarrow> db" where
  "cursor_moved req ps d = (if ps = [] then d
     else d\<lparr>queue_cursors := AList.update (req_queue req) (Some (last ps)) (queue_cursors d)\<rparr>)"

text \<open>A partition with an expired lease is never leased in the same call.\<close>

lemma expired_not_leaseable:
  assumes "jobs_ok d" "r \<in> set (expired_rows req d)" "fits d (req_queue req) p l"
  shows "(jobs_queue r, jobs_partition_key r) \<noteq> (req_queue req, p)"
proof
  assume eq: "(jobs_queue r, jobs_partition_key r) = (req_queue req, p)"
  have r: "r \<in> set (jobs d)" "jobs_state r = job_state_encode Leased"
    using expired_rows_job [OF assms(2)] by auto
  have rows: "rows_ok d" and heads: "heads_ok (jobs d)"
    using assms(1) by (simp_all add: jobs_ok_def)
  obtain h rest where part: "partition_jobs (jobs d) (req_queue req) p = h # rest"
    and state: "state_of h = Pending \<or> state_of h = RetryWait"
    using assms(3) by (auto simp: fits_def)
  have "r \<in> set (partition_jobs (jobs d) (req_queue req) p)"
    using r eq by (auto simp: partition_jobs_def is_active_in_def active_states_sql_def)
  moreover have "r \<notin> set (tl (partition_jobs (jobs d) (req_queue req) p))"
    using heads by (rule not_pending_not_tail) (simp add: r(2))
  ultimately have "r = h"
    by (simp add: part)
  then show False
    using state r rows by (auto simp: rows_ok_def jobs_state_encode)
qed

lemma claim_body_yields:
  assumes "tx_yields (claim_body req ex) d res d'" "jobs_ok d"
  obtains (noop) "res = Roll_Back ()" "d' = d" "expired_rows req d = []" "leased_partitions req d = []"
  | (claims) t leases seq where
      "res = To_Commit (t, map (claimed_of req ex) leases)" "t \<noteq> id_zero"
      "list_all2 (leaseable req d) (leased_partitions req d) leases"
      "expired_rows req d \<noteq> [] \<or> leases \<noteq> []"
      "\<not> transaction_exists (as_bytes t) d"
      "sql_max_plus_one (map tx_transaction_sequence (transactions d)) = Inr seq"
      "d' = cursor_moved req (leased_partitions req d)
        (fold (granted req ex t) leases
          (fold (maintained req t) (expired_rows req d)
            (claim_inserted req t (length (expired_rows req d) + length leases) seq d)))"
      "jobs_ok d'" "job_evolves d d'"
      "list_all2 (fits (fold (maintained req t) (expired_rows req d)
            (claim_inserted req t (length (expired_rows req d) + length leases) seq d)) (req_queue req))
         (leased_partitions req d) leases"
proof -
  let ?rows = "expired_rows req d" and ?ps = "leased_partitions req d"
  have rows: "rows_ok d"
    using assms(2) by (rule jobs_ok_rows)
  obtain leases last_leased where plan: "list_all2 (leaseable req d) ?ps leases"
    and last: "last_leased = (if ?ps = [] then None else Some (last ?ps))"
    and body: "tx_yields (if map maintenance_of ?rows = [] \<and> leases = [] then tx_return (Roll_Back ())
     else
     tx_bind (tx_map_err error_to_claim tx_random_id) (\<lambda>transaction_id.
     tx_bind (tx_map_err ClaimError_Storage (insert_claim_transaction transaction_id req
       (length (map maintenance_of ?rows) + length leases))) (\<lambda>_.
     tx_bind (tx_for_each (perform_maintenance req transaction_id) (map maintenance_of ?rows)) (\<lambda>_.
     tx_bind (tx_fold (grant_lease req ex transaction_id) [] leases) (\<lambda>claimed.
     tx_bind (advance_cursor req last_leased) (\<lambda>_.
     tx_return (To_Commit (transaction_id, claimed)))))))) d res d'"
  proof -
    obtain ms e res2 e2 where "tx_yields (plan_maintenance req) d ms e"
      and "tx_yields (plan_leases req) e res2 e2"
      and body: "tx_yields ((\<lambda>(leases, last_leased).
        if ms = [] \<and> leases = [] then tx_return (Roll_Back ())
        else
        tx_bind (tx_map_err error_to_claim tx_random_id) (\<lambda>transaction_id.
        tx_bind (tx_map_err ClaimError_Storage (insert_claim_transaction transaction_id req
          (length ms + length leases))) (\<lambda>_.
        tx_bind (tx_for_each (perform_maintenance req transaction_id) ms) (\<lambda>_.
        tx_bind (tx_fold (grant_lease req ex transaction_id) [] leases) (\<lambda>claimed.
        tx_bind (advance_cursor req last_leased) (\<lambda>_.
        tx_return (To_Commit (transaction_id, claimed)))))))) res2) e2 res d'"
      using assms(1) unfolding claim_body_def by (blast dest: yields_bind yields_map_err)
    then have "ms = map maintenance_of ?rows" "e = d" "e2 = d"
      "list_all2 (leaseable req d) ?ps (fst res2)"
      "snd res2 = (if ?ps = [] then None else Some (last ?ps))"
      using plan_maintenance_yields plan_leases_yields rows by metis+
    moreover obtain leases last_leased where "res2 = (leases, last_leased)"
      by (cases res2)
    ultimately show thesis
      using body by (intro that [of leases last_leased]) (simp_all only: fst_conv snd_conv prod.case)
  qed
  show thesis
  proof (cases "?rows = [] \<and> leases = []")
    case True
    with body plan show ?thesis by (intro noop) (auto dest!: yields_return)
  next
    case False
    let ?n = "length ?rows + length leases"
    obtain t b1 b2 b3 b4 claimed where t: "t \<noteq> id_zero"
      and ins: "tx_yields (insert_claim_transaction t req ?n) d () b1"
      and main: "tx_yields (tx_for_each (perform_maintenance req t) (map maintenance_of ?rows)) b1 () b2"
      and grants: "tx_yields (tx_fold (grant_lease req ex t) [] leases) b2 claimed b3"
      and cursor: "tx_yields (advance_cursor req last_leased) b3 () d'"
      and res: "res = To_Commit (t, claimed)"
      using body False by (auto dest!: yields_bind yields_map_err yields_random_id yields_return)
    obtain seq where seq: "sql_max_plus_one (map tx_transaction_sequence (transactions d)) = Inr seq"
      and b1: "insert_transactions (claim_transaction_row t req ?n seq) d = Inr b1"
      using ins unfolding insert_claim_transaction_def next_transaction_sequence_def
      by (auto dest!: yields)
    have fresh: "\<not> transaction_exists (as_bytes t) d" and b1: "b1 = claim_inserted req t ?n seq d"
      using b1 by (simp_all add: insert_transactions_Inr claim_inserted_def claim_transaction_row_def)
    have ok1: "jobs_ok b1"
      using assms(2) unfolding b1 claim_inserted_def by (rule jobs_ok_transactions)
    have jobs1: "jobs b1 = jobs d"
      by (simp add: b1 claim_inserted_def)
    have "\<forall>r \<in> set ?rows. r \<in> set (jobs b1) \<and> state_of r = Leased"
      unfolding jobs1 using expired_rows_job expired_rows_leased [OF rows] by blast
    note main = perform_all_maintenance [OF main ok1 distinct_expired_rows [OF rows] this]
    have fits: "list_all2 (fits b2 (req_queue req)) ?ps leases"
      using plan
    proof (rule list_all2_mono)
      fix p l assume "leaseable req d p l"
      then have fits: "fits d (req_queue req) p l"
        by (rule leaseable_fits)
      then have "\<forall>r \<in> set ?rows. (jobs_queue r, jobs_partition_key r) \<noteq> (req_queue req, p)"
        using expired_not_leaseable [OF assms(2)] by blast
      then have "partition_jobs (jobs b2) (req_queue req) p = partition_jobs (jobs d) (req_queue req) p"
        using main unfolding jobs1 by blast
      then show "fits b2 (req_queue req) p l"
        using fits by (simp add: fits_def)
    qed
    have "distinct ?ps"
      using assms(2) by (intro distinct_leased_partitions) (simp add: jobs_ok_def)
    note grants = grant_all_leases [OF grants _ this fits]
    have ok3: "jobs_ok b3" and b3: "b3 = fold (granted req ex t) leases b2"
      and claimed: "claimed = map (claimed_of req ex) leases"
      using grants main by auto
    have d': "d' = cursor_moved req ?ps b3"
      using cursor last unfolding advance_cursor_def cursor_moved_def
      by (auto dest!: yields_return yields_map_err yields_execute)
    have b2: "b2 = fold (maintained req t) ?rows b1"
      using main by simp
    have "jobs_ok d'"
      using ok3 unfolding d' cursor_moved_def by simp
    moreover have "job_evolves d d'"
    proof -
      have "job_evolves b1 b2" "job_evolves b2 b3"
        using main grants by blast+
      moreover have "job_evolves d b1" "job_evolves b3 d'"
        using jobs1 by (simp_all add: job_evolves_eq d' cursor_moved_def)
      ultimately show ?thesis by (blast intro: job_evolves_trans)
    qed
    ultimately show ?thesis
      using False fits claimed res t plan fresh seq d'
      unfolding b1 b2 b3 by (intro claims) auto
  qed
qed

end
