(* ===== verification/Store_Projections.thy ===== *)
theory Store_Projections
  imports Database
begin

text \<open>
  \<open>src/store/projections.rs\<close>: applying a patch, the reads and the scans. The abstract value of a
  projection is a finite map (\<open>contents\<close>) with a version; \<open>apply_projection_patch_yields\<close> says
  that applying a patch is the change of that map that the patch describes (\<open>patch_map\<close>) and one step of the
  version. \<open>prefix_bounds_iff\<close> says that the two bounds of a prefix scan select the keys with
  that prefix.
\<close>

section \<open>Operations\<close>

definition version_query :: "string \<Rightarrow> (error, u64) tx" where
  "version_query projection =
     tx_map_err Error_Storage (tx_bind (query (\<lambda>d. Inr (map_of (projection_meta d) projection)))
     (\<lambda>version. tx_return (i64_as_u64 (case version of Some v \<Rightarrow> v | None \<Rightarrow> I64 0))))"

definition clear_entries :: "string \<Rightarrow> (error, unit) tx" where
  "clear_entries projection =
     tx_map_err Error_Storage (execute (\<lambda>d. Inr (d\<lparr>projection_entries :=
       filter (\<lambda>e. fst (fst e) \<noteq> projection) (projection_entries d)\<rparr>)))"

fun apply_mutation :: "string \<Rightarrow> projection_mutation \<Rightarrow> (error, unit) tx" where
  "apply_mutation projection (Put key v) =
     tx_map_err Error_Storage (execute (upsert_projection_entry projection key v))"
| "apply_mutation projection (Delete key) =
     tx_map_err Error_Storage (execute (\<lambda>d. Inr (d\<lparr>projection_entries :=
       filter (\<lambda>e. fst e \<noteq> (projection, key)) (projection_entries d)\<rparr>)))"
| "apply_mutation projection Clear = clear_entries projection"
| "apply_mutation projection (Replace entries) =
     tx_bind (clear_entries projection) (\<lambda>_.
     tx_for_each (\<lambda>e. tx_map_err Error_Storage
       (execute (insert_projection_entry projection (entry_key e) (entry_value e)))) entries)"

definition apply_projection_patch :: "projection_patch \<Rightarrow> (error, unit) tx" where
  "apply_projection_patch p =
     tx_bind (tx_lift (map_err Error_Validation (patch_validate p))) (\<lambda>_.
     tx_bind (version_query (patch_projection p)) (\<lambda>actual.
     if actual \<noteq> patch_expected_version p
     then tx_lift (Inl (Error_Conflict (Conflict_ProjectionVersion
            (patch_projection p) (patch_expected_version p) actual)))
     else
     tx_bind (tx_map_err Error_Storage (execute (\<lambda>d. Inr (d\<lparr>projection_meta :=
       AList.update (patch_projection p) (u64_as_i64 (patch_new_version p))
         (projection_meta d)\<rparr>)))) (\<lambda>_.
     tx_for_each (apply_mutation (patch_projection p)) (patch_mutations p))))"

definition projection_version :: "string \<Rightarrow> (error, u64) tx" where
  "projection_version projection = version_query projection"

definition projection_get :: "string \<Rightarrow> blob \<Rightarrow> (error, blob option) tx" where
  "projection_get projection key =
     tx_map_err Error_Storage
       (query (\<lambda>d. Inr (map_of (projection_entries d) (projection, key))))"

text \<open>The loop pops trailing \<open>0xFF\<close> bytes and increments the last byte that is left.\<close>

function prefix_upper_bound :: "blob \<Rightarrow> blob option" where
  "prefix_upper_bound bound =
     (if bound = [] then None
      else if last bound = 255 then prefix_upper_bound (butlast bound)
      else Some (butlast bound @ [last bound + 1]))"
  by auto
termination
  by (relation "measure length") auto

text \<open>The optional conditions of \<open>scan\<close>'s SQL text: a bound that is absent adds none.\<close>

definition scan :: "string \<Rightarrow> blob option \<Rightarrow> blob option \<Rightarrow> blob option \<Rightarrow> usize \<Rightarrow>
    (error, projection_entry list) tx" where
  "scan projection start bound after limit =
     tx_map_err Error_Storage (tx_bind (query (\<lambda>d. Inr (sql_limit (u64_as_i64 limit)
       (sort_key (snd \<circ> fst) (filter (\<lambda>e. fst (fst e) = projection \<and>
          (case start of None \<Rightarrow> True | Some b \<Rightarrow> b \<le> snd (fst e)) \<and>
          (case bound of None \<Rightarrow> True | Some b \<Rightarrow> snd (fst e) < b) \<and>
          (case after of None \<Rightarrow> True | Some b \<Rightarrow> b < snd (fst e)))
         (projection_entries d))))))
     (\<lambda>rows. tx_return (map (\<lambda>e. \<lparr>entry_key = snd (fst e), entry_value = snd e\<rparr>) rows)))"

definition projection_scan_prefix_page :: "string \<Rightarrow> blob \<Rightarrow> blob option \<Rightarrow> usize \<Rightarrow>
    (error, projection_entry list) tx" where
  "projection_scan_prefix_page projection pre after limit =
     scan projection (Some pre) (prefix_upper_bound pre) after limit"

definition projection_scan_prefix :: "string \<Rightarrow> blob \<Rightarrow> usize \<Rightarrow>
    (error, projection_entry list) tx" where
  "projection_scan_prefix projection pre limit =
     projection_scan_prefix_page projection pre None limit"

definition projection_scan_range :: "string \<Rightarrow> blob option \<Rightarrow> blob option \<Rightarrow> blob option \<Rightarrow>
    usize \<Rightarrow> (error, projection_entry list) tx" where
  "projection_scan_range projection start bound after limit = scan projection start bound after limit"

definition projections_list :: "(error, (string \<times> u64) list) tx" where
  "projections_list =
     tx_map_err Error_Storage (tx_bind (query (\<lambda>d. Inr (sort_key fst (projection_meta d))))
     (\<lambda>rows. tx_return (map (\<lambda>(p, v). (p, i64_as_u64 v)) rows)))"

definition projection_entry_count :: "string \<Rightarrow> (error, u64) tx" where
  "projection_entry_count projection =
     tx_map_err Error_Storage (query (\<lambda>d. Inr (word_of_nat
       (length (filter (\<lambda>e. fst (fst e) = projection) (projection_entries d))))))"

section \<open>A projection as a map\<close>

definition contents :: "db \<Rightarrow> string \<Rightarrow> (blob \<rightharpoonup> blob)" where
  "contents d p = (\<lambda>k. map_of (projection_entries d) (p, k))"

definition stored_projection_version :: "db \<Rightarrow> string \<Rightarrow> u64" where
  "stored_projection_version d p =
     i64_as_u64 (case map_of (projection_meta d) p of Some v \<Rightarrow> v | None \<Rightarrow> I64 0)"

definition projections_ok :: "db \<Rightarrow> bool" where
  "projections_ok d \<longleftrightarrow>
     distinct (map fst (projection_meta d)) \<and> distinct (map fst (projection_entries d)) \<and>
     fst ` fst ` set (projection_entries d) \<subseteq> fst ` set (projection_meta d)"

text \<open>What a change of the table of entries leaves alone.\<close>

definition entries_step :: "string \<Rightarrow> ((blob \<rightharpoonup> blob) \<Rightarrow> (blob \<rightharpoonup> blob)) \<Rightarrow> db \<Rightarrow> db \<Rightarrow> bool" where
  "entries_step p f d d' \<longleftrightarrow>
     (\<exists>es. d' = d\<lparr>projection_entries := es\<rparr>) \<and>
     (projections_ok d \<longrightarrow> projections_ok d') \<and>
     contents d' p = f (contents d p) \<and> (\<forall>q. q \<noteq> p \<longrightarrow> contents d' q = contents d q)"

lemma entries_step_refl [simp]: "entries_step p (\<lambda>m. m) d d"
proof -
  have "d = d\<lparr>projection_entries := projection_entries d\<rparr>" by simp
  then show ?thesis unfolding entries_step_def by blast
qed

lemma entries_step_trans:
  assumes "entries_step p f d d'" "entries_step p g d' d''"
  shows "entries_step p (\<lambda>m. g (f m)) d d''"
  using assms by (auto simp: entries_step_def)

lemma map_of_filter_keys: "map_of (filter (\<lambda>e. P (fst e)) xs) k = (if P k then map_of xs k else None)"
  by (induction xs) auto

lemma filter_entries_step:
  assumes "\<And>q k. q \<noteq> p \<Longrightarrow> P (q, k)"
  shows "entries_step p (\<lambda>m k. if P (p, k) then m k else None) d
    (d\<lparr>projection_entries := filter (\<lambda>e. P (fst e)) (projection_entries d)\<rparr>)"
  using assms
  by (auto simp: entries_step_def projections_ok_def contents_def map_of_filter_keys
      distinct_map_filter fun_eq_iff image_subset_iff)

lemma clear_entries_step:
  "tx_yields (clear_entries p) d u d' \<Longrightarrow> entries_step p (\<lambda>m. Map.empty) d d'"
  using filter_entries_step [of p "\<lambda>x. fst x \<noteq> p" d]
  by (auto simp: clear_entries_def dest!: yields)

lemma upsert_step:
  assumes "upsert_projection_entry p k v d = Inr d'"
  shows "entries_step p (\<lambda>m. m(k \<mapsto> v)) d d'"
proof -
  let ?es = "AList.update (p, k) v (projection_entries d)"
  have d': "d' = d\<lparr>projection_entries := ?es\<rparr>" and p: "p \<in> fst ` set (projection_meta d)"
    using assms by (auto simp: upsert_projection_entry_def map_of_eq_None_iff)
  have keys: "fst ` fst ` set ?es = insert p (fst ` fst ` set (projection_entries d))"
    by (simp only: dom_update image_Un image_insert image_empty fst_conv insert_is_Un [symmetric])
  have fields: "projection_entries d' = ?es" "projection_meta d' = projection_meta d"
    by (simp_all add: d')
  have "projections_ok d \<longrightarrow> projections_ok d'"
    using p unfolding projections_ok_def fields keys by (simp add: distinct_update)
  then show ?thesis
    using d' by (auto simp: entries_step_def contents_def update_conv')
qed

lemma insert_step:
  "insert_projection_entry p k v d = Inr d' \<Longrightarrow> entries_step p (\<lambda>m. m(k \<mapsto> v)) d d'"
  unfolding insert_projection_entry_def by (auto intro: upsert_step)

lemma entries_step_eq: "entries_step p f d d' \<Longrightarrow> f (contents d p) = g (contents d p) \<Longrightarrow>
    entries_step p g d d'"
  by (simp add: entries_step_def)

lemma insert_entries_step:
  assumes "tx_yields (tx_for_each (\<lambda>e. tx_map_err Error_Storage
      (execute (insert_projection_entry p (entry_key e) (entry_value e)))) es) d u d'"
  shows "entries_step p (\<lambda>m. fold (\<lambda>e m. m(entry_key e \<mapsto> entry_value e)) es m) d d'"
  using assms
proof (induction es arbitrary: d)
  case Nil
  then show ?case by (auto dest!: yields_return)
next
  case (Cons e es)
  then obtain b where "insert_projection_entry p (entry_key e) (entry_value e) d = Inr b"
    and rest: "tx_yields (tx_for_each (\<lambda>e. tx_map_err Error_Storage
      (execute (insert_projection_entry p (entry_key e) (entry_value e)))) es) b u d'"
    by (cases u) (auto dest!: yields)
  from entries_step_trans [OF insert_step [OF this(1)] Cons.IH [OF rest]] show ?case
    by simp
qed

lemma fold_entries_map:
  "distinct (map entry_key es) \<Longrightarrow>
     fold (\<lambda>e m. m(entry_key e \<mapsto> entry_value e)) es m =
       m ++ map_of (map (\<lambda>e. (entry_key e, entry_value e)) es)"
proof (induction es arbitrary: m)
  case (Cons e es)
  then have "map_of (map (\<lambda>e. (entry_key e, entry_value e)) es) (entry_key e) = None"
    by (auto simp: map_of_eq_None_iff)
  with Cons show ?case
    by (auto simp: map_add_def fun_eq_iff split: option.split)
qed simp

text \<open>A mutation that the static check admits.\<close>

fun mutation_ok :: "projection_mutation \<Rightarrow> bool" where
  "mutation_ok (Replace entries) \<longleftrightarrow> distinct (map entry_key entries)"
| "mutation_ok _ \<longleftrightarrow> True"

lemma validate_mutations_ok:
  "validate_mutations p seen ms = Inr u \<Longrightarrow> \<forall>m \<in> set ms. mutation_ok m"
proof (induction p seen ms arbitrary: u rule: validate_mutations.induct)
  case (5 p seen entries ms)
  then show ?case by (auto simp: validate_replace_Inr)
qed (auto split: if_splits)

lemma apply_mutation_step:
  assumes "tx_yields (apply_mutation p m) d u d'" "mutation_ok m"
  shows "entries_step p (mutation_map m) d d'"
proof (cases m)
  case (Put k v)
  with assms have "entries_step p (\<lambda>m. m(k \<mapsto> v)) d d'"
    by (auto dest!: yields intro: upsert_step)
  then show ?thesis by (rule entries_step_eq) (simp add: Put)
next
  case (Delete k)
  have "d' = d\<lparr>projection_entries := filter (\<lambda>e. fst e \<noteq> (p, k)) (projection_entries d)\<rparr>"
    using assms Delete by (auto dest!: yields)
  with filter_entries_step [of p "\<lambda>x. x \<noteq> (p, k)" d]
  have "entries_step p (\<lambda>m j. if (p, j) \<noteq> (p, k) then m j else None) d d'" by simp
  then show ?thesis by (rule entries_step_eq) (auto simp: Delete)
next
  case Clear
  with assms have "entries_step p (\<lambda>_. Map.empty) d d'" by (auto intro: clear_entries_step)
  then show ?thesis by (rule entries_step_eq) (simp add: Clear)
next
  case (Replace es)
  with assms obtain b v w where "tx_yields (clear_entries p) d v b"
    and "tx_yields (tx_for_each (\<lambda>e. tx_map_err Error_Storage
      (execute (insert_projection_entry p (entry_key e) (entry_value e)))) es) b w d'"
    by (auto dest!: yields_bind)
  from entries_step_trans [OF clear_entries_step [OF this(1)] insert_entries_step [OF this(2)]]
  show ?thesis
    by (rule entries_step_eq) (use assms(2) Replace in \<open>simp add: fold_entries_map\<close>)
qed

lemma apply_mutations_step:
  assumes "tx_yields (tx_for_each (apply_mutation p) ms) d u d'" "\<forall>m \<in> set ms. mutation_ok m"
  shows "entries_step p (patch_map ms) d d'"
  using assms
proof (induction ms arbitrary: d)
  case Nil
  then show ?case by (auto simp: patch_map_def dest!: yields_return)
next
  case (Cons m ms)
  then obtain b v where first: "tx_yields (apply_mutation p m) d v b"
    and rest: "tx_yields (tx_for_each (apply_mutation p) ms) b u d'"
    by (cases u) (auto dest!: yields_bind)
  have "entries_step p (mutation_map m) d b" "entries_step p (patch_map ms) b d'"
    using apply_mutation_step [OF first] Cons.IH [OF rest] Cons.prems(2) by auto
  from entries_step_trans [OF this] show ?case
    by (rule entries_step_eq) (simp add: patch_map_def)
qed

lemma version_query_yields:
  "tx_yields (version_query p) d v d' \<Longrightarrow> v = stored_projection_version d p \<and> d' = d"
  unfolding version_query_def stored_projection_version_def by (auto dest!: yields)

text \<open>What an applied patch does.\<close>

lemma apply_projection_patch_yields:
  assumes "tx_yields (apply_projection_patch p) d u d'"
  shows "patch_validate p = Inr ()"
    and "stored_projection_version d (patch_projection p) = patch_expected_version p"
    and "stored_projection_version d' (patch_projection p) = patch_expected_version p + 1"
    and "contents d' (patch_projection p) =
      patch_map (patch_mutations p) (contents d (patch_projection p))"
    and "q \<noteq> patch_projection p \<Longrightarrow> contents d' q = contents d q \<and>
      stored_projection_version d' q = stored_projection_version d q"
    and "projections_ok d \<Longrightarrow> projections_ok d'"
    and "\<exists>pm es. d' = d\<lparr>projection_meta := pm, projection_entries := es\<rparr>"
proof -
  let ?p = "patch_projection p"
  let ?d = "d\<lparr>projection_meta := AList.update ?p (u64_as_i64 (patch_new_version p))
    (projection_meta d)\<rparr>"
  obtain valid: "patch_validate p = Inr ()"
    and version: "stored_projection_version d ?p = patch_expected_version p"
    and rest: "tx_yields (tx_for_each (apply_mutation ?p) (patch_mutations p)) ?d u d'"
    using assms unfolding apply_projection_patch_def
    by (auto dest!: yields version_query_yields split: if_splits)
  have "\<forall>m \<in> set (patch_mutations p). mutation_ok m"
    using valid by (auto simp: patch_validate_def split: if_splits dest: validate_mutations_ok)
  with rest have step: "entries_step ?p (patch_map (patch_mutations p)) ?d d'"
    by (rule apply_mutations_step)
  then obtain es where d': "d' = ?d\<lparr>projection_entries := es\<rparr>"
    by (auto simp: entries_step_def)
  have new: "patch_new_version p = patch_expected_version p + 1"
    using valid by (simp add: patch_validate_def split: if_splits)
  have same: "contents ?d q = contents d q" for q
    by (simp add: contents_def)
  show "patch_validate p = Inr ()" by (fact valid)
  show "stored_projection_version d ?p = patch_expected_version p" by (fact version)
  show "stored_projection_version d' ?p = patch_expected_version p + 1"
    by (simp add: d' stored_projection_version_def update_conv' new)
  show "contents d' ?p = patch_map (patch_mutations p) (contents d ?p)"
    using step same by (simp add: entries_step_def)
  show "contents d' q = contents d q \<and>
      stored_projection_version d' q = stored_projection_version d q" if "q \<noteq> ?p"
    using step same that
    by (auto simp: entries_step_def d' stored_projection_version_def update_conv')
  show "projections_ok d'" if "projections_ok d"
  proof -
    have "projections_ok ?d"
      using that by (auto simp: projections_ok_def distinct_update dom_update)
    with step show ?thesis by (simp add: entries_step_def)
  qed
  show "\<exists>pm es. d' = d\<lparr>projection_meta := pm, projection_entries := es\<rparr>"
    unfolding d' by (intro exI) simp
qed

section \<open>Scans\<close>

declare prefix_upper_bound.simps [simp del]

lemma prefix_upper_bound_Nil [simp]: "prefix_upper_bound [] = None"
  by (simp add: prefix_upper_bound.simps)

lemma prefix_upper_bound_snoc [simp]:
  "prefix_upper_bound (xs @ [x]) = (if x = 255 then prefix_upper_bound xs else Some (xs @ [x + 1]))"
  by (subst prefix_upper_bound.simps) simp

lemma u8_less_Suc: "x \<noteq> 255 \<Longrightarrow> y < x + 1 \<longleftrightarrow> y \<le> (x :: u8)"
proof -
  assume "x \<noteq> 255"
  then have "unat x \<noteq> 255"
    by (simp add: word_unat_eq_iff)
  moreover have "unat x < 256"
    using unsigned_less [of x, where 'a = nat] by simp
  ultimately have "unat (x + 1) = Suc (unat x)"
    by (simp add: unat_word_ariths)
  then show ?thesis
    by (simp add: word_less_nat_alt word_le_nat_alt less_Suc_eq_le)
qed

lemma snoc_bounds_iff:
  "x \<noteq> 255 \<Longrightarrow> xs @ [x] \<le> k \<and> k < xs @ [x + 1] \<longleftrightarrow> prefix (xs @ [x :: u8]) k"
proof (induction xs arbitrary: k)
  case Nil
  then show ?case
    by (cases k) (auto simp: u8_less_Suc)
next
  case step: (Cons a xs)
  show ?case
  proof (cases k)
    case (Cons b k')
    then show ?thesis
      using step.IH [OF step.prems, of k'] by (cases "a = b") auto
  qed simp
qed

lemma snoc_max_iff: "prefix xs k \<Longrightarrow> xs @ [255] \<le> k \<longleftrightarrow> prefix (xs @ [255 :: u8]) k"
proof (induction xs arbitrary: k)
  case Nil
  have "\<not> 255 < (y :: u8)" for y
    using unsigned_less [of y, where 'a = nat] by (simp add: word_less_nat_alt)
  then show ?case
    by (cases k) auto
next
  case (Cons a xs)
  then show ?case by (cases k) auto
qed

lemma prefix_bounds_iff:
  "pre \<le> k \<and> (case prefix_upper_bound pre of None \<Rightarrow> True | Some b \<Rightarrow> k < b) \<longleftrightarrow> prefix pre k"
proof (induction pre rule: rev_induct)
  case (snoc x xs)
  show ?case
  proof (cases "x = 255")
    case True
    have "xs \<le> k" if "xs @ [255] \<le> k"
      using that by (induction xs arbitrary: k) (case_tac k; auto)+
    then show ?thesis
      using True snoc.IH snoc_max_iff [of xs k] append_prefixD [of xs "[255]" k] by auto
  next
    case False
    then show ?thesis using snoc_bounds_iff [of x xs k] by simp
  qed
qed simp

text \<open>The entries of a projection whose keys satisfy \<open>P\<close>, in key order.\<close>

definition select_entries :: "db \<Rightarrow> string \<Rightarrow> (blob \<Rightarrow> bool) \<Rightarrow> projection_entry list" where
  "select_entries d p P = map (\<lambda>e. \<lparr>entry_key = snd (fst e), entry_value = snd e\<rparr>)
     (sort_key (snd \<circ> fst) (filter (\<lambda>e. fst (fst e) = p \<and> P (snd (fst e))) (projection_entries d)))"

lemma select_entries_set:
  assumes "projections_ok d"
  shows "e \<in> set (select_entries d p P) \<longleftrightarrow>
    contents d p (entry_key e) = Some (entry_value e) \<and> P (entry_key e)"
proof -
  have "distinct (map fst (projection_entries d))"
    using assms by (simp add: projections_ok_def)
  then show ?thesis
    by (cases e) (force simp: select_entries_def contents_def map_of_eq_Some_iff)
qed

lemma select_entries_sorted:
  assumes "projections_ok d"
  shows "sorted_wrt (<) (map entry_key (select_entries d p P))"
proof -
  let ?rows = "filter (\<lambda>e. fst (fst e) = p \<and> P (snd (fst e))) (projection_entries d)"
  have "inj_on (snd \<circ> fst) (set ?rows)"
  proof (rule inj_onI, goal_cases)
    case (1 x y)
    then have "fst x = fst y" by (auto simp: prod_eq_iff)
    with 1 assms show ?case
      by (auto simp: projections_ok_def distinct_map dest: inj_onD)
  qed
  moreover have "distinct ?rows"
    using assms by (auto simp: projections_ok_def distinct_map)
  ultimately have "distinct (map (snd \<circ> fst) (sort_key (snd \<circ> fst) ?rows))"
    by (simp add: distinct_map)
  moreover have "map entry_key (select_entries d p P) = map (snd \<circ> fst) (sort_key (snd \<circ> fst) ?rows)"
    by (simp add: select_entries_def)
  ultimately show ?thesis
    by (simp add: strict_sorted_iff)
qed

lemma tx_map_err_one_read:
  "m s = one_read x s \<Longrightarrow> tx_map_err f m s = tx_map_err f (one_read x) s"
  by (simp add: tx_map_err_def)

lemma scan_one_read:
  assumes "unat limit < 2 ^ 63"
  shows "scan p start bound after limit s = tx_map_err Error_Storage (one_read
    (take (unat limit) (select_entries (tx_db s) p (\<lambda>k.
      (case start of None \<Rightarrow> True | Some b \<Rightarrow> b \<le> k) \<and>
      (case bound of None \<Rightarrow> True | Some b \<Rightarrow> k < b) \<and>
      (case after of None \<Rightarrow> True | Some b \<Rightarrow> b < k))))) s"
  unfolding scan_def
  by (rule tx_map_err_one_read)
    (simp only: query_return_one_read sql_limit_take [OF assms] select_entries_def take_map)

lemma prefix_page_one_read:
  assumes "unat limit < 2 ^ 63"
  shows "projection_scan_prefix_page p pre after limit s = tx_map_err Error_Storage (one_read
    (take (unat limit) (select_entries (tx_db s) p (\<lambda>k. prefix pre k \<and>
      (case after of None \<Rightarrow> True | Some b \<Rightarrow> b < k))))) s"
  unfolding projection_scan_prefix_page_def scan_one_read [OF assms]
  by (simp add: prefix_bounds_iff [symmetric] conj_assoc)

end
