(* ===== verification/Request_Digest.thy ===== *)
theory Request_Digest
  imports Transactions
begin

text \<open>
  What the request digest of \<open>src/transaction.rs\<close> is: \<open>ser_batch\<close> lists the bytes that the
  digest functions feed to the hasher, \<open>request_digest_eq\<close> says that the incremental hasher
  returns SHA-256 of exactly these bytes, and \<open>ser_batch_inject\<close> that the bytes determine the
  batch. The locale \<open>prefix_code\<close> is the interface between the two halves: an encoding whose end can be
  found without knowing what follows it.
\<close>

section \<open>Prefix-free encodings\<close>

locale prefix_code =
  fixes fits :: "'a \<Rightarrow> bool"
    and ser :: "'a \<Rightarrow> u8 list"
  assumes ser_cancel: "fits x \<Longrightarrow> fits y \<Longrightarrow> ser x @ r = ser y @ s \<Longrightarrow> x = y \<and> r = s"
begin

lemma ser_append_iff:
  "fits x \<Longrightarrow> fits y \<Longrightarrow> ser x @ r = ser y @ s \<longleftrightarrow> x = y \<and> r = s"
  using ser_cancel by blast

lemma ser_inject: "fits x \<Longrightarrow> fits y \<Longrightarrow> ser x = ser y \<longleftrightarrow> x = y"
  using ser_cancel [of x y "[]" "[]"] by auto

lemma ser_list_append_iff:
  assumes "length xs = length ys" "\<forall>x \<in> set xs. fits x" "\<forall>y \<in> set ys. fits y"
  shows "concat (map ser xs) @ r = concat (map ser ys) @ s \<longleftrightarrow> xs = ys \<and> r = s"
  using assms by (induction xs ys rule: list_induct2) (auto simp: ser_append_iff)

end

section \<open>The bytes of a batch\<close>

definition ser_u64 :: "u64 \<Rightarrow> u8 list" where "ser_u64 v = be_bytes 8 v"
definition ser_i64 :: "i64 \<Rightarrow> u8 list" where "ser_i64 v = be_bytes 8 (i64_bits v)"
definition ser_bytes :: "u8 list \<Rightarrow> u8 list" where
  "ser_bytes bs = ser_u64 (word_of_nat (length bs)) @ bs"
definition ser_str :: "string \<Rightarrow> u8 list" where "ser_str s = ser_bytes (str_bytes s)"

fun ser_opt :: "('a \<Rightarrow> u8 list) \<Rightarrow> 'a option \<Rightarrow> u8 list" where
  "ser_opt ser None = [0]"
| "ser_opt ser (Some x) = 1 # ser x"

definition ser_list :: "('a \<Rightarrow> u8 list) \<Rightarrow> 'a list \<Rightarrow> u8 list" where
  "ser_list ser xs = ser_u64 (word_of_nat (length xs)) @ concat (map ser xs)"

definition ser_entry :: "projection_entry \<Rightarrow> u8 list" where
  "ser_entry e = ser_bytes (entry_key e) @ ser_bytes (entry_value e)"

fun ser_mutation :: "projection_mutation \<Rightarrow> u8 list" where
  "ser_mutation (Put key v) = 1 # ser_bytes key @ ser_bytes v"
| "ser_mutation (Delete key) = 2 # ser_bytes key"
| "ser_mutation Clear = [3]"
| "ser_mutation (Replace entries) = 4 # ser_list ser_entry entries"

fun ser_operation :: "operation \<Rightarrow> u8 list" where
  "ser_operation (AppendEvent e) =
     1 # as_bytes (event_id e) @ ser_str (event_stream_id e) @ ser_str (event_type e) @
     ser_u64 (u64_from_u32 (event_schema_version e)) @ ser_i64 (event_occurred_at_ms e) @
     ser_opt as_bytes (event_causation_id e) @ ser_opt as_bytes (event_correlation_id e) @
     ser_bytes (event_payload e) @ ser_bytes (event_metadata e)"
| "ser_operation (ProjectionPatch p) =
     2 # ser_str (patch_projection p) @ ser_u64 (patch_expected_version p) @
     ser_u64 (patch_new_version p) @ ser_list ser_mutation (patch_mutations p)"
| "ser_operation (EnqueueJob j) =
     3 # as_bytes (spec_job_id j) @ ser_str (spec_queue j) @ ser_str (spec_partition_key j) @
     ser_bytes (spec_payload j) @ ser_i64 (spec_not_before_ms j) @
     ser_u64 (u64_from_u32 (spec_max_attempts j)) @
     ucast (i64_bits (effect_mode_encode (spec_effect_mode j))) #
     ser_opt ser_str (spec_idempotency_key j)"
| "ser_operation (AckJob a) =
     4 # as_bytes (ack_job_id a) @ as_bytes (ack_lease_token a) @
     ser_opt ser_bytes (ack_result_digest a)"
| "ser_operation (FailJob f) =
     5 # as_bytes (fail_job_id f) @ as_bytes (fail_lease_token f) @
     ser_str (fail_error_summary f) @ ser_opt ser_i64 (fail_retry_after_ms f)"
| "ser_operation (CancelJob c) =
     6 # as_bytes (cancel_job_id c) @ ser_opt as_bytes (cancel_lease_token c)"
| "ser_operation (ResolveJob r) =
     7 # as_bytes (resolve_job_id r) @ [resolution_tag (resolve_resolution r)]"
| "ser_operation (ExtendLease e) =
     8 # as_bytes (extend_job_id e) @ as_bytes (extend_lease_token e) @
     ser_i64 (extend_new_expiry_ms e)"

definition ser_expected :: "expected_stream_version \<Rightarrow> u8 list" where
  "ser_expected e = ser_str (esv_stream_id e) @ ser_u64 (esv_version e)"

definition ser_batch :: "commit_batch \<Rightarrow> u8 list" where
  "ser_batch b =
     ser_i64 (batch_committed_at_ms b) @ ser_opt as_bytes (batch_correlation_id b) @
     ser_bytes (batch_metadata b) @ ser_list ser_expected (batch_expected_stream_versions b) @
     ser_list ser_operation (batch_operations b)"

section \<open>The digest functions write these bytes\<close>

definition writes :: "(sha256 \<Rightarrow> sha256) \<Rightarrow> u8 list \<Rightarrow> bool" where
  "writes f bs \<longleftrightarrow> (\<forall>d m. sha_repr d m \<longrightarrow> sha_repr (f d) (m @ bs))"

lemma writes_comp: "writes f xs \<Longrightarrow> writes g ys \<Longrightarrow> writes (\<lambda>d. g (f d)) (xs @ ys)"
  unfolding writes_def by (metis append_assoc)

lemma writes_foldl:
  "(\<And>x. writes (\<lambda>d. f d x) (ser x)) \<Longrightarrow> writes (\<lambda>d. foldl f d xs) (concat (map ser xs))"
  unfolding writes_def
proof (induction xs)
  case (Cons x xs)
  then show ?case by (metis append_assoc concat.simps(2) foldl_Cons list.simps(9))
qed simp

lemma writes_raw: "writes (\<lambda>d. write_raw d bs) bs"
  by (simp add: writes_def write_raw_def sha_repr_update)

lemma writes_u8: "writes (\<lambda>d. write_u8 d v) [v]"
  and writes_u64: "writes (\<lambda>d. write_u64 d w) (ser_u64 w)"
  and writes_i64: "writes (\<lambda>d. write_i64 d t) (ser_i64 t)"
  and writes_id: "writes (\<lambda>d. write_id d i) (as_bytes i)"
  by (simp_all add: write_u8_def write_u64_def write_i64_def write_id_def ser_u64_def ser_i64_def
      writes_raw)

lemma writes_bytes: "writes (\<lambda>d. write_bytes d bs) (ser_bytes bs)"
  unfolding write_bytes_def ser_bytes_def by (intro writes_comp writes_u64 writes_raw)

lemma writes_str: "writes (\<lambda>d. write_str d s) (ser_str s)"
  unfolding write_str_def ser_str_def by (rule writes_bytes)

lemma writes_opt:
  "(\<And>x. writes (\<lambda>d. w d x) (ser x)) \<Longrightarrow> writes (\<lambda>d. write_opt w d v) (ser_opt ser v)"
  by (cases v) (use writes_comp [OF writes_u8 [of 1]] writes_u8 in \<open>auto\<close>)

lemma writes_opt_id: "writes (\<lambda>d. write_opt_id d v) (ser_opt as_bytes v)"
  unfolding write_opt_id_def by (intro writes_opt writes_id)

lemmas writes_fields = writes_u8 writes_u64 writes_i64 writes_id writes_bytes writes_str
  writes_opt_id writes_opt [OF writes_str] writes_opt [OF writes_bytes] writes_opt [OF writes_i64]

lemma writes_entry: "writes (\<lambda>d. digest_entry d e) (ser_entry e)"
  unfolding digest_entry_def ser_entry_def by (intro writes_comp writes_fields)

lemma writes_eq: "writes f xs \<Longrightarrow> xs = ys \<Longrightarrow> writes f ys"
  by simp

lemma writes_mutation: "writes (\<lambda>d. digest_mutation d m) (ser_mutation m)"
proof (cases m)
  case (Put key v)
  have "writes (\<lambda>d. write_bytes (write_bytes (write_u8 d 1) key) v)
      (([1] @ ser_bytes key) @ ser_bytes v)"
    by (intro writes_comp writes_fields)
  then show ?thesis by (simp add: Put)
next
  case (Delete key)
  have "writes (\<lambda>d. write_bytes (write_u8 d 2) key) ([2] @ ser_bytes key)"
    by (intro writes_comp writes_fields)
  then show ?thesis by (simp add: Delete)
next
  case Clear
  then show ?thesis by (simp add: writes_fields)
next
  case (Replace es)
  have "writes (\<lambda>d. foldl digest_entry (write_u64 (write_u8 d 4) (word_of_nat (length es))) es)
      (([4] @ ser_u64 (word_of_nat (length es))) @ concat (map ser_entry es))"
    by (intro writes_comp writes_foldl writes_entry writes_fields)
  then show ?thesis by (simp add: Replace ser_list_def)
qed

lemma writes_operation: "writes (\<lambda>d. digest_operation d op) (ser_operation op)"
proof (cases op)
  case (AppendEvent e)
  have "writes (\<lambda>d. digest_operation d (AppendEvent e))
      ((((((((([1] @ as_bytes (event_id e)) @ ser_str (event_stream_id e)) @ ser_str (event_type e)) @
        ser_u64 (u64_from_u32 (event_schema_version e))) @ ser_i64 (event_occurred_at_ms e)) @
        ser_opt as_bytes (event_causation_id e)) @ ser_opt as_bytes (event_correlation_id e)) @
        ser_bytes (event_payload e)) @ ser_bytes (event_metadata e))"
    unfolding digest_operation.simps Let_def by (intro writes_comp writes_fields)
  then show ?thesis by (simp add: AppendEvent del: digest_operation.simps)
next
  case (ProjectionPatch p)
  have "writes (\<lambda>d. digest_operation d (ProjectionPatch p))
      ((((([2] @ ser_str (patch_projection p)) @ ser_u64 (patch_expected_version p)) @
        ser_u64 (patch_new_version p)) @ ser_u64 (word_of_nat (length (patch_mutations p)))) @
        concat (map ser_mutation (patch_mutations p)))"
    unfolding digest_operation.simps Let_def
    by (intro writes_comp writes_foldl writes_mutation writes_fields)
  then show ?thesis by (simp add: ProjectionPatch ser_list_def del: digest_operation.simps)
next
  case (EnqueueJob j)
  have "writes (\<lambda>d. digest_operation d (EnqueueJob j))
      (((((((([3] @ as_bytes (spec_job_id j)) @ ser_str (spec_queue j)) @ ser_str (spec_partition_key j)) @
        ser_bytes (spec_payload j)) @ ser_i64 (spec_not_before_ms j)) @
        ser_u64 (u64_from_u32 (spec_max_attempts j))) @
        [ucast (i64_bits (effect_mode_encode (spec_effect_mode j)))]) @
        ser_opt ser_str (spec_idempotency_key j))"
    unfolding digest_operation.simps Let_def by (intro writes_comp writes_fields)
  then show ?thesis by (simp add: EnqueueJob del: digest_operation.simps)
next
  case (AckJob a)
  have "writes (\<lambda>d. digest_operation d (AckJob a))
      ((([4] @ as_bytes (ack_job_id a)) @ as_bytes (ack_lease_token a)) @
        ser_opt ser_bytes (ack_result_digest a))"
    unfolding digest_operation.simps Let_def by (intro writes_comp writes_fields)
  then show ?thesis by (simp add: AckJob del: digest_operation.simps)
next
  case (FailJob f)
  have "writes (\<lambda>d. digest_operation d (FailJob f))
      (((([5] @ as_bytes (fail_job_id f)) @ as_bytes (fail_lease_token f)) @
        ser_str (fail_error_summary f)) @ ser_opt ser_i64 (fail_retry_after_ms f))"
    unfolding digest_operation.simps Let_def by (intro writes_comp writes_fields)
  then show ?thesis by (simp add: FailJob del: digest_operation.simps)
next
  case (CancelJob c)
  have "writes (\<lambda>d. digest_operation d (CancelJob c))
      (([6] @ as_bytes (cancel_job_id c)) @ ser_opt as_bytes (cancel_lease_token c))"
    unfolding digest_operation.simps Let_def by (intro writes_comp writes_fields)
  then show ?thesis by (simp add: CancelJob del: digest_operation.simps)
next
  case (ResolveJob r)
  have "writes (\<lambda>d. digest_operation d (ResolveJob r))
      (([7] @ as_bytes (resolve_job_id r)) @ [resolution_tag (resolve_resolution r)])"
    unfolding digest_operation.simps Let_def by (intro writes_comp writes_fields)
  then show ?thesis by (simp add: ResolveJob del: digest_operation.simps)
next
  case (ExtendLease e)
  have "writes (\<lambda>d. digest_operation d (ExtendLease e))
      ((([8] @ as_bytes (extend_job_id e)) @ as_bytes (extend_lease_token e)) @
        ser_i64 (extend_new_expiry_ms e))"
    unfolding digest_operation.simps Let_def by (intro writes_comp writes_fields)
  then show ?thesis by (simp add: ExtendLease del: digest_operation.simps)
qed

lemma writes_expected: "writes (\<lambda>d. digest_expected d e) (ser_expected e)"
  unfolding digest_expected_def ser_expected_def by (intro writes_comp writes_fields)

lemma request_digest_eq: "request_digest b = sha256_ref (ser_batch b)"
proof -
  let ?es = "batch_expected_stream_versions b" and ?ops = "batch_operations b"
  have "writes (\<lambda>d. foldl digest_operation (write_u64 (foldl digest_expected
      (write_u64 (write_bytes (write_opt_id (write_i64 d (batch_committed_at_ms b))
        (batch_correlation_id b)) (batch_metadata b)) (word_of_nat (length ?es))) ?es)
        (word_of_nat (length ?ops))) ?ops)
      ((((((ser_i64 (batch_committed_at_ms b) @
      ser_opt as_bytes (batch_correlation_id b)) @ ser_bytes (batch_metadata b)) @
      ser_u64 (word_of_nat (length ?es))) @ concat (map ser_expected ?es)) @
      ser_u64 (word_of_nat (length ?ops))) @ concat (map ser_operation ?ops))"
    by (intro writes_comp writes_foldl writes_expected writes_operation writes_fields)
  then have "sha_repr (digest_batch b) (ser_batch b)"
    using sha_repr_new unfolding writes_def digest_batch_def ser_batch_def ser_list_def Let_def
    by fastforce
  then show ?thesis
    by (simp add: request_digest_def finish_repr)
qed

section \<open>The bytes determine the batch\<close>

text \<open>
  Lengths are written as \<open>len() as u64\<close>; a Rust slice never exceeds \<open>isize::MAX\<close> bytes, so the
  cast never wraps. \<open>batch_fits\<close> is that fact of the language.
\<close>

definition len_fits :: "'a list \<Rightarrow> bool" where
  "len_fits xs \<longleftrightarrow> length xs < 2 ^ 63"

definition entry_fits :: "projection_entry \<Rightarrow> bool" where
  "entry_fits e \<longleftrightarrow> len_fits (entry_key e) \<and> len_fits (entry_value e)"

fun mutation_fits :: "projection_mutation \<Rightarrow> bool" where
  "mutation_fits (Put key v) \<longleftrightarrow> len_fits key \<and> len_fits v"
| "mutation_fits (Delete key) \<longleftrightarrow> len_fits key"
| "mutation_fits Clear \<longleftrightarrow> True"
| "mutation_fits (Replace es) \<longleftrightarrow> len_fits es \<and> list_all entry_fits es"

fun operation_fits :: "operation \<Rightarrow> bool" where
  "operation_fits (AppendEvent e) \<longleftrightarrow> len_fits (event_stream_id e) \<and> len_fits (event_type e) \<and>
     len_fits (event_payload e) \<and> len_fits (event_metadata e)"
| "operation_fits (ProjectionPatch p) \<longleftrightarrow> len_fits (patch_projection p) \<and>
     len_fits (patch_mutations p) \<and> list_all mutation_fits (patch_mutations p)"
| "operation_fits (EnqueueJob j) \<longleftrightarrow> len_fits (spec_queue j) \<and> len_fits (spec_partition_key j) \<and>
     len_fits (spec_payload j) \<and> pred_option len_fits (spec_idempotency_key j)"
| "operation_fits (AckJob a) \<longleftrightarrow> pred_option len_fits (ack_result_digest a)"
| "operation_fits (FailJob f) \<longleftrightarrow> len_fits (fail_error_summary f)"
| "operation_fits _ \<longleftrightarrow> True"

definition batch_fits :: "commit_batch \<Rightarrow> bool" where
  "batch_fits b \<longleftrightarrow> len_fits (batch_metadata b) \<and>
     len_fits (batch_expected_stream_versions b) \<and>
     list_all (\<lambda>e. len_fits (esv_stream_id e)) (batch_expected_stream_versions b) \<and>
     len_fits (batch_operations b) \<and> list_all operation_fits (batch_operations b)"

lemma len_fits_word: "len_fits xs \<Longrightarrow> unat (word_of_nat (length xs) :: u64) = length xs"
  by (simp add: len_fits_def unat_of_nat)

interpretation u64_code: prefix_code "\<lambda>_. True" ser_u64
  by unfold_locales (auto simp: ser_u64_def append_eq_append_conv be_bytes_inject)

interpretation i64_code: prefix_code "\<lambda>_. True" ser_i64
  by unfold_locales
    (auto simp: ser_i64_def append_eq_append_conv be_bytes_inject i64.expand)

interpretation id_code: prefix_code "\<lambda>_. True" as_bytes
  by unfold_locales (auto simp: append_eq_append_conv)

interpretation bytes_code: prefix_code len_fits ser_bytes
proof unfold_locales
  fix xs ys r s
  assume "len_fits xs" "len_fits ys" and eq: "ser_bytes xs @ r = ser_bytes ys @ s"
  then have "length xs = length ys"
    by (metis len_fits_word ser_bytes_def append_assoc u64_code.ser_cancel)
  with eq show "xs = ys \<and> r = s"
    by (simp add: ser_bytes_def)
qed

interpretation str_code: prefix_code len_fits ser_str
proof unfold_locales
  fix xs ys r s
  assume "len_fits xs" "len_fits ys" "ser_str xs @ r = ser_str ys @ s"
  then show "xs = ys \<and> r = s"
    using bytes_code.ser_append_iff [of "str_bytes xs" "str_bytes ys"]
    by (simp add: ser_str_def len_fits_def)
qed

lemma prefix_code_opt:
  assumes "prefix_code fits ser"
  shows "prefix_code (pred_option fits) (ser_opt ser)"
proof (unfold_locales, goal_cases)
  case (1 x y r s)
  then show ?case
    by (cases x; cases y) (auto dest: prefix_code.ser_cancel [OF assms])
qed

lemma prefix_code_list:
  assumes "prefix_code fits ser"
  shows "prefix_code (\<lambda>xs. len_fits xs \<and> list_all fits xs) (ser_list ser)"
proof (unfold_locales, goal_cases)
  case (1 xs ys r s)
  then have "length xs = length ys"
    by (metis len_fits_word ser_list_def append_assoc u64_code.ser_cancel)
  with 1 show ?case
    using prefix_code.ser_list_append_iff [OF assms, of xs ys r s]
    by (simp add: ser_list_def list_all_iff)
qed

lemmas opt_id_code = prefix_code_opt [OF id_code.prefix_code_axioms]
lemmas opt_str_code = prefix_code_opt [OF str_code.prefix_code_axioms]
lemmas opt_bytes_code = prefix_code_opt [OF bytes_code.prefix_code_axioms]
lemmas opt_i64_code = prefix_code_opt [OF i64_code.prefix_code_axioms]

lemmas field_iffs = u64_code.ser_append_iff i64_code.ser_append_iff id_code.ser_append_iff
  bytes_code.ser_append_iff str_code.ser_append_iff
  prefix_code.ser_append_iff [OF opt_id_code] prefix_code.ser_append_iff [OF opt_str_code]
  prefix_code.ser_append_iff [OF opt_bytes_code] prefix_code.ser_append_iff [OF opt_i64_code]

lemma pred_option_True [simp]: "pred_option (\<lambda>_. True) v"
  by (cases v) simp_all

interpretation entry_code: prefix_code entry_fits ser_entry
  by unfold_locales (auto simp: entry_fits_def ser_entry_def field_iffs)

lemmas entries_code = prefix_code_list [OF entry_code.prefix_code_axioms]

interpretation mutation_code: prefix_code mutation_fits ser_mutation
proof (unfold_locales, goal_cases)
  case (1 x y r s)
  then show ?case
    by (cases x; cases y) (auto simp: field_iffs prefix_code.ser_append_iff [OF entries_code])
qed

lemmas mutations_code = prefix_code_list [OF mutation_code.prefix_code_axioms]

lemma u64_from_u32_inject [simp]: "u64_from_u32 v = u64_from_u32 w \<longleftrightarrow> v = w"
  by (metis i64_from_u32_inject i64_from_u32_def u64_from_u32_def i64.inject)

lemma effect_mode_byte [simp]:
  "(ucast (i64_bits (effect_mode_encode m)) :: u8) = ucast (i64_bits (effect_mode_encode n)) \<longleftrightarrow> m = n"
  by (cases m; cases n) simp_all

lemma resolution_tag_inject [simp]: "resolution_tag x = resolution_tag y \<longleftrightarrow> x = y"
  by (cases x; cases y) simp_all

lemma ser_operation_tag:
  "ser_operation x @ r = ser_operation y @ s \<Longrightarrow>
     hd (ser_operation x) = hd (ser_operation y)"
  by (cases x; cases y) auto

lemma ser_append_event:
  assumes "operation_fits (AppendEvent x)" "operation_fits (AppendEvent y)"
    and "ser_operation (AppendEvent x) @ r = ser_operation (AppendEvent y) @ s"
  shows "x = y \<and> r = s"
  using assms by (auto simp: field_iffs intro: event.equality)

lemma ser_projection_patch:
  assumes "operation_fits (ProjectionPatch x)" "operation_fits (ProjectionPatch y)"
    and "ser_operation (ProjectionPatch x) @ r = ser_operation (ProjectionPatch y) @ s"
  shows "x = y \<and> r = s"
  using assms
  by (auto simp: field_iffs prefix_code.ser_append_iff [OF mutations_code]
      intro: projection_patch.equality)

lemma ser_enqueue_job:
  assumes "operation_fits (EnqueueJob x)" "operation_fits (EnqueueJob y)"
    and "ser_operation (EnqueueJob x) @ r = ser_operation (EnqueueJob y) @ s"
  shows "x = y \<and> r = s"
  using assms by (auto simp: field_iffs intro: job_spec.equality)

interpretation operation_code: prefix_code operation_fits ser_operation
proof (unfold_locales, goal_cases)
  case (1 x y r s)
  have tag: "hd (ser_operation x) = hd (ser_operation y)"
    using 1(3) by (rule ser_operation_tag)
  show ?case
  proof (cases x)
    case (AppendEvent e)
    with tag obtain e' where y: "y = AppendEvent e'" by (cases y) auto
    show ?thesis
      using ser_append_event [of e e' r s] 1 unfolding AppendEvent y operation.inject by blast
  next
    case (ProjectionPatch p)
    with tag obtain p' where y: "y = ProjectionPatch p'" by (cases y) auto
    show ?thesis
      using ser_projection_patch [of p p' r s] 1 unfolding ProjectionPatch y operation.inject by blast
  next
    case (EnqueueJob j)
    with tag obtain j' where y: "y = EnqueueJob j'" by (cases y) auto
    show ?thesis
      using ser_enqueue_job [of j j' r s] 1 unfolding EnqueueJob y operation.inject by blast
  next
    case (AckJob a)
    with tag obtain a' where "y = AckJob a'" by (cases y) auto
    with 1 AckJob show ?thesis by (auto simp: field_iffs intro: job_ack.equality)
  next
    case (FailJob a)
    with tag obtain a' where "y = FailJob a'" by (cases y) auto
    with 1 FailJob show ?thesis by (auto simp: field_iffs intro: job_failure.equality)
  next
    case (CancelJob a)
    with tag obtain a' where "y = CancelJob a'" by (cases y) auto
    with 1 CancelJob show ?thesis by (auto simp: field_iffs intro: job_cancellation.equality)
  next
    case (ResolveJob a)
    with tag obtain a' where "y = ResolveJob a'" by (cases y) auto
    with 1 ResolveJob show ?thesis by (auto simp: field_iffs intro: job_resolution.equality)
  next
    case (ExtendLease a)
    with tag obtain a' where "y = ExtendLease a'" by (cases y) auto
    with 1 ExtendLease show ?thesis by (auto simp: field_iffs intro: lease_extension.equality)
  qed
qed

interpretation expected_code: prefix_code "\<lambda>e. len_fits (esv_stream_id e)" ser_expected
  by unfold_locales (auto simp: ser_expected_def field_iffs)

lemmas operations_code = prefix_code_list [OF operation_code.prefix_code_axioms]
lemmas expecteds_code = prefix_code_list [OF expected_code.prefix_code_axioms]

lemma ser_batch_inject:
  assumes "batch_fits b" "batch_fits c" "ser_batch b = ser_batch c"
  shows "b\<lparr>batch_transaction_id := t\<rparr> = c\<lparr>batch_transaction_id := t\<rparr>"
proof -
  have "ser_batch b @ [] = ser_batch c @ []"
    using assms(3) by simp
  then have "batch_committed_at_ms b = batch_committed_at_ms c \<and>
      batch_correlation_id b = batch_correlation_id c \<and> batch_metadata b = batch_metadata c \<and>
      batch_expected_stream_versions b = batch_expected_stream_versions c \<and>
      batch_operations b = batch_operations c"
    using assms(1, 2) unfolding ser_batch_def batch_fits_def append_assoc
    by (simp add: field_iffs prefix_code.ser_append_iff [OF expecteds_code]
        prefix_code.ser_inject [OF operations_code])
  then show ?thesis
    by (intro commit_batch.equality) simp_all
qed

end
