(* ===== verification/Store_Commit.thy ===== *)
theory Store_Commit
  imports Store_Claims Store_Projections Request_Digest
begin

text \<open>
  \<open>src/store/commit.rs\<close>: the commit pipeline. A batch is validated, its digest computed, and in one transaction the
  resubmission check, the expected stream versions, the operations in order and the flush of
  the stream versions are run. The hash map of the code is an association list here; its
  iteration order only decides the order of new rows of \<open>streams\<close>.
\<close>

section \<open>Validation\<close>

fun validate_mutation :: "limits \<Rightarrow> projection_mutation \<Rightarrow> validation_error + unit" where
  "validate_mutation l (Put key v) =
     err_bind (validate_projection_key l (length key)) (\<lambda>_. validate_projection_value l (length v))"
| "validate_mutation l (Delete key) = validate_projection_key l (length key)"
| "validate_mutation l Clear = Inr ()"
| "validate_mutation l (Replace entries) =
     err_bind (ensure (length entries \<le> unat (max_replace_entries l))
       (ReplaceEntryCountExceeds (length entries) (max_replace_entries l))) (\<lambda>_.
     for_each (\<lambda>e. err_bind (validate_projection_key l (length (entry_key e)))
       (\<lambda>_. validate_projection_value l (length (entry_value e)))) entries)"

fun validate_operation :: "limits \<Rightarrow> operation \<Rightarrow> validation_error + unit" where
  "validate_operation l (AppendEvent e) =
     err_bind (ensure (event_id e \<noteq> id_zero) EventIdZero) (\<lambda>_.
     err_bind (validate_string l ''stream id'' (event_stream_id e)) (\<lambda>_.
     err_bind (validate_string l ''event type'' (event_type e)) (\<lambda>_.
     validate_event l (length (event_payload e)) (length (event_metadata e)))))"
| "validate_operation l (ProjectionPatch p) =
     err_bind (validate_string l ''projection'' (patch_projection p)) (\<lambda>_.
     err_bind (patch_validate p) (\<lambda>_.
     for_each (validate_mutation l) (patch_mutations p)))"
| "validate_operation l (EnqueueJob s) =
     err_bind (ensure (spec_job_id s \<noteq> id_zero) JobIdZero) (\<lambda>_.
     err_bind (ensure (spec_max_attempts s \<noteq> 0) MaxAttemptsZero) (\<lambda>_.
     err_bind (validate_string l ''queue'' (spec_queue s)) (\<lambda>_.
     err_bind (validate_string l ''partition key'' (spec_partition_key s)) (\<lambda>_.
     err_bind (validate_job_payload l (length (spec_payload s))) (\<lambda>_.
     (case spec_idempotency_key s of
        Some key \<Rightarrow> validate_string l ''idempotency key'' key
      | None \<Rightarrow> Inr ()))))))"
| "validate_operation l (AckJob a) = ensure (ack_lease_token a \<noteq> id_zero) LeaseTokenZero"
| "validate_operation l (FailJob f) =
     err_bind (ensure (fail_lease_token f \<noteq> id_zero) LeaseTokenZero) (\<lambda>_.
     validate_summary l (fail_error_summary f))"
| "validate_operation l (CancelJob c) = ensure (cancel_lease_token c \<noteq> Some id_zero) LeaseTokenZero"
| "validate_operation l (ResolveJob r) = Inr ()"
| "validate_operation l (ExtendLease x) = ensure (extend_lease_token x \<noteq> id_zero) LeaseTokenZero"

definition validate_batch :: "limits \<Rightarrow> commit_batch \<Rightarrow> validation_error + unit" where
  "validate_batch l b =
     err_bind (ensure (batch_transaction_id b \<noteq> id_zero) TransactionIdZero) (\<lambda>_.
     err_bind (ensure (length (batch_operations b) \<le> unat (max_operations_per_commit l))
       (OperationCountExceeds (length (batch_operations b)) (max_operations_per_commit l))) (\<lambda>_.
     err_bind (validate_metadata l (length (batch_metadata b))) (\<lambda>_.
     err_bind (for_each (\<lambda>e. validate_string l ''stream id'' (esv_stream_id e))
       (batch_expected_stream_versions b)) (\<lambda>_.
     for_each (validate_operation l) (batch_operations b)))))"

section \<open>The pipeline\<close>

definition lookup_transaction :: "id \<Rightarrow> (storage_error, (u64 \<times> i64 \<times> blob) option) tx" where
  "lookup_transaction transaction_id =
     tx_bind (query (\<lambda>d. Inr (List.find (\<lambda>r. tx_transaction_id r = as_bytes transaction_id)
       (transactions d))))
     (\<lambda>row. tx_return (map_option (\<lambda>r. (i64_as_u64 (tx_transaction_sequence r),
        tx_committed_at_ms r, tx_request_digest r)) row))"

type_synonym versions = "(string \<times> u64) list"

definition check_expected_version :: "versions \<Rightarrow> expected_stream_version \<Rightarrow> (commit_error, versions) tx" where
  "check_expected_version sv expected =
     tx_bind (tx_map_err CommitError_Storage (current_stream_version (esv_stream_id expected)))
     (\<lambda>actual.
     if actual \<noteq> esv_version expected
     then tx_lift (Inl (CommitError_Conflict (Conflict_StreamVersion (esv_stream_id expected)
            (esv_version expected) actual)))
     else tx_return (AList.update (esv_stream_id expected) actual sv))"

definition transaction_row :: "commit_batch \<Rightarrow> i64 \<Rightarrow> transactions_row" where
  "transaction_row b sequence = \<lparr>
     tx_transaction_id = as_bytes (batch_transaction_id b), tx_transaction_sequence = sequence,
     tx_committed_at_ms = batch_committed_at_ms b,
     tx_correlation_id = map_option as_bytes (batch_correlation_id b),
     tx_metadata = batch_metadata b, tx_request_digest = request_digest b,
     tx_operation_count = u64_as_i64 (word_of_nat (length (batch_operations b)))\<rparr>"

definition append_event :: "id \<Rightarrow> versions \<Rightarrow> event \<Rightarrow> (commit_error, versions) tx" where
  "append_event transaction_id sv e =
     tx_bind (case map_of sv (event_stream_id e) of
         Some v \<Rightarrow> tx_return (v, sv)
       | None \<Rightarrow> tx_bind (tx_map_err CommitError_Storage (current_stream_version (event_stream_id e)))
           (\<lambda>v. tx_return (v, AList.update (event_stream_id e) v sv))) (\<lambda>(current, sv).
     tx_bind (tx_lift (ok_or (u64_checked_add current 1)
       (CommitError_Validation (StreamVersionOverflow (event_stream_id e))))) (\<lambda>next_version.
     tx_bind (tx_map_err CommitError_Storage (insert_event transaction_id e next_version)) (\<lambda>_.
     tx_return (AList.update (event_stream_id e) next_version sv))))"

fun lease_to_commit :: "lease_error \<Rightarrow> commit_error" where
  "lease_to_commit (LeaseError_Conflict c) = CommitError_Conflict (Conflict_Lease c)"
| "lease_to_commit (LeaseError_Storage s) = CommitError_Storage s"
| "lease_to_commit (LeaseError_Indeterminate i) =
     CommitError_Storage (StorageError_Sqlite (Indeterminate_Text (il_storage_error i)))"

text \<open>An operation that does not touch the stream versions.\<close>

definition keeping :: "versions \<Rightarrow> (commit_error, 'a) tx \<Rightarrow> (commit_error, versions) tx" where
  "keeping sv m = tx_bind m (\<lambda>_. tx_return sv)"

fun apply_operation :: "commit_batch \<Rightarrow> versions \<Rightarrow> operation \<Rightarrow> (commit_error, versions) tx" where
  "apply_operation b sv (AppendEvent e) = append_event (batch_transaction_id b) sv e"
| "apply_operation b sv (ProjectionPatch p) =
     keeping sv (tx_map_err error_to_commit (apply_projection_patch p))"
| "apply_operation b sv (EnqueueJob s) =
     keeping sv (tx_map_err error_to_commit (apply_enqueue (batch_transaction_id b) s))"
| "apply_operation b sv (AckJob a) =
     keeping sv (tx_map_err error_to_commit
       (apply_ack (batch_transaction_id b) (batch_committed_at_ms b) a))"
| "apply_operation b sv (FailJob f) =
     keeping sv (tx_map_err error_to_commit
       (apply_fail (batch_transaction_id b) (batch_committed_at_ms b) f))"
| "apply_operation b sv (CancelJob c) =
     keeping sv (tx_map_err error_to_commit
       (apply_cancel (batch_transaction_id b) (batch_committed_at_ms b) c))"
| "apply_operation b sv (ResolveJob r) =
     keeping sv (tx_map_err error_to_commit
       (apply_resolve (batch_transaction_id b) (batch_committed_at_ms b) r))"
| "apply_operation b sv (ExtendLease x) =
     keeping sv (tx_map_err lease_to_commit (apply_extend_lease x (batch_committed_at_ms b)))"

definition commit_body :: "commit_batch \<Rightarrow>
    (commit_error, (commit_receipt, commit_receipt) tx_end) tx" where
  "commit_body b =
     (let transaction_id = batch_transaction_id b; digest = request_digest b in
     tx_bind (tx_map_err CommitError_Storage (lookup_transaction transaction_id)) (\<lambda>found.
     case found of
       Some (sequence, committed_at_ms, stored_digest) \<Rightarrow>
         (if stored_digest = digest
          then tx_return (Roll_Back \<lparr>receipt_transaction_id = transaction_id,
            receipt_transaction_sequence = sequence, receipt_committed_at_ms = committed_at_ms\<rparr>)
          else tx_lift (Inl DuplicateIdWithDifferentContent))
     | None \<Rightarrow>
         tx_bind (tx_fold check_expected_version [] (batch_expected_stream_versions b)) (\<lambda>sv.
         tx_bind (tx_map_err CommitError_Storage next_transaction_sequence) (\<lambda>sequence.
         tx_bind (tx_map_err CommitError_Storage (execute (insert_transactions
           (transaction_row b sequence)))) (\<lambda>_.
         tx_bind (tx_fold (apply_operation b) sv (batch_operations b)) (\<lambda>sv'.
         tx_bind (tx_map_err CommitError_Storage (flush_stream_versions sv')) (\<lambda>_.
         tx_return (To_Commit \<lparr>receipt_transaction_id = transaction_id,
           receipt_transaction_sequence = i64_as_u64 sequence,
           receipt_committed_at_ms = batch_committed_at_ms b\<rparr>))))))))"

definition commit_indeterminate :: "commit_batch \<Rightarrow> commit_receipt \<Rightarrow> indeterminate_cause \<Rightarrow> commit_error" where
  "commit_indeterminate b receipt cause = CommitError_Indeterminate
     \<lparr>ic_transaction_id = batch_transaction_id b, ic_storage_error = cause\<rparr>"

definition commit :: "env \<Rightarrow> limits \<Rightarrow> commit_batch \<Rightarrow> db \<Rightarrow> (commit_error + commit_receipt) \<times> db" where
  "commit e l b d =
     (case validate_batch l b of
        Inl v \<Rightarrow> (Inl (CommitError_Validation v), d)
      | Inr _ \<Rightarrow>
          (let (r, d') = run_tx e CommitError_Storage (commit_indeterminate b) (commit_body b) d
           in (err_bind r (\<lambda>x. Inr (committed_value x)), d')))"

definition recover_transaction :: "id \<Rightarrow> (storage_error, transaction_recovery) tx" where
  "recover_transaction transaction_id =
     tx_bind (query (\<lambda>d. Inr (List.find (\<lambda>r. tx_transaction_id r = as_bytes transaction_id)
       (transactions d))))
     (\<lambda>row. tx_return (case row of
         Some r \<Rightarrow> TransactionRecovery_Committed \<lparr>receipt_transaction_id = transaction_id,
           receipt_transaction_sequence = i64_as_u64 (tx_transaction_sequence r),
           receipt_committed_at_ms = tx_committed_at_ms r\<rparr>
       | None \<Rightarrow> TransactionRecovery_Absent))"

end
