(* ===== verification/Job_Specs.thy ===== *)
theory Job_Specs
  imports Job_Steps
begin

text \<open>
  What each job operation of a batch means, written apart from the code's statements: the columns of the row it
  leaves (\<open>row_ended\<close>, \<open>row_returned\<close>, \<open>row_enqueued\<close>, every column spelled out), the partitions that stay active, and
  when it may be applied (\<open>job_guard\<close>). \<open>job_op\<close> is the effect of an operation on the tables of the jobs; the
  lemmas show that the statements of \<open>src/store/jobs.rs\<close> have that effect on a database that
  satisfies its invariant.
\<close>

section \<open>Rows\<close>

text \<open>The row of a job that has ended: no lease, no retry time, the time of the end, and the digest and summary
  of the operation where it gives them.\<close>

definition row_ended :: "job_state \<Rightarrow> i64 \<Rightarrow> id \<Rightarrow> blob option \<Rightarrow> string option \<Rightarrow> jobs_row \<Rightarrow> jobs_row" where
  "row_ended state now_ms transaction_id digest summary r = \<lparr>
     jobs_job_id = jobs_job_id r, jobs_enqueue_sequence = jobs_enqueue_sequence r,
     jobs_enqueue_transaction_id = jobs_enqueue_transaction_id r, jobs_queue = jobs_queue r,
     jobs_partition_key = jobs_partition_key r, jobs_payload = jobs_payload r,
     jobs_not_before_ms = jobs_not_before_ms r, jobs_max_attempts = jobs_max_attempts r,
     jobs_effect_mode = jobs_effect_mode r, jobs_idempotency_key = jobs_idempotency_key r,
     jobs_state = job_state_encode state, jobs_attempt = jobs_attempt r,
     jobs_lease_token = None, jobs_worker_id = None, jobs_lease_expires_at_ms = None,
     jobs_retry_after_ms = None, jobs_terminal_at_ms = Some now_ms,
     jobs_result_digest = (if digest = None then jobs_result_digest r else digest),
     jobs_error_summary = (if summary = None then jobs_error_summary r else summary),
     jobs_updated_transaction_id = as_bytes transaction_id\<rparr>"

text \<open>The row of a job that has lost its lease and will be tried again.\<close>

definition row_returned :: "job_state \<Rightarrow> i64 option \<Rightarrow> string option \<Rightarrow> id \<Rightarrow> jobs_row \<Rightarrow> jobs_row" where
  "row_returned state retry_after_ms summary transaction_id r = \<lparr>
     jobs_job_id = jobs_job_id r, jobs_enqueue_sequence = jobs_enqueue_sequence r,
     jobs_enqueue_transaction_id = jobs_enqueue_transaction_id r, jobs_queue = jobs_queue r,
     jobs_partition_key = jobs_partition_key r, jobs_payload = jobs_payload r,
     jobs_not_before_ms = jobs_not_before_ms r, jobs_max_attempts = jobs_max_attempts r,
     jobs_effect_mode = jobs_effect_mode r, jobs_idempotency_key = jobs_idempotency_key r,
     jobs_state = job_state_encode state, jobs_attempt = jobs_attempt r,
     jobs_lease_token = None, jobs_worker_id = None, jobs_lease_expires_at_ms = None,
     jobs_retry_after_ms = retry_after_ms, jobs_terminal_at_ms = jobs_terminal_at_ms r,
     jobs_result_digest = jobs_result_digest r,
     jobs_error_summary = (if summary = None then jobs_error_summary r else summary),
     jobs_updated_transaction_id = as_bytes transaction_id\<rparr>"

text \<open>The row of a new job: the columns of its specification, pending, without an attempt.\<close>

definition row_enqueued :: "id \<Rightarrow> job_spec \<Rightarrow> i64 \<Rightarrow> jobs_row" where
  "row_enqueued transaction_id spec sequence = \<lparr>
     jobs_job_id = as_bytes (spec_job_id spec), jobs_enqueue_sequence = sequence,
     jobs_enqueue_transaction_id = as_bytes transaction_id, jobs_queue = spec_queue spec,
     jobs_partition_key = spec_partition_key spec, jobs_payload = spec_payload spec,
     jobs_not_before_ms = spec_not_before_ms spec,
     jobs_max_attempts = i64_of_int (uint (spec_max_attempts spec)),
     jobs_effect_mode = effect_mode_encode (spec_effect_mode spec),
     jobs_idempotency_key = spec_idempotency_key spec, jobs_state = job_state_encode Pending,
     jobs_attempt = I64 0, jobs_lease_token = None, jobs_worker_id = None,
     jobs_lease_expires_at_ms = None, jobs_retry_after_ms = None, jobs_terminal_at_ms = None,
     jobs_result_digest = None, jobs_error_summary = None,
     jobs_updated_transaction_id = as_bytes transaction_id\<rparr>"

section \<open>Tables\<close>

definition unfinished :: "jobs_row \<Rightarrow> bool" where
  "unfinished r \<longleftrightarrow> state_of r \<notin> {Succeeded, Dead, Cancelled}"

definition change_job :: "id \<Rightarrow> (jobs_row \<Rightarrow> jobs_row) \<Rightarrow> jobs_row list \<Rightarrow> jobs_row list" where
  "change_job i u rs = map (\<lambda>r. if jobs_job_id r = as_bytes i then u r else r) rs"

text \<open>Of the active partitions, those that still have an unfinished job.\<close>

definition still_active :: "jobs_row list \<Rightarrow> ((string \<times> string) \<times> i64) list \<Rightarrow> ((string \<times> string) \<times> i64) list" where
  "still_active rs ps = filter (\<lambda>((q, p), n).
     \<exists>r \<in> set rs. jobs_queue r = q \<and> jobs_partition_key r = p \<and> unfinished r) ps"

definition job_ended :: "id \<Rightarrow> job_state \<Rightarrow> i64 \<Rightarrow> id \<Rightarrow> blob option \<Rightarrow> string option \<Rightarrow> db \<Rightarrow> db" where
  "job_ended i state now_ms t digest summary d =
     (let rs = change_job i (row_ended state now_ms t digest summary) (jobs d)
      in d\<lparr>jobs := rs, active_partitions := still_active rs (active_partitions d)\<rparr>)"

definition job_returned :: "id \<Rightarrow> job_state \<Rightarrow> i64 option \<Rightarrow> string option \<Rightarrow> id \<Rightarrow> db \<Rightarrow> db" where
  "job_returned i state retry_after_ms summary t d =
     d\<lparr>jobs := change_job i (row_returned state retry_after_ms summary t) (jobs d)\<rparr>"

definition job_enqueued :: "id \<Rightarrow> job_spec \<Rightarrow> db \<Rightarrow> db" where
  "job_enqueued t spec d =
     (let sequence = i64_of_int (int (length (jobs d)) + 1);
          key = (spec_queue spec, spec_partition_key spec)
      in d\<lparr>jobs := jobs d @ [row_enqueued t spec sequence],
           active_partitions := active_partitions d @
             (if key \<in> set (map fst (active_partitions d)) then [] else [(key, sequence)])\<rparr>)"

definition lease_moved :: "id \<Rightarrow> id \<Rightarrow> i64 \<Rightarrow> db \<Rightarrow> db" where
  "lease_moved i token expiry d =
     d\<lparr>jobs := change_job i (\<lambda>r. r\<lparr>jobs_lease_expires_at_ms := Some expiry\<rparr>) (jobs d),
       claim_receipts := map (\<lambda>c. if cr_job_id c = as_bytes i \<and> cr_lease_token c = as_bytes token
         then c\<lparr>cr_lease_expires_at_ms := expiry\<rparr> else c) (claim_receipts d)\<rparr>"

definition find_job :: "id \<Rightarrow> db \<Rightarrow> jobs_row option" where
  "find_job i d = List.find (\<lambda>r. jobs_job_id r = as_bytes i) (jobs d)"

definition job_found :: "id \<Rightarrow> (jobs_row \<Rightarrow> bool) \<Rightarrow> db \<Rightarrow> bool" where
  "job_found i P d \<longleftrightarrow> (case find_job i d of None \<Rightarrow> False | Some r \<Rightarrow> P r)"

text \<open>Whether the job has an attempt left.\<close>

definition attempt_left :: "id \<Rightarrow> db \<Rightarrow> bool" where
  "attempt_left i d \<longleftrightarrow> job_found i (\<lambda>r. jobs_attempt r < jobs_max_attempts r) d"

section \<open>Operations\<close>

fun job_op :: "id \<Rightarrow> i64 \<Rightarrow> operation \<Rightarrow> db \<Rightarrow> db" where
  "job_op t now_ms (EnqueueJob s) d = job_enqueued t s d"
| "job_op t now_ms (AckJob a) d = job_ended (ack_job_id a) Succeeded now_ms t (ack_result_digest a) None d"
| "job_op t now_ms (FailJob f) d =
     (if attempt_left (fail_job_id f) d
      then job_returned (fail_job_id f) RetryWait
        (Some (case fail_retry_after_ms f of Some ms \<Rightarrow> ms | None \<Rightarrow> i64_of_int (i64_int now_ms + 30000)))
        (Some (fail_error_summary f)) t d
      else job_ended (fail_job_id f) Dead now_ms t None (Some (fail_error_summary f)) d)"
| "job_op t now_ms (CancelJob c) d = job_ended (cancel_job_id c) Cancelled now_ms t None None d"
| "job_op t now_ms (ResolveJob r) d = (case resolve_resolution r of
       Retry \<Rightarrow>
         (if attempt_left (resolve_job_id r) d then job_returned (resolve_job_id r) Pending None None t d
          else job_ended (resolve_job_id r) Dead now_ms t None
            (Some ''retry resolution exhausted max_attempts'') d)
     | MarkSucceeded \<Rightarrow> job_ended (resolve_job_id r) Succeeded now_ms t None None d
     | MarkDead \<Rightarrow> job_ended (resolve_job_id r) Dead now_ms t None (Some ''resolved as dead'') d)"
| "job_op t now_ms (ExtendLease x) d =
     lease_moved (extend_job_id x) (extend_lease_token x) (extend_new_expiry_ms x) d"
| "job_op t now_ms (AppendEvent e) d = d"
| "job_op t now_ms (ProjectionPatch p) d = d"

definition lease_held :: "id \<Rightarrow> id \<Rightarrow> db \<Rightarrow> bool" where
  "lease_held i token d \<longleftrightarrow>
     job_found i (\<lambda>r. state_of r = Leased \<and> jobs_lease_token r = Some (as_bytes token)) d"

text \<open>What a batch that was committed must have found before an operation.\<close>

fun job_guard :: "i64 \<Rightarrow> operation \<Rightarrow> db \<Rightarrow> bool" where
  "job_guard now_ms (EnqueueJob s) d \<longleftrightarrow> find_job (spec_job_id s) d = None"
| "job_guard now_ms (AckJob a) d \<longleftrightarrow> lease_held (ack_job_id a) (ack_lease_token a) d"
| "job_guard now_ms (FailJob f) d \<longleftrightarrow> lease_held (fail_job_id f) (fail_lease_token f) d \<and>
     (attempt_left (fail_job_id f) d \<and> fail_retry_after_ms f = None \<longrightarrow> i64_int now_ms + 30000 < 2 ^ 63)"
| "job_guard now_ms (CancelJob c) d \<longleftrightarrow> (case cancel_lease_token c of
       None \<Rightarrow> job_found (cancel_job_id c) (\<lambda>r. state_of r = Pending) d
     | Some token \<Rightarrow> lease_held (cancel_job_id c) token d)"
| "job_guard now_ms (ResolveJob c) d \<longleftrightarrow> 
     job_found (resolve_job_id c) (\<lambda>r. state_of r \<in> {Leased, Uncertain}) d"
| "job_guard now_ms (ExtendLease x) d \<longleftrightarrow> 
     lease_held (extend_job_id x) (extend_lease_token x) d \<and>
     job_found (extend_job_id x) (\<lambda>r. case jobs_lease_expires_at_ms r of
       None \<Rightarrow> False | Some e \<Rightarrow> now_ms \<le> e \<and> e < extend_new_expiry_ms x) d"
| "job_guard now_ms (AppendEvent e) d \<longleftrightarrow> True"
| "job_guard now_ms (ProjectionPatch p) d \<longleftrightarrow> True"


section \<open>The statements have these effects\<close>

lemma find_job_Some:
  "find_job i d = Some r \<Longrightarrow> r \<in> set (jobs d) \<and> jobs_job_id r = as_bytes i"
  by (auto simp: find_job_def find_Some_iff)

lemma find_job_row:
  assumes "rows_ok d" "r \<in> set (jobs d)" "jobs_job_id r = as_bytes i"
  shows "find_job i d = Some r"
proof (cases "find_job i d")
  case None
  with assms(2, 3) show ?thesis by (auto simp: find_job_def find_None_iff)
next
  case (Some x)
  then show ?thesis
    using find_job_Some [OF Some] assms job_by_id [OF assms(1), of x r] by simp
qed

lemma job_found_row [simp]: "find_job i d = Some r \<Longrightarrow> job_found i P d \<longleftrightarrow> P r"
  by (simp add: job_found_def)

lemma row_ended_terminal: "terminal_row s n t g e = row_ended s n t g e"
  by (rule ext) (cases g; cases e; simp add: terminal_row_def row_ended_def)

lemma row_returned_nonterminal: "nonterminal_row s m t = row_returned s m None t"
  by (rule ext) (simp add: nonterminal_row_def row_returned_def)

lemma row_returned_summary:
  "(nonterminal_row s m t r)\<lparr>jobs_error_summary := Some e\<rparr> = row_returned s m (Some e) t r"
  by (simp add: nonterminal_row_def row_returned_def)

lemma row_enqueued_new: "new_jobs_row t spec n = row_enqueued t spec n"
  by (simp add: new_jobs_row_def row_enqueued_def i64_from_u32_def i64_of_int_def)

lemma change_job_set: "jobs (set_job (as_bytes i) u d) = change_job i u (jobs d)"
  by (simp add: set_job_def sql_update_def change_job_def)

lemma is_active_unfinished:
  "job_row_ok r \<Longrightarrow> is_active_in q p r \<longleftrightarrow> jobs_queue r = q \<and> jobs_partition_key r = p \<and> unfinished r"
  using jobs_active_iff [of r] by (cases "state_of r") (auto simp: is_active_in_def unfinished_def)

text \<open>A table of active partitions that agrees with the jobs has exactly the entries of the partitions
  with an unfinished job.\<close>

lemma still_active_ok:
  assumes "jobs_ok d'" "active_partitions d' = filter P ps" "distinct (map fst ps)"
  shows "active_partitions d' = still_active (jobs d') ps"
proof -
  have parts: "(q, p) \<in> fst ` set (active_partitions d') \<longleftrightarrow> partition_jobs (jobs d') q p \<noteq> []" for q p
    using assms(1) by (simp add: jobs_ok_def partitions_ok_def)
  have rows: "job_row_ok r" if "r \<in> set (jobs d')" for r
    using assms(1) that by (simp add: jobs_ok_def rows_ok_def)
  have active: "(q, p) \<in> fst ` set (filter P ps) \<longleftrightarrow>
      (\<exists>r \<in> set (jobs d'). jobs_queue r = q \<and> jobs_partition_key r = p \<and> unfinished r)" for q p
    using parts [of q p] rows unfolding assms(2)
    by (auto simp: partition_jobs_def filter_empty_conv is_active_unfinished)
  have "P a \<longleftrightarrow> fst a \<in> fst ` set (filter P ps)" if "a \<in> set ps" for a
    using that assms(3) by (auto simp: distinct_map dest: inj_onD)
  then show ?thesis
    unfolding assms(2) still_active_def using active
    by (intro filter_cong [OF refl]) (auto split: prod.split)
qed

lemma finish_job_ended:
  assumes "jobs_ok d" "r \<in> set (jobs d)" "jobs_job_id r = as_bytes i" "is_terminal s"
  shows "finish_job r s n t g e d = job_ended i s n t g e d"
proof -
  let ?d = "finish_job r s n t g e d"
  have rows: "jobs ?d = change_job i (row_ended s n t g e) (jobs d)"
    by (simp add: finish_job_def drain_partition_def assms(3) change_job_set row_ended_terminal)
  have "distinct (map fst (active_partitions d))"
    using assms(1) by (simp add: jobs_ok_def partitions_ok_def)
  moreover have "active_partitions ?d = filter (\<lambda>a. \<not> (fst a = (jobs_queue r, jobs_partition_key r) \<and>
      \<not> list_ex (is_active_in (jobs_queue r) (jobs_partition_key r)) (jobs ?d))) (active_partitions d)"
    by (simp add: finish_job_def drain_partition_def set_job_def)
  ultimately have "active_partitions ?d = still_active (jobs ?d) (active_partitions d)"
    using jobs_ok_finish_job [OF assms(1, 2, 4)] by (intro still_active_ok)
  moreover have "?d = d\<lparr>jobs := jobs ?d, active_partitions := active_partitions ?d\<rparr>"
    by (simp add: finish_job_def drain_partition_def set_job_def)
  ultimately show ?thesis
    unfolding job_ended_def Let_def by (simp only: rows)
qed

lemma return_job_returned:
  "jobs_job_id r = as_bytes i \<Longrightarrow> return_job r s m t d = job_returned i s m None t d"
  by (simp add: return_job_def job_returned_def row_returned_nonterminal set_job_def sql_update_def change_job_def)

lemma retry_job_returned:
  "jobs_job_id r = as_bytes i \<Longrightarrow> retry_job r m e t d = job_returned i RetryWait (Some m) (Some e) t d"
  by (simp add: retry_job_def job_returned_def row_returned_summary set_job_def sql_update_def change_job_def)

lemma extend_job_moved:
  "jobs_job_id r = as_bytes i \<Longrightarrow> extend_job r token e d = lease_moved i token e d"
  by (simp add: extend_job_def lease_moved_def set_job_def sql_update_def change_job_def)

lemma activate_enqueued:
  assumes "i64_int n = int (length (jobs d)) + 1"
  shows "activate_partition (spec_queue spec) (spec_partition_key spec) n (d\<lparr>jobs := jobs d @ [new_jobs_row t spec n]\<rparr>) =
    job_enqueued t spec d"
proof -
  have "i64_of_int (int (length (jobs d)) + 1) = n"
    unfolding assms [symmetric] by (cases n) (simp add: i64_of_int_def)
  then show ?thesis
    by (auto simp: activate_partition_def job_enqueued_def row_enqueued_new Let_def map_of_eq_None_iff)
qed


lemma checked_retry_time:
  "i64_checked_add n default_retry_delay_ms = Some m \<Longrightarrow>
     m = i64_of_int (i64_int n + 30000) \<and> i64_int n + 30000 < 2 ^ 63"
  by (simp add: i64_checked_add_def default_retry_delay_ms_def Let_def i64_in_range_def split: if_splits)

text \<open>One lemma for each operation: what it does to the tables of the jobs, and what it found.\<close>

lemma enqueue_op:
  assumes "tx_yields (apply_enqueue t s) d u d'" "jobs_ok d"
  shows "d' = job_op t n (EnqueueJob s) d \<and> job_guard n (EnqueueJob s) d"
  using assms(1) jobs_ok_rows [OF assms(2)]
proof (cases rule: apply_enqueue_yields)
  case (1 m)
  then show ?thesis
    using activate_enqueued [OF 1(1)] by (simp add: find_job_def find_None_key)
qed

lemma ack_op:
  assumes "tx_yields (apply_ack t n a) d u d'" "jobs_ok d"
  shows "d' = job_op t n (AckJob a) d \<and> job_guard n (AckJob a) d"
  using assms(1) jobs_ok_rows [OF assms(2)]
proof (cases rule: apply_ack_yields)
  case (1 r)
  then show ?thesis
    using finish_job_ended [OF assms(2) 1(1, 2)] find_job_row [OF jobs_ok_rows [OF assms(2)] 1(1, 2)]
    by (simp add: lease_held_def)
qed

lemma fail_op:
  assumes "tx_yields (apply_fail t n f) d u d'" "jobs_ok d"
  shows "d' = job_op t n (FailJob f) d \<and> job_guard n (FailJob f) d"
  using assms(1) jobs_ok_rows [OF assms(2)]
proof (cases rule: apply_fail_yields)
  case (dead r)
  then show ?thesis
    using finish_job_ended [OF assms(2) dead(1, 2)] find_job_row [OF jobs_ok_rows [OF assms(2)] dead(1, 2)]
    by (simp add: lease_held_def attempt_left_def)
next
  case (retry r m)
  then show ?thesis
    using retry_job_returned [OF retry(2)] find_job_row [OF jobs_ok_rows [OF assms(2)] retry(1, 2)]
    by (auto simp: lease_held_def attempt_left_def dest: checked_retry_time split: option.splits)
qed

lemma cancel_op:
  assumes "tx_yields (apply_cancel t n c) d u d'" "jobs_ok d"
  shows "d' = job_op t n (CancelJob c) d \<and> job_guard n (CancelJob c) d"
  using assms(1) jobs_ok_rows [OF assms(2)]
proof (cases rule: apply_cancel_yields)
  case (1 r)
  then show ?thesis
    using finish_job_ended [OF assms(2) 1(1, 2)] find_job_row [OF jobs_ok_rows [OF assms(2)] 1(1, 2)]
    by (simp add: lease_held_def split: option.splits)
qed

lemma resolve_op:
  assumes "tx_yields (apply_resolve t n c) d u d'" "jobs_ok d"
  shows "d' = job_op t n (ResolveJob c) d \<and> job_guard n (ResolveJob c) d"
  using assms(1) jobs_ok_rows [OF assms(2)]
proof (cases rule: apply_resolve_yields)
  case (retry r)
  then show ?thesis
    using return_job_returned [OF retry(2)] find_job_row [OF jobs_ok_rows [OF assms(2)] retry(1, 2)]
    by (simp add: attempt_left_def)
next
  case (finish r s g)
  then show ?thesis
    using finish_job_ended [OF assms(2) finish(1, 2)] find_job_row [OF jobs_ok_rows [OF assms(2)] finish(1, 2)]
    by (auto simp: attempt_left_def)
qed

lemma extend_op:
  assumes "tx_yields (apply_extend_lease x n) d u d'" "jobs_ok d"
  shows "d' = job_op t n (ExtendLease x) d \<and> job_guard n (ExtendLease x) d"
  using assms(1) jobs_ok_rows [OF assms(2)]
proof (cases rule: apply_extend_lease_yields)
  case (1 r e)
  then show ?thesis
    using extend_job_moved [OF 1(2)] find_job_row [OF jobs_ok_rows [OF assms(2)] 1(1, 2)]
    by (simp add: lease_held_def)
qed

section \<open>Sequences of operations\<close>

text \<open>The tables of the jobs agree.\<close>

definition same_jobs :: "db \<Rightarrow> db \<Rightarrow> bool" where
  "same_jobs d d' \<longleftrightarrow> jobs d = jobs d' \<and> active_partitions d = active_partitions d' \<and>
     claim_receipts d = claim_receipts d'"

lemma same_jobs_refl [simp]: "same_jobs d d"
  by (simp add: same_jobs_def)

lemma find_job_cong: "same_jobs d e \<Longrightarrow> find_job i d = find_job i e"
  by (simp add: same_jobs_def find_job_def)

lemma job_found_cong: "same_jobs d e \<Longrightarrow> job_found i P d = job_found i P e"
  by (simp add: job_found_def find_job_cong)

lemma same_jobs_op:
  assumes "same_jobs d e"
  shows "same_jobs (job_op t n op d) (job_op t n op e)"
  using assms job_found_cong [OF assms]
  by (cases op) (auto simp: same_jobs_def job_ended_def job_returned_def job_enqueued_def lease_moved_def
      attempt_left_def Let_def split: resolution.split)

lemma job_guard_cong: "same_jobs d e \<Longrightarrow> job_guard n op d = job_guard n op e"
  by (cases op) (simp_all add: find_job_cong [of d e] job_found_cong [of d e] lease_held_def attempt_left_def
      split: option.split)

lemma same_jobs_fold: "same_jobs d e \<Longrightarrow> same_jobs (fold (job_op t n) ops d) (fold (job_op t n) ops e)"
  by (induction ops arbitrary: d e) (simp_all add: same_jobs_op)

text \<open>Every operation is allowed in the state that those before it leave.\<close>

fun guarded :: "('o \<Rightarrow> 's \<Rightarrow> bool) \<Rightarrow> ('o \<Rightarrow> 's \<Rightarrow> 's) \<Rightarrow> 'o list \<Rightarrow> 's \<Rightarrow> bool" where
  "guarded P f [] s \<longleftrightarrow> True"
| "guarded P f (op # ops) s \<longleftrightarrow> P op s \<and> guarded P f ops (f op s)"

lemma guarded_append [simp]: "guarded P f (xs @ ys) s \<longleftrightarrow> guarded P f xs s \<and> guarded P f ys (fold f xs s)"
  by (induction xs arbitrary: s) simp_all

lemma guarded_same_jobs:
  "same_jobs d e \<Longrightarrow> guarded (job_guard n) (job_op t n) ops d = guarded (job_guard n) (job_op t n) ops e"
proof (induction ops arbitrary: d e)
  case (Cons op ops)
  then show ?case
    using Cons.IH [OF same_jobs_op [OF Cons.prems]] job_guard_cong [OF Cons.prems] by simp
qed simp


lemmas job_op_effects =
  enqueue_op [THEN conjunct1] ack_op [THEN conjunct1] fail_op [THEN conjunct1] cancel_op [THEN conjunct1]
  resolve_op [THEN conjunct1] extend_op [THEN conjunct1]
  enqueue_op [THEN conjunct2] ack_op [THEN conjunct2] fail_op [THEN conjunct2] cancel_op [THEN conjunct2]
  resolve_op [THEN conjunct2] extend_op [THEN conjunct2]


section \<open>Columns\<close>

lemma row_ended_sel [simp]:
  "jobs_job_id (row_ended s n t g e r) = jobs_job_id r" "state_of (row_ended s n t g e r) = s"
  "jobs_terminal_at_ms (row_ended s n t g e r) = Some n"
  "jobs_result_digest (row_ended s n t g e r) = (if g = None then jobs_result_digest r else g)"
  "jobs_error_summary (row_ended s n t g e r) = (if e = None then jobs_error_summary r else e)"
  by (cases s, simp_all add: row_ended_def state_of_def job_state_decode_def)+

lemma row_returned_sel [simp]:
  "jobs_job_id (row_returned s m e t r) = jobs_job_id r" "state_of (row_returned s m e t r) = s"
  "jobs_retry_after_ms (row_returned s m e t r) = m"
  "jobs_error_summary (row_returned s m e t r) = (if e = None then jobs_error_summary r else e)"
  by (cases s, simp_all add: row_returned_def state_of_def job_state_decode_def)+

lemma ended_unfinished: "unfinished (row_ended s n t g e r) \<longleftrightarrow> s \<notin> {Succeeded, Dead, Cancelled}"
  by (simp add: unfinished_def)

end
