(* ===== verification/Commit_Steps.thy ===== *)
theory Commit_Steps
  imports Store_Commit Job_Evolution Job_Specs
begin

text \<open>
  The invariant of the whole database (\<open>db_ok\<close>) and what a commit does: every operation of a batch
  preserves the invariant with the stream versions running ahead in the hash map
  (\<open>batch_ok\<close>), and a committed batch appends exactly its events, applies exactly its patches and
  inserts one transaction row (\<open>commit_body_yields\<close>).
\<close>

section \<open>The invariant\<close>

definition db_ok :: "db \<Rightarrow> bool" where
  "db_ok d \<longleftrightarrow> transactions_ok d \<and> events_ok d \<and> streams_ok d \<and> projections_ok d \<and> jobs_ok d"

definition batch_ok :: "versions \<Rightarrow> db \<Rightarrow> bool" where
  "batch_ok sv d \<longleftrightarrow>
     transactions_ok d \<and> events_ok d \<and> streams_ahead sv d \<and> projections_ok d \<and> jobs_ok d"

lemma batch_ok_Nil [simp]: "batch_ok [] d \<longleftrightarrow> db_ok d"
  by (simp add: batch_ok_def db_ok_def)

text \<open>Each part of the invariant depends on its own tables.\<close>

lemma transactions_ok_cong: "transactions d' = transactions d \<Longrightarrow> transactions_ok d' = transactions_ok d"
  by (simp add: transactions_ok_def)

lemma events_ok_cong:
  "events d' = events d \<Longrightarrow> events_seq d' = events_seq d \<Longrightarrow> transactions d' = transactions d \<Longrightarrow>
     events_ok d' = events_ok d"
  by (simp add: events_ok_def transaction_exists_def)

lemma history_cong: "events d' = events d \<Longrightarrow> history d' s = history d s"
  by (simp add: history_def)

lemma streams_ahead_cong:
  assumes "events d' = events d" "streams d' = streams d"
  shows "streams_ahead sv d' = streams_ahead sv d"
proof -
  have "stored_version d' s = stored_version d s" for s
    using assms by (simp add: stored_version_def)
  then have "version_at sv d' s = version_at sv d s" for s
    unfolding version_at_def by (simp only:)
  then show ?thesis
    using assms by (simp add: streams_ahead_def versions_ok_def history_cong [OF assms(1)])
qed

lemma projections_ok_cong:
  "projection_meta d' = projection_meta d \<Longrightarrow> projection_entries d' = projection_entries d \<Longrightarrow>
     projections_ok d' = projections_ok d"
  by (simp add: projections_ok_def)

lemma jobs_ok_cong:
  "jobs d' = jobs d \<Longrightarrow> active_partitions d' = active_partitions d \<Longrightarrow>
     claim_receipts d' = claim_receipts d \<Longrightarrow> transactions d' = transactions d \<Longrightarrow> jobs_ok d' = jobs_ok d"
  by (simp add: jobs_ok_def rows_ok_def partitions_ok_def receipts_ok_def leases_recorded_def
      transaction_exists_def)

text \<open>The tables that the job operations write.\<close>

definition job_frame :: "db \<Rightarrow> db \<Rightarrow> bool" where
  "job_frame d d' \<longleftrightarrow>
     (\<exists>j a c. d' = d\<lparr>jobs := j, active_partitions := a, claim_receipts := c\<rparr>)"

lemma job_frameI:
  "d' = d\<lparr>jobs := j, active_partitions := a, claim_receipts := c\<rparr> \<Longrightarrow> job_frame d d'"
  unfolding job_frame_def by blast

lemma job_frame_tables:
  assumes "job_frame d d'"
  shows "transactions d' = transactions d" "events d' = events d" "events_seq d' = events_seq d"
    "streams d' = streams d" "projection_meta d' = projection_meta d"
    "projection_entries d' = projection_entries d" "queue_cursors d' = queue_cursors d"
  using assms by (auto simp: job_frame_def)

lemma job_frame_set_job [simp]: "job_frame d (set_job i u d)"
  by (rule job_frameI [where a = "active_partitions d" and c = "claim_receipts d"])
    (simp add: set_job_def)

lemma job_frame_finish_job [simp]: "job_frame d (finish_job r s n t g e d)"
  unfolding finish_job_def drain_partition_def set_job_def
  by (rule job_frameI [where c = "claim_receipts d"]) simp

lemma job_frame_return_job [simp]: "job_frame d (return_job r s m t d)"
  by (simp add: return_job_def)

lemma job_frame_activate: "job_frame d (activate_partition q p n (d\<lparr>jobs := j\<rparr>))"
  unfolding activate_partition_def
  by (auto intro: job_frameI [where a = "active_partitions d" and c = "claim_receipts d"]
      job_frameI [where c = "claim_receipts d"])

lemma job_frame_extend_job [simp]: "job_frame d (extend_job r t e d)"
  unfolding extend_job_def set_job_def
  by (rule job_frameI [where a = "active_partitions d"]) simp

lemma job_frame_ops:
  "tx_yields (apply_enqueue t s) d u d' \<Longrightarrow> rows_ok d \<Longrightarrow> job_frame d d'"
  "tx_yields (apply_ack t n a) d u d' \<Longrightarrow> rows_ok d \<Longrightarrow> job_frame d d'"
  "tx_yields (apply_fail t n f) d u d' \<Longrightarrow> rows_ok d \<Longrightarrow> job_frame d d'"
  "tx_yields (apply_cancel t n c) d u d' \<Longrightarrow> rows_ok d \<Longrightarrow> job_frame d d'"
  "tx_yields (apply_resolve t n r) d u d' \<Longrightarrow> rows_ok d \<Longrightarrow> job_frame d d'"
  "tx_yields (apply_extend_lease x n) d v d' \<Longrightarrow> rows_ok d \<Longrightarrow> job_frame d d'"
  by (auto elim!: apply_enqueue_yields apply_ack_yields apply_fail_yields apply_cancel_yields
      apply_resolve_yields apply_extend_lease_yields simp: retry_job_def intro: job_frame_activate)

lemma batch_ok_job_frame:
  assumes "batch_ok sv d" "job_frame d d'" "jobs_ok d'"
  shows "batch_ok sv d'"
  using assms(1, 3) transactions_ok_cong [of d' d] events_ok_cong [of d' d]
    streams_ahead_cong [of d' d sv] projections_ok_cong [of d' d] job_frame_tables [OF assms(2)]
  unfolding batch_ok_def by blast

section \<open>Operations of a batch\<close>

definition op_event :: "operation \<Rightarrow> event list" where
  "op_event op = (case op of AppendEvent e \<Rightarrow> [e] | _ \<Rightarrow> [])"

definition batch_events :: "operation list \<Rightarrow> event list" where
  "batch_events ops = concat (map op_event ops)"

definition op_contents :: "string \<Rightarrow> operation \<Rightarrow> (blob \<rightharpoonup> blob) \<Rightarrow> (blob \<rightharpoonup> blob)" where
  "op_contents p op m = (case op of
     ProjectionPatch q \<Rightarrow> if patch_projection q = p then patch_map (patch_mutations q) m else m
   | _ \<Rightarrow> m)"

definition op_version :: "string \<Rightarrow> operation \<Rightarrow> u64 \<Rightarrow> u64" where
  "op_version p op v = (case op of
     ProjectionPatch q \<Rightarrow> if patch_projection q = p then patch_expected_version q + 1 else v
   | _ \<Rightarrow> v)"

definition version_guard :: "string \<Rightarrow> operation \<Rightarrow> u64 \<Rightarrow> bool" where
  "version_guard p op v = (case op of
     ProjectionPatch q \<Rightarrow> patch_projection q = p \<longrightarrow> patch_expected_version q = v
   | _ \<Rightarrow> True)"

definition event_of_row :: "events_row \<Rightarrow> event" where
  "event_of_row r = persisted_event.persisted_event (decoded_event r)"

text \<open>The rows \<open>new\<close> are the events \<open>es\<close>, appended by the transaction \<open>t\<close>.\<close>

definition appends :: "id \<Rightarrow> event list \<Rightarrow> events_row list \<Rightarrow> bool" where
  "appends t es new \<longleftrightarrow>
     map event_of_row new = es \<and> (\<forall>r \<in> set new. ev_transaction_id r = as_bytes t)"

text \<open>
  What an operation on a job leaves behind for good: an enqueued job has its specification, and a job that was
  acknowledged, cancelled or resolved as finished is in that terminal state, by this transaction.
\<close>

definition finished :: "id \<Rightarrow> id \<Rightarrow> job_state \<Rightarrow> db \<Rightarrow> bool" where
  "finished t i s d \<longleftrightarrow> (\<exists>r \<in> set (jobs d). jobs_job_id r = as_bytes i \<and> state_of r = s \<and>
     jobs_updated_transaction_id r = as_bytes t)"

fun job_effect :: "id \<Rightarrow> operation \<Rightarrow> db \<Rightarrow> bool" where
  "job_effect t (EnqueueJob s) d \<longleftrightarrow> (\<exists>n. \<exists>r \<in> set (jobs d). same_spec (new_jobs_row t s n) r)"
| "job_effect t (AckJob a) d \<longleftrightarrow> finished t (ack_job_id a) Succeeded d"
| "job_effect t (CancelJob c) d \<longleftrightarrow> finished t (cancel_job_id c) Cancelled d"
| "job_effect t (ResolveJob c) d \<longleftrightarrow>
     (resolve_resolution c = MarkSucceeded \<longrightarrow> finished t (resolve_job_id c) Succeeded d) \<and>
     (resolve_resolution c = MarkDead \<longrightarrow> finished t (resolve_job_id c) Dead d)"
| "job_effect t _ d \<longleftrightarrow> True"

lemma finished_evolves:
  assumes "finished t i s d" "job_evolves d d'" "is_terminal s"
  shows "finished t i s d'"
proof -
  obtain r where r: "r \<in> set (jobs d)" "jobs_job_id r = as_bytes i" "state_of r = s"
      "jobs_updated_transaction_id r = as_bytes t"
    using assms(1) by (auto simp: finished_def)
  then obtain x where "x \<in> set (jobs d')" "row_evolves r x"
    using assms(2) by (auto simp: job_evolves_def)
  with r assms(3) show ?thesis
    by (auto simp: row_evolves_def finished_def)
qed

lemma same_spec_trans: "same_spec r s \<Longrightarrow> same_spec s x \<Longrightarrow> same_spec r x"
  by (simp add: same_spec_def)

lemma job_effect_evolves:
  assumes "job_effect t op d" "job_evolves d d'"
  shows "job_effect t op d'"
proof (cases op)
  case (EnqueueJob s)
  with assms obtain n r x where "same_spec (new_jobs_row t s n) r" "x \<in> set (jobs d')" "row_evolves r x"
    by (auto simp: job_evolves_def)
  then have "same_spec (new_jobs_row t s n) x"
    using same_spec_trans by (auto simp: row_evolves_def)
  with EnqueueJob \<open>x \<in> set (jobs d')\<close> show ?thesis by auto
qed (use assms in \<open>auto intro: finished_evolves\<close>)

lemma finished_finish_job:
  assumes "r \<in> set (jobs d)" "jobs_job_id r = as_bytes i"
  shows "finished t i s (finish_job r s n t g e d)"
proof -
  have "terminal_row s n t g e r \<in> set (jobs (finish_job r s n t g e d))"
    using assms(1) by (auto simp: finish_job_def set_job_def set_sql_update)
  moreover have "jobs_job_id (terminal_row s n t g e r) = as_bytes i \<and> state_of (terminal_row s n t g e r) = s \<and>
      jobs_updated_transaction_id (terminal_row s n t g e r) = as_bytes t"
    using assms(2) by (simp add: terminal_row_def state_of_def)
  ultimately show ?thesis
    unfolding finished_def by blast
qed

lemma job_effect_ops:
  "tx_yields (apply_enqueue t s) d u d' \<Longrightarrow> rows_ok d \<Longrightarrow> job_effect t (EnqueueJob s) d'"
  "tx_yields (apply_ack t n a) d u d' \<Longrightarrow> rows_ok d \<Longrightarrow> job_effect t (AckJob a) d'"
  "tx_yields (apply_cancel t n c) d u d' \<Longrightarrow> rows_ok d \<Longrightarrow> job_effect t (CancelJob c) d'"
  "tx_yields (apply_resolve t n r) d u d' \<Longrightarrow> rows_ok d \<Longrightarrow> job_effect t (ResolveJob r) d'"
  by (auto elim!: apply_enqueue_yields apply_ack_yields apply_cancel_yields apply_resolve_yields
      simp: same_spec_def finished_finish_job)

text \<open>The effect of the operations.\<close>

definition applied :: "id \<Rightarrow> i64 \<Rightarrow> operation list \<Rightarrow> db \<Rightarrow> db \<Rightarrow> bool" where
  "applied t n ops d d' \<longleftrightarrow> transactions d' = transactions d \<and> streams d' = streams d \<and>
     queue_cursors d' = queue_cursors d \<and> job_evolves d d' \<and>
     (\<exists>new. events d' = events d @ new \<and> appends t (batch_events ops) new) \<and>
     (\<forall>p. contents d' p = fold (op_contents p) ops (contents d p) \<and>
        stored_projection_version d' p = fold (op_version p) ops (stored_projection_version d p) \<and>
        guarded (version_guard p) (op_version p) ops (stored_projection_version d p)) \<and>
     same_jobs d' (fold (job_op t n) ops d) \<and> guarded (job_guard n) (job_op t n) ops d \<and>
     (\<forall>op \<in> set ops. job_effect t op d')"

lemma applied_Nil [simp]: "applied t n [] d d"
  by (simp add: applied_def batch_events_def appends_def)

lemma applied_append:
  assumes "applied t n xs d e" "applied t n ys e f"
  shows "applied t n (xs @ ys) d f"
proof -
  obtain a b where "events e = events d @ a" "appends t (batch_events xs) a"
      "events f = events e @ b" "appends t (batch_events ys) b"
    using assms unfolding applied_def by blast
  then have new: "events f = events d @ a @ b \<and> appends t (batch_events (xs @ ys)) (a @ b)"
    by (auto simp: appends_def batch_events_def)
  have effects: "\<forall>op \<in> set (xs @ ys). job_effect t op f"
    using assms job_effect_evolves [where d = e and d' = f] by (auto simp: applied_def)
  let ?xs = "fold (job_op t n) xs d"
  have e: "same_jobs e ?xs"
    using assms(1) by (simp add: applied_def)
  from same_jobs_fold [OF e, of t n ys] guarded_same_jobs [OF e, of n t ys] assms
  have "same_jobs f (fold (job_op t n) (xs @ ys) d)" "guarded (job_guard n) (job_op t n) (xs @ ys) d"
    by (simp_all add: applied_def same_jobs_def)
  moreover have "job_evolves d f"
    using assms job_evolves_trans by (auto simp: applied_def)
  moreover have "contents f p = fold (op_contents p) (xs @ ys) (contents d p) \<and>
      stored_projection_version f p = fold (op_version p) (xs @ ys) (stored_projection_version d p) \<and>
      guarded (version_guard p) (op_version p) (xs @ ys) (stored_projection_version d p)" for p
    using assms by (simp add: applied_def)
  moreover have "transactions f = transactions d" "streams f = streams d" "queue_cursors f = queue_cursors d"
    using assms by (simp_all add: applied_def)
  ultimately show ?thesis
    using new effects unfolding applied_def by blast
qed

lemma applied_job_frame:
  assumes "job_frame d d'" "op_event op = []" "\<And>p m. op_contents p op m = m" "job_evolves d d'"
    and "job_effect t op d'" "d' = job_op t n op d \<and> job_guard n op d"
    and "\<And>p v. op_version p op v = v \<and> version_guard p op v"
  shows "applied t n [op] d d'"
  using job_frame_tables [OF assms(1)] assms(2-7)
  by (simp add: applied_def appends_def contents_def stored_projection_version_def batch_events_def fun_eq_iff)

lemma append_event_yields:
  assumes "tx_yields (append_event t sv e) d sv' d'" "batch_ok sv d"
  shows "batch_ok sv' d' \<and> applied t n [AppendEvent e] d d'"
proof -
  let ?s = "event_stream_id e"
  obtain current sv1 b next_version where
    pick: "tx_yields (case map_of sv ?s of
         Some v \<Rightarrow> tx_return (v, sv)
       | None \<Rightarrow> tx_bind (tx_map_err CommitError_Storage (current_stream_version ?s))
           (\<lambda>v. tx_return (v, AList.update ?s v sv))) d (current, sv1) b"
    and next_version: "u64_checked_add current 1 = Some next_version"
    and ins: "tx_yields (insert_event t e next_version) b () d'"
    and sv': "sv' = AList.update ?s next_version sv1"
    using assms(1) unfolding append_event_def
    by (auto dest!: yields_bind yields_map_err yields_lift yields_return split: prod.splits)
  have parts: "events_ok d" "streams_ahead sv d" "projections_ok d" "jobs_ok d" "transactions_ok d"
    using assms(2) by (simp_all add: batch_ok_def)
  have current: "unat current = length (history d ?s)" and b: "b = d" and sv1: "sv1 = AList.update ?s current sv \<or> sv1 = sv"
  proof -
    have "b = d \<and> (sv1 = AList.update ?s current sv \<or> sv1 = sv) \<and> unat current = length (history d ?s)"
    proof (cases "map_of sv ?s")
      case None
      then obtain c where "tx_yields (current_stream_version ?s) d current c" "b = c"
          "sv1 = AList.update ?s current sv"
        using pick by (auto dest!: yields_bind yields_map_err yields_return)
      then show ?thesis
        using current_stream_version_length [OF _ parts(2) None] current_stream_version_yields by blast
    next
      case (Some v)
      have "version_at sv d ?s = int (length (history d ?s))"
        using parts(2) by (simp add: streams_ahead_def)
      then have "unat v = length (history d ?s)"
        unfolding version_at_def Some option.case of_nat_eq_iff .
      then show ?thesis
        using pick Some by (auto dest!: yields_return)
    qed
    then show "unat current = length (history d ?s)" "b = d"
      "sv1 = AList.update ?s current sv \<or> sv1 = sv" by auto
  qed
  have next_len: "unat next_version = length (history d ?s) + 1"
    using next_version current by (simp add: u64_checked_add_Some)
  have "sv' = AList.update ?s next_version sv"
    using sv1 sv' by auto
  then have "streams_ahead sv' d'"
    using streams_ahead_insert_event [OF ins [unfolded b] parts(1, 2) next_len] by simp
  moreover have "events_ok d'"
    using ins parts(1) unfolding b by (rule events_ok_insert_event)
  moreover obtain g where d': "d' = d\<lparr>events := events d @
      [(event_to_row t e next_version)\<lparr>ev_global_sequence := g\<rparr>], events_seq := g\<rparr>"
    using ins unfolding b by (rule insert_event_yields)
  moreover have "transactions_ok d'" "projections_ok d'" "jobs_ok d'"
    using parts by (auto simp: d' transactions_ok_def projections_ok_def intro: jobs_ok_cong [THEN iffD2])
  moreover have "ev_transaction_id (event_to_row t e next_version) = as_bytes t"
    by (simp add: event_to_row_def)
  then have "applied t n [AppendEvent e] d d'"
    by (simp add: applied_def d' appends_def event_of_row_def contents_def batch_events_def op_event_def
        op_contents_def persisted_def job_evolves_eq stored_projection_version_def op_version_def version_guard_def
        same_jobs_def)
  ultimately show ?thesis by (simp add: batch_ok_def)
qed

lemma keeping_yields:
  "tx_yields (keeping sv m) d sv' d' \<Longrightarrow> sv' = sv \<and> (\<exists>x. tx_yields m d x d')"
  unfolding keeping_def by (auto dest!: yields_bind yields_return)

lemma apply_operation_yields:
  assumes "tx_yields (apply_operation b sv op) d sv' d'" "batch_ok sv d"
  shows "batch_ok sv' d' \<and> applied (batch_transaction_id b) (batch_committed_at_ms b) [op] d d'"
proof -
  have jobs: "jobs_ok d"
    using assms(2) by (simp add: batch_ok_def)
  note rows = jobs_ok_rows [OF jobs]
  have by_frame: ?thesis if "sv' = sv" "job_frame d d'" "jobs_ok d'" "op_event op = []"
      "\<And>p m. op_contents p op m = m" "job_evolves d d'" "job_effect (batch_transaction_id b) op d'"
      "d' = job_op (batch_transaction_id b) (batch_committed_at_ms b) op d \<and> job_guard (batch_committed_at_ms b) op d"
      "\<And>p v. op_version p op v = v \<and> version_guard p op v"
    using that assms(2) by (simp add: batch_ok_job_frame applied_job_frame)
  show ?thesis
  proof (cases op)
    case (AppendEvent e)
    with assms show ?thesis by (simp add: append_event_yields)
  next
    case (ProjectionPatch p)
    then obtain u where sv: "sv' = sv" and y: "tx_yields (apply_projection_patch p) d u d'"
      using assms(1) by (auto dest!: keeping_yields yields_map_err)
    note patch = apply_projection_patch_yields [OF y]
    obtain pm es where d': "d' = d\<lparr>projection_meta := pm, projection_entries := es\<rparr>"
      using patch(7) by blast
    have "batch_ok sv d'"
      using assms(2) patch(6) unfolding batch_ok_def
      by (auto simp: d' transactions_ok_def intro: events_ok_cong [THEN iffD2]
          streams_ahead_cong [THEN iffD2] jobs_ok_cong [THEN iffD2])
    moreover have "contents d' q = op_contents q op (contents d q)" for q
      using patch(4, 5) by (cases "q = patch_projection p") (auto simp: op_contents_def ProjectionPatch)
    moreover have "stored_projection_version d' q = op_version q op (stored_projection_version d q) \<and>
        version_guard q op (stored_projection_version d q)" for q
      using patch(2, 3, 5) by (cases "q = patch_projection p") (auto simp: op_version_def version_guard_def ProjectionPatch)
    ultimately show ?thesis
      using sv by (simp add: applied_def d' appends_def batch_events_def op_event_def ProjectionPatch job_evolves_eq
          same_jobs_def)
  next
    case (EnqueueJob s)
    with assms(1) rows jobs show ?thesis
      by (intro by_frame) (auto simp: op_event_def op_contents_def op_version_def version_guard_def simp del: job_op.simps job_guard.simps dest!: keeping_yields yields_map_err
          intro: job_frame_ops jobs_ok_apply_enqueue job_evolves_apply_enqueue job_op_effects job_effect_ops simp del: job_effect.simps)
  next
    case (AckJob a)
    with assms(1) rows jobs show ?thesis
      by (intro by_frame) (auto simp: op_event_def op_contents_def op_version_def version_guard_def simp del: job_op.simps job_guard.simps dest!: keeping_yields yields_map_err
          intro: job_frame_ops jobs_ok_apply_ack job_evolves_apply_ack job_op_effects job_effect_ops simp del: job_effect.simps)
  next
    case (FailJob f)
    with assms(1) rows jobs show ?thesis
      by (intro by_frame) (auto simp: op_event_def op_contents_def op_version_def version_guard_def simp del: job_op.simps job_guard.simps dest!: keeping_yields yields_map_err
          intro: job_frame_ops jobs_ok_apply_fail job_evolves_apply_fail job_op_effects)
  next
    case (CancelJob c)
    with assms(1) rows jobs show ?thesis
      by (intro by_frame) (auto simp: op_event_def op_contents_def op_version_def version_guard_def simp del: job_op.simps job_guard.simps dest!: keeping_yields yields_map_err
          intro: job_frame_ops jobs_ok_apply_cancel job_evolves_apply_cancel job_op_effects job_effect_ops simp del: job_effect.simps)
  next
    case (ResolveJob r)
    with assms(1) rows jobs show ?thesis
      by (intro by_frame) (auto simp: op_event_def op_contents_def op_version_def version_guard_def simp del: job_op.simps job_guard.simps dest!: keeping_yields yields_map_err
          intro: job_frame_ops jobs_ok_apply_resolve job_evolves_apply_resolve job_op_effects job_effect_ops simp del: job_effect.simps)
  next
    case (ExtendLease x)
    with assms(1) rows jobs show ?thesis
      by (intro by_frame) (auto simp: op_event_def op_contents_def op_version_def version_guard_def simp del: job_op.simps job_guard.simps dest!: keeping_yields yields_map_err
          intro: job_frame_ops jobs_ok_apply_extend_lease job_evolves_apply_extend_lease job_op_effects)
  qed
qed

lemma apply_operations_yields:
  assumes "tx_yields (tx_fold (apply_operation b) sv ops) d sv' d'" "batch_ok sv d"
  shows "batch_ok sv' d' \<and> applied (batch_transaction_id b) (batch_committed_at_ms b) ops d d'"
  using assms
proof (induction ops arbitrary: sv d)
  case Nil
  then show ?case by (auto dest!: yields_return)
next
  case (Cons op ops)
  then obtain w e where "tx_yields (apply_operation b sv op) d w e"
    and rest: "tx_yields (tx_fold (apply_operation b) w ops) e sv' d'"
    by (auto dest!: yields_bind)
  then have "batch_ok w e \<and> applied (batch_transaction_id b) (batch_committed_at_ms b) [op] d e"
    using Cons.prems(2) by (intro apply_operation_yields)
  with Cons.IH [OF rest] applied_append [of _ _ "[op]" d e ops d'] show ?case by simp
qed

section \<open>The transaction\<close>

text \<open>Before the first operation the hash map agrees with the durable versions.\<close>

lemma check_expected_yields:
  assumes "tx_yields (tx_fold check_expected_version sv es) d sv' d'" "batch_ok sv d" "db_ok d"
  shows "d' = d \<and> batch_ok sv' d \<and>
    (\<forall>e \<in> set es. i64_as_u64 (stored_version d (esv_stream_id e)) = esv_version e)"
  using assms
proof (induction es arbitrary: sv)
  case Nil
  then show ?case by (auto dest!: yields_return)
next
  case (Cons e es)
  let ?s = "esv_stream_id e" and ?w = "AList.update (esv_stream_id e) (esv_version e) sv"
  from Cons.prems(1) obtain w c where first: "tx_yields (check_expected_version sv e) d w c"
    and rest: "tx_yields (tx_fold check_expected_version w es) c sv' d'"
    by (auto dest!: yields_bind)
  from first obtain actual where actual: "tx_yields (current_stream_version ?s) d actual c"
    and same: "actual = esv_version e" "w = AList.update ?s actual sv"
    unfolding check_expected_version_def
    by (auto dest!: yields_bind yields_map_err yields_return yields_lift split: if_splits)
  note stored = current_stream_version_yields [OF actual]
  have "streams_ahead [] d"
    using Cons.prems(3) by (simp add: db_ok_def)
  then have "unat (esv_version e) = length (history d ?s)"
    using current_stream_version_length [OF actual, of "[]"] same by simp
  then have "batch_ok ?w d"
    using Cons.prems(2) by (simp add: batch_ok_def streams_ahead_def distinct_update)
  with Cons.IH [of ?w] rest stored same Cons.prems(3) show ?case by auto
qed

lemma batch_ok_transactions:
  assumes "batch_ok sv d" "insert_transactions r d = Inr d'"
    and "sql_max_plus_one (map tx_transaction_sequence (transactions d)) = Inr (tx_transaction_sequence r)"
    and "length (tx_transaction_id r) = 16"
  shows "batch_ok sv d'"
proof -
  have d': "d' = d\<lparr>transactions := transactions d @ [r]\<rparr>"
    using assms(2) by (simp add: insert_transactions_Inr)
  have "transactions_ok d"
    using assms(1) by (simp add: batch_ok_def)
  with assms(2) have "transactions_ok d'"
    using assms(3, 4) by (rule transactions_ok_insert)
  moreover have "jobs_ok d'"
    using assms(1) unfolding d' batch_ok_def by (intro jobs_ok_transactions) simp
  moreover have "events_ok d'"
    using assms(1) unfolding d' batch_ok_def by (auto simp: events_ok_def)
  moreover have "streams_ahead sv d' = streams_ahead sv d"
    by (rule streams_ahead_cong) (simp_all add: d')
  moreover have "projections_ok d' = projections_ok d"
    by (rule projections_ok_cong) (simp_all add: d')
  ultimately show ?thesis
    using assms(1) by (simp add: batch_ok_def)
qed

definition receipt_of_row :: "transactions_row \<Rightarrow> commit_receipt" where
  "receipt_of_row r = \<lparr>receipt_transaction_id = from_bytes (tx_transaction_id r),
     receipt_transaction_sequence = i64_as_u64 (tx_transaction_sequence r),
     receipt_committed_at_ms = tx_committed_at_ms r\<rparr>"

lemma commit_body_yields:
  assumes "tx_yields (commit_body b) d res d'" "db_ok d"
  obtains (resubmitted) r where "r \<in> set (transactions d)"
      "tx_transaction_id r = as_bytes (batch_transaction_id b)"
      "tx_request_digest r = request_digest b" "res = Roll_Back (receipt_of_row r)" "d' = d"
  | (committed) seq new where
      "\<not> transaction_exists (as_bytes (batch_transaction_id b)) d"
      "i64_int seq = int (length (transactions d)) + 1"
      "\<forall>e \<in> set (batch_expected_stream_versions b).
        i64_as_u64 (stored_version d (esv_stream_id e)) = esv_version e"
      "res = To_Commit (receipt_of_row (transaction_row b seq))"
      "transactions d' = transactions d @ [transaction_row b seq]"
      "events d' = events d @ new"
      "appends (batch_transaction_id b) (batch_events (batch_operations b)) new"
      "\<forall>p. contents d' p = fold (op_contents p) (batch_operations b) (contents d p) \<and>
        stored_projection_version d' p = fold (op_version p) (batch_operations b) (stored_projection_version d p) \<and>
        guarded (version_guard p) (op_version p) (batch_operations b) (stored_projection_version d p)"
      "same_jobs d' (fold (job_op (batch_transaction_id b) (batch_committed_at_ms b)) (batch_operations b) d)"
      "guarded (job_guard (batch_committed_at_ms b)) (job_op (batch_transaction_id b) (batch_committed_at_ms b))
        (batch_operations b) d"
      "queue_cursors d' = queue_cursors d" "job_evolves d d'" "db_ok d'"
      "\<forall>op \<in> set (batch_operations b). job_effect (batch_transaction_id b) op d'"
proof -
  let ?t = "batch_transaction_id b" and ?n = "batch_committed_at_ms b"
  let ?row = "List.find (\<lambda>r. tx_transaction_id r = as_bytes ?t) (transactions d)"
  obtain found e where
    lookup: "tx_yields (tx_map_err CommitError_Storage (lookup_transaction ?t)) d found e"
    and body: "tx_yields (case found of
       Some (sequence, committed_at_ms, stored_digest) \<Rightarrow>
         (if stored_digest = request_digest b
          then tx_return (Roll_Back \<lparr>receipt_transaction_id = ?t,
            receipt_transaction_sequence = sequence, receipt_committed_at_ms = committed_at_ms\<rparr>)
          else tx_lift (Inl DuplicateIdWithDifferentContent))
     | None \<Rightarrow>
         tx_bind (tx_fold check_expected_version [] (batch_expected_stream_versions b)) (\<lambda>sv.
         tx_bind (tx_map_err CommitError_Storage next_transaction_sequence) (\<lambda>sequence.
         tx_bind (tx_map_err CommitError_Storage (execute (insert_transactions
           (transaction_row b sequence)))) (\<lambda>_.
         tx_bind (tx_fold (apply_operation b) sv (batch_operations b)) (\<lambda>sv'.
         tx_bind (tx_map_err CommitError_Storage (flush_stream_versions sv')) (\<lambda>_.
         tx_return (To_Commit \<lparr>receipt_transaction_id = ?t,
           receipt_transaction_sequence = i64_as_u64 sequence,
           receipt_committed_at_ms = batch_committed_at_ms b\<rparr>))))))) e res d'"
    using yields_bind [OF assms(1) [unfolded commit_body_def Let_def]] by (elim exE conjE) (rule that)
  have found: "found = map_option (\<lambda>r. (i64_as_u64 (tx_transaction_sequence r),
        tx_committed_at_ms r, tx_request_digest r)) ?row" and e: "e = d"
    using lookup unfolding lookup_transaction_def by (auto dest!: yields)
  show thesis
  proof (cases ?row)
    case (Some r)
    then have "r \<in> set (transactions d)" "tx_transaction_id r = as_bytes ?t"
      by (auto simp: find_Some_iff)
    with body found e Some show ?thesis
      by (intro resubmitted [of r])
        (auto simp: receipt_of_row_def dest!: yields_return yields_lift split: if_splits)
  next
    case None
    then have fresh: "\<not> transaction_exists (as_bytes ?t) d"
      by (auto simp: find_None_key transaction_exists_def)
    obtain sv b1 seq b2 sv' b3 where
      expected: "tx_yields (tx_fold check_expected_version [] (batch_expected_stream_versions b)) d sv b1"
      and seq: "tx_yields next_transaction_sequence b1 seq b1"
      and ins: "insert_transactions (transaction_row b seq) b1 = Inr b2"
      and ops: "tx_yields (tx_fold (apply_operation b) sv (batch_operations b)) b2 sv' b3"
      and flush: "tx_yields (flush_stream_versions sv') b3 () d'"
      and res: "res = To_Commit \<lparr>receipt_transaction_id = ?t,
           receipt_transaction_sequence = i64_as_u64 seq,
           receipt_committed_at_ms = batch_committed_at_ms b\<rparr>"
      using body unfolding found None e
      by (auto simp: next_transaction_sequence_def
          dest!: yields_bind yields_map_err yields_execute yields_return)
        (metis yields_query)
    have ok: "batch_ok [] d"
      using assms(2) by simp
    from check_expected_yields [OF expected ok assms(2)]
    have b1: "b1 = d" and sv: "batch_ok sv d" and versions: "\<forall>e \<in> set (batch_expected_stream_versions b).
        i64_as_u64 (stored_version d (esv_stream_id e)) = esv_version e"
      by simp_all
    have max: "sql_max_plus_one (map tx_transaction_sequence (transactions d)) = Inr seq"
      using seq unfolding next_transaction_sequence_def b1 by (auto dest!: yields_query)
    have b2: "b2 = d\<lparr>transactions := transactions d @ [transaction_row b seq]\<rparr>"
      using ins unfolding b1 insert_transactions_Inr by simp
    have "batch_ok sv b2"
      using sv ins [unfolded b1]
      by (rule batch_ok_transactions) (simp_all add: transaction_row_def max)
    from apply_operations_yields [OF ops this]
    have b3: "batch_ok sv' b3" "applied ?t ?n (batch_operations b) b2 b3" by simp_all
    then obtain new where new: "events b3 = events b2 @ new" "appends ?t (batch_events (batch_operations b)) new"
      unfolding applied_def by blast
    obtain st where d': "d' = b3\<lparr>streams := st\<rparr>" and streams: "streams_ok d'"
      using flush_stream_versions_yields [OF flush] b3(1) by (auto simp: batch_ok_def)
    have "db_ok d'"
      using b3(1) streams unfolding db_ok_def batch_ok_def
      by (auto simp: d' transactions_ok_def projections_ok_def
          intro: events_ok_cong [THEN iffD2] jobs_ok_cong [THEN iffD2])
    moreover have "i64_int seq = int (length (transactions d)) + 1"
      using max assms(2) by (simp add: sql_max_plus_one_numbered db_ok_def transactions_ok_def)
    moreover have "job_evolves d d'"
    proof -
      have "job_evolves d b2" "job_evolves b2 b3"
        using b3(2) by (simp_all add: b2 applied_def job_evolves_eq)
      then show ?thesis
        using job_evolves_trans by (intro job_evolves_cong [of d' b3]) (auto simp: d')
    qed
    moreover have "\<forall>op \<in> set (batch_operations b). job_effect ?t op d'"
    proof -
      have "job_evolves b3 d'"
        by (simp add: d' job_evolves_eq)
      then show ?thesis
        using b3(2) job_effect_evolves by (auto simp: applied_def)
    qed
    moreover have "same_jobs d' (fold (job_op ?t ?n) (batch_operations b) d)"
        "guarded (job_guard ?n) (job_op ?t ?n) (batch_operations b) d"
    proof -
      have b2': "same_jobs b2 d" and b3': "same_jobs d' b3"
        by (simp_all add: b2 d' same_jobs_def)
      from same_jobs_fold [OF b2', of ?t ?n "batch_operations b"] b3' b3(2)
      show "same_jobs d' (fold (job_op ?t ?n) (batch_operations b) d)"
        by (simp add: applied_def same_jobs_def)
      from guarded_same_jobs [OF b2', of ?n ?t "batch_operations b"] b3(2)
      show "guarded (job_guard ?n) (job_op ?t ?n) (batch_operations b) d"
        by (simp add: applied_def)
    qed
    ultimately show ?thesis
      using b3(2) new fresh versions res
      by (intro committed [of seq new])
        (simp_all add: d' b2 applied_def contents_def stored_projection_version_def receipt_of_row_def transaction_row_def)
  qed
qed

end
