(* ===== verification/Store_Reads.thy ===== *)
theory Store_Reads
  imports Store_Commit
begin

text \<open>
  A store opened with \<open>open_existing\<close> holds a read-only connection. No operation changes the
  database through it: every function of \<open>src/store/\<close> is composed of reads and of writes that
  SQLite refuses.
\<close>

section \<open>Operations of a batch\<close>

lemma reads_only_load_job [read_only]: "reads_only (load_job i)"
  unfolding load_job_def by (intro read_only)

lemma reads_only_require_job [read_only]: "reads_only (require_job i)"
  unfolding require_job_def by (intro read_only)

lemma reads_only_drain [read_only]: "reads_only (drain_partition_if_empty q p)"
  unfolding drain_partition_if_empty_def by (intro read_only)

lemma reads_only_set_terminal [read_only]: "reads_only (set_terminal j s n t g e)"
  unfolding set_terminal_def by (intro read_only)

lemma reads_only_set_nonterminal [read_only]: "reads_only (set_nonterminal i s m t)"
  unfolding set_nonterminal_def by (intro read_only)

lemma reads_only_apply_enqueue [read_only]: "reads_only (apply_enqueue t s)"
  unfolding apply_enqueue_def Let_def by (intro read_only | simp split: if_split)+

lemma reads_only_apply_ack [read_only]: "reads_only (apply_ack t n a)"
  unfolding apply_ack_def Let_def by (intro read_only)

lemma reads_only_apply_fail [read_only]: "reads_only (apply_fail t n f)"
  unfolding apply_fail_def Let_def by (auto intro!: read_only split: option.split)

lemma reads_only_apply_cancel [read_only]: "reads_only (apply_cancel t n c)"
  unfolding apply_cancel_def Let_def by (auto intro!: read_only split: option.split)

lemma reads_only_apply_resolve [read_only]: "reads_only (apply_resolve t n r)"
  unfolding apply_resolve_def Let_def by (auto intro!: read_only split: resolution.split)

lemma reads_only_apply_extend_lease [read_only]: "reads_only (apply_extend_lease x n)"
  unfolding apply_extend_lease_def Let_def by (auto intro!: read_only split: option.split)

lemma reads_only_apply_mutation [read_only]: "reads_only (apply_mutation p m)"
  by (cases m) (auto simp: clear_entries_def intro!: read_only)

lemma reads_only_apply_projection_patch [read_only]: "reads_only (apply_projection_patch p)"
  unfolding apply_projection_patch_def version_query_def Let_def by (auto intro!: read_only)

section \<open>Transactions\<close>

lemma reads_only_current_stream_version [read_only]: "reads_only (current_stream_version s)"
  unfolding current_stream_version_def by (intro read_only)

lemma reads_only_check_expected_version [read_only]: "reads_only (check_expected_version sv x)"
  unfolding check_expected_version_def by (auto intro!: read_only)

lemma reads_only_append_event [read_only]: "reads_only (append_event t sv e)"
  unfolding append_event_def insert_event_def by (auto intro!: read_only split: option.split prod.split)

lemma reads_only_apply_operation [read_only]: "reads_only (apply_operation b sv op)"
  by (cases op) (auto simp: keeping_def intro!: read_only)

lemma reads_only_flush_stream_versions [read_only]: "reads_only (flush_stream_versions sv)"
  unfolding flush_stream_versions_def by (auto intro!: read_only split: prod.split)

lemma reads_only_commit_body: "reads_only (commit_body b)"
  unfolding commit_body_def lookup_transaction_def next_transaction_sequence_def Let_def
  by (auto intro!: read_only split: option.split prod.split)

lemma reads_only_lease_loop [read_only]: "reads_only (lease_loop req ls l ps)"
proof (induction ps arbitrary: ls l)
  case Nil
  then show ?case by (auto intro: read_only)
next
  case (Cons p ps)
  then show ?case
    by (auto simp: partition_head_def intro!: read_only split: option.split)
qed

lemma reads_only_claim_body: "reads_only (claim_body req ex)"
  unfolding claim_body_def plan_maintenance_def plan_leases_def insert_claim_transaction_def
    perform_maintenance_def grant_lease_def advance_cursor_def next_transaction_sequence_def Let_def
  by (auto intro!: read_only split: option.split prod.split job_state.split)

lemma commit_read_only: "env_read_only e \<Longrightarrow> snd (commit e l b d) = d"
  using reads_only_run_tx [OF reads_only_commit_body]
  by (simp add: commit_def split: sum.split prod.split) (metis snd_conv)

lemma claim_jobs_read_only: "env_read_only e \<Longrightarrow> snd (claim_jobs e req d) = d"
  using reads_only_run_tx [OF reads_only_claim_body]
  by (simp add: claim_jobs_def split: sum.split prod.split) (metis snd_conv)

lemma extend_lease_read_only: "env_read_only e \<Longrightarrow> snd (extend_lease e i t x n d) = d"
  unfolding extend_lease_def
  by (simp add: Let_def split_beta reads_only_run_tx reads_only_bind reads_only_apply_extend_lease
      reads_only_return)

end
