(* ===== verification/Store_Invariant.thy ===== *)
theory Store_Invariant
  imports Claim_Steps Commit_Steps Store_Reads "HOL-Library.Sublist"
begin

text \<open>
  The invariant of the database (\<open>db_ok\<close>) holds of the empty database and is preserved by every
  transaction of the store, in every environment. What each transaction leaves is also related
  to what it found (\<open>db_extends\<close>): the transaction log and the events only grow at the end, and
  the jobs evolve along their state machine.
\<close>

lemma db_ok_empty: "db_ok empty_db"
  by (simp add: db_ok_def transactions_ok_def events_ok_def streams_ok_def versions_ok_def
      projections_ok_def jobs_ok_def rows_ok_def partitions_ok_def heads_ok_def receipts_ok_def leases_recorded_def
      empty_db_def numbered_def history_def stored_version_def partition_jobs_def)

interpretation database: tx_invariant db_ok
  by unfold_locales (rule db_ok_empty)

section \<open>Claims\<close>

lemma job_frame_refl [simp]: "job_frame d d"
  by (rule job_frameI [where j = "jobs d" and a = "active_partitions d" and c = "claim_receipts d"]) simp

lemma job_frame_trans: "job_frame d e \<Longrightarrow> job_frame e f \<Longrightarrow> job_frame d f"
  by (clarsimp simp: job_frame_def [of d e] job_frame_def [of e f]) (rule job_frameI, rule refl)

lemma job_frame_fold: "(\<And>x d. job_frame d (f x d)) \<Longrightarrow> job_frame d (fold f xs d)"
  by (induction xs arbitrary: d) (auto intro: job_frame_trans)

lemma job_frame_maintained: "job_frame d (maintained req t r d)"
  by (simp add: maintained_def)

lemma job_frame_granted: "job_frame d (granted req ex t l d)"
  unfolding granted_def set_job_def by (rule job_frameI [where a = "active_partitions d"]) simp

lemma sql_max_plus_one_fresh:
  assumes "sql_max_plus_one xs = Inr n" "numbered xs"
  shows "n \<notin> set xs"
  using assms numbered_set [of xs n] by (auto simp: sql_max_plus_one_numbered)

text \<open>What a claim that reaches COMMIT has done, beside the leases and the maintenance.\<close>

lemma claim_body_effect:
  assumes "tx_yields (claim_body req ex) d (To_Commit p) d'" "db_ok d"
  obtains t leases seq where
    "p = (t, map (claimed_of req ex) leases)" "t \<noteq> id_zero"
    "list_all2 (leaseable req d) (leased_partitions req d) leases"
    "expired_rows req d \<noteq> [] \<or> leases \<noteq> []"
    "transactions d' = transactions d @
      [claim_transaction_row t req (length (expired_rows req d) + length leases) seq]"
    "events d' = events d" "contents d' = contents d" "job_evolves d d'" "db_ok d'"
    "d' = cursor_moved req (leased_partitions req d)
        (fold (granted req ex t) leases
          (fold (maintained req t) (expired_rows req d)
            (claim_inserted req t (length (expired_rows req d) + length leases) seq d)))"
proof -
  have jobs: "jobs_ok d" and tx_ok: "transactions_ok d"
    using assms(2) by (simp_all add: db_ok_def)
  from assms(1) jobs show thesis
  proof (cases rule: claim_body_yields)
    case noop
    then show ?thesis by simp
  next
    case (claims t leases seq)
    let ?n = "length (expired_rows req d) + length leases"
    define b where "b = claim_inserted req t ?n seq d"
    define c where "c = fold (granted req ex t) leases (fold (maintained req t) (expired_rows req d) b)"
    let ?r = "claim_transaction_row t req ?n seq"
    have b: "b = d\<lparr>transactions := transactions d @ [?r]\<rparr>"
      by (simp add: b_def claim_inserted_def)
    have "job_frame b c"
      unfolding c_def by (rule job_frame_trans [OF job_frame_fold job_frame_fold])
        (rule job_frame_maintained job_frame_granted)+
    note c = job_frame_tables [OF this]
    have "d' = cursor_moved req (leased_partitions req d) c"
      using claims(7) by (simp only: b_def c_def)
    then have d': "d' = c\<lparr>queue_cursors := queue_cursors d'\<rparr>"
      by (simp add: cursor_moved_def)
    have same: "transactions d' = transactions d @ [?r]" "events d' = events d"
      "events_seq d' = events_seq d" "streams d' = streams d"
      "projection_meta d' = projection_meta d" "projection_entries d' = projection_entries d"
      by (subst d', simp add: c b)+
    have "insert_transactions ?r d = Inr b"
      using claims(5) sql_max_plus_one_fresh [OF claims(6)] tx_ok
      by (simp add: insert_transactions_Inr b claim_transaction_row_def transactions_ok_def)
    then have "transactions_ok b"
      using tx_ok by (rule transactions_ok_insert [where r = ?r])
        (simp_all add: claims(6) claim_transaction_row_def)
    then have "transactions_ok d'"
      using same(1) by (simp add: transactions_ok_def b)
    moreover have "events_ok d'"
      using assms(2) same by (auto simp: db_ok_def events_ok_def transaction_exists_def)
    moreover have "streams_ok d'"
      using assms(2) streams_ahead_cong [of d' d "[]"] same by (simp add: db_ok_def)
    moreover have "projections_ok d'"
      using assms(2) projections_ok_cong [of d' d] same by (simp add: db_ok_def)
    ultimately have "db_ok d'"
      using claims(8) by (simp add: db_ok_def)
    moreover have "contents d' = contents d"
      using same by (simp add: contents_def fun_eq_iff)
    ultimately show ?thesis
      using claims same by (intro that [of t leases seq]) simp_all
  qed
qed

section \<open>The transactions of the store\<close>

text \<open>The row of a batch in the log, column by column.\<close>

definition row_logged :: "commit_batch \<Rightarrow> i64 \<Rightarrow> transactions_row" where
  "row_logged b sequence = \<lparr>
     tx_transaction_id = as_bytes (batch_transaction_id b), tx_transaction_sequence = sequence,
     tx_committed_at_ms = batch_committed_at_ms b,
     tx_correlation_id = (case batch_correlation_id b of None \<Rightarrow> None | Some i \<Rightarrow> Some (as_bytes i)),
     tx_metadata = batch_metadata b, tx_request_digest = request_digest b,
     tx_operation_count = i64_of_int (int (length (batch_operations b)))\<rparr>"

lemma row_logged_transaction [simp]: "row_logged b sequence = transaction_row b sequence"
  by (cases "batch_correlation_id b") (simp_all add: row_logged_def transaction_row_def u64_as_i64_def i64_of_int_def)

text \<open>
  A batch that was committed: its row, its events with their numbers and the versions of the streams, its projections,
  and its jobs.
\<close>

definition batch_committed :: "commit_batch \<Rightarrow> i64 \<Rightarrow> db \<Rightarrow> db \<Rightarrow> bool" where
  "batch_committed b seq d d' \<longleftrightarrow>
     \<not> transaction_exists (as_bytes (batch_transaction_id b)) d \<and>
     i64_int seq = int (length (transactions d)) + 1 \<and>
     (\<forall>x \<in> set (batch_expected_stream_versions b).
        i64_as_u64 (stored_version d (esv_stream_id x)) = esv_version x) \<and>
     transactions d' = transactions d @ [row_logged b seq] \<and>
     (\<exists>new. events d' = events d @ new \<and>
        appends (batch_transaction_id b) (batch_events (batch_operations b)) new) \<and>
     numbered (map ev_global_sequence (events d')) \<and>
     (\<forall>s. numbered (map ev_stream_version (history d' s)) \<and>
        i64_int (stored_version d' s) = int (length (history d' s))) \<and>
     (\<forall>p. contents d' p = fold (op_contents p) (batch_operations b) (contents d p) \<and>
        stored_projection_version d' p = fold (op_version p) (batch_operations b) (stored_projection_version d p) \<and>
        guarded (version_guard p) (op_version p) (batch_operations b) (stored_projection_version d p)) \<and>
     same_jobs d' (fold (job_op (batch_transaction_id b) (batch_committed_at_ms b)) (batch_operations b) d) \<and>
     guarded (job_guard (batch_committed_at_ms b)) (job_op (batch_transaction_id b) (batch_committed_at_ms b))
       (batch_operations b) d \<and>
     queue_cursors d' = queue_cursors d \<and> job_evolves d d' \<and>
     (\<forall>op \<in> set (batch_operations b). job_effect (batch_transaction_id b) op d')"

lemma commit_body_committed:
  assumes "tx_yields (commit_body b) d (To_Commit x) d'" "db_ok d"
  shows "\<exists>seq. x = receipt_of_row (transaction_row b seq) \<and> batch_committed b seq d d'"
  using assms
  by (cases rule: commit_body_yields)
    (auto simp: batch_committed_def db_ok_def events_ok_def streams_ok_def versions_ok_def)

lemma commit_body_db_ok: "tx_yields (commit_body b) d (To_Commit x) d' \<Longrightarrow> db_ok d \<Longrightarrow> db_ok d'"
  by (erule (1) commit_body_yields) simp_all

section \<open>Errors before COMMIT\<close>

text \<open>All errors of \<open>m\<close> satisfy \<open>P\<close>.\<close>

definition fails_with :: "('e \<Rightarrow> bool) \<Rightarrow> ('e, 'a) tx \<Rightarrow> bool" where
  "fails_with P m \<longleftrightarrow> (\<forall>s e. m s = Inl e \<longrightarrow> P e)"

named_theorems failure

lemma fails_with_return [failure]: "fails_with P (tx_return x)"
  by (simp add: fails_with_def tx_return_def)

lemma fails_with_bind [failure]:
  "fails_with P m \<Longrightarrow> (\<And>x. fails_with P (f x)) \<Longrightarrow> fails_with P (tx_bind m f)"
  by (auto simp: fails_with_def tx_bind_def err_bind_Inl)

lemma fails_with_map_err [failure]: "(\<And>e. P (f e)) \<Longrightarrow> fails_with P (tx_map_err f m)"
  by (auto simp: fails_with_def tx_map_err_def map_err_Inl)

lemma fails_with_lift [failure]: "(\<And>e. r = Inl e \<Longrightarrow> P e) \<Longrightarrow> fails_with P (tx_lift r)"
  by (auto simp: fails_with_def tx_lift_def err_bind_Inl)

lemma fails_with_for_each [failure]: "(\<And>x. fails_with P (f x)) \<Longrightarrow> fails_with P (tx_for_each f xs)"
  by (induction xs) (auto intro: failure)

lemma fails_with_fold [failure]: "(\<And>v x. fails_with P (f v x)) \<Longrightarrow> fails_with P (tx_fold f v xs)"
  by (induction xs arbitrary: v) (auto intro: failure)

fun commit_determinate :: "commit_error \<Rightarrow> bool" where
  "commit_determinate (CommitError_Indeterminate _) = False"
| "commit_determinate _ = True"

fun claim_determinate :: "claim_error \<Rightarrow> bool" where
  "claim_determinate (ClaimError_Indeterminate _) = False"
| "claim_determinate _ = True"

fun lease_determinate :: "lease_error \<Rightarrow> bool" where
  "lease_determinate (LeaseError_Indeterminate _) = False"
| "lease_determinate _ = True"

lemma error_to_commit_determinate [simp]: "commit_determinate (error_to_commit e)"
  by (cases e) simp_all

lemma lease_to_commit_determinate [simp]: "commit_determinate (lease_to_commit e)"
  by (cases e) simp_all

lemma error_to_claim_determinate [simp]: "claim_determinate (error_to_claim e)"
  by (cases e) simp_all

lemma apply_operation_determinate: "fails_with commit_determinate (apply_operation b sv op)"
  by (cases op) (auto simp: keeping_def append_event_def ok_or_Inl intro!: failure split: option.split)

lemma commit_body_determinate: "fails_with commit_determinate (commit_body b)"
  unfolding commit_body_def check_expected_version_def Let_def
  by (auto intro!: failure apply_operation_determinate split: option.split)

lemma claim_body_determinate: "fails_with claim_determinate (claim_body req ex)"
  unfolding claim_body_def perform_maintenance_def grant_lease_def advance_cursor_def Let_def
  by (auto intro!: failure split: option.split)

lemma apply_extend_lease_determinate: "fails_with lease_determinate (apply_extend_lease x n)"
  unfolding apply_extend_lease_def Let_def
  by (auto intro!: failure simp: ensure_Inl ok_or_Inl split: option.split)

section \<open>Outcomes\<close>

lemma commit_cases:
  assumes "commit e l b d = (r, d')" "db_ok d"
  obtains (invalid) v where "validate_batch l b = Inl v" "r = Inl (CommitError_Validation v)" "d' = d"
  | (failed) err where "r = Inl err" "commit_determinate err" "d' = d"
  | (resubmitted) t where "t \<in> set (transactions d)"
      "tx_transaction_id t = as_bytes (batch_transaction_id b)"
      "tx_request_digest t = request_digest b" "r = Inr (receipt_of_row t)" "d' = d"
  | (committed) seq where "r = Inr (receipt_of_row (transaction_row b seq))"
      "batch_committed b seq d d'" "db_ok d'" "validate_batch l b = Inr ()"
  | (indeterminate) c seq b' where
      "r = Inl (CommitError_Indeterminate
         \<lparr>ic_transaction_id = batch_transaction_id b, ic_storage_error = c\<rparr>)"
      "batch_committed b seq d b'" "db_ok b'" "d' = d \<or> d' = b'"
proof (cases "validate_batch l b")
  case (Inl v)
  with assms(1) show ?thesis by (intro invalid) (auto simp: commit_def)
next
  case (Inr u)
  obtain q where run: "run_tx e CommitError_Storage (commit_indeterminate b) (commit_body b) d = (q, d')"
    and r: "r = err_bind q (\<lambda>x. Inr (committed_value x))"
    using assms(1) Inr by (auto simp: commit_def split: prod.splits)
  from run show ?thesis
  proof (cases rule: run_tx_cases)
    case (begin_failed err)
    with r show ?thesis by (intro that(2) [of "CommitError_Storage err"]) simp_all
  next
    case (failed err)
    with r show ?thesis
      using commit_body_determinate [of b] by (intro that(2)) (auto simp: fails_with_def)
  next
    case (rolled_back x c)
    from rolled_back(1) assms(2) show ?thesis
    proof (cases rule: commit_body_yields)
      case (resubmitted t)
      with rolled_back r show ?thesis by (intro that(3) [of t]) simp_all
    qed simp
  next
    case (committed x)
    obtain seq where "x = receipt_of_row (transaction_row b seq)" "batch_committed b seq d d'"
      using commit_body_committed [OF committed(1) assms(2)] by blast
    with committed r commit_body_db_ok [OF committed(1) assms(2)] Inr show ?thesis
      by (intro that(4) [of seq]) simp_all
  next
    case (indeterminate x c b')
    obtain seq where "batch_committed b seq d b'"
      using commit_body_committed [OF indeterminate(1) assms(2)] by blast
    with indeterminate r commit_body_db_ok [OF indeterminate(1) assms(2)] show ?thesis
      by (intro that(5) [of c seq b']) (simp_all add: commit_indeterminate_def)
  qed
qed

text \<open>A claim that was committed: its maintenance, its leases and its row.\<close>

definition claim_committed ::
  "claim_request \<Rightarrow> i64 \<Rightarrow> id \<Rightarrow> proposed_lease list \<Rightarrow> db \<Rightarrow> db \<Rightarrow> bool" where
  "claim_committed req ex t leases d d' \<longleftrightarrow>
     t \<noteq> id_zero \<and> list_all2 (leaseable req d) (leased_partitions req d) leases \<and>
     (expired_rows req d \<noteq> [] \<or> leases \<noteq> []) \<and>
     (\<exists>seq. transactions d' = transactions d @
        [claim_transaction_row t req (length (expired_rows req d) + length leases) seq] \<and>
        d' = cursor_moved req (leased_partitions req d)
          (fold (granted req ex t) leases
            (fold (maintained req t) (expired_rows req d)
              (claim_inserted req t (length (expired_rows req d) + length leases) seq d)))) \<and>
     events d' = events d \<and> contents d' = contents d \<and> job_evolves d d'"

lemma claim_body_committed:
  assumes "tx_yields (claim_body req ex) d (To_Commit p) d'" "db_ok d"
  shows "\<exists>t leases. p = (t, map (claimed_of req ex) leases) \<and> claim_committed req ex t leases d d' \<and> db_ok d'"
  using assms by (rule claim_body_effect) (auto simp: claim_committed_def)

lemma claim_jobs_cases:
  assumes "claim_jobs e req d = (r, d')" "db_ok d"
  obtains (invalid) v where "validate_claim req = Inl v" "r = Inl (ClaimError_Validation v)" "d' = d"
  | (failed) err where "r = Inl err" "claim_determinate err" "d' = d"
  | (noop) "r = Inr ClaimOutcome_Noop" "d' = d" "expired_rows req d = []" "leased_partitions req d = []"
  | (committed) ex t leases where "validate_claim req = Inr ex"
      "r = Inr (claim_outcome_of (To_Commit (t, map (claimed_of req ex) leases)))"
      "claim_committed req ex t leases d d'" "db_ok d'"
  | (indeterminate) ex t leases c b' where "validate_claim req = Inr ex"
      "r = Inl (claim_indeterminate (t, map (claimed_of req ex) leases) c)"
      "claim_committed req ex t leases d b'" "db_ok b'" "d' = d \<or> d' = b'"
proof (cases "validate_claim req")
  case (Inl v)
  with assms(1) show ?thesis by (intro invalid) (auto simp: claim_jobs_def)
next
  case (Inr ex)
  obtain q where run: "run_tx e ClaimError_Storage claim_indeterminate (claim_body req ex) d = (q, d')"
    and r: "r = err_bind q (\<lambda>x. Inr (claim_outcome_of x))"
    using assms(1) Inr by (auto simp: claim_jobs_def split: prod.splits)
  from run show ?thesis
  proof (cases rule: run_tx_cases)
    case (begin_failed err)
    with r show ?thesis by (intro that(2) [of "ClaimError_Storage err"]) simp_all
  next
    case (failed err)
    with r show ?thesis
      using claim_body_determinate [of req ex] by (intro that(2)) (auto simp: fails_with_def)
  next
    case (rolled_back x c)
    have "jobs_ok d"
      using assms(2) by (simp add: db_ok_def)
    with rolled_back(1) show ?thesis
    proof (cases rule: claim_body_yields)
      case noop
      with rolled_back r show ?thesis by (intro that(3)) simp_all
    qed simp
  next
    case (committed x)
    obtain t leases where "x = (t, map (claimed_of req ex) leases)" "claim_committed req ex t leases d d'" "db_ok d'"
      using claim_body_committed [OF committed(1) assms(2)] by blast
    with committed r Inr show ?thesis
      by (intro that(4) [of ex t leases]) simp_all
  next
    case (indeterminate x c b')
    obtain t leases where "x = (t, map (claimed_of req ex) leases)" "claim_committed req ex t leases d b'" "db_ok b'"
      using claim_body_committed [OF indeterminate(1) assms(2)] by blast
    with indeterminate r Inr show ?thesis
      by (intro that(5) [of ex t leases c b']) simp_all
  qed
qed

text \<open>An extension that was committed: the lease was live, held by the token, and gets longer.\<close>

definition lease_extended :: "id \<Rightarrow> id \<Rightarrow> i64 \<Rightarrow> i64 \<Rightarrow> db \<Rightarrow> lease_extension_receipt \<Rightarrow> db \<Rightarrow> bool" where
  "lease_extended j token expiry now_ms d receipt d' \<longleftrightarrow>
     (\<exists>r \<in> set (jobs d). \<exists>old. jobs_job_id r = as_bytes j \<and> state_of r = Leased \<and>
        jobs_lease_token r = Some (as_bytes token) \<and> jobs_lease_expires_at_ms r = Some old \<and>
        now_ms \<le> old \<and> old < expiry \<and> d' = extend_job r token expiry d \<and>
        receipt = \<lparr>ext_receipt_job_id = j, ext_receipt_attempt = row_attempt (decoded_job r),
          ext_receipt_lease_expires_at_ms = expiry\<rparr>) \<and>
     job_evolves d d'"

lemma extend_body_committed:
  assumes "tx_yields (apply_extend_lease \<lparr>extend_job_id = j, extend_lease_token = token,
    extend_new_expiry_ms = expiry\<rparr> now_ms) d receipt d'" "db_ok d"
  shows "lease_extended j token expiry now_ms d receipt d' \<and> db_ok d'"
proof -
  have jobs: "jobs_ok d" and rows: "rows_ok d"
    using assms(2) by (auto simp: db_ok_def intro: jobs_ok_rows)
  have evolves: "job_evolves d d'"
    using assms(1) rows by (rule job_evolves_apply_extend_lease)
  have "lease_extended j token expiry now_ms d receipt d'"
    using assms(1) rows
  proof (cases rule: apply_extend_lease_yields)
    case (1 r e)
    show ?thesis
      unfolding lease_extended_def
      by (rule conjI [OF bexI [of _ r] evolves], rule exI [of _ e]) (use 1 in simp_all)
  qed
  moreover have "batch_ok [] d'"
    using assms(2) job_frame_ops(6) [OF assms(1) rows] jobs_ok_apply_extend_lease [OF assms(1) jobs]
    by (intro batch_ok_job_frame [of "[]" d d']) simp_all
  ultimately show ?thesis by simp
qed

lemma extend_lease_cases:
  assumes "extend_lease e j token expiry now_ms d = (r, d')" "db_ok d"
  obtains (failed) err where "r = Inl err" "lease_determinate err" "d' = d"
  | (committed) receipt where "r = Inr receipt" "lease_extended j token expiry now_ms d receipt d'" "db_ok d'"
  | (indeterminate) receipt c b' where "r = Inl (lease_indeterminate receipt c)"
      "lease_extended j token expiry now_ms d receipt b'" "db_ok b'" "d' = d \<or> d' = b'"
proof -
  let ?apply = "apply_extend_lease \<lparr>extend_job_id = j, extend_lease_token = token,
    extend_new_expiry_ms = expiry\<rparr> now_ms"
  let ?body = "tx_bind ?apply (\<lambda>receipt. tx_return (To_Commit receipt))"
  have body: "\<exists>receipt. x = To_Commit receipt \<and> lease_extended j token expiry now_ms d receipt b \<and> db_ok b"
    if body: "tx_yields ?body d x b" for x b
  proof -
    obtain receipt where "tx_yields ?apply d receipt b" "x = To_Commit receipt"
      using yields_bind [OF body] by (auto dest!: yields_return)
    then show ?thesis
      using extend_body_committed [OF _ assms(2)] by blast
  qed
  obtain q where "run_tx e LeaseError_Storage lease_indeterminate ?body d = (q, d')"
    and r: "r = err_bind q (\<lambda>x. Inr (committed_value x))"
    using assms(1) by (auto simp: extend_lease_def split: prod.splits)
  from this(1) show ?thesis
  proof (cases rule: run_tx_cases)
    case (begin_failed err)
    with r show ?thesis by (intro that(1) [of "LeaseError_Storage err"]) simp_all
  next
    case (failed err)
    have "fails_with lease_determinate ?body"
      by (intro failure apply_extend_lease_determinate)
    with failed r show ?thesis by (intro that(1)) (auto simp: fails_with_def)
  next
    case (rolled_back x b)
    with body show ?thesis by blast
  next
    case (committed x)
    with body r show ?thesis by (intro that(2) [of x]) auto
  next
    case (indeterminate x c b)
    with body [OF indeterminate(1)] r show ?thesis by (intro that(3) [of x c b]) auto
  qed
qed

section \<open>Preservation\<close>

lemma db_ok_commit: "commit e l b d = (r, d') \<Longrightarrow> db_ok d \<Longrightarrow> db_ok d'"
  by (erule (1) commit_cases) auto

lemma db_ok_claim_jobs: "claim_jobs e req d = (r, d') \<Longrightarrow> db_ok d \<Longrightarrow> db_ok d'"
  by (erule (1) claim_jobs_cases) auto

lemma db_ok_extend_lease: "extend_lease e j t x n d = (r, d') \<Longrightarrow> db_ok d \<Longrightarrow> db_ok d'"
  by (erule (1) extend_lease_cases) auto

text \<open>A later database: the logs have grown, the jobs have moved on.\<close>

definition db_extends :: "db \<Rightarrow> db \<Rightarrow> bool" where
  "db_extends d d' \<longleftrightarrow> prefix (transactions d) (transactions d') \<and>
     prefix (events d) (events d') \<and> job_evolves d d'"

lemma db_extends_refl [simp]: "db_extends d d"
  by (simp add: db_extends_def)

lemma db_extends_trans: "db_extends d e \<Longrightarrow> db_extends e f \<Longrightarrow> db_extends d f"
  unfolding db_extends_def by (auto intro: prefix_order.trans job_evolves_trans)

lemma batch_committed_extends: "batch_committed b seq d d' \<Longrightarrow> db_extends d d'"
  by (auto simp: batch_committed_def db_extends_def)

lemma claim_committed_extends: "claim_committed req ex t ls d d' \<Longrightarrow> db_extends d d'"
  by (auto simp: claim_committed_def db_extends_def)

lemma lease_extended_extends: "lease_extended j t x n d receipt d' \<Longrightarrow> db_extends d d'"
  by (auto simp: lease_extended_def db_extends_def extend_job_def set_job_def)

lemma commit_extends: "commit e l b d = (r, d') \<Longrightarrow> db_ok d \<Longrightarrow> db_extends d d'"
  by (erule (1) commit_cases) (auto dest: batch_committed_extends)

lemma claim_jobs_extends: "claim_jobs e req d = (r, d') \<Longrightarrow> db_ok d \<Longrightarrow> db_extends d d'"
  by (erule (1) claim_jobs_cases) (auto dest: claim_committed_extends)

lemma extend_lease_extends: "extend_lease e j t x n d = (r, d') \<Longrightarrow> db_ok d \<Longrightarrow> db_extends d d'"
  by (erule (1) extend_lease_cases) (auto dest: lease_extended_extends)

end
