(* ===== verification/Transition_Systems.thy ===== *)
theory Transition_Systems
  imports Main
begin

text \<open>
  Labelled transition systems: the runs of a step relation, and the contract of an invariant
  \<open>I\<close> together with a preorder \<open>R\<close> that every step respects. The store is an instance.
\<close>

inductive runs :: "('s \<Rightarrow> 'l \<Rightarrow> 's \<Rightarrow> bool) \<Rightarrow> 's \<Rightarrow> 'l list \<Rightarrow> 's \<Rightarrow> bool" for step where
  stop: "runs step s [] s"
| step: "step s l t \<Longrightarrow> runs step t ls u \<Longrightarrow> runs step s (l # ls) u"

inductive_simps runs_Nil [simp]: "runs step s [] t"
inductive_simps runs_Cons: "runs step s (l # ls) t"

lemma runs_append: "runs step s (ls @ ms) t \<longleftrightarrow> (\<exists>u. runs step s ls u \<and> runs step u ms t)"
  by (induction ls arbitrary: s) (auto simp: runs_Cons)

text \<open>A label of a run was taken from a state the run reaches.\<close>

lemma runs_split:
  assumes "runs step s ls t" "l \<in> set ls"
  obtains ms ns u v where "ls = ms @ l # ns" "runs step s ms u" "step u l v" "runs step v ns t"
proof -
  obtain ms ns where ls: "ls = ms @ l # ns"
    using split_list [OF assms(2)] by blast
  then show thesis
    using assms(1) that by (auto simp: runs_append runs_Cons)
qed

locale evolving_system =
  fixes step :: "'s \<Rightarrow> 'l \<Rightarrow> 's \<Rightarrow> bool" and I :: "'s \<Rightarrow> bool" and R :: "'s \<Rightarrow> 's \<Rightarrow> bool"
  assumes step_invariant: "I s \<Longrightarrow> step s l t \<Longrightarrow> I t"
    and step_related: "I s \<Longrightarrow> step s l t \<Longrightarrow> R s t"
    and related_refl: "R s s"
    and related_trans: "R s t \<Longrightarrow> R t u \<Longrightarrow> R s u"
begin

lemma runs_invariant: "runs step s ls t \<Longrightarrow> I s \<Longrightarrow> I t"
  by (induction rule: runs.induct) (auto intro: step_invariant)

lemma runs_related: "runs step s ls t \<Longrightarrow> I s \<Longrightarrow> R s t"
  by (induction rule: runs.induct) (auto intro: step_invariant step_related related_refl related_trans)

end

end
