(* ===== verification/Store_Facade.thy ===== *)
theory Store_Facade
  imports Store_Invariant Transition_Systems
begin

text \<open>
  The facade of \<open>src/store/mod.rs\<close> with the read pool of \<open>src/store/read_pool.rs\<close>: one writer connection, dropped
  when a COMMIT has an unknown outcome and reopened by the next operation, and a pool of idle
  read-only connections. The calls run one after the other (the code serialises them with its
  mutexes); \<open>store_step\<close> is one call or a restart of the process. The state of the file is the
  database; opening a connection fails or not as the environment says.
\<close>

section \<open>Connections\<close>

text \<open>
  \<open>connection::open\<close> sets the pragmas of the durability; \<open>open_existing\<close> and \<open>open_reader\<close> give a
  read-only connection.
\<close>

datatype connection = Read_Write durability | Read_Only

type_synonym open_outcome = "storage_error option"

definition open_writer :: "open_outcome \<Rightarrow> durability \<Rightarrow> storage_error + connection" where
  "open_writer opn dur = (case opn of Some err \<Rightarrow> Inl err | None \<Rightarrow> Inr (Read_Write dur))"

definition open_reader :: "open_outcome \<Rightarrow> storage_error + connection" where
  "open_reader opn = (case opn of Some err \<Rightarrow> Inl err | None \<Rightarrow> Inr Read_Only)"

definition on_connection :: "connection \<Rightarrow> env \<Rightarrow> env" where
  "on_connection c e = e\<lparr>env_read_only := (c = Read_Only)\<rparr>"

text \<open>
  Statements outside a transaction: only reads are run so. The database they leave is dropped, because it is the one
  they found: the reads of the pool run on read-only connections (\<open>pooled_read_leaves_db\<close> of Facade_Results), and the
  recoveries are queries.
\<close>

definition run_reads :: "connection \<Rightarrow> env \<Rightarrow> ('e, 'a) tx \<Rightarrow> db \<Rightarrow> 'e + 'a" where
  "run_reads c e m d = err_bind (m (tx_start (on_connection c e) d)) (\<lambda>(x, s). Inr x)"

section \<open>The read pool\<close>

record read_pool =
  pool_idle :: "connection list"
  pool_max_idle :: usize

definition default_read_pool_size :: usize where "default_read_pool_size = 4"

definition read_pool_new :: "usize \<Rightarrow> read_pool" where
  "read_pool_new max_idle = \<lparr>pool_idle = [], pool_max_idle = max_idle\<rparr>"

definition pool_take :: "open_outcome \<Rightarrow> read_pool \<Rightarrow> (storage_error + connection) \<times> read_pool" where
  "pool_take opn pool =
     (if pool_idle pool = [] then (open_reader opn, pool)
      else (Inr (last (pool_idle pool)), pool\<lparr>pool_idle := butlast (pool_idle pool)\<rparr>))"

definition pool_put :: "connection \<Rightarrow> read_pool \<Rightarrow> read_pool" where
  "pool_put conn pool =
     (if length (pool_idle pool) < unat (pool_max_idle pool)
      then pool\<lparr>pool_idle := pool_idle pool @ [conn]\<rparr> else pool)"

section \<open>The store\<close>

record store =
  store_db :: db
  store_writer :: "connection option"
  store_readers :: read_pool
  store_limits :: limits
  store_durability :: durability

definition writer_connection :: "open_outcome \<Rightarrow> store \<Rightarrow> (storage_error + connection) \<times> store" where
  "writer_connection opn st =
     (case store_writer st of
        Some c \<Rightarrow> (Inr c, st)
      | None \<Rightarrow> (case open_writer opn (store_durability st) of
            Inl err \<Rightarrow> (Inl err, st)
          | Inr c \<Rightarrow> (Inr c, st\<lparr>store_writer := Some c\<rparr>)))"

definition with_reader :: "open_outcome \<Rightarrow> env \<Rightarrow> (error, 'a) tx \<Rightarrow> store \<Rightarrow> (error + 'a) \<times> store" where
  "with_reader opn e f st =
     (case pool_take opn (store_readers st) of
        (Inl err, pool) \<Rightarrow> (Inl (Error_Storage err), st\<lparr>store_readers := pool\<rparr>)
      | (Inr conn, pool) \<Rightarrow>
          (run_reads conn e f (store_db st), st\<lparr>store_readers := pool_put conn pool\<rparr>))"

text \<open>An indeterminate outcome drops the writer.\<close>

definition poison :: "bool \<Rightarrow> store \<Rightarrow> store" where
  "poison indeterminate st = (if indeterminate then st\<lparr>store_writer := None\<rparr> else st)"

fun is_commit_indeterminate :: "commit_error + 'a \<Rightarrow> bool" where
  "is_commit_indeterminate (Inl (CommitError_Indeterminate _)) = True"
| "is_commit_indeterminate _ = False"

fun is_claim_indeterminate :: "claim_error + 'a \<Rightarrow> bool" where
  "is_claim_indeterminate (Inl (ClaimError_Indeterminate _)) = True"
| "is_claim_indeterminate _ = False"

fun is_lease_indeterminate :: "lease_error + 'a \<Rightarrow> bool" where
  "is_lease_indeterminate (Inl (LeaseError_Indeterminate _)) = True"
| "is_lease_indeterminate _ = False"

text \<open>
  The writing methods: the writer connection runs one transaction, and is dropped when the
  outcome of its COMMIT is unknown.
\<close>

definition with_writer :: "(storage_error \<Rightarrow> 'e) \<Rightarrow> ('e + 'a \<Rightarrow> bool) \<Rightarrow>
    (connection \<Rightarrow> db \<Rightarrow> ('e + 'a) \<times> db) \<Rightarrow> open_outcome \<Rightarrow> store \<Rightarrow> ('e + 'a) \<times> store" where
  "with_writer storage indeterminate run opn st =
     (case writer_connection opn st of
        (Inl err, st) \<Rightarrow> (Inl (storage err), st)
      | (Inr conn, st) \<Rightarrow>
          (let (r, d) = run conn (store_db st)
           in (r, poison (indeterminate r) (st\<lparr>store_db := d\<rparr>))))"

definition store_commit :: "open_outcome \<Rightarrow> env \<Rightarrow> commit_batch \<Rightarrow> store \<Rightarrow>
    (commit_error + commit_receipt) \<times> store" where
  "store_commit opn e batch st = with_writer CommitError_Storage is_commit_indeterminate
     (\<lambda>conn. commit (on_connection conn e) (store_limits st) batch) opn st"

definition store_claim_jobs :: "open_outcome \<Rightarrow> env \<Rightarrow> claim_request \<Rightarrow> store \<Rightarrow>
    (claim_error + claim_outcome) \<times> store" where
  "store_claim_jobs opn e request st = with_writer ClaimError_Storage is_claim_indeterminate
     (\<lambda>conn. claim_jobs (on_connection conn e) request) opn st"

definition store_extend_lease :: "open_outcome \<Rightarrow> env \<Rightarrow> id \<Rightarrow> id \<Rightarrow> i64 \<Rightarrow> i64 \<Rightarrow> store \<Rightarrow>
    (lease_error + lease_extension_receipt) \<times> store" where
  "store_extend_lease opn e job_id lease_token new_expiry_ms now_ms st =
     with_writer LeaseError_Storage is_lease_indeterminate
       (\<lambda>conn. extend_lease (on_connection conn e) job_id lease_token new_expiry_ms now_ms) opn st"

definition store_recover_transaction :: "open_outcome \<Rightarrow> env \<Rightarrow> id \<Rightarrow> store \<Rightarrow>
    (recovery_error + transaction_recovery) \<times> store" where
  "store_recover_transaction opn e transaction_id st =
     (case writer_connection opn st of
        (Inl err, st) \<Rightarrow> (Inl (RecoveryError_Storage err), st)
      | (Inr conn, st) \<Rightarrow>
          (map_err RecoveryError_Storage
            (run_reads conn e (recover_transaction transaction_id) (store_db st)), st))"

definition store_recover_claim :: "open_outcome \<Rightarrow> env \<Rightarrow> id \<Rightarrow> i64 \<Rightarrow> store \<Rightarrow>
    (recovery_error + claim_recovery) \<times> store" where
  "store_recover_claim opn e transaction_id now_ms st =
     (case writer_connection opn st of
        (Inl err, st) \<Rightarrow> (Inl (RecoveryError_Storage err), st)
      | (Inr conn, st) \<Rightarrow> (run_reads conn e (recover_claim transaction_id now_ms) (store_db st), st))"

section \<open>Calls\<close>

text \<open>One constructor per method of the facade that reads or writes the store.\<close>

datatype request =
    Call_Commit commit_batch
  | Call_Recover_Transaction id
  | Call_Events_After u64 usize
  | Call_Last_Events usize
  | Call_Stream_Events string u64 usize
  | Call_Get_Event id
  | Call_Stream_Version string
  | Call_Projection_Version string
  | Call_Projection_Get string blob
  | Call_Scan_Prefix string blob usize
  | Call_Scan_Prefix_Page string blob "blob option" usize
  | Call_Scan_Range string "blob option" "blob option" "blob option" usize
  | Call_Projections_List
  | Call_Entry_Count string
  | Call_Claim_Jobs claim_request
  | Call_Extend_Lease id id i64 i64
  | Call_Recover_Claim id i64
  | Call_Job id
  | Call_Jobs "string option" "job_state option" usize
  | Call_Jobs_Page "string option" "job_state option" u64 usize

datatype response =
    Commit_Result "commit_error + commit_receipt"
  | Recovered_Transaction "recovery_error + transaction_recovery"
  | Event_List "error + persisted_event list"
  | Event_Found "error + persisted_event option"
  | Version_Result "error + u64"
  | Value_Found "error + blob option"
  | Entry_List "error + projection_entry list"
  | Projection_List "error + (string \<times> u64) list"
  | Claim_Result "claim_error + claim_outcome"
  | Lease_Result "lease_error + lease_extension_receipt"
  | Recovered_Claim "recovery_error + claim_recovery"
  | Job_Found "error + job_info option"
  | Job_List "error + job_info list"
  | Job_Page "error + job_info list \<times> u64"

definition respond :: "('a \<Rightarrow> response) \<Rightarrow> 'a \<times> store \<Rightarrow> response \<times> store" where
  "respond f = (\<lambda>(r, st). (f r, st))"

fun perform :: "open_outcome \<Rightarrow> env \<Rightarrow> request \<Rightarrow> store \<Rightarrow> response \<times> store" where
  "perform opn e (Call_Commit batch) st = respond Commit_Result (store_commit opn e batch st)"
| "perform opn e (Call_Recover_Transaction i) st =
     respond Recovered_Transaction (store_recover_transaction opn e i st)"
| "perform opn e (Call_Events_After after limit) st =
     respond Event_List (with_reader opn e (tx_map_err Error_Storage (events_after after limit)) st)"
| "perform opn e (Call_Last_Events limit) st =
     respond Event_List (with_reader opn e (tx_map_err Error_Storage (last_events limit)) st)"
| "perform opn e (Call_Stream_Events s from_version limit) st =
     respond Event_List
       (with_reader opn e (tx_map_err Error_Storage (stream_events s from_version limit)) st)"
| "perform opn e (Call_Get_Event i) st =
     respond Event_Found (with_reader opn e (tx_map_err Error_Storage (get_event i)) st)"
| "perform opn e (Call_Stream_Version s) st =
     respond Version_Result (with_reader opn e (tx_map_err Error_Storage (stream_version s)) st)"
| "perform opn e (Call_Projection_Version p) st =
     respond Version_Result (with_reader opn e (projection_version p) st)"
| "perform opn e (Call_Projection_Get p key) st =
     respond Value_Found (with_reader opn e (projection_get p key) st)"
| "perform opn e (Call_Scan_Prefix p pre limit) st =
     respond Entry_List (with_reader opn e (projection_scan_prefix p pre limit) st)"
| "perform opn e (Call_Scan_Prefix_Page p pre after limit) st =
     respond Entry_List (with_reader opn e (projection_scan_prefix_page p pre after limit) st)"
| "perform opn e (Call_Scan_Range p start stop after limit) st =
     respond Entry_List (with_reader opn e (projection_scan_range p start stop after limit) st)"
| "perform opn e Call_Projections_List st =
     respond Projection_List (with_reader opn e projections_list st)"
| "perform opn e (Call_Entry_Count p) st =
     respond Version_Result (with_reader opn e (projection_entry_count p) st)"
| "perform opn e (Call_Claim_Jobs req) st = respond Claim_Result (store_claim_jobs opn e req st)"
| "perform opn e (Call_Extend_Lease i token expiry now_ms) st =
     respond Lease_Result (store_extend_lease opn e i token expiry now_ms st)"
| "perform opn e (Call_Recover_Claim i now_ms) st =
     respond Recovered_Claim (store_recover_claim opn e i now_ms st)"
| "perform opn e (Call_Job i) st = respond Job_Found (with_reader opn e (get_job i) st)"
| "perform opn e (Call_Jobs q s limit) st =
     respond Job_List (with_reader opn e (list_jobs q s limit) st)"
| "perform opn e (Call_Jobs_Page q s after limit) st =
     respond Job_Page (with_reader opn e (list_jobs_page q s after limit) st)"

text \<open>
  A step is a call with its response, or the process ending and the store being opened again:
  its connections are new, the file is what the last transaction left.
\<close>

datatype label = Call request response | Reopen

inductive store_step :: "store \<Rightarrow> label \<Rightarrow> store \<Rightarrow> bool" where
  call: "perform opn e q st = (r, st') \<Longrightarrow> store_step st (Call q r) st'"
| reopen: "conn = Read_Write (store_durability st) \<Longrightarrow> pool = read_pool_new (pool_max_idle (store_readers st)) \<Longrightarrow>
     store_step st Reopen (st\<lparr>store_writer := Some conn, store_readers := pool\<rparr>)"

inductive_simps store_step_Call: "store_step st (Call q r) st'"
inductive_simps store_step_Reopen: "store_step st Reopen st'"
inductive_cases store_stepE: "store_step st l st'"

text \<open>A store that was just created: an empty database.\<close>

definition new_store :: "limits \<Rightarrow> durability \<Rightarrow> usize \<Rightarrow> store" where
  "new_store l dur read_pool_size = \<lparr>store_db = empty_db, store_writer = Some (Read_Write dur),
     store_readers = read_pool_new read_pool_size, store_limits = l, store_durability = dur\<rparr>"

definition reachable :: "store \<Rightarrow> bool" where
  "reachable st \<longleftrightarrow> (\<exists>l dur n labels. runs store_step (new_store l dur n) labels st)"

end
