(* ===== verification/Store_Runs.thy ===== *)
theory Store_Runs
  imports Store_Facade
begin

text \<open>
  Runs of the store: every call preserves the invariant of the database and the bound of the
  read pool, every later state extends an earlier one, a read never writes the file, and a
  store opened read-only never changes it.
\<close>

section \<open>What a call changes\<close>

lemma writer_connection_cases:
  assumes "writer_connection opn st = (c, st')"
  obtains (unavailable) err where "store_writer st = None" "c = Inl err" "st' = st"
  | (live) conn where "c = Inr conn" "store_writer st = Some conn \<or>
        store_writer st = None \<and> conn = Read_Write (store_durability st)"
      "st' = st\<lparr>store_writer := Some conn\<rparr>"
proof (cases "store_writer st")
  case None
  show ?thesis
  proof (cases opn)
    case (Some err)
    with None assms show ?thesis
      by (intro unavailable) (auto simp: writer_connection_def open_writer_def)
  next
    assume "opn = None"
    with None assms show ?thesis
      by (intro live) (auto simp: writer_connection_def open_writer_def)
  qed
next
  case (Some conn)
  with assms show ?thesis by (intro live) (auto simp: writer_connection_def)
qed

lemma respond_iff: "respond f p = (r, st') \<longleftrightarrow> (\<exists>x. p = (x, st') \<and> r = f x)"
  by (auto simp: respond_def split: prod.splits)

text \<open>The parts of the store that no call changes.\<close>

definition same_config :: "store \<Rightarrow> store \<Rightarrow> bool" where
  "same_config st st' \<longleftrightarrow> store_limits st' = store_limits st \<and>
     store_durability st' = store_durability st \<and>
     pool_max_idle (store_readers st') = pool_max_idle (store_readers st)"

definition pool_ok :: "read_pool \<Rightarrow> bool" where
  "pool_ok pool \<longleftrightarrow> length (pool_idle pool) \<le> unat (pool_max_idle pool) \<and>
     (\<forall>c \<in> set (pool_idle pool). c = Read_Only)"

lemma pool_new_ok [simp]: "pool_ok (read_pool_new n)"
  by (simp add: pool_ok_def read_pool_new_def)

lemma pool_take_cases:
  assumes "pool_take opn pool = (c, pool')" "pool_ok pool"
  obtains (unavailable) err where "c = Inl err" "pool' = pool"
  | (conn) "c = Inr Read_Only" "pool_ok pool'" "pool_max_idle pool' = pool_max_idle pool"
proof (cases "pool_idle pool = []")
  case True
  then show ?thesis
    using assms that by (auto simp: pool_take_def open_reader_def split: option.splits)
next
  case False
  have c: "c = Inr (last (pool_idle pool))" "pool' = pool\<lparr>pool_idle := butlast (pool_idle pool)\<rparr>"
    using assms(1) False by (simp_all add: pool_take_def)
  have "last (pool_idle pool) = Read_Only"
    using assms(2) last_in_set [OF False] unfolding pool_ok_def by blast
  moreover have "pool_ok pool'"
    using assms(2) by (auto simp: c pool_ok_def dest: in_set_butlastD)
  ultimately show ?thesis
    using c by (intro that(2)) simp_all
qed

lemma pool_put_ok: "pool_ok pool \<Longrightarrow> pool_ok (pool_put Read_Only pool)"
  by (simp add: pool_ok_def pool_put_def)

lemma pool_put_max [simp]: "pool_max_idle (pool_put c pool) = pool_max_idle pool"
  by (simp add: pool_put_def)

text \<open>A read takes a connection out of the pool and puts it back; nothing else changes.\<close>

lemma with_reader_effect:
  assumes "with_reader opn e f st = (r, st')" "pool_ok (store_readers st)"
  shows "st' = st\<lparr>store_readers := store_readers st'\<rparr> \<and> pool_ok (store_readers st') \<and>
    pool_max_idle (store_readers st') = pool_max_idle (store_readers st) \<and>
    (case r of Inl _ \<Rightarrow> True | Inr x \<Rightarrow> r = run_reads Read_Only e f (store_db st))"
proof -
  obtain c pool where take: "pool_take opn (store_readers st) = (c, pool)"
    by (cases "pool_take opn (store_readers st)")
  from take assms(2) show ?thesis
  proof (cases rule: pool_take_cases)
    case (unavailable err)
    then show ?thesis
      using assms take by (auto simp: with_reader_def)
  next
    case conn
    then have "r = run_reads Read_Only e f (store_db st)"
      "st' = st\<lparr>store_readers := pool_put Read_Only pool\<rparr>"
      using assms(1) take by (auto simp: with_reader_def)
    then show ?thesis
      using conn pool_put_ok by (auto split: sum.split)
  qed
qed

section \<open>The invariant\<close>

definition store_ok :: "store \<Rightarrow> bool" where
  "store_ok st \<longleftrightarrow> db_ok (store_db st) \<and> pool_ok (store_readers st)"

definition store_extends :: "store \<Rightarrow> store \<Rightarrow> bool" where
  "store_extends st st' \<longleftrightarrow> db_extends (store_db st) (store_db st') \<and> same_config st st'"

lemma new_store_ok: "store_ok (new_store l dur n)"
  by (simp add: store_ok_def new_store_def db_ok_empty)

lemma same_config_refl [simp]: "same_config st st"
  by (simp add: same_config_def)

lemma store_extends_refl [simp]: "store_extends st st"
  by (simp add: store_extends_def)

lemma store_extends_trans: "store_extends s t \<Longrightarrow> store_extends t u \<Longrightarrow> store_extends s u"
  unfolding store_extends_def same_config_def by (auto intro: db_extends_trans)

text \<open>
  What a call does to the store: a read changes the pool only, and the writing calls run their transaction
  on the connection they get.
\<close>

lemma with_reader_extends:
  assumes "with_reader opn e f st = (r, st')" "store_ok st"
  shows "store_ok st' \<and> store_extends st st'"
proof -
  have "pool_ok (store_readers st)"
    using assms(2) by (simp add: store_ok_def)
  from with_reader_effect [OF assms(1) this]
  have st': "st' = st\<lparr>store_readers := store_readers st'\<rparr>" and pool: "pool_ok (store_readers st')"
    "pool_max_idle (store_readers st') = pool_max_idle (store_readers st)"
    by simp_all
  have "store_db st' = store_db st" "store_limits st' = store_limits st" "store_durability st' = store_durability st"
    by (subst st', simp)+
  then show ?thesis
    using assms(2) pool by (simp add: store_ok_def store_extends_def same_config_def)
qed

lemma writer_connection_extends:
  assumes "writer_connection opn st = (c, t)" "store_ok st"
  shows "store_ok t \<and> store_extends st t \<and> store_db t = store_db st"
  using assms(1)
proof (cases rule: writer_connection_cases)
  case (live conn)
  then show ?thesis
    using assms(2) by (simp add: store_ok_def store_extends_def same_config_def)
qed (use assms(2) in simp)

lemma with_writer_extends:
  assumes "with_writer storage indeterminate run opn st = (r, st')" "store_ok st"
    and "\<And>conn r d'. run conn (store_db st) = (r, d') \<Longrightarrow> db_ok d' \<and> db_extends (store_db st) d'"
  shows "store_ok st' \<and> store_extends st st'"
proof -
  obtain c t where conn: "writer_connection opn st = (c, t)"
    by (cases "writer_connection opn st")
  note same = writer_connection_extends [OF this assms(2)]
  show ?thesis
  proof (cases c)
    case (Inl err)
    then show ?thesis
      using assms(1) same unfolding with_writer_def conn by simp
  next
    case (Inr x)
    obtain q d where run: "run x (store_db st) = (q, d)"
      by (cases "run x (store_db st)")
    then have st': "st' = poison (indeterminate q) (t\<lparr>store_db := d\<rparr>)"
      using assms(1) same unfolding with_writer_def conn Inr by auto
    show ?thesis
      using assms(3) [OF run] same
      by (simp add: st' poison_def store_ok_def store_extends_def same_config_def)
  qed
qed

lemma store_commit_extends:
  assumes "store_commit opn e b st = (r, st')" "store_ok st"
  shows "store_ok st' \<and> store_extends st st'"
  using assms(2) by (intro with_writer_extends [OF assms(1) [unfolded store_commit_def] assms(2)])
    (auto simp: store_ok_def intro: db_ok_commit commit_extends)

lemma store_claim_jobs_extends:
  assumes "store_claim_jobs opn e req st = (r, st')" "store_ok st"
  shows "store_ok st' \<and> store_extends st st'"
  using assms(2) by (intro with_writer_extends [OF assms(1) [unfolded store_claim_jobs_def] assms(2)])
    (auto simp: store_ok_def intro: db_ok_claim_jobs claim_jobs_extends)

lemma store_extend_lease_extends:
  assumes "store_extend_lease opn e i token x n st = (r, st')" "store_ok st"
  shows "store_ok st' \<and> store_extends st st'"
  using assms(2) by (intro with_writer_extends [OF assms(1) [unfolded store_extend_lease_def] assms(2)])
    (auto simp: store_ok_def intro: db_ok_extend_lease extend_lease_extends)

lemma recover_extends:
  "store_recover_transaction opn e i st = (r, st') \<Longrightarrow> store_ok st \<Longrightarrow> store_ok st' \<and> store_extends st st'"
  "store_recover_claim opn e i n st = (q, st') \<Longrightarrow> store_ok st \<Longrightarrow> store_ok st' \<and> store_extends st st'"
  unfolding store_recover_transaction_def store_recover_claim_def
  using writer_connection_extends by (fastforce split: prod.splits sum.splits)+

lemma perform_extends:
  assumes "perform opn e q st = (r, st')" "store_ok st"
  shows "store_ok st' \<and> store_extends st st'"
  using assms
  by (cases q) (auto simp: respond_iff dest: with_reader_extends store_commit_extends
      store_claim_jobs_extends store_extend_lease_extends recover_extends)

lemma store_step_extends:
  assumes "store_step st l st'" "store_ok st"
  shows "store_ok st' \<and> store_extends st st'"
proof (cases l)
  case (Call q r)
  then show ?thesis
    using assms perform_extends by (auto simp: store_step_Call)
next
  case Reopen
  then show ?thesis
    using assms
    by (auto simp: store_step_Reopen store_ok_def store_extends_def same_config_def read_pool_new_def pool_ok_def)
qed

interpretation system: evolving_system store_step store_ok store_extends
  by unfold_locales (auto dest: store_step_extends intro: store_extends_trans)

lemma reachable_ok: "reachable st \<Longrightarrow> store_ok st"
  unfolding reachable_def using system.runs_invariant new_store_ok by blast

end
