(* ===== verification/Store_Recovery.thy ===== *)
theory Store_Recovery
  imports Store_Runs
begin

text \<open>
  What a later call says about an earlier one: resubmitting a committed batch gives its
  receipt and changes nothing, recovering a transaction tells whether it is durable, and a
  read-only store never writes.
\<close>

section \<open>Reads of the transaction log\<close>

lemma find_transaction:
  assumes "transactions_ok d" "t \<in> set (transactions d)" "tx_transaction_id t = i"
  shows "List.find (\<lambda>r. tx_transaction_id r = i) (transactions d) = Some t"
  using assms by (intro find_Some_iff_distinct [THEN iffD2]) (auto simp: transactions_ok_def)

text \<open>A single read returns its value or the driver's error.\<close>

lemma one_read_cases: "one_read x s = Inr (x, s\<lparr>tx_calls := Suc (tx_calls s)\<rparr>) \<or> (\<exists>e. one_read x s = Inl e)"
  by (auto simp: one_read_def query_def sql_def split: option.split)

lemma run_reads_one_read:
  assumes "\<And>s. tx_db s = d \<Longrightarrow> m s = one_read x s"
  shows "run_reads c e m d = Inr x \<or> (\<exists>err. run_reads c e m d = Inl err)"
proof -
  have m: "m (tx_start (on_connection c e) d) = one_read x (tx_start (on_connection c e) d)"
    by (rule assms) (simp add: tx_start_def)
  show ?thesis
    using one_read_cases [of x "tx_start (on_connection c e) d"] by (auto simp: run_reads_def m)
qed

lemma recover_transaction_one_read:
  "recover_transaction i s = one_read (case List.find (\<lambda>r. tx_transaction_id r = as_bytes i) (transactions (tx_db s)) of
      Some r \<Rightarrow> TransactionRecovery_Committed (receipt_of_row r) | None \<Rightarrow> TransactionRecovery_Absent) s"
proof (cases "List.find (\<lambda>r. tx_transaction_id r = as_bytes i) (transactions (tx_db s))")
  case None
  then show ?thesis
    by (simp add: recover_transaction_def query_return_one_read)
next
  case (Some r)
  then have "tx_transaction_id r = as_bytes i"
    by (auto simp: find_Some_iff)
  then have "from_bytes (tx_transaction_id r) = i"
    by simp
  with Some show ?thesis
    by (simp only: recover_transaction_def query_return_one_read receipt_of_row_def option.case)
qed

lemma lookup_transaction_one_read:
  "lookup_transaction i s = one_read (map_option
      (\<lambda>r. (i64_as_u64 (tx_transaction_sequence r), tx_committed_at_ms r, tx_request_digest r))
      (List.find (\<lambda>r. tx_transaction_id r = as_bytes i) (transactions (tx_db s)))) s"
  by (simp add: lookup_transaction_def query_return_one_read)

section \<open>Resubmission\<close>

lemma commit_present:
  assumes "commit e l b d = (r, d')" "transactions_ok d" "t \<in> set (transactions d)"
    "tx_transaction_id t = as_bytes (batch_transaction_id b)" "validate_batch l b = Inr ()"
  shows "d' = d" "(\<exists>s. r = Inl (CommitError_Storage s)) \<or>
    r = (if tx_request_digest t = request_digest b then Inr (receipt_of_row t)
         else Inl DuplicateIdWithDifferentContent)"
proof -
  let ?s = "tx_start e d" and ?row = "(i64_as_u64 (tx_transaction_sequence t), tx_committed_at_ms t, tx_request_digest t)"
  have "lookup_transaction (batch_transaction_id b) ?s = one_read (Some ?row) ?s"
    using find_transaction [OF assms(2-4)] by (simp add: lookup_transaction_one_read tx_start_def)
  with one_read_cases [of "Some ?row" ?s]
  have "lookup_transaction (batch_transaction_id b) ?s = Inr (Some ?row, ?s\<lparr>tx_calls := Suc (tx_calls ?s)\<rparr>) \<or>
      (\<exists>err. lookup_transaction (batch_transaction_id b) ?s = Inl err)"
    by simp
  moreover have "receipt_of_row t = \<lparr>receipt_transaction_id = batch_transaction_id b,
      receipt_transaction_sequence = i64_as_u64 (tx_transaction_sequence t),
      receipt_committed_at_ms = tx_committed_at_ms t\<rparr>"
    by (simp add: receipt_of_row_def assms(4))
  ultimately have "(\<exists>err. commit_body b ?s = Inl (CommitError_Storage err)) \<or>
      (if tx_request_digest t = request_digest b
       then \<exists>s. commit_body b ?s = Inr (Roll_Back (receipt_of_row t), s)
       else commit_body b ?s = Inl DuplicateIdWithDifferentContent)"
    by (auto simp: commit_body_def Let_def tx_bind_def tx_map_err_def tx_return_def tx_lift_def)
  then show "d' = d" "(\<exists>s. r = Inl (CommitError_Storage s)) \<or>
    r = (if tx_request_digest t = request_digest b then Inr (receipt_of_row t)
         else Inl DuplicateIdWithDifferentContent)"
    using assms(1, 5) by (auto simp: commit_def run_tx_def Let_def split: option.splits if_splits prod.splits)
qed

section \<open>Calls of the writer\<close>

lemma with_writer_cases:
  assumes "with_writer storage indeterminate run opn st = (r, st')"
  obtains (unavailable) err where "store_writer st = None" "r = Inl (storage err)" "st' = st"
  | (ran) conn d where "run conn (store_db st) = (r, d)"
      "store_writer st = Some conn \<or> store_writer st = None \<and> conn = Read_Write (store_durability st)"
      "st' = st\<lparr>store_writer := if indeterminate r then None else Some conn, store_db := d\<rparr>"
proof -
  obtain c t where conn: "writer_connection opn st = (c, t)"
    by (cases "writer_connection opn st")
  then show thesis
  proof (cases rule: writer_connection_cases)
    case (unavailable err)
    then show ?thesis
      using assms by (intro that(1) [of err]) (auto simp: with_writer_def conn)
  next
    case (live x)
    obtain q d where run: "run x (store_db st) = (q, d)"
      by (cases "run x (store_db st)")
    have "with_writer storage indeterminate run opn st = (q, poison (indeterminate q) (t\<lparr>store_db := d\<rparr>))"
      using run by (simp add: with_writer_def conn live)
    then have "r = q" "st' = st\<lparr>store_writer := if indeterminate q then None else Some x, store_db := d\<rparr>"
      using assms live(3) by (simp_all add: poison_def split: if_splits)
    with run live show ?thesis by (intro that(2)) simp_all
  qed
qed

lemma store_commit_success:
  assumes "store_commit opn e b st = (Inr receipt, st')" "store_ok st"
  obtains t where "validate_batch (store_limits st) b = Inr ()" "t \<in> set (transactions (store_db st'))"
    "tx_transaction_id t = as_bytes (batch_transaction_id b)" "tx_request_digest t = request_digest b"
    "receipt = receipt_of_row t"
  using assms(1) unfolding store_commit_def
proof (cases rule: with_writer_cases)
  case (ran conn d)
  have valid: "validate_batch (store_limits st) b = Inr ()"
    using ran(1) by (cases "validate_batch (store_limits st) b") (auto simp: commit_def)
  have "db_ok (store_db st)"
    using assms(2) by (simp add: store_ok_def)
  with ran(1) show ?thesis
  proof (cases rule: commit_cases)
    case (resubmitted t)
    with ran valid show ?thesis by (intro that [of t]) simp_all
  next
    case (committed seq)
    with ran valid show ?thesis
      by (intro that [of "transaction_row b seq"]) (simp_all add: batch_committed_def transaction_row_def)
  qed simp_all
qed simp

lemma resubmitted:
  assumes "store_ok st" "t \<in> set (transactions (store_db st))" "validate_batch (store_limits st) b = Inr ()"
    "tx_transaction_id t = as_bytes (batch_transaction_id b)" "store_commit opn e b st = (r, st')"
  shows "store_db st' = store_db st" "(\<exists>s. r = Inl (CommitError_Storage s)) \<or>
    r = (if tx_request_digest t = request_digest b then Inr (receipt_of_row t)
         else Inl DuplicateIdWithDifferentContent)"
proof -
  have ok: "transactions_ok (store_db st)"
    using assms(1) by (simp add: store_ok_def db_ok_def)
  have "store_db st' = store_db st \<and> ((\<exists>s. r = Inl (CommitError_Storage s)) \<or>
    r = (if tx_request_digest t = request_digest b then Inr (receipt_of_row t)
         else Inl DuplicateIdWithDifferentContent))"
    using assms(5) unfolding store_commit_def
  proof (cases rule: with_writer_cases)
    case (ran conn d)
    from commit_present [OF ran(1) ok assms(2) assms(4) assms(3)] ran(3) show ?thesis by simp
  qed simp
  then show "store_db st' = store_db st" "(\<exists>s. r = Inl (CommitError_Storage s)) \<or>
    r = (if tx_request_digest t = request_digest b then Inr (receipt_of_row t)
         else Inl DuplicateIdWithDifferentContent)" by blast+
qed

text \<open>The log of an earlier state is part of the log of a later one.\<close>

lemma runs_later:
  assumes "runs store_step st labels st'" "store_ok st"
  shows "store_ok st'" "set (transactions (store_db st)) \<subseteq> set (transactions (store_db st'))"
    "store_limits st' = store_limits st"
  using system.runs_invariant [OF assms] system.runs_related [OF assms]
  by (auto simp: store_extends_def db_extends_def same_config_def dest: set_mono_prefix)

section \<open>Read-only stores\<close>

lemma read_only_on_connection [simp]: "env_read_only (on_connection Read_Only e)"
  by (simp add: on_connection_def)

lemma batch_committed_changes: "batch_committed b seq d d' \<Longrightarrow> d' \<noteq> d"
  by (auto simp: batch_committed_def)

lemma claim_committed_changes: "claim_committed req ex t ls d d' \<Longrightarrow> d' \<noteq> d"
  by (auto simp: claim_committed_def)

lemma lease_extended_changes: "lease_extended j token expiry n d receipt d' \<Longrightarrow> d' \<noteq> d"
proof
  assume "lease_extended j token expiry n d receipt d'" and same: "d' = d"
  then obtain r old where r: "r \<in> set (jobs d)" "jobs_lease_expires_at_ms r = Some old" "old < expiry"
    and d': "d' = extend_job r token expiry d"
    by (auto simp: lease_extended_def)
  have "map (\<lambda>x. if jobs_job_id x = jobs_job_id r then x\<lparr>jobs_lease_expires_at_ms := Some expiry\<rparr> else x)
      (jobs d) = map (\<lambda>x. x) (jobs d)"
    using arg_cong [OF same [unfolded d'], of jobs] by (simp add: extend_job_def set_job_def sql_update_def)
  then have "r\<lparr>jobs_lease_expires_at_ms := Some expiry\<rparr> = r"
    using r(1) unfolding map_eq_conv by auto
  from arg_cong [OF this, of jobs_lease_expires_at_ms] r(2, 3) show False
    by simp
qed

lemma fails_withD: "fails_with P m \<Longrightarrow> m s = Inl e \<Longrightarrow> P e"
  by (simp add: fails_with_def)

lemma indeterminate_errors [simp]:
  "is_commit_indeterminate (Inl c) \<longleftrightarrow> \<not> commit_determinate c"
  "is_claim_indeterminate (Inl x) \<longleftrightarrow> \<not> claim_determinate x"
  "is_lease_indeterminate (Inl y) \<longleftrightarrow> \<not> lease_determinate y"
  by ((cases c; simp), (cases x; simp), (cases y; simp))

lemma run_tx_read_only:
  assumes "reads_only body" "env_read_only e" "run_tx e storage indet body d = (r, d')"
    and "\<And>x b. tx_yields body d (To_Commit x) b \<Longrightarrow> b \<noteq> d"
  shows "(\<exists>err. r = Inl (storage err)) \<or> (\<exists>err. body (tx_start e d) = Inl err \<and> r = Inl err) \<or>
    (\<exists>x. r = Inr (Roll_Back x))"
proof -
  have start: "tx_db (tx_start e d) = d" "env_read_only (tx_env (tx_start e d))"
    using assms(2) by (simp_all add: tx_start_def)
  have "False" if "body (tx_start e d) = Inr (To_Commit x, s)" for x s
  proof -
    have "tx_yields body d (To_Commit x) (tx_db s)"
      using that start unfolding tx_yields_def by blast
    moreover have "tx_db s = d"
      using assms(1) start that unfolding reads_only_def by metis
    ultimately show False
      using assms(4) by blast
  qed
  then show ?thesis
    using assms(3) by (auto simp: run_tx_def split: option.splits sum.splits tx_end.splits)
qed

lemma commit_read_only_determinate:
  assumes "commit e l b d = (r, d')" "env_read_only e" "db_ok d"
  shows "\<not> is_commit_indeterminate r"
proof (cases "validate_batch l b")
  case (Inl v)
  with assms(1) show ?thesis by (auto simp: commit_def)
next
  case (Inr u)
  obtain q where run: "run_tx e CommitError_Storage (commit_indeterminate b) (commit_body b) d = (q, d')"
    and r: "r = err_bind q (\<lambda>x. Inr (committed_value x))"
    using assms(1) Inr by (auto simp: commit_def split: prod.splits)
  have never: "b' \<noteq> d" if "tx_yields (commit_body b) d (To_Commit x) b'" for x b'
    using commit_body_committed [OF that assms(3)] batch_committed_changes by blast
  have "(\<exists>err. q = Inl (CommitError_Storage err)) \<or> (\<exists>err. commit_body b (tx_start e d) = Inl err \<and> q = Inl err) \<or>
      (\<exists>x. q = Inr (Roll_Back x))"
    by (rule run_tx_read_only [OF reads_only_commit_body assms(2) run never])
  then show ?thesis
    by (elim disjE exE conjE) (simp_all add: r fails_withD [OF commit_body_determinate])
qed

lemma claim_read_only_determinate:
  assumes "claim_jobs e req d = (r, d')" "env_read_only e" "db_ok d"
  shows "\<not> is_claim_indeterminate r"
proof (cases "validate_claim req")
  case (Inl v)
  with assms(1) show ?thesis by (auto simp: claim_jobs_def)
next
  case (Inr ex)
  obtain q where run: "run_tx e ClaimError_Storage claim_indeterminate (claim_body req ex) d = (q, d')"
    and r: "r = err_bind q (\<lambda>x. Inr (claim_outcome_of x))"
    using assms(1) Inr by (auto simp: claim_jobs_def split: prod.splits)
  have never: "b' \<noteq> d" if "tx_yields (claim_body req ex) d (To_Commit x) b'" for x b'
    using claim_body_committed [OF that assms(3)] claim_committed_changes by blast
  have "(\<exists>err. q = Inl (ClaimError_Storage err)) \<or> (\<exists>err. claim_body req ex (tx_start e d) = Inl err \<and> q = Inl err) \<or>
      (\<exists>x. q = Inr (Roll_Back x))"
    by (rule run_tx_read_only [OF reads_only_claim_body assms(2) run never])
  then show ?thesis
    by (elim disjE exE conjE) (simp_all add: r fails_withD [OF claim_body_determinate])
qed

lemma extend_lease_read_only_determinate:
  assumes "extend_lease e j token expiry now_ms d = (r, d')" "env_read_only e" "db_ok d"
  shows "\<not> is_lease_indeterminate r"
proof -
  let ?apply = "apply_extend_lease \<lparr>extend_job_id = j, extend_lease_token = token,
    extend_new_expiry_ms = expiry\<rparr> now_ms"
  let ?body = "tx_bind ?apply (\<lambda>receipt. tx_return
    (To_Commit receipt :: (lease_extension_receipt, lease_extension_receipt) tx_end))"
  obtain q where run: "run_tx e LeaseError_Storage lease_indeterminate ?body d = (q, d')"
    and r: "r = err_bind q (\<lambda>x. Inr (committed_value x))"
    using assms(1) by (auto simp: extend_lease_def split: prod.splits)
  have body: "reads_only ?body" "fails_with lease_determinate ?body"
    by (intro read_only failure apply_extend_lease_determinate)+
  have never: "b' \<noteq> d" if "tx_yields ?body d (To_Commit x) b'" for x b'
  proof -
    have "tx_yields ?apply d x b'"
      using yields_bind [OF that] by (auto dest!: yields_return)
    then show ?thesis
      using extend_body_committed [OF _ assms(3)] lease_extended_changes by blast
  qed
  have "(\<exists>err. q = Inl (LeaseError_Storage err)) \<or> (\<exists>err. ?body (tx_start e d) = Inl err \<and> q = Inl err) \<or>
      (\<exists>x. q = Inr (Roll_Back x))"
    by (rule run_tx_read_only [OF body(1) assms(2) run never])
  then show ?thesis
    by (elim disjE exE conjE) (simp_all add: r fails_withD [OF body(2)])
qed

lemma with_writer_read_only:
  assumes "with_writer storage indeterminate run opn st = (r, st')" "store_writer st = Some Read_Only"
    and "\<And>r d. run Read_Only (store_db st) = (r, d) \<Longrightarrow> d = store_db st \<and> \<not> indeterminate r"
  shows "store_db st' = store_db st \<and> store_writer st' = Some Read_Only"
  using assms(1) by (cases rule: with_writer_cases) (use assms(2, 3) in auto)

lemma with_reader_same:
  assumes "with_reader opn e f st = (x, st')" "store_ok st"
  shows "store_db st' = store_db st \<and> store_writer st' = store_writer st"
proof -
  have "st' = st\<lparr>store_readers := store_readers st'\<rparr>"
    using with_reader_effect [OF assms(1)] assms(2) by (simp add: store_ok_def)
  then have "store_db st' = store_db (st\<lparr>store_readers := store_readers st'\<rparr>)"
    "store_writer st' = store_writer (st\<lparr>store_readers := store_readers st'\<rparr>)" by simp_all
  then show ?thesis by simp
qed

lemma read_only_writes:
  assumes "store_ok st" "store_writer st = Some Read_Only"
  shows "store_commit opn e b st = (r1, st') \<Longrightarrow> store_db st' = store_db st \<and> store_writer st' = Some Read_Only"
    and "store_claim_jobs opn e req st = (r2, st') \<Longrightarrow> store_db st' = store_db st \<and> store_writer st' = Some Read_Only"
    and "store_extend_lease opn e i t x n st = (r3, st') \<Longrightarrow> store_db st' = store_db st \<and> store_writer st' = Some Read_Only"
proof -
  have ok: "db_ok (store_db st)"
    using assms(1) by (simp add: store_ok_def)
  show "store_commit opn e b st = (r1, st') \<Longrightarrow> store_db st' = store_db st \<and> store_writer st' = Some Read_Only"
    unfolding store_commit_def
    by (erule with_writer_read_only [OF _ assms(2)], intro conjI)
      (use commit_read_only_determinate [OF _ read_only_on_connection ok] commit_read_only [OF read_only_on_connection] in \<open>auto dest!: arg_cong [where f = snd]\<close>)
  show "store_claim_jobs opn e req st = (r2, st') \<Longrightarrow> store_db st' = store_db st \<and> store_writer st' = Some Read_Only"
    unfolding store_claim_jobs_def
    by (erule with_writer_read_only [OF _ assms(2)], intro conjI)
      (use claim_read_only_determinate [OF _ read_only_on_connection ok] claim_jobs_read_only [OF read_only_on_connection] in \<open>auto dest!: arg_cong [where f = snd]\<close>)
  show "store_extend_lease opn e i t x n st = (r3, st') \<Longrightarrow> store_db st' = store_db st \<and> store_writer st' = Some Read_Only"
    unfolding store_extend_lease_def
    by (erule with_writer_read_only [OF _ assms(2)], intro conjI)
      (use extend_lease_read_only_determinate [OF _ read_only_on_connection ok] extend_lease_read_only [OF read_only_on_connection] in \<open>auto dest!: arg_cong [where f = snd]\<close>)
qed

lemma read_only_recovers:
  assumes "store_writer st = Some Read_Only"
  shows "store_recover_transaction opn e i st = (r1, st') \<Longrightarrow> st' = st"
    and "store_recover_claim opn e i n st = (r2, st') \<Longrightarrow> st' = st"
  using assms
  by (auto simp: store_recover_transaction_def store_recover_claim_def writer_connection_def)

lemma read_only_step:
  assumes "store_step st (Call q r) st'" "store_ok st" "store_writer st = Some Read_Only"
  shows "store_db st' = store_db st \<and> store_writer st' = Some Read_Only"
proof -
  obtain opn e where "perform opn e q st = (r, st')"
    using assms(1) by (auto simp: store_step_Call)
  then show ?thesis
    using assms(2, 3)
    by (cases q) (auto simp: respond_iff dest: with_reader_same read_only_writes read_only_recovers)
qed

section \<open>Recovering a commit\<close>

lemma indeterminate_commit_cases:
  assumes "store_commit opn e b st = (Inl (CommitError_Indeterminate i), st')" "store_ok st"
  shows "ic_transaction_id i = batch_transaction_id b \<and> db_ok (store_db st') \<and>
    \<not> transaction_exists (as_bytes (batch_transaction_id b)) (store_db st) \<and>
    (store_db st' = store_db st \<or> (\<exists>seq. batch_committed b seq (store_db st) (store_db st')))"
  using assms(1) unfolding store_commit_def
proof (cases rule: with_writer_cases)
  case (ran conn d)
  have "db_ok (store_db st)"
    using assms(2) by (simp add: store_ok_def)
  with ran(1) show ?thesis
  proof (cases rule: commit_cases)
    case (indeterminate c seq b')
    then show ?thesis
      using ran(3) \<open>db_ok (store_db st)\<close> by (auto simp: batch_committed_def)
  qed simp_all
qed simp

lemma recover_transaction_cases:
  assumes "store_recover_transaction opn e i st = (Inr res, st')"
  shows "store_db st' = store_db st \<and>
    res = (case List.find (\<lambda>r. tx_transaction_id r = as_bytes i) (transactions (store_db st)) of
      Some r \<Rightarrow> TransactionRecovery_Committed (receipt_of_row r) | None \<Rightarrow> TransactionRecovery_Absent)"
proof -
  obtain c t where conn: "writer_connection opn st = (c, t)"
    by (cases "writer_connection opn st")
  then show ?thesis
  proof (cases rule: writer_connection_cases)
    case (unavailable err)
    with assms conn show ?thesis by (simp add: store_recover_transaction_def)
  next
    case (live x)
    then have "map_err RecoveryError_Storage (run_reads x e (recover_transaction i) (store_db st)) = Inr res" "st' = t"
      using assms conn by (simp_all add: store_recover_transaction_def)
    moreover have "recover_transaction i s = one_read (case List.find (\<lambda>r. tx_transaction_id r = as_bytes i)
        (transactions (store_db st)) of Some r \<Rightarrow> TransactionRecovery_Committed (receipt_of_row r)
        | None \<Rightarrow> TransactionRecovery_Absent) s" if "tx_db s = store_db st" for s
      using recover_transaction_one_read [of i s] that by simp
    ultimately show ?thesis
      using run_reads_one_read [of "store_db st" "recover_transaction i" _ x e] live by fastforce
  qed
qed

lemma find_transaction_None: "\<not> transaction_exists i d \<Longrightarrow> List.find (\<lambda>r. tx_transaction_id r = i) (transactions d) = None"
  by (auto simp: find_None_key transaction_exists_def)

lemma find_batch_committed:
  assumes "batch_committed b seq d d'" "db_ok d'"
  shows "List.find (\<lambda>r. tx_transaction_id r = as_bytes (batch_transaction_id b)) (transactions d') =
    Some (transaction_row b seq)"
  using assms by (intro find_transaction) (auto simp: db_ok_def batch_committed_def transaction_row_def)

lemma recovery_after_indeterminate:
  assumes call: "store_commit opn e b st = (Inl (CommitError_Indeterminate i), st1)"
    and recover: "store_recover_transaction opn' e' (ic_transaction_id i) st1 = (Inr res, st2)"
    and "store_ok st"
  shows "case res of
      TransactionRecovery_Committed receipt \<Rightarrow> \<exists>seq. batch_committed b seq (store_db st) (store_db st2) \<and>
        receipt = receipt_of_row (transaction_row b seq)
    | TransactionRecovery_Absent \<Rightarrow> store_db st2 = store_db st"
proof -
  note after = indeterminate_commit_cases [OF call \<open>store_ok st\<close>]
  consider "store_db st1 = store_db st" | seq where "batch_committed b seq (store_db st) (store_db st1)"
    using after by blast
  then show ?thesis
  proof cases
    case 1
    then have "res = TransactionRecovery_Absent"
      using after recover_transaction_cases [OF recover] by (simp add: find_transaction_None)
    with 1 show ?thesis using recover_transaction_cases [OF recover] by simp
  next
    case 2
    then have "res = TransactionRecovery_Committed (receipt_of_row (transaction_row b seq))"
      using after recover_transaction_cases [OF recover] by (simp add: find_batch_committed)
    with 2 show ?thesis using recover_transaction_cases [OF recover] by auto
  qed
qed

section \<open>Digests\<close>

lemma length_absorb_blocks: "length st = 8 \<Longrightarrow> length (absorb_blocks st m) = 8"
proof (induction st m rule: absorb_blocks.induct)
  case (1 st m)
  have "length (compress_state st (take 64 m)) = 8"
    using "1.prems" by (simp add: compress_state_def split: prod.split)
  with 1 show ?case by (simp add: absorb_blocks.simps [of st m])
qed

lemma length_request_digest: "length (request_digest b) = 32"
proof -
  have "length (concat (map (be_bytes 4) ws)) = 4 * length ws" for ws :: "u32 list"
    by (induction ws) simp_all
  moreover have "length (absorb_blocks sha_H0 m) = 8" for m
    by (rule length_absorb_blocks) (simp add: sha_H0_def)
  ultimately show ?thesis
    by (simp add: request_digest_eq sha256_ref_def)
qed

section \<open>Jobs of the invariant\<close>

lemma later_is_pending:
  assumes "jobs_ok d" "r \<in> set (jobs d)" "s \<in> set (jobs d)"
    and "jobs_queue r = jobs_queue s" "jobs_partition_key r = jobs_partition_key s"
    and "\<not> is_terminal (state_of r)" "\<not> is_terminal (state_of s)"
    and "jobs_enqueue_sequence r < jobs_enqueue_sequence s"
  shows "state_of s = Pending"
proof -
  let ?rows = "partition_jobs (jobs d) (jobs_queue s) (jobs_partition_key s)"
  have rows: "rows_ok d" and heads: "heads_ok (jobs d)"
    using assms(1) by (simp_all add: jobs_ok_def)
  have "r \<in> set ?rows" "s \<in> set ?rows"
    using rows assms jobs_active_iff by (auto simp: partition_jobs_def is_active_in_def rows_ok_def)
  moreover have "sorted (map jobs_enqueue_sequence ?rows)"
    using rows unfolding partition_jobs_def
    by (intro sorted_filter numbered_sorted) (simp add: rows_ok_def)
  ultimately have "s \<in> set (tl ?rows)"
    using assms(8) by (cases ?rows) (auto simp: not_le [symmetric])
  then have "jobs_state s = job_state_encode Pending"
    using heads by (auto simp: heads_ok_def)
  then have "job_state_encode (state_of s) = job_state_encode Pending"
    using jobs_state_encode [of s] rows assms(3) by (auto simp: rows_ok_def)
  then show ?thesis by (rule state_code.encode_inject [THEN iffD1])
qed

lemma job_row_bounds:
  assumes "job_row_ok r"
  shows "0 \<le> i64_int (jobs_attempt r) \<and> i64_int (jobs_attempt r) \<le> i64_int (jobs_max_attempts r) \<and>
    i64_int (jobs_max_attempts r) < 2 ^ 32 \<and>
    (state_of r = Pending \<or> state_of r = RetryWait \<longrightarrow> jobs_attempt r < jobs_max_attempts r)"
proof -
  obtain m a where "jobs_max_attempts r = i64_from_u32 m" "jobs_attempt r = i64_from_u32 a"
    using assms by (auto simp: job_row_ok_def u32_try_from_iff)
  moreover have "uint m < 2 ^ 32"
    using unsigned_less [of m, where 'a = int] by simp
  ultimately show ?thesis
    using assms by (auto simp: job_row_ok_def less_eq_i64_def)
qed

end
