(* ===== verification/Job_Results.thy ===== *)
theory Job_Results
  imports Job_Evolution Job_Specs
begin

text \<open>
  The exact results of the job operations of a commit where no driver call fails: which job is
  looked up, the error of every check in the order of the checks, and the database on
  success. \<open>healthy\<close> says that the environment injects no fault and the connection can write.
\<close>

section \<open>Computations without faults\<close>

definition healthy :: "tx_state \<Rightarrow> bool" where
  "healthy s \<longleftrightarrow> \<not> env_read_only (tx_env s) \<and> (\<forall>n. env_fault (tx_env s) n = None)"

text \<open>The state after \<open>n\<close> driver calls that left the database \<open>d\<close>.\<close>

definition called :: "nat \<Rightarrow> db \<Rightarrow> tx_state \<Rightarrow> tx_state" where
  "called n d s = s\<lparr>tx_db := d, tx_calls := tx_calls s + n\<rparr>"

lemma called_simps [simp]:
  "tx_db (called n d s) = d" "tx_env (called n d s) = tx_env s" "tx_draws (called n d s) = tx_draws s"
  "healthy (called n d s) = healthy s" "called m e (called n d s) = called (n + m) e s"
  by (simp_all add: called_def healthy_def add.assoc)

lemma healthy_query:
  "healthy s \<Longrightarrow> query q s = map_err from_sqlite (err_bind (q (tx_db s)) (\<lambda>x. Inr (x, called 1 (tx_db s) s)))"
  by (cases "q (tx_db s)") (simp_all add: healthy_def query_def sql_def called_def)

lemma healthy_execute:
  "healthy s \<Longrightarrow> execute w s = map_err from_sqlite (err_bind (w (tx_db s)) (\<lambda>d. Inr ((), called 1 d s)))"
  by (cases "w (tx_db s)") (simp_all add: healthy_def execute_def sql_def called_def)

lemma lift_simps:
  "tx_lift (Inr x) s = Inr (x, s)" "tx_lift (Inl e) s = Inl e"
  "tx_return x s = Inr (x, s)"
  by (simp_all add: tx_lift_def tx_return_def)

lemma bind_cases:
  "m s = Inr (x, s') \<Longrightarrow> tx_bind m f s = f x s'"
  "m s = Inl e \<Longrightarrow> tx_bind m f s = Inl e"
  by (simp_all add: tx_bind_def)

lemma map_err_cases:
  "m s = Inr (x, s') \<Longrightarrow> tx_map_err g m s = Inr (x, s')"
  "m s = Inl e \<Longrightarrow> tx_map_err g m s = Inl (g e)"
  by (simp_all add: tx_map_err_def)

section \<open>Looking a job up\<close>

lemma find_job_ok: "find_job i d = Some r \<Longrightarrow> rows_ok d \<Longrightarrow> job_row_ok r"
  by (auto simp: rows_ok_def dest: find_job_Some)

lemma load_job_result:
  assumes "healthy s" "rows_ok (tx_db s)"
  shows "load_job i s = Inr (map_option decoded_job (find_job i (tx_db s)), called 1 (tx_db s) s)"
proof (cases "find_job i (tx_db s)")
  case None
  then show ?thesis
    using assms(1) by (simp add: load_job_def find_job_def tx_bind_def healthy_query lift_simps)
next
  case (Some r)
  then have "row_to_job r = Inr (decoded_job r)"
    using assms(2) by (intro row_to_job_ok find_job_ok)
  with Some assms(1) show ?thesis
    by (simp add: load_job_def find_job_def tx_bind_def healthy_query lift_simps)
qed

lemma require_job_result:
  assumes "healthy s" "rows_ok (tx_db s)"
  shows "require_job i s = (case find_job i (tx_db s) of
      None \<Rightarrow> Inl (Error_Validation (JobDoesNotExist i))
    | Some r \<Rightarrow> Inr (decoded_job r, called 1 (tx_db s) s))"
  using load_job_result [OF assms, of i]
  by (simp add: require_job_def tx_bind_def tx_map_err_def lift_simps split: option.split)

lemma row_job_id_found: "find_job i d = Some r \<Longrightarrow> row_job_id (decoded_job r) = i"
  by (auto simp: decoded_job_def dest: find_job_Some)

section \<open>Writing a row\<close>

lemma update_job_ok:
  assumes "rows_ok d" "r \<in> set (jobs d)" "jobs_job_id r = i" "jobs_check (u r)"
  shows "update_job i u d = Inr (set_job i u d)"
proof -
  have "jobs_check (u x)" if "x \<in> set (jobs d)" "jobs_job_id x = i" for x
    using job_by_id [OF assms(1) that(1) assms(2)] that(2) assms(3, 4) by simp
  then show ?thesis
    by (simp add: update_job_def set_job_def ensure_def)
qed

lemma set_terminal_result:
  assumes "healthy s" "rows_ok (tx_db s)" "find_job i (tx_db s) = Some r" "is_terminal st"
  shows "set_terminal (decoded_job r) st n t g e s = Inr ((), called 2 (finish_job r st n t g e (tx_db s)) s)"
proof -
  have row: "job_row_ok r" and r: "r \<in> set (jobs (tx_db s))"
    using assms(2, 3) find_job_ok find_job_Some by blast+
  have "jobs_check (terminal_row st n t g e r)"
    using row assms(4) by (intro jobs_check_terminal) (simp_all add: job_row_ok_def)
  from update_job_ok [where u = "terminal_row st n t g e", OF assms(2) r refl this] show ?thesis
    using assms(1)
    by (simp add: eval_nat_numeral set_terminal_def drain_partition_if_empty_def as_bytes_row_job_id [OF row]
        tx_bind_def healthy_execute finish_job_def)
qed

lemma nonterminal_no_end: "job_row_ok r \<Longrightarrow> \<not> is_terminal (state_of r) \<Longrightarrow> jobs_terminal_at_ms r = None"
  using jobs_check_state(5) [OF _ jobs_state_encode] by (auto simp: job_row_ok_def)

lemma set_nonterminal_result:
  assumes "healthy s" "rows_ok (tx_db s)" "find_job i (tx_db s) = Some r" "\<not> is_terminal (state_of r)"
    and "\<not> is_terminal st" "st \<noteq> Leased" "st = RetryWait \<longrightarrow> m \<noteq> None"
  shows "set_nonterminal i st m t s = Inr ((), called 1 (return_job r st m t (tx_db s)) s)"
proof -
  have row: "job_row_ok r" and r: "r \<in> set (jobs (tx_db s))" "jobs_job_id r = as_bytes i"
    using assms(2, 3) find_job_ok find_job_Some by blast+
  have "jobs_check (nonterminal_row st m t r)"
    using row assms(4-7) nonterminal_no_end [OF row]
    by (intro jobs_check_nonterminal) (simp_all add: job_row_ok_def)
  from update_job_ok [where u = "nonterminal_row st m t", OF assms(2) r(1) r(2) this] show ?thesis
    using assms(1) r(2) by (simp add: set_nonterminal_def healthy_execute return_job_def)
qed

section \<open>The operations\<close>

lemma apply_ack_result:
  assumes "healthy s" "rows_ok (tx_db s)"
  shows "apply_ack t n a s = (case find_job (ack_job_id a) (tx_db s) of
      None \<Rightarrow> Inl (Error_Validation (JobDoesNotExist (ack_job_id a)))
    | Some r \<Rightarrow>
        if state_of r \<noteq> Leased \<and> state_of r \<noteq> Uncertain
        then Inl (Error_Conflict (Conflict_JobTransition (ack_job_id a) (state_of r) Succeeded))
        else if jobs_lease_token r \<noteq> Some (as_bytes (ack_lease_token a))
        then Inl (Error_Validation (StaleLeaseToken (ack_job_id a)))
        else Inr ((), called 3 (finish_job r Succeeded n t (ack_result_digest a) None (tx_db s)) s))"
proof (cases "find_job (ack_job_id a) (tx_db s)")
  case None
  then show ?thesis
    by (simp add: apply_ack_def tx_bind_def require_job_result [OF assms])
next
  case (Some r)
  have row: "job_row_ok r"
    using Some assms(2) by (rule find_job_ok)
  have "set_terminal (decoded_job r) Succeeded n t (ack_result_digest a) None (called 1 (tx_db s) s) =
      Inr ((), called 3 (finish_job r Succeeded n t (ack_result_digest a) None (tx_db s)) s)"
    using set_terminal_result [of "called 1 (tx_db s) s"] assms Some by (simp add: eval_nat_numeral)
  moreover have "can_transition_to (state_of r) Succeeded \<longleftrightarrow> state_of r = Leased \<or> state_of r = Uncertain"
    by (cases "state_of r") simp_all
  ultimately show ?thesis
    using Some row_token_iff [OF row, of "ack_lease_token a"]
    by (simp add: apply_ack_def tx_bind_def require_job_result [OF assms] ensure_transition_def
        ensure_lease_token_def ensure_def row_job_id_found lift_simps tx_map_err_def)
qed

lemma retry_after_result:
  "(case m of Some ms \<Rightarrow> Inr ms | None \<Rightarrow> ok_or (i64_checked_add n default_retry_delay_ms) v) =
     ok_or (case m of Some ms \<Rightarrow> Some ms | None \<Rightarrow> i64_checked_add n default_retry_delay_ms) v"
  by (cases m) simp_all

lemma retry_job_result:
  assumes "healthy s" "jobs_ok (tx_db s)" "find_job i (tx_db s) = Some r" "state_of r = Leased"
    and "jobs_attempt r < jobs_max_attempts r"
  shows "tx_bind (set_nonterminal i RetryWait (Some m) t) (\<lambda>_. execute (update_job (as_bytes i)
      (\<lambda>r. r\<lparr>jobs_error_summary := Some summary\<rparr>))) s =
    Inr ((), called 2 (retry_job r m summary t (tx_db s)) s)"
proof -
  let ?d = "return_job r RetryWait (Some m) t (tx_db s)" and ?r = "nonterminal_row RetryWait (Some m) t r"
  have rows: "rows_ok (tx_db s)"
    using assms(2) by (rule jobs_ok_rows)
  have r: "r \<in> set (jobs (tx_db s))" "jobs_job_id r = as_bytes i"
    using find_job_Some [OF assms(3)] by simp_all
  have first: "set_nonterminal i RetryWait (Some m) t s = Inr ((), called 1 ?d s)"
    using assms(1) rows assms(3) by (rule set_nonterminal_result) (simp_all add: assms(4))
  have ok: "rows_ok ?d"
    using assms r by (intro jobs_ok_rows jobs_ok_return_job) simp_all
  have r': "?r \<in> set (jobs ?d)" "jobs_job_id ?r = as_bytes i"
    using r by (auto simp: return_job_def set_job_def set_sql_update)
  have "job_row_ok ?r"
    using ok r'(1) unfolding rows_ok_def by blast
  then have "jobs_check (?r\<lparr>jobs_error_summary := Some summary\<rparr>)"
    by (simp add: job_row_ok_def jobs_check_def)
  from update_job_ok [where u = "\<lambda>r. r\<lparr>jobs_error_summary := Some summary\<rparr>", OF ok r' this]
  show ?thesis
    using assms(1) r(2) by (simp add: tx_bind_def first healthy_execute retry_job_eq eval_nat_numeral)
qed

lemma apply_fail_result:
  assumes "healthy s" "jobs_ok (tx_db s)"
  shows "apply_fail t n f s = (case find_job (fail_job_id f) (tx_db s) of
      None \<Rightarrow> Inl (Error_Validation (JobDoesNotExist (fail_job_id f)))
    | Some r \<Rightarrow>
        let to = if jobs_attempt r < jobs_max_attempts r then RetryWait else Dead in
        if state_of r \<noteq> Leased \<and> \<not> (state_of r = Uncertain \<and> to = Dead)
        then Inl (Error_Conflict (Conflict_JobTransition (fail_job_id f) (state_of r) to))
        else if jobs_lease_token r \<noteq> Some (as_bytes (fail_lease_token f))
        then Inl (Error_Validation (StaleLeaseToken (fail_job_id f)))
        else if to = Dead
        then Inr ((), called 3 (finish_job r Dead n t None (Some (fail_error_summary f)) (tx_db s)) s)
        else case (case fail_retry_after_ms f of Some m \<Rightarrow> Some m
            | None \<Rightarrow> i64_checked_add n default_retry_delay_ms) of
          None \<Rightarrow> Inl (Error_Validation DefaultRetryOverflow)
        | Some m \<Rightarrow> Inr ((), called 3 (retry_job r m (fail_error_summary f) t (tx_db s)) s))"
proof (cases "find_job (fail_job_id f) (tx_db s)")
  case None
  then show ?thesis
    using assms by (simp add: apply_fail_def tx_bind_def require_job_result jobs_ok_rows)
next
  case (Some r)
  have rows: "rows_ok (tx_db s)"
    using assms(2) by (rule jobs_ok_rows)
  have row: "job_row_ok r"
    using Some rows by (rule find_job_ok)
  note load = require_job_result [OF assms(1) rows, of "fail_job_id f"]
  have token: "state_of r = Leased" if "jobs_lease_token r = Some b" for b
    using token_leased [OF row that] .
  have to: "can_transition_to (state_of r) Dead \<longleftrightarrow> state_of r = Leased \<or> state_of r = Uncertain"
    "can_transition_to (state_of r) RetryWait \<longleftrightarrow> state_of r = Leased"
    by (cases "state_of r", simp_all)+
  show ?thesis
  proof (cases "jobs_attempt r < jobs_max_attempts r")
    case False
    have "set_terminal (decoded_job r) Dead n t None (Some (fail_error_summary f)) (called 1 (tx_db s) s) =
        Inr ((), called 3 (finish_job r Dead n t None (Some (fail_error_summary f)) (tx_db s)) s)"
      using set_terminal_result [of "called 1 (tx_db s) s"] assms(1) rows Some by (simp add: eval_nat_numeral)
    then show ?thesis
      using False Some job_row_attempts(1) [OF row] row_token_iff [OF row, of "fail_lease_token f"] to
      by (simp add: apply_fail_def tx_bind_def load ensure_transition_def
          ensure_lease_token_def ensure_def row_job_id_found lift_simps tx_map_err_def)
  next
    case True
    have retry: "tx_bind (set_nonterminal (fail_job_id f) RetryWait (Some m) t)
        (\<lambda>_. execute (update_job (as_bytes (fail_job_id f))
          (\<lambda>r. r\<lparr>jobs_error_summary := Some (fail_error_summary f)\<rparr>))) (called 1 (tx_db s) s) =
        Inr ((), called 3 (retry_job r m (fail_error_summary f) t (tx_db s)) s)"
      if "state_of r = Leased" for m
      using retry_job_result [of "called 1 (tx_db s) s"] assms Some that True by (simp add: eval_nat_numeral)
    show ?thesis
      using True Some job_row_attempts(1) [OF row] row_token_iff [OF row, of "fail_lease_token f"] to
      by (simp add: apply_fail_def tx_bind_def [of "require_job _"] tx_bind_def [of "tx_lift _"] load ensure_transition_def
          ensure_lease_token_def ensure_def row_job_id_found lift_simps tx_map_err_def retry_after_result
          retry [unfolded One_nat_def] split: option.split)
  qed
qed

lemma apply_cancel_result:
  assumes "healthy s" "rows_ok (tx_db s)"
  shows "apply_cancel t n c s = (case find_job (cancel_job_id c) (tx_db s) of
      None \<Rightarrow> Inl (Error_Validation (JobDoesNotExist (cancel_job_id c)))
    | Some r \<Rightarrow>
        if state_of r \<noteq> Pending \<and> state_of r \<noteq> Leased
        then Inl (Error_Conflict (Conflict_JobTransition (cancel_job_id c) (state_of r) Cancelled))
        else if cancel_lease_token c = None \<and> state_of r \<noteq> Pending
        then Inl (Error_Validation (CancelRequiresToken (cancel_job_id c)))
        else if cancel_lease_token c \<noteq> None \<and>
          jobs_lease_token r \<noteq> map_option as_bytes (cancel_lease_token c)
        then Inl (Error_Validation (StaleLeaseToken (cancel_job_id c)))
        else Inr ((), called 3 (finish_job r Cancelled n t None None (tx_db s)) s))"
proof (cases "find_job (cancel_job_id c) (tx_db s)")
  case None
  then show ?thesis
    by (simp add: apply_cancel_def tx_bind_def require_job_result [OF assms])
next
  case (Some r)
  have row: "job_row_ok r"
    using Some assms(2) by (rule find_job_ok)
  have "set_terminal (decoded_job r) Cancelled n t None None (called 1 (tx_db s) s) =
      Inr ((), called 3 (finish_job r Cancelled n t None None (tx_db s)) s)"
    using set_terminal_result [of "called 1 (tx_db s) s"] assms Some by (simp add: eval_nat_numeral)
  moreover have "can_transition_to (state_of r) Cancelled \<longleftrightarrow> state_of r = Pending \<or> state_of r = Leased"
    by (cases "state_of r") simp_all
  ultimately show ?thesis
    using Some row_token_iff [OF row]
    by (simp add: apply_cancel_def tx_bind_def require_job_result [OF assms] ensure_transition_def
        ensure_lease_token_def ensure_def row_job_id_found lift_simps tx_map_err_def split: option.split)
qed

lemma apply_resolve_result:
  assumes "healthy s" "rows_ok (tx_db s)"
  shows "apply_resolve t n c s = (case find_job (resolve_job_id c) (tx_db s) of
      None \<Rightarrow> Inl (Error_Validation (JobDoesNotExist (resolve_job_id c)))
    | Some r \<Rightarrow>
        let (to, summary) = (case resolve_resolution c of
            Retry \<Rightarrow> if jobs_attempt r < jobs_max_attempts r then (Pending, None)
              else (Dead, Some ''retry resolution exhausted max_attempts'')
          | MarkSucceeded \<Rightarrow> (Succeeded, None)
          | MarkDead \<Rightarrow> (Dead, Some ''resolved as dead'')) in
        if state_of r \<noteq> Leased \<and> state_of r \<noteq> Uncertain
        then Inl (Error_Conflict (Conflict_JobTransition (resolve_job_id c) (state_of r) to))
        else if to = Pending
        then Inr ((), called 2 (return_job r Pending None t (tx_db s)) s)
        else Inr ((), called 3 (finish_job r to n t None summary (tx_db s)) s))"
proof (cases "find_job (resolve_job_id c) (tx_db s)")
  case None
  then show ?thesis
    by (simp add: apply_resolve_def tx_bind_def require_job_result [OF assms])
next
  case (Some r)
  have row: "job_row_ok r"
    using Some assms(2) by (rule find_job_ok)
  have finish: "set_terminal (decoded_job r) st n t None g (called 1 (tx_db s) s) =
      Inr ((), called 3 (finish_job r st n t None g (tx_db s)) s)" if "is_terminal st" for st g
    using set_terminal_result [of "called 1 (tx_db s) s"] assms Some that by (simp add: eval_nat_numeral)
  have "set_nonterminal (resolve_job_id c) Pending None t (called 1 (tx_db s) s) =
      Inr ((), called 2 (return_job r Pending None t (tx_db s)) s)"
    if "state_of r = Leased \<or> state_of r = Uncertain"
    using set_nonterminal_result [of "called 1 (tx_db s) s" "resolve_job_id c" r Pending None t] assms Some that
    by (auto simp: eval_nat_numeral)
  moreover have "can_transition_to (state_of r) st \<longleftrightarrow> state_of r = Leased \<or> state_of r = Uncertain"
    if "st = Pending \<or> st = Succeeded \<or> st = Dead" for st
    using that by (cases "state_of r") auto
  ultimately show ?thesis
    using Some job_row_attempts(1) [OF row] finish
    by (simp add: apply_resolve_def tx_bind_def require_job_result [OF assms] ensure_transition_def
        ensure_def row_job_id_found lift_simps tx_map_err_def split: resolution.split)
qed

lemma apply_enqueue_result:
  assumes "healthy s" "rows_ok (tx_db s)" "transaction_exists (as_bytes t) (tx_db s)"
    and "spec_max_attempts spec \<noteq> 0" "length (jobs (tx_db s)) < 2 ^ 63 - 1"
  shows "apply_enqueue t spec s = (case find_job (spec_job_id spec) (tx_db s) of
      Some _ \<Rightarrow> Inl (Error_Validation (JobAlreadyExists (spec_job_id spec)))
    | None \<Rightarrow>
        let n = i64_of_int (int (length (jobs (tx_db s))) + 1) in
        Inr ((), called 4 (activate_partition (spec_queue spec) (spec_partition_key spec) n
          ((tx_db s)\<lparr>jobs := jobs (tx_db s) @ [new_jobs_row t spec n]\<rparr>)) s))"
proof (cases "find_job (spec_job_id spec) (tx_db s)")
  case (Some r)
  then show ?thesis
    by (simp add: apply_enqueue_def tx_bind_def tx_map_err_def load_job_result [OF assms(1, 2)] lift_simps ensure_def)
next
  case None
  let ?d = "tx_db s" and ?n = "i64_of_int (int (length (jobs (tx_db s))) + 1)"
  have numbered: "numbered (map jobs_enqueue_sequence (jobs ?d))"
    using assms(2) by (simp add: rows_ok_def)
  have n: "i64_int ?n = int (length (jobs ?d)) + 1"
    using assms(5) by (intro i64_int_of_int) (simp add: i64_in_range_def)
  then have seq: "sql_max_plus_one (map jobs_enqueue_sequence (jobs ?d)) = Inr ?n"
    using sql_max_plus_one_numbered [OF numbered] by simp
  have "?n \<notin> jobs_enqueue_sequence ` set (jobs ?d)"
    using numbered_set [of "map jobs_enqueue_sequence (jobs ?d)" ?n] numbered n by auto
  moreover have "as_bytes (spec_job_id spec) \<notin> jobs_job_id ` set (jobs ?d)"
    using None by (simp add: find_job_def find_None_key)
  moreover have "jobs_check (new_jobs_row t spec ?n)"
  proof -
    have "0 < i64_int (i64_from_u32 (spec_max_attempts spec))"
      using assms(4) by (simp add: word_neq_0_conv word_less_def)
    then show ?thesis
      by (simp add: jobs_check_def new_jobs_row_def less_i64_def)
  qed
  ultimately have "insert_jobs (new_jobs_row t spec ?n) ?d = Inr (?d\<lparr>jobs := jobs ?d @ [new_jobs_row t spec ?n]\<rparr>)"
    using assms(3) by (simp add: insert_jobs_def ensure_def)
  then show ?thesis
    using None assms(1) seq
    by (simp add: apply_enqueue_def tx_bind_def tx_map_err_def load_job_result [OF assms(1, 2)] lift_simps ensure_def
        healthy_query healthy_execute Let_def eval_nat_numeral)
qed

lemma extend_job_tables: "set_job (jobs_job_id r) (\<lambda>r. r\<lparr>jobs_lease_expires_at_ms := Some e\<rparr>) d
    \<lparr>claim_receipts := sql_update (\<lambda>c. cr_job_id c = jobs_job_id r \<and> cr_lease_token c = as_bytes token)
       (\<lambda>c. c\<lparr>cr_lease_expires_at_ms := e\<rparr>) (claim_receipts d)\<rparr> = extend_job r token e d"
  by (simp add: extend_job_def)

lemma apply_extend_lease_result:
  assumes "healthy s" "rows_ok (tx_db s)"
  shows "apply_extend_lease x n s = (case find_job (extend_job_id x) (tx_db s) of
      None \<Rightarrow> Inl (LeaseError_Conflict (JobNotFound (extend_job_id x)))
    | Some r \<Rightarrow>
        if state_of r \<noteq> Leased
        then Inl (LeaseError_Conflict (NotLeased (extend_job_id x) (state_of r)))
        else if jobs_lease_token r \<noteq> Some (as_bytes (extend_lease_token x))
        then Inl (LeaseError_Conflict (InvalidToken (extend_job_id x)))
        else let e = the (jobs_lease_expires_at_ms r) in
          if e < n then Inl (LeaseError_Conflict (LeaseExpired (extend_job_id x) e n))
          else if extend_new_expiry_ms x \<le> e
          then Inl (LeaseError_Conflict (ExpiryNotLater (extend_job_id x) e (extend_new_expiry_ms x)))
          else Inr (\<lparr>ext_receipt_job_id = extend_job_id x, ext_receipt_attempt = row_attempt (decoded_job r),
              ext_receipt_lease_expires_at_ms = extend_new_expiry_ms x\<rparr>,
            called 3 (extend_job r (extend_lease_token x) (extend_new_expiry_ms x) (tx_db s)) s))"
proof (cases "find_job (extend_job_id x) (tx_db s)")
  case None
  then show ?thesis
    by (simp add: apply_extend_lease_def Let_def tx_bind_def tx_map_err_def load_job_result [OF assms] lift_simps)
next
  case (Some r)
  have row: "job_row_ok r" and r: "r \<in> set (jobs (tx_db s))" "jobs_job_id r = as_bytes (extend_job_id x)"
    using Some find_job_ok [OF Some assms(2)] find_job_Some [OF Some] by simp_all
  note load = load_job_result [OF assms, of "extend_job_id x", unfolded Some option.map]
  show ?thesis
  proof (cases "state_of r = Leased")
    case False
    with Some load show ?thesis
      by (simp add: apply_extend_lease_def Let_def tx_bind_def tx_map_err_def lift_simps ensure_def)
  next
    case True
    obtain e where e: "jobs_lease_expires_at_ms r = Some e"
      using leased_has_lease [OF row True] .
    have "jobs_state r = job_state_encode Leased"
      using jobs_state_encode [OF row] True by simp
    then have "jobs_check (r\<lparr>jobs_lease_expires_at_ms := Some (extend_new_expiry_ms x)\<rparr>)"
      using row e by (simp add: job_row_ok_def jobs_check_def)
    from update_job_ok [where u = "\<lambda>r. r\<lparr>jobs_lease_expires_at_ms := Some (extend_new_expiry_ms x)\<rparr>", OF assms(2) r this]
    have update: "update_job (as_bytes (extend_job_id x)) (\<lambda>r. r\<lparr>jobs_lease_expires_at_ms := Some (extend_new_expiry_ms x)\<rparr>) (tx_db s) =
        Inr (set_job (jobs_job_id r) (\<lambda>r. r\<lparr>jobs_lease_expires_at_ms := Some (extend_new_expiry_ms x)\<rparr>) (tx_db s))"
      using r(2) by simp
    show ?thesis
      using True Some load e row_token_iff [OF row, of "extend_lease_token x"] assms(1) r(2) update
      by (simp add: apply_extend_lease_def Let_def tx_bind_def tx_map_err_def lift_simps ensure_def
          healthy_execute extend_job_def eval_nat_numeral)
  qed
qed


section \<open>The results in the terms of the specification\<close>

lemma finish_found:
  "find_job i d = Some r \<Longrightarrow> jobs_ok d \<Longrightarrow> is_terminal s \<Longrightarrow> finish_job r s n t g e d = job_ended i s n t g e d"
  using find_job_Some by (auto intro: finish_job_ended)

lemma return_found:
  "find_job i d = Some r \<Longrightarrow> return_job r s m t d = job_returned i s m None t d"
  "find_job i d = Some r \<Longrightarrow> retry_job r k e t d = job_returned i RetryWait (Some k) (Some e) t d"
  using find_job_Some by (auto intro: return_job_returned retry_job_returned)

text \<open>
  A resolution of a job that is still leased is not refused: the state machine is all that is checked, and it allows
  a leased job to return or to end. The worker loses its job without having been asked for the token. The contract
  tests (\<open>docs/CONTRACT_TESTS.md\<close>, A5.7) reserve resolutions for uncertain jobs.
\<close>

lemma leased_job_resolved:
  assumes "healthy s" "jobs_ok (tx_db s)" "find_job (resolve_job_id c) (tx_db s) = Some r" "state_of r = Leased"
  shows "\<exists>s'. apply_resolve t n c s = Inr ((), s')"
  using assms(3, 4) by (simp add: apply_resolve_result [OF assms(1) jobs_ok_rows [OF assms(2)]] Let_def split: resolution.split)

end
