(* ===== verification/Claim_Results.thy ===== *)
theory Claim_Results
  imports Store_Recovery Job_Results
begin

text \<open>
  What a committed claim leaves, row by row (\<open>claim_row\<close>): an expired lease gets its
  maintenance, a leased job its grant, every other job stays. From it follow the round robin and
  what recovering a claim reports.
\<close>

section \<open>The round\<close>

text \<open>The round of a sorted list: the partitions after the cursor, then those up to it.\<close>

lemma takeWhile_sorted: "sorted ps \<Longrightarrow> takeWhile (\<lambda>p. p \<le> c) ps = filter (\<lambda>p. p \<le> c) ps"
  for c :: "'a::linorder"
  by (induction ps) (simp_all add: empty_filter_conv, meson order_trans)

lemma dropWhile_sorted: "sorted ps \<Longrightarrow> dropWhile (\<lambda>p. p \<le> c) ps = filter (\<lambda>p. c < p) ps"
  for c :: "'a::linorder"
  by (induction ps) (auto simp: not_le intro!: filter_True [symmetric])

lemma claim_order_sorted:
  "sorted ps \<Longrightarrow> claim_order (Some c) ps = filter (\<lambda>p. c < p) ps @ filter (\<lambda>p. p \<le> c) ps"
  unfolding claim_order_def partition_point_def option.case Let_def dropWhile_eq_drop [symmetric] takeWhile_eq_take [symmetric]
  by (simp only: takeWhile_sorted dropWhile_sorted)

lemma claim_order_None [simp]: "claim_order None ps = ps"
  by (simp add: claim_order_def)

section \<open>The rows after a claim\<close>

lemma fold_sql_update:
  assumes "distinct (map k xs)" "\<And>x r. x \<in> set xs \<Longrightarrow> key (u x r) = key r"
  shows "fold (\<lambda>x. sql_update (\<lambda>r. key r = k x) (u x)) xs rows =
    map (\<lambda>r. case List.find (\<lambda>x. k x = key r) xs of None \<Rightarrow> r | Some x \<Rightarrow> u x r) rows"
  using assms
proof (induction xs arbitrary: rows)
  case Nil
  then show ?case by simp
next
  case (Cons x xs)
  have "List.find (\<lambda>y. k y = k x) xs = None"
    using Cons.prems(1) by (simp add: find_None_key)
  then show ?case
    using Cons by (auto simp: sql_update_def)
qed

definition maintenance_row :: "claim_request \<Rightarrow> id \<Rightarrow> jobs_row \<Rightarrow> jobs_row \<Rightarrow> jobs_row" where
  "maintenance_row req t x =
     (if maintenance_target (decoded_job x) = Dead
      then terminal_row Dead (req_now_ms req) t None (Some ''lease expired at final attempt'')
      else nonterminal_row (maintenance_target (decoded_job x)) None t)"

lemma jobs_maintained:
  "jobs (maintained req t x d) = sql_update (\<lambda>r. jobs_job_id r = jobs_job_id x) (maintenance_row req t x) (jobs d)"
  by (simp add: maintained_def finish_job_def return_job_def set_job_def maintenance_row_def)

lemma jobs_granted:
  "jobs (granted req ex t l d) =
     sql_update (\<lambda>r. jobs_job_id r = as_bytes (row_job_id (lease_job l))) (grant_row req ex t l) (jobs d)"
  by (simp add: granted_def set_job_def)

lemma keys_maintenance_row [simp]: "jobs_job_id (maintenance_row req t x r) = jobs_job_id r"
  by (simp add: maintenance_row_def)

lemma keys_grant_row [simp]: "jobs_job_id (grant_row req ex t l r) = jobs_job_id r"
  by (simp add: grant_row_def leased_row_def)

lemma fold_jobs: "(\<And>x d. jobs (f x d) = g x (jobs d)) \<Longrightarrow> jobs (fold f xs d) = fold g xs (jobs d)"
  by (induction xs arbitrary: d) simp_all

lemma fold_receipts:
  "claim_receipts (fold (granted req ex t) ls d) = claim_receipts d @ map (receipt_of req ex t) ls"
  "claim_receipts (fold (maintained req t) rows d) = claim_receipts d"
  by (induction ls arbitrary: d, simp_all add: granted_def) (induction rows arbitrary: d, simp_all)

definition lease_id :: "proposed_lease \<Rightarrow> blob" where
  "lease_id l = as_bytes (row_job_id (lease_job l))"

lemma jobs_fold_granted:
  "jobs (fold (granted req ex t) ls d) =
     fold (\<lambda>l. sql_update (\<lambda>r. jobs_job_id r = lease_id l) (grant_row req ex t l)) ls (jobs d)"
  by (rule fold_jobs) (simp add: jobs_granted lease_id_def)

lemma jobs_fold_maintained:
  "jobs (fold (maintained req t) rows d) =
     fold (\<lambda>x. sql_update (\<lambda>r. jobs_job_id r = jobs_job_id x) (maintenance_row req t x)) rows (jobs d)"
  by (rule fold_jobs) (simp add: jobs_maintained)

definition claim_row :: "claim_request \<Rightarrow> i64 \<Rightarrow> id \<Rightarrow> proposed_lease list \<Rightarrow> db \<Rightarrow> jobs_row \<Rightarrow> jobs_row" where
  "claim_row req ex t leases d r =
     (if r \<in> set (expired_rows req d) then maintenance_row req t r r
      else case List.find (\<lambda>l. lease_id l = jobs_job_id r) leases of
          None \<Rightarrow> r | Some l \<Rightarrow> grant_row req ex t l r)"

lemma leaseable_job:
  assumes "leaseable req d p l" "rows_ok d"
  obtains r where "r \<in> set (jobs d)" "jobs_queue r = req_queue req" "jobs_partition_key r = p"
    "lease_job l = decoded_job r" "lease_id l = jobs_job_id r" "job_ready (req_now_ms req) (decoded_job r)"
    "job_row_ok r" "state_of r = Pending \<or> state_of r = RetryWait"
proof -
  obtain r rest where part: "partition_jobs (jobs d) (req_queue req) p = r # rest"
    and l: "lease_job l = decoded_job r" and ready: "job_ready (req_now_ms req) (decoded_job r)"
    using assms(1) by (auto simp: leaseable_def)
  note r = partition_head_job [OF part]
  have "job_row_ok r"
    using r(1) assms(2) by (simp add: rows_ok_def)
  then show thesis
    using r l ready job_ready_state [OF ready] by (intro that) (simp_all add: lease_id_def as_bytes_row_job_id)
qed

lemma list_all2_in: "list_all2 P xs ys \<Longrightarrow> y \<in> set ys \<Longrightarrow> \<exists>x \<in> set xs. P x y"
  by (induction rule: list_all2_induct) auto

lemma distinct_lease_ids:
  assumes "list_all2 (leaseable req d) ps leases" "distinct ps" "rows_ok d"
  shows "distinct (map lease_id leases)"
  using assms(1, 2)
proof (induction rule: list_all2_induct)
  case (Cons p ps l ls)
  have "lease_id l \<noteq> lease_id m" if m: "m \<in> set ls" for m
  proof
    assume same: "lease_id l = lease_id m"
    obtain q where q: "q \<in> set ps" "leaseable req d q m"
      using list_all2_in [OF Cons.hyps(2) m] by blast
    obtain r where r: "r \<in> set (jobs d)" "jobs_partition_key r = p" "lease_id l = jobs_job_id r"
      using Cons.hyps(1) assms(3) by (rule leaseable_job)
    obtain x where x: "x \<in> set (jobs d)" "jobs_partition_key x = q" "lease_id m = jobs_job_id x"
      using q(2) assms(3) by (rule leaseable_job)
    have "r = x"
      using assms(3) r x same by (intro job_by_id) simp_all
    with r x q Cons.prems show False by auto
  qed
  with Cons show ?case by auto
qed simp

lemma claim_committed_rows:
  assumes "claim_committed req ex t leases d d'" "db_ok d"
  shows "jobs d' = map (claim_row req ex t leases d) (jobs d)"
    and "claim_receipts d' = claim_receipts d @ map (receipt_of req ex t) leases"
    and "distinct (map lease_id leases)"
proof -
  let ?rows = "expired_rows req d"
  obtain seq where d': "d' = cursor_moved req (leased_partitions req d)
        (fold (granted req ex t) leases (fold (maintained req t) ?rows
          (claim_inserted req t (length ?rows + length leases) seq d)))"
    and leases: "list_all2 (leaseable req d) (leased_partitions req d) leases"
    using assms(1) by (auto simp: claim_committed_def)
  have jobs: "jobs_ok d" "rows_ok d" "partitions_ok d"
    using assms(2) by (simp_all add: db_ok_def jobs_ok_def)
  show distinct: "distinct (map lease_id leases)"
    using leases distinct_leased_partitions [OF jobs(3)] jobs(2) by (rule distinct_lease_ids)
  let ?grant = "\<lambda>rows. map (\<lambda>r. case List.find (\<lambda>l. lease_id l = jobs_job_id r) leases of
      None \<Rightarrow> r | Some l \<Rightarrow> grant_row req ex t l r) rows"
  let ?main = "\<lambda>r. case List.find (\<lambda>x. jobs_job_id x = jobs_job_id r) ?rows of
      None \<Rightarrow> r | Some x \<Rightarrow> maintenance_row req t x r"
  have "fold (\<lambda>l. sql_update (\<lambda>r. jobs_job_id r = lease_id l) (grant_row req ex t l)) leases rows = ?grant rows" for rows
    by (rule fold_sql_update [OF distinct]) simp
  moreover have "fold (\<lambda>x. sql_update (\<lambda>r. jobs_job_id r = jobs_job_id x) (maintenance_row req t x)) ?rows rows =
      map ?main rows" for rows
    by (rule fold_sql_update [OF distinct_expired_rows [OF jobs(2)]]) simp
  ultimately have "jobs d' = ?grant (map ?main (jobs d))"
    by (simp add: d' cursor_moved_def claim_inserted_def jobs_fold_granted jobs_fold_maintained)
  moreover have "(case List.find (\<lambda>l. lease_id l = jobs_job_id (?main r)) leases of
      None \<Rightarrow> ?main r | Some l \<Rightarrow> grant_row req ex t l (?main r)) = claim_row req ex t leases d r"
    if r: "r \<in> set (jobs d)" for r
  proof (cases "r \<in> set ?rows")
    case True
    then have find: "List.find (\<lambda>x. jobs_job_id x = jobs_job_id r) ?rows = Some r"
      using distinct_expired_rows [OF jobs(2)] by (intro find_Some_iff_distinct [THEN iffD2]) auto
    have "lease_id l \<noteq> jobs_job_id r" if l: "l \<in> set leases" for l
    proof
      assume same: "lease_id l = jobs_job_id r"
      obtain p where p: "leaseable req d p l"
        using list_all2_in [OF leases l] by blast
      obtain x where x: "x \<in> set (jobs d)" "lease_id l = jobs_job_id x" "state_of x = Pending \<or> state_of x = RetryWait"
        using p jobs(2) by (rule leaseable_job)
      have "x = r"
        using jobs(2) x r same by (intro job_by_id) simp_all
      with x(3) expired_rows_leased [OF jobs(2) True] show False by simp
    qed
    then have "List.find (\<lambda>l. lease_id l = jobs_job_id r) leases = None"
      by (auto simp: find_None_iff)
    with True find show ?thesis by (simp add: claim_row_def)
  next
    case False
    have "jobs_job_id x \<noteq> jobs_job_id r" if "x \<in> set ?rows" for x
      using job_by_id [OF jobs(2) _ r] expired_rows_job [OF that] that False by blast
    then have main: "?main r = r"
      by (simp add: find_None_iff [THEN iffD2])
    show ?thesis
      unfolding main claim_row_def if_not_P [OF False] ..
  qed
  ultimately show "jobs d' = map (claim_row req ex t leases d) (jobs d)"
    by simp
  show "claim_receipts d' = claim_receipts d @ map (receipt_of req ex t) leases"
    by (simp add: d' cursor_moved_def claim_inserted_def fold_receipts)
qed

section \<open>The leases\<close>

text \<open>
  A claimed job: it was ready and the first unfinished one of its partition, and its row now holds
  the lease that was handed out.
\<close>

definition leased_now :: "claim_request \<Rightarrow> i64 \<Rightarrow> db \<Rightarrow> db \<Rightarrow> claimed_job \<Rightarrow> bool" where
  "leased_now req ex d d' c \<longleftrightarrow>
     (\<exists>r \<in> set (jobs d). jobs_job_id r = as_bytes (claimed_job_id c) \<and>
        jobs_queue r = req_queue req \<and> jobs_partition_key r = claimed_partition_key c \<and>
        job_ready (req_now_ms req) (decoded_job r) \<and>
        (\<forall>x \<in> set (jobs d). is_active_in (jobs_queue r) (jobs_partition_key r) x \<longrightarrow>
           jobs_enqueue_sequence r \<le> jobs_enqueue_sequence x) \<and>
        (\<exists>s \<in> set (jobs d'). same_spec r s \<and> state_of s = Leased \<and>
           jobs_lease_token s = Some (as_bytes (claimed_lease_token c)) \<and>
           jobs_worker_id s = Some (req_worker_id req) \<and> jobs_lease_expires_at_ms s = Some ex \<and>
           i64_int (jobs_attempt s) = i64_int (jobs_attempt r) + 1 \<and>
           jobs_attempt s = i64_from_u32 (claimed_attempt c)))"

lemma claimed_of_sel [simp]:
  "claimed_job_id (claimed_of req ex l) = row_job_id (lease_job l)"
  "claimed_queue (claimed_of req ex l) = row_queue (lease_job l)"
  "claimed_partition_key (claimed_of req ex l) = row_partition_key (lease_job l)"
  "claimed_payload (claimed_of req ex l) = row_payload (lease_job l)"
  "claimed_worker_id (claimed_of req ex l) = req_worker_id req"
  "claimed_lease_token (claimed_of req ex l) = lease_lease_token l"
  "claimed_attempt (claimed_of req ex l) = row_attempt (lease_job l) + 1"
  "claimed_lease_expires_at_ms (claimed_of req ex l) = ex"
  "claimed_idempotency_key (claimed_of req ex l) = row_idempotency_key (lease_job l)"
  by (simp_all add: claimed_of_def)

lemma grant_row_sel [simp]:
  "state_of (grant_row req ex t l r) = Leased"
  "jobs_state (grant_row req ex t l r) = job_state_encode Leased"
  "jobs_lease_token (grant_row req ex t l r) = Some (as_bytes (lease_lease_token l))"
  "jobs_worker_id (grant_row req ex t l r) = Some (req_worker_id req)"
  "jobs_lease_expires_at_ms (grant_row req ex t l r) = Some ex"
  "jobs_attempt (grant_row req ex t l r) = i64_from_u32 (row_attempt (lease_job l) + 1)"
  "jobs_queue (grant_row req ex t l r) = jobs_queue r"
  "jobs_partition_key (grant_row req ex t l r) = jobs_partition_key r"
  "jobs_payload (grant_row req ex t l r) = jobs_payload r"
  "jobs_idempotency_key (grant_row req ex t l r) = jobs_idempotency_key r"
  by (simp_all add: grant_row_def leased_row_def state_of_def job_state_decode_def)

lemma partition_head_first:
  assumes "partition_jobs (jobs d) q p = r # rest" "rows_ok d" "x \<in> set (jobs d)" "is_active_in q p x"
  shows "jobs_enqueue_sequence r \<le> jobs_enqueue_sequence x"
proof -
  have "sorted (map jobs_enqueue_sequence (partition_jobs (jobs d) q p))"
    using assms(2) unfolding partition_jobs_def
    by (intro sorted_filter numbered_sorted) (simp add: rows_ok_def)
  moreover have "x \<in> set (partition_jobs (jobs d) q p)"
    using assms(3, 4) by (simp add: partition_jobs_def)
  ultimately show ?thesis
    using assms(1) by auto
qed

text \<open>The row that a lease was granted on, before and after.\<close>

lemma granted_row:
  assumes "claim_committed req ex t leases d d'" "db_ok d" "l \<in> set leases"
  obtains r where "r \<in> set (jobs d)" "lease_job l = decoded_job r" "lease_id l = jobs_job_id r" "job_row_ok r"
    "state_of r = Pending \<or> state_of r = RetryWait" "grant_row req ex t l r \<in> set (jobs d')"
    "job_ready (req_now_ms req) (decoded_job r)"
    "jobs_queue r = req_queue req"
    "\<And>x. x \<in> set (jobs d) \<Longrightarrow> is_active_in (jobs_queue r) (jobs_partition_key r) x \<Longrightarrow>
       jobs_enqueue_sequence r \<le> jobs_enqueue_sequence x"
proof -
  have rows: "rows_ok d"
    using assms(2) by (simp add: db_ok_def jobs_ok_rows)
  obtain p where lease: "leaseable req d p l"
    using list_all2_in [of "leaseable req d" _ leases l] assms(1, 3) by (auto simp: claim_committed_def)
  obtain r rest where part: "partition_jobs (jobs d) (req_queue req) p = r # rest"
    and l: "lease_job l = decoded_job r" and ready: "job_ready (req_now_ms req) (decoded_job r)"
    using lease by (auto simp: leaseable_def)
  note r = partition_head_job [OF part]
  have row: "job_row_ok r"
    using r(1) rows by (simp add: rows_ok_def)
  have id: "lease_id l = jobs_job_id r"
    by (simp add: lease_id_def l as_bytes_row_job_id [OF row])
  have state: "state_of r = Pending \<or> state_of r = RetryWait"
    using job_ready_state [OF ready] by simp
  have "List.find (\<lambda>l. lease_id l = jobs_job_id r) leases = Some l"
    using claim_committed_rows(3) [OF assms(1, 2)] assms(3) id
    by (intro find_Some_iff_distinct [THEN iffD2]) auto
  moreover have "r \<notin> set (expired_rows req d)"
    using expired_rows_leased [OF rows, of r req] state by auto
  ultimately have "claim_row req ex t leases d r = grant_row req ex t l r"
    by (simp add: claim_row_def)
  then have "grant_row req ex t l r \<in> set (jobs d')"
    using claim_committed_rows(1) [OF assms(1, 2)] r(1) by (force simp: image_iff)
  with r l id row state ready partition_head_first [OF part rows] show thesis
    by (intro that [of r]) simp_all
qed

lemma same_spec_grant: "same_spec r (grant_row req ex t l r)"
  by (simp add: same_spec_def grant_row_def leased_row_def)

lemma claimed_leased_now:
  assumes "claim_committed req ex t leases d d'" "db_ok d" "l \<in> set leases"
  shows "leased_now req ex d d' (claimed_of req ex l)"
proof -
  obtain r where r: "r \<in> set (jobs d)" "lease_job l = decoded_job r" "lease_id l = jobs_job_id r" "job_row_ok r"
    "state_of r = Pending \<or> state_of r = RetryWait" "grant_row req ex t l r \<in> set (jobs d')"
    "job_ready (req_now_ms req) (decoded_job r)" "jobs_queue r = req_queue req"
    "\<And>x. x \<in> set (jobs d) \<Longrightarrow> is_active_in (jobs_queue r) (jobs_partition_key r) x \<Longrightarrow>
       jobs_enqueue_sequence r \<le> jobs_enqueue_sequence x"
    using assms by (rule granted_row) blast
  have "jobs_attempt r < jobs_max_attempts r"
    using r(4, 5) by (auto simp: job_row_ok_def)
  note attempt = attempt_plus_one [OF r(4) this]
  show ?thesis
    unfolding leased_now_def
    by (intro bexI [OF _ r(1)] conjI ballI impI bexI [OF _ r(6)] same_spec_grant)
      (use r attempt in \<open>simp_all add: lease_id_def\<close>)
qed

lemma claim_committed_partitions:
  assumes "claim_committed req ex t leases d d'" "db_ok d"
  shows "map claimed_partition_key (map (claimed_of req ex) leases) = leased_partitions req d"
    and "distinct (leased_partitions req d)" "length leases \<le> unat (req_limit req)"
proof -
  have rows: "rows_ok d" and parts: "partitions_ok d"
    using assms(2) by (simp_all add: db_ok_def jobs_ok_def)
  have all: "list_all2 (leaseable req d) (leased_partitions req d) leases"
    using assms(1) by (simp add: claim_committed_def)
  have "list_all2 (\<lambda>p l. row_partition_key (lease_job l) = p) (leased_partitions req d) leases"
    using all by (rule list_all2_mono) (auto elim!: leaseable_job [OF _ rows])
  then show "map claimed_partition_key (map (claimed_of req ex) leases) = leased_partitions req d"
    by (induction rule: list_all2_induct) simp_all
  show "distinct (leased_partitions req d)"
    using parts by (rule distinct_leased_partitions)
  show "length leases \<le> unat (req_limit req)"
    using list_all2_lengthD [OF all] by (simp add: leased_partitions_def)
qed

section \<open>Recovering a claim\<close>

text \<open>The transaction of a committed claim is new, and so are its receipts.\<close>

lemma claim_committed_fresh:
  assumes "claim_committed req ex t leases d d'" "db_ok d'"
  shows "\<not> transaction_exists (as_bytes t) d" "transaction_exists (as_bytes t) d'"
  using assms by (auto simp: claim_committed_def db_ok_def transactions_ok_def transaction_exists_def
      claim_transaction_row_def)

lemma claim_committed_receipts:
  assumes "claim_committed req ex t leases d d'" "db_ok d" "db_ok d'"
  shows "filter (\<lambda>c. cr_transaction_id c = as_bytes t) (claim_receipts d') = map (receipt_of req ex t) leases"
proof -
  have "cr_transaction_id c \<noteq> as_bytes t" if "c \<in> set (claim_receipts d)" for c
    using claim_committed_fresh(1) [OF assms(1, 3)] assms(2) that
    by (auto simp: db_ok_def jobs_ok_def receipts_ok_def)
  then have "filter (\<lambda>c. cr_transaction_id c = as_bytes t) (claim_receipts d) = []"
    by (simp add: filter_empty_conv)
  then show ?thesis
    by (simp add: claim_committed_rows(2) [OF assms(1, 2)] receipt_of_def)
qed

lemma filter_job_id: "rows_ok d \<Longrightarrow> r \<in> set (jobs d) \<Longrightarrow> filter (\<lambda>j. jobs_job_id j = jobs_job_id r) (jobs d) = [r]"
proof -
  assume "rows_ok d" "r \<in> set (jobs d)"
  then have "distinct (map jobs_job_id rows) \<Longrightarrow> r \<in> set rows \<Longrightarrow> filter (\<lambda>j. jobs_job_id j = jobs_job_id r) rows = [r]"
    for rows
    by (induction rows) (auto simp: filter_empty_conv image_iff)
  then show ?thesis
    using \<open>rows_ok d\<close> \<open>r \<in> set (jobs d)\<close> by (simp add: rows_ok_def)
qed

text \<open>The job row that a receipt of the claim is joined with.\<close>

definition joined_row :: "db \<Rightarrow> proposed_lease \<Rightarrow> jobs_row" where
  "joined_row d' l = hd (filter (\<lambda>j. jobs_job_id j = lease_id l) (jobs d'))"

lemma joined_lease:
  assumes "claim_committed req ex t leases d d'" "db_ok d" "db_ok d'" "l \<in> set leases"
  obtains r where "filter (\<lambda>j. jobs_job_id j = lease_id l) (jobs d') = [joined_row d' l]"
    "joined_row d' l = grant_row req ex t l r" "lease_job l = decoded_job r" "job_row_ok r"
    "lease_id l = jobs_job_id r"
proof -
  obtain r where r: "lease_job l = decoded_job r" "lease_id l = jobs_job_id r" "job_row_ok r"
    "grant_row req ex t l r \<in> set (jobs d')"
    using assms(1, 2, 4) by (rule granted_row) blast
  have "rows_ok d'"
    using assms(3) by (simp add: db_ok_def jobs_ok_rows)
  from filter_job_id [OF this r(4)] r show thesis
    by (intro that [of r]) (simp_all add: joined_row_def)
qed

lemma recover_lease_row:
  assumes "claim_committed req ex t leases d d'" "db_ok d" "db_ok d'" "l \<in> set leases"
  shows "recover_row n (receipt_of req ex t l, joined_row d' l) =
    Inr (if n \<le> ex then Inl (claimed_of req ex l) else Inr (row_job_id (lease_job l)))"
proof -
  obtain r where r: "joined_row d' l = grant_row req ex t l r" "lease_job l = decoded_job r" "job_row_ok r"
    using assms by (rule joined_lease) blast
  have "opt_id_from_blob (Some (as_bytes i)) = Inr (Some i)" for i
    by (simp add: opt_id_from_blob_def)
  then show ?thesis
    by (simp add: recover_row_def r receipt_of_def claimed_of_def)
qed

lemma receipt_rows_committed:
  assumes "claim_committed req ex t leases d d'" "db_ok d" "db_ok d'"
  shows "receipt_rows t d' =
    map (\<lambda>l. (receipt_of req ex t l, joined_row d' l)) (sort_key lease_id leases)"
proof -
  have "map (\<lambda>l. map (Pair (receipt_of req ex t l)) (filter (\<lambda>j. jobs_job_id j = cr_job_id (receipt_of req ex t l)) (jobs d'))) leases =
    map (\<lambda>l. [(receipt_of req ex t l, joined_row d' l)]) leases"
  proof (rule map_cong [OF refl])
    fix l assume "l \<in> set leases"
    then obtain r where "filter (\<lambda>j. jobs_job_id j = lease_id l) (jobs d') = [joined_row d' l]"
      using joined_lease [OF assms] by blast
    then show "map (Pair (receipt_of req ex t l)) (filter (\<lambda>j. jobs_job_id j = cr_job_id (receipt_of req ex t l)) (jobs d')) =
        [(receipt_of req ex t l, joined_row d' l)]"
      by (simp add: receipt_of_def lease_id_def)
  qed
  then have "receipt_rows t d' = sort_key (\<lambda>x. cr_job_id (fst x))
      (map (\<lambda>l. (receipt_of req ex t l, joined_row d' l)) leases)"
    unfolding receipt_rows_def claim_committed_receipts [OF assms] map_map o_def
    by (simp only: concat_map_singleton)
  also have "\<dots> = map (\<lambda>l. (receipt_of req ex t l, joined_row d' l)) (sort_key lease_id leases)"
    by (simp add: sort_key_map o_def receipt_of_def lease_id_def [abs_def])
  finally show ?thesis .
qed

text \<open>What recovering the claim reports, when its reads succeed.\<close>

definition recovered_claim :: "claim_request \<Rightarrow> i64 \<Rightarrow> id \<Rightarrow> proposed_lease list \<Rightarrow> i64 \<Rightarrow> claim_recovery" where
  "recovered_claim req ex t leases n =
     (let sorted = sort_key lease_id leases in
      if leases = [] then ClaimRecovery_MaintenanceCommitted t
      else ClaimRecovery_Committed \<lparr>claims_transaction_id = t,
        claims_jobs = (if n \<le> ex then map (claimed_of req ex) sorted else []),
        claims_stale_jobs = (if n \<le> ex then [] else map (\<lambda>l. row_job_id (lease_job l)) sorted)\<rparr>)"

lemma lefts_rights:
  "lefts (map (\<lambda>x. if b then Inl (f x) else Inr (g x)) xs) = (if b then map f xs else [])"
  "rights (map (\<lambda>x. if b then Inl (f x) else Inr (g x)) xs) = (if b then [] else map g xs)"
  by (simp_all add: lefts_def rights_def concat_map_singleton o_def)

lemma recover_claim_yields:
  assumes "tx_yields (recover_claim t n) d res d'"
  shows "d' = d" "\<exists>rs. map_result (recover_row n) (receipt_rows t d) = Inr rs \<and>
    res = (if receipt_rows t d \<noteq> [] then ClaimRecovery_Committed \<lparr>claims_transaction_id = t,
        claims_jobs = lefts rs, claims_stale_jobs = rights rs\<rparr>
      else if transaction_exists (as_bytes t) d then ClaimRecovery_MaintenanceCommitted t
      else ClaimRecovery_Absent)"
  using assms unfolding recover_claim_def
  by (auto dest!: yields split: if_splits)

lemma recover_claim_committed:
  assumes "tx_yields (recover_claim t n) d' res b" "claim_committed req ex t leases d d'" "db_ok d" "db_ok d'"
  shows "res = recovered_claim req ex t leases n"
proof -
  let ?sorted = "sort_key lease_id leases"
  let ?res = "\<lambda>l. if n \<le> ex then Inl (claimed_of req ex l) else Inr (row_job_id (lease_job l))"
  have "map_result (recover_row n) (receipt_rows t d') = Inr (map ?res ?sorted)"
    unfolding receipt_rows_committed [OF assms(2-4)] map_result_Inr list_all2_map1 list_all2_map2
    using recover_lease_row [OF assms(2-4)] by (intro list.rel_refl_strong) simp
  moreover have "receipt_rows t d' = [] \<longleftrightarrow> leases = []"
    unfolding receipt_rows_committed [OF assms(2-4)] by simp (metis length_0_conv length_sort)
  ultimately show ?thesis
    using recover_claim_yields(2) [OF assms(1)] claim_committed_fresh(2) [OF assms(2, 4)]
    by (auto simp: recovered_claim_def Let_def lefts_rights)
qed

lemma recover_claim_absent:
  assumes "tx_yields (recover_claim t n) d res b" "\<not> transaction_exists (as_bytes t) d" "db_ok d"
  shows "res = ClaimRecovery_Absent"
proof -
  have "receipt_rows t d = []"
  proof -
    have "filter (\<lambda>c. cr_transaction_id c = as_bytes t) (claim_receipts d) = []"
      using assms(2, 3) by (auto simp: db_ok_def jobs_ok_def receipts_ok_def filter_empty_conv)
    then show ?thesis by (simp add: receipt_rows_def)
  qed
  then show ?thesis
    using recover_claim_yields [OF assms(1)] assms(2) by auto
qed

lemma run_reads_yields:
  assumes "run_reads c e m d = Inr x"
  shows "\<exists>b. tx_yields m d x b"
proof -
  obtain s where "m (tx_start (on_connection c e) d) = Inr (x, s)"
    using assms by (auto simp: run_reads_def)
  moreover have "tx_db (tx_start (on_connection c e) d) = d"
    by (simp add: tx_start_def)
  ultimately show ?thesis unfolding tx_yields_def by blast
qed

lemma store_recover_claim_yields:
  assumes "store_recover_claim opn e t n st = (Inr res, st')"
  shows "store_db st' = store_db st \<and> (\<exists>b. tx_yields (recover_claim t n) (store_db st) res b)"
proof -
  obtain c s where conn: "writer_connection opn st = (c, s)"
    by (cases "writer_connection opn st")
  then show ?thesis
  proof (cases rule: writer_connection_cases)
    case (live x)
    with assms conn show ?thesis
      by (auto simp: store_recover_claim_def dest: run_reads_yields)
  qed (use assms conn in \<open>simp add: store_recover_claim_def\<close>)
qed

lemma indeterminate_claim_cases:
  assumes "store_claim_jobs opn e req st = (Inl (ClaimError_Indeterminate i), st')" "store_ok st"
  obtains ex leases d' where "validate_claim req = Inr ex"
    "icl_proposed_jobs i = map (\<lambda>l. row_job_id (lease_job l)) leases"
    "claim_committed req ex (icl_transaction_id i) leases (store_db st) d'" "db_ok d'"
    "store_db st' = store_db st \<or> store_db st' = d'"
  using assms(1) unfolding store_claim_jobs_def
proof (cases rule: with_writer_cases)
  case (ran conn d)
  have "db_ok (store_db st)"
    using assms(2) by (simp add: store_ok_def)
  with ran(1) show ?thesis
  proof (cases rule: claim_jobs_cases)
    case (indeterminate ex t leases c b')
    then show ?thesis
      using ran(3) by (intro that [of ex leases b']) (auto simp: claim_indeterminate_def)
  qed simp_all
qed simp

section \<open>Expired and untouched jobs\<close>

lemma maintained_row_of:
  assumes "claim_committed req ex t leases d d'" "db_ok d" "r \<in> set (jobs d)"
  shows "r \<in> set (expired_rows req d) \<longrightarrow> state_of r = Leased \<and> (\<forall>l \<in> set leases. lease_id l \<noteq> jobs_job_id r) \<and>
       (\<exists>s \<in> set (jobs d'). jobs_job_id s = jobs_job_id r \<and> state_of s =
          (case row_effect_mode (decoded_job r) of
             RequiresReconciliation \<Rightarrow> Uncertain
           | ExplicitlyIdempotent \<Rightarrow> if jobs_attempt r < jobs_max_attempts r then Pending else Dead))"
proof (intro impI conjI ballI)
  assume expired: "r \<in> set (expired_rows req d)"
  have rows: "rows_ok d"
    using assms(2) by (simp add: db_ok_def jobs_ok_rows)
  have row: "job_row_ok r"
    using rows assms(3) by (simp add: rows_ok_def)
  show leased: "state_of r = Leased"
    using rows expired by (rule expired_rows_leased)
  show "lease_id l \<noteq> jobs_job_id r" if l: "l \<in> set leases" for l
  proof
    assume same: "lease_id l = jobs_job_id r"
    obtain x where "x \<in> set (jobs d)" "lease_id l = jobs_job_id x" "state_of x = Pending \<or> state_of x = RetryWait"
      using assms(1, 2) l by (rule granted_row) blast
    moreover from this have "x = r"
      using rows assms(3) same by (intro job_by_id) simp_all
    ultimately show False using leased by simp
  qed
  have "claim_row req ex t leases d r \<in> set (jobs d')"
    using claim_committed_rows(1) [OF assms(1, 2)] assms(3) by simp
  moreover have "state_of (claim_row req ex t leases d r) = maintenance_target (decoded_job r)"
    using expired by (simp add: claim_row_def maintenance_row_def)
  moreover have "jobs_job_id (claim_row req ex t leases d r) = jobs_job_id r"
    using expired by (simp add: claim_row_def)
  ultimately show "\<exists>s \<in> set (jobs d'). jobs_job_id s = jobs_job_id r \<and> state_of s =
          (case row_effect_mode (decoded_job r) of
             RequiresReconciliation \<Rightarrow> Uncertain
           | ExplicitlyIdempotent \<Rightarrow> if jobs_attempt r < jobs_max_attempts r then Pending else Dead)"
    using job_row_attempts(1) [OF row] unfolding maintenance_target_def
    by (intro bexI [of _ "claim_row req ex t leases d r"]) (auto split: effect_mode.split)
qed

lemma untouched_row:
  assumes "claim_committed req ex t leases d d'" "db_ok d" "r \<in> set (jobs d)"
  shows "r \<notin> set (expired_rows req d) \<and> (\<forall>l \<in> set leases. lease_id l \<noteq> jobs_job_id r) \<longrightarrow> r \<in> set (jobs d')"
proof (intro impI, elim conjE)
  assume "r \<notin> set (expired_rows req d)" "\<forall>l \<in> set leases. lease_id l \<noteq> jobs_job_id r"
  then have "claim_row req ex t leases d r = r"
    by (simp add: claim_row_def find_None_iff [THEN iffD2])
  moreover have "claim_row req ex t leases d r \<in> set (jobs d')"
    using claim_committed_rows(1) [OF assms(1, 2)] assms(3) by simp
  ultimately show "r \<in> set (jobs d')" by simp
qed

text \<open>Where no call fails, recovery answers.\<close>

lemma recover_claim_answers:
  assumes "claim_committed req ex t leases d d'" "db_ok d" "db_ok d'" "env_read_only e = False"
    and "\<forall>n. env_fault e n = None"
  shows "\<exists>res. run_reads (Read_Write dur) e (recover_claim t n) d' = Inr res"
proof -
  let ?s = "tx_start (on_connection (Read_Write dur) e) d'"
  have healthy: "healthy ?s" "tx_db ?s = d'"
    using assms(4, 5) by (simp_all add: healthy_def tx_start_def on_connection_def)
  have "map_result (recover_row n) (receipt_rows t d') = Inr (map (\<lambda>l. if n \<le> ex then Inl (claimed_of req ex l)
      else Inr (row_job_id (lease_job l))) (sort_key lease_id leases))"
    unfolding receipt_rows_committed [OF assms(1-3)] map_result_Inr list_all2_map1 list_all2_map2
    using recover_lease_row [OF assms(1-3)] by (intro list.rel_refl_strong) simp
  then show ?thesis
    using healthy by (simp add: run_reads_def recover_claim_def tx_bind_def tx_map_err_def healthy_query lift_simps)
qed

end
