(* ===== verification/Claim_Progress.thy ===== *)
theory Claim_Progress
  imports Claim_Results
begin

text \<open>
  Progress of claims: with a healthy driver and a generator that draws unused numbers, every step of the claim
  transaction goes through, so a claim of a ready job succeeds. And fairness of the round: a partition that a claim
  did not reach goes, in the next round, before all those which that claim leased.
\<close>

section \<open>Computations that go through\<close>

text \<open>The generator draws a number each time, and none is a transaction ID in use.\<close>

definition supplied :: "env \<Rightarrow> db \<Rightarrow> bool" where
  "supplied e d \<longleftrightarrow> (\<forall>n. \<exists>i. id_new (env_random e n) = Inr i \<and> \<not> transaction_exists (as_bytes i) d)"

definition proceeds :: "('e, 'a) tx \<Rightarrow> tx_state \<Rightarrow> bool" where
  "proceeds m s \<longleftrightarrow> (\<exists>x s'. m s = Inr (x, s') \<and> tx_env s' = tx_env s)"

lemma healthy_env: "tx_env s' = tx_env s \<Longrightarrow> healthy s' = healthy s" for s s' :: tx_state
  by (simp add: healthy_def)

lemma proceedsI: "m s = Inr (x, s') \<Longrightarrow> tx_env s' = tx_env s \<Longrightarrow> proceeds m s"
  by (auto simp: proceeds_def)

lemma proceeds_return [simp]: "proceeds (tx_return x) s"
  by (simp add: proceeds_def tx_return_def)

lemma proceeds_map_err: "proceeds m s \<Longrightarrow> proceeds (tx_map_err f m) s"
  by (auto simp: proceeds_def tx_map_err_def)

lemma proceeds_bind:
  assumes "proceeds m s"
    and "\<And>x s'. m s = Inr (x, s') \<Longrightarrow> tx_env s' = tx_env s \<Longrightarrow> tx_yields m (tx_db s) x (tx_db s') \<Longrightarrow> proceeds (f x) s'"
  shows "proceeds (tx_bind m f) s"
proof -
  obtain x s' where run: "m s = Inr (x, s')" "tx_env s' = tx_env s"
    using assms(1) by (auto simp: proceeds_def)
  then have "tx_yields m (tx_db s) x (tx_db s')"
    by (auto simp: tx_yields_def)
  with run assms(2) obtain y s'' where "f x s' = Inr (y, s'')" "tx_env s'' = tx_env s'"
    by (metis proceeds_def)
  with run show ?thesis by (simp add: proceeds_def tx_bind_def)
qed

lemma proceeds_query: "healthy s \<Longrightarrow> q (tx_db s) = Inr x \<Longrightarrow> proceeds (query q) s"
  by (auto simp: healthy_query intro: proceedsI)

lemma proceeds_execute: "healthy s \<Longrightarrow> w (tx_db s) = Inr d \<Longrightarrow> proceeds (execute w) s"
  by (auto simp: healthy_execute intro: proceedsI)

lemma proceeds_lift: "r = Inr x \<Longrightarrow> proceeds (tx_lift r) s"
  by (simp add: proceeds_def tx_lift_def)

lemma proceeds_bind_query:
  assumes "healthy s" "q (tx_db s) = Inr x" "proceeds (f x) (called 1 (tx_db s) s)"
  shows "proceeds (tx_bind (query q) f) s"
  using assms by (auto simp: healthy_query proceeds_def tx_bind_def)

lemma proceeds_bind_map_query:
  assumes "healthy s" "q (tx_db s) = Inr x" "proceeds (f x) (called 1 (tx_db s) s)"
  shows "proceeds (tx_bind (tx_map_err g (query q)) f) s"
  using assms by (auto simp: healthy_query proceeds_def tx_bind_def tx_map_err_def)

lemma proceeds_bind_lift: "r = Inr x \<Longrightarrow> proceeds (f x) s \<Longrightarrow> proceeds (tx_bind (tx_lift r) f) s"
  by (simp add: proceeds_def tx_bind_def tx_lift_def)

lemma proceeds_random: "supplied (tx_env s) d \<Longrightarrow> proceeds tx_random_id s"
  by (auto simp: supplied_def proceeds_def tx_random_id_def)

lemma random_fresh:
  assumes "tx_random_id s = Inr (i, s')" "supplied (tx_env s) d"
  shows "\<not> transaction_exists (as_bytes i) d"
proof -
  obtain j where "id_new (env_random (tx_env s) (tx_draws s)) = Inr j" "\<not> transaction_exists (as_bytes j) d"
    using assms(2) by (auto simp: supplied_def)
  with assms(1) show ?thesis by (simp add: tx_random_id_def)
qed

section \<open>The plans go through\<close>

lemma proceeds_plan_maintenance:
  assumes "healthy s" "rows_ok (tx_db s)"
  shows "proceeds (plan_maintenance req) s"
proof -
  have "map_result row_to_job (expired_rows req (tx_db s)) = Inr (map decoded_job (expired_rows req (tx_db s)))"
    using assms(2) by (intro map_result_row_to_job) (auto simp: rows_ok_def dest!: expired_rows_job)
  then show ?thesis
    unfolding plan_maintenance_def expired_rows_def
    by (intro proceeds_bind_query [OF assms(1) refl] proceeds_bind_lift) simp_all
qed

lemma proceeds_partition_head:
  assumes "healthy s" "rows_ok (tx_db s)"
  shows "proceeds (partition_head q p) s"
proof -
  let ?rows = "sort_key jobs_enqueue_sequence (filter (is_active_in q p) (jobs (tx_db s)))"
  have "job_row_ok r" if "r \<in> set (sql_limit (I64 1) ?rows)" for r
    using that assms(2) set_sql_limit by (fastforce simp: rows_ok_def)
  then obtain x where "map_transpose row_to_job (case sql_limit (I64 1) ?rows of [] \<Rightarrow> None | r # _ \<Rightarrow> Some r) = Inr x"
    by (cases "sql_limit (I64 1) ?rows") (auto simp: row_to_job_ok)
  then show ?thesis
    unfolding partition_head_def
    by (intro proceeds_bind_query [OF assms(1) refl] proceeds_lift)
qed

lemma proceeds_lease_loop:
  assumes "healthy s" "rows_ok (tx_db s)" "supplied (tx_env s) d"
  shows "proceeds (lease_loop req leases last_leased ps) s"
  using assms
proof (induction ps arbitrary: leases last_leased s)
  case Nil
  then show ?case by simp
next
  case (Cons p ps)
  note loop = Cons.IH
  have "proceeds (tx_bind (tx_map_err Error_Storage (partition_head (req_queue req) p)) (\<lambda>head.
        case head of
          None \<Rightarrow> lease_loop req leases last_leased ps
        | Some job \<Rightarrow>
            if \<not> job_ready (req_now_ms req) job then lease_loop req leases last_leased ps
            else tx_bind tx_random_id (\<lambda>token.
              lease_loop req (leases @ [\<lparr>lease_job = job, lease_lease_token = token\<rparr>]) (Some p) ps))) s"
  proof (rule proceeds_bind)
    show "proceeds (tx_map_err Error_Storage (partition_head (req_queue req) p)) s"
      using Cons.prems by (intro proceeds_map_err proceeds_partition_head)
    fix head and s' :: tx_state assume "tx_env s' = tx_env s" "tx_yields (tx_map_err Error_Storage (partition_head (req_queue req) p))
      (tx_db s) head (tx_db s')"
    then have "tx_env s' = tx_env s" "tx_db s' = tx_db s"
      using partition_head_yields [OF yields_map_err Cons.prems(2)] by blast+
    then have s': "healthy s'" "rows_ok (tx_db s')" "supplied (tx_env s') d"
      using Cons.prems by (simp_all add: healthy_def)
    moreover have "proceeds (tx_bind tx_random_id (\<lambda>token.
        lease_loop req (leases @ [\<lparr>lease_job = job, lease_lease_token = token\<rparr>]) (Some p) ps)) s'" for job
    proof (rule proceeds_bind)
      show "proceeds tx_random_id s'"
        using s'(3) by (rule proceeds_random)
      fix token and s'' :: tx_state assume "tx_env s'' = tx_env s'" "tx_yields tx_random_id (tx_db s') token (tx_db s'')"
      then have "tx_env s'' = tx_env s'" "tx_db s'' = tx_db s'"
        using yields_random_id by blast+
      then show "proceeds (lease_loop req (leases @ [\<lparr>lease_job = job, lease_lease_token = token\<rparr>]) (Some p) ps) s''"
        using s' by (intro loop) (simp_all add: healthy_def)
    qed
    ultimately show "proceeds (case head of
          None \<Rightarrow> lease_loop req leases last_leased ps
        | Some job \<Rightarrow>
            if \<not> job_ready (req_now_ms req) job then lease_loop req leases last_leased ps
            else tx_bind tx_random_id (\<lambda>token.
              lease_loop req (leases @ [\<lparr>lease_job = job, lease_lease_token = token\<rparr>]) (Some p) ps)) s'"
      using loop by (simp split: option.split)
  qed
  then show ?case by simp
qed

lemma proceeds_plan_leases:
  assumes "healthy s" "rows_ok (tx_db s)" "supplied (tx_env s) d"
  shows "proceeds (plan_leases req) s"
proof (cases "req_limit req = 0")
  case False
  have loop: "proceeds (lease_loop req [] None ps) (called 1 (tx_db s) (called 1 (tx_db s) s))" for ps
    by (rule proceeds_lease_loop) (use assms in simp_all)
  show ?thesis
    unfolding plan_leases_def if_not_P [OF False]
    apply (rule proceeds_bind_map_query [OF assms(1)], rule refl)
    apply (rule proceeds_bind_map_query, use assms(1) in simp, rule refl)
    using loop by simp
qed (simp add: plan_leases_def)

section \<open>The changes go through\<close>

lemma proceeds_insert_claim:
  assumes "healthy s" "transactions_ok (tx_db s)" "\<not> transaction_exists (as_bytes t) (tx_db s)"
    and "length (transactions (tx_db s)) < 2 ^ 63 - 1"
  shows "proceeds (insert_claim_transaction t req n) s"
proof -
  let ?d = "tx_db s"
  have numbered: "numbered (map tx_transaction_sequence (transactions ?d))"
    using assms(2) by (simp add: transactions_ok_def)
  let ?n = "i64_of_int (int (length (transactions ?d)) + 1)"
  have n: "i64_int ?n = int (length (transactions ?d)) + 1"
    using assms(4) by (intro i64_int_of_int) (simp add: i64_in_range_def)
  then have seq: "sql_max_plus_one (map tx_transaction_sequence (transactions ?d)) = Inr ?n"
    using sql_max_plus_one_numbered [OF numbered] by simp
  have "?n \<notin> tx_transaction_sequence ` set (transactions ?d)"
    using numbered_set [OF numbered, of ?n] n by auto
  then have "insert_transactions (claim_transaction_row t req n ?n) ?d =
      Inr (?d\<lparr>transactions := transactions ?d @ [claim_transaction_row t req n ?n]\<rparr>)"
    using assms(3) by (simp add: insert_transactions_Inr claim_transaction_row_def)
  then show ?thesis
    unfolding insert_claim_transaction_def next_transaction_sequence_def
    using assms(1) seq by (intro proceeds_bind_query proceeds_execute) simp_all
qed

lemma find_job_by_id:
  assumes "rows_ok d" "r \<in> set (jobs d)" "as_bytes i = jobs_job_id r"
  shows "find_job i d = Some r"
  unfolding find_job_def
  by (rule find_Some_iff_distinct [THEN iffD2]) (use assms in \<open>auto simp: rows_ok_def\<close>)

lemma proceeds_perform_maintenance:
  assumes "healthy s" "rows_ok (tx_db s)" "r \<in> set (jobs (tx_db s))" "state_of r = Leased"
  shows "proceeds (perform_maintenance req t (maintenance_of r)) s"
proof -
  let ?to = "maintenance_target (decoded_job r)" and ?i = "row_job_id (decoded_job r)"
  have row: "job_row_ok r"
    using assms(2, 3) by (simp add: rows_ok_def)
  have find: "find_job ?i (tx_db s) = Some r"
    using assms(2, 3) as_bytes_row_job_id [OF row] by (rule find_job_by_id)
  have change: "proceeds (case ?to of
      Dead \<Rightarrow> set_terminal (decoded_job r) Dead (req_now_ms req) t None (Some ''lease expired at final attempt'')
    | to \<Rightarrow> set_nonterminal ?i to None t) s"
    using maintenance_target_cases [of "decoded_job r"]
  proof (elim disjE conjE)
    assume to: "?to = Dead"
    have "proceeds (set_terminal (decoded_job r) Dead (req_now_ms req) t None
        (Some ''lease expired at final attempt'')) s"
      by (rule proceedsI, rule set_terminal_result [OF assms(1, 2) find]) simp_all
    with to show ?thesis by simp
  next
    assume to: "?to = Uncertain"
    have "proceeds (set_nonterminal ?i Uncertain None t) s"
      by (rule proceedsI, rule set_nonterminal_result [OF assms(1, 2) find]) (simp_all add: assms(4))
    with to show ?thesis by simp
  next
    assume to: "?to = Pending"
    have "proceeds (set_nonterminal ?i Pending None t) s"
      by (rule proceedsI, rule set_nonterminal_result [OF assms(1, 2) find]) (simp_all add: assms(4))
    with to show ?thesis by simp
  qed
  have "ensure_transition (decoded_job r) ?to = Inr ()"
    using maintenance_target_cases [of "decoded_job r"] assms(4) by (auto simp: ensure_transition_def ensure_def)
  then have "tx_map_err error_to_claim (tx_lift (ensure_transition (decoded_job r) ?to)) s = Inr ((), s)"
    by (simp add: tx_map_err_def lift_simps)
  then show ?thesis
    unfolding perform_maintenance_def maintenance_of_def maintenance_action.select_convs
    using change by (simp only: proceeds_def bind_cases(1)) (simp only: proceeds_def [symmetric] proceeds_map_err)
qed


lemma proceeds_for_maintenance:
  assumes "healthy s" "jobs_ok (tx_db s)" "distinct (map jobs_job_id rows)"
    and "\<forall>r \<in> set rows. r \<in> set (jobs (tx_db s)) \<and> state_of r = Leased"
  shows "proceeds (tx_for_each (perform_maintenance req t) (map maintenance_of rows)) s"
  using assms
proof (induction rows arbitrary: s)
  case Nil
  then show ?case by simp
next
  case (Cons r rows)
  note loop = Cons.IH
  have r: "r \<in> set (jobs (tx_db s))" "state_of r = Leased" "rows_ok (tx_db s)" "job_row_ok r"
    using Cons.prems jobs_ok_rows by (auto simp: rows_ok_def)
  have "proceeds (tx_bind (perform_maintenance req t (maintenance_of r))
      (\<lambda>_. tx_for_each (perform_maintenance req t) (map maintenance_of rows))) s"
  proof (rule proceeds_bind)
    show "proceeds (perform_maintenance req t (maintenance_of r)) s"
      using Cons.prems(1) r(3, 1, 2) by (rule proceeds_perform_maintenance)
    fix u and s' :: tx_state
    assume env: "tx_env s' = tx_env s"
      and run: "tx_yields (perform_maintenance req t (maintenance_of r)) (tx_db s) u (tx_db s')"
    have d: "tx_db s' = maintained req t r (tx_db s)"
      using run r(4) by (rule perform_maintenance_yields)
    show "proceeds (tx_for_each (perform_maintenance req t) (map maintenance_of rows)) s'"
    proof (rule loop)
      show "healthy s'"
        using Cons.prems(1) env by (simp add: healthy_def)
      show "jobs_ok (tx_db s')"
        unfolding d using Cons.prems(2) r(1, 2) by (rule jobs_ok_maintained)
      show "distinct (map jobs_job_id rows)"
        using Cons.prems(3) by simp
      show "\<forall>x \<in> set rows. x \<in> set (jobs (tx_db s')) \<and> state_of x = Leased"
      proof
        fix x assume x: "x \<in> set rows"
        have "jobs_job_id x \<noteq> jobs_job_id r"
          using Cons.prems(3) imageI [OF x, of jobs_job_id] by auto
        then show "x \<in> set (jobs (tx_db s')) \<and> state_of x = Leased"
          using x Cons.prems(4) changes_job_other [OF changes_job_maintained] by (simp add: d)
      qed
    qed
  qed
  then show ?case by simp
qed

lemma proceeds_grant_lease:
  assumes "healthy s" "jobs_ok (tx_db s)" "fits (tx_db s) q p l" "transaction_exists (as_bytes t) (tx_db s)"
    and "\<not> (\<exists>c \<in> set (claim_receipts (tx_db s)). cr_transaction_id c = as_bytes t \<and>
          cr_job_id c = as_bytes (row_job_id (lease_job l)))"
  shows "proceeds (grant_lease req ex t cl l) s"
proof -
  let ?d = "tx_db s" and ?i = "as_bytes (row_job_id (lease_job l))"
  obtain r rest where part: "partition_jobs (jobs ?d) q p = r # rest" and l: "lease_job l = decoded_job r"
    and state: "state_of r = Pending \<or> state_of r = RetryWait"
    using assms(3) by (auto simp: fits_def)
  have rows: "rows_ok ?d" and r: "r \<in> set (jobs ?d)"
    using assms(2) jobs_ok_rows partition_head_job(1) [OF part] by blast+
  have row: "job_row_ok r"
    using rows r by (simp add: rows_ok_def)
  have "jobs_attempt r < jobs_max_attempts r"
    using row state by (auto simp: job_row_ok_def)
  then have "jobs_check (grant_row req ex t l r)"
    using job_row_ok_grant [OF row _ l] state by (auto simp: job_row_ok_def)
  then have "update_job ?i (grant_row req ex t l) ?d = Inr (set_job ?i (grant_row req ex t l) ?d)"
    using update_job_ok [OF rows r] l as_bytes_row_job_id [OF row] by simp
  moreover have "insert_claim_receipts (receipt_of req ex t l) (set_job ?i (grant_row req ex t l) ?d) =
      Inr (granted req ex t l ?d)"
    using assms(4, 5) by (simp add: insert_claim_receipts_def receipt_of_def granted_def ensure_def)
  ultimately show ?thesis
    using assms(1) unfolding grant_lease_def Let_def grant_row_def receipt_of_def
    by (auto simp: proceeds_def tx_map_err_def tx_bind_def healthy_execute lift_simps)
qed


lemma fits_granted:
  assumes "jobs_ok d" "fits d q p l" "p \<notin> set ps" "list_all2 (fits d q) ps leases"
  shows "list_all2 (fits (granted req ex t l d) q) ps leases"
  using assms(4)
proof (rule list.rel_mono_strong)
  obtain r tail where part: "partition_jobs (jobs d) q p = r # tail" and l: "lease_job l = decoded_job r"
    using assms(2) by (auto simp: fits_def)
  note r = partition_head_job [OF part]
  have rows: "rows_ok d"
    using assms(1) by (rule jobs_ok_rows)
  have i: "jobs_job_id r = as_bytes (row_job_id (lease_job l))"
    using rows r(1) l by (simp add: rows_ok_def as_bytes_row_job_id)
  fix p' l' assume "p' \<in> set ps" "fits d q p' l'"
  moreover from this have "p' \<noteq> p"
    using assms(3) by auto
  ultimately show "fits (granted req ex t l d) q p' l'"
    using fits_other [OF _ changes_job_granted rows r(1) i] r(2, 3) by simp
qed

lemma proceeds_fold_grants:
  assumes "healthy s" "jobs_ok (tx_db s)" "distinct ps" "list_all2 (fits (tx_db s) q) ps leases"
    and "transaction_exists (as_bytes t) (tx_db s)" "distinct (map lease_id leases)"
    and "\<forall>c \<in> set (claim_receipts (tx_db s)). cr_transaction_id c = as_bytes t \<longrightarrow> cr_job_id c \<notin> lease_id ` set leases"
  shows "proceeds (tx_fold (grant_lease req ex t) cl leases) s"
  using assms
proof (induction leases arbitrary: cl s ps)
  case Nil
  then show ?case by simp
next
  case (Cons l leases)
  note loop = Cons.IH
  obtain p ps' where ps: "ps = p # ps'" and fits: "fits (tx_db s) q p l" "list_all2 (fits (tx_db s) q) ps' leases"
    using Cons.prems(4) by (auto simp: list_all2_Cons2)
  have "proceeds (tx_bind (grant_lease req ex t cl l) (\<lambda>cl. tx_fold (grant_lease req ex t) cl leases)) s"
  proof (rule proceeds_bind)
    show "proceeds (grant_lease req ex t cl l) s"
      using Cons.prems(1, 2) fits(1) Cons.prems(5)
      by (rule proceeds_grant_lease) (use Cons.prems(7) in \<open>auto simp: lease_id_def\<close>)
    fix cl' and s' :: tx_state
    assume env: "tx_env s' = tx_env s" and run: "tx_yields (grant_lease req ex t cl l) (tx_db s) cl' (tx_db s')"
    note g = grant_lease_yields [OF run]
    show "proceeds (tx_fold (grant_lease req ex t) cl' leases) s'"
    proof (rule loop)
      show "healthy s'"
        using Cons.prems(1) env by (simp add: healthy_def)
      show "jobs_ok (tx_db s')"
        unfolding g(2) using Cons.prems(2) fits(1) g(4, 3) by (rule jobs_ok_granted)
      show "distinct ps'" "distinct (map lease_id leases)"
        using Cons.prems(3, 6) ps by simp_all
      show "list_all2 (fits (tx_db s') q) ps' leases"
        unfolding g(2) using Cons.prems(2) fits(1) _ fits(2)
        by (rule fits_granted) (use Cons.prems(3) ps in simp)
      show "transaction_exists (as_bytes t) (tx_db s')"
        using Cons.prems(5) by (simp add: g(2))
      show "\<forall>c \<in> set (claim_receipts (tx_db s')). cr_transaction_id c = as_bytes t \<longrightarrow> cr_job_id c \<notin> lease_id ` set leases"
        using Cons.prems(6, 7) by (auto simp: g(2) granted_def receipt_of_def lease_id_def)
    qed
  qed
  then show ?case by simp
qed

lemma proceeds_advance_cursor: "healthy s \<Longrightarrow> proceeds (advance_cursor req last_leased) s"
  by (auto simp: advance_cursor_def intro!: proceeds_map_err proceeds_execute split: option.split)


lemma insert_claim_yields:
  assumes "tx_yields (insert_claim_transaction t req n) d u d'"
  obtains seq where "d' = claim_inserted req t n seq d"
  using assms unfolding insert_claim_transaction_def next_transaction_sequence_def
  by (auto simp: insert_transactions_Inr claim_inserted_def dest!: yields)

text \<open>The leases still fit after the maintenance, and no receipt has the new transaction ID.\<close>

lemma fits_after_maintenance:
  assumes "jobs_ok d" "list_all2 (leaseable req d) ps leases"
    and "\<And>p. \<forall>r \<in> set (expired_rows req d). (jobs_queue r, jobs_partition_key r) \<noteq> (req_queue req, p) \<Longrightarrow>
      partition_jobs (jobs d') (req_queue req) p = partition_jobs (jobs d) (req_queue req) p"
  shows "list_all2 (fits d' (req_queue req)) ps leases"
  using assms(2)
proof (rule list_all2_mono)
  fix p l assume "leaseable req d p l"
  then have fits: "fits d (req_queue req) p l"
    by (rule leaseable_fits)
  then have "\<forall>r \<in> set (expired_rows req d). (jobs_queue r, jobs_partition_key r) \<noteq> (req_queue req, p)"
    using expired_not_leaseable [OF assms(1)] by blast
  from assms(3) [OF this] fits show "fits d' (req_queue req) p l"
    by (simp add: fits_def)
qed

lemma fold_maintained_tables:
  "transactions (fold (maintained req t) rows d) = transactions d"
  "claim_receipts (fold (maintained req t) rows d) = claim_receipts d"
  by (induction rows arbitrary: d) simp_all

lemma proceeds_claim_changes:
  assumes "healthy s" "tx_db s = d" "db_ok d" "\<not> transaction_exists (as_bytes t) d"
    and "length (transactions d) < 2 ^ 63 - 1" "list_all2 (leaseable req d) (leased_partitions req d) leases"
  shows "proceeds (tx_bind (tx_map_err ClaimError_Storage (insert_claim_transaction t req n)) (\<lambda>_.
     tx_bind (tx_for_each (perform_maintenance req t) (map maintenance_of (expired_rows req d))) (\<lambda>_.
     tx_bind (tx_fold (grant_lease req ex t) [] leases) (\<lambda>claimed.
     tx_bind (advance_cursor req last_leased) (\<lambda>_. tx_return (To_Commit (t, claimed))))))) s"
proof (rule proceeds_bind)
  let ?rows = "expired_rows req d" and ?ps = "leased_partitions req d"
  have jobs: "jobs_ok d" "rows_ok d" "partitions_ok d" "receipts_ok d"
    using assms(3) by (simp_all add: db_ok_def jobs_ok_def)
  then have distinct: "distinct ?ps"
    by (intro distinct_leased_partitions)
  show "proceeds (tx_map_err ClaimError_Storage (insert_claim_transaction t req n)) s"
    using assms(1-5) by (intro proceeds_map_err proceeds_insert_claim) (simp_all add: db_ok_def)
  fix u1 and s1 :: tx_state
  assume env1: "tx_env s1 = tx_env s"
    and "tx_yields (tx_map_err ClaimError_Storage (insert_claim_transaction t req n)) (tx_db s) u1 (tx_db s1)"
  then obtain seq where d1: "tx_db s1 = claim_inserted req t n seq d"
    using insert_claim_yields yields_map_err assms(2) by metis
  have ok1: "jobs_ok (tx_db s1)" and jobs1: "jobs (tx_db s1) = jobs d"
    using jobs(1) jobs_ok_transactions by (simp_all add: d1 claim_inserted_def)
  have leased: "\<forall>r \<in> set ?rows. r \<in> set (jobs (tx_db s1)) \<and> state_of r = Leased"
    unfolding jobs1 using expired_rows_job expired_rows_leased [OF jobs(2)] by blast
  show "proceeds (tx_bind (tx_for_each (perform_maintenance req t) (map maintenance_of ?rows)) (\<lambda>_.
     tx_bind (tx_fold (grant_lease req ex t) [] leases) (\<lambda>claimed.
     tx_bind (advance_cursor req last_leased) (\<lambda>_. tx_return (To_Commit (t, claimed)))))) s1"
  proof (rule proceeds_bind)
    show "proceeds (tx_for_each (perform_maintenance req t) (map maintenance_of ?rows)) s1"
      using healthy_env [OF env1] assms(1) by (intro proceeds_for_maintenance [OF _ ok1 distinct_expired_rows [OF jobs(2)] leased]) simp
    fix u2 and s2 :: tx_state
    assume env2: "tx_env s2 = tx_env s1"
      and run2: "tx_yields (tx_for_each (perform_maintenance req t) (map maintenance_of ?rows)) (tx_db s1) u2 (tx_db s2)"
    note main = perform_all_maintenance [OF run2 ok1 distinct_expired_rows [OF jobs(2)] leased]
    have d2: "tx_db s2 = fold (maintained req t) ?rows (claim_inserted req t n seq d)"
      and ok2: "jobs_ok (tx_db s2)"
      using main unfolding d1 by blast+
    have "partition_jobs (jobs (tx_db s2)) (req_queue req) p = partition_jobs (jobs d) (req_queue req) p"
      if "\<forall>r \<in> set ?rows. (jobs_queue r, jobs_partition_key r) \<noteq> (req_queue req, p)" for p
      using main that unfolding jobs1 by blast
    note fits = fits_after_maintenance [OF jobs(1) assms(6) this]
    have new: "transaction_exists (as_bytes t) (tx_db s2)"
      by (simp add: d2 fold_maintained_tables transaction_exists_def claim_inserted_def claim_transaction_row_def)
    have fresh: "\<forall>c \<in> set (claim_receipts (tx_db s2)). cr_transaction_id c = as_bytes t \<longrightarrow>
        cr_job_id c \<notin> lease_id ` set leases"
      using jobs(4) assms(4) by (auto simp: d2 fold_maintained_tables claim_inserted_def receipts_ok_def)
    have healthy: "healthy s2"
      using assms(1) env1 env2 by (simp add: healthy_def)
    show "proceeds (tx_bind (tx_fold (grant_lease req ex t) [] leases) (\<lambda>claimed.
       tx_bind (advance_cursor req last_leased) (\<lambda>_. tx_return (To_Commit (t, claimed))))) s2"
    proof (rule proceeds_bind)
      show "proceeds (tx_fold (grant_lease req ex t) [] leases) s2"
        using healthy ok2 distinct fits new distinct_lease_ids [OF assms(6) distinct jobs(2)] fresh
        by (rule proceeds_fold_grants)
      fix claimed and s3 :: tx_state assume "tx_env s3 = tx_env s2"
      then have "healthy s3"
        using healthy by (simp add: healthy_def)
      then show "proceeds (tx_bind (advance_cursor req last_leased) (\<lambda>_. tx_return (To_Commit (t, claimed)))) s3"
        by (intro proceeds_bind proceeds_advance_cursor) simp_all
    qed
  qed
qed


lemma proceeds_claim_body:
  assumes "healthy s" "tx_db s = d" "db_ok d" "supplied (tx_env s) d" "length (transactions d) < 2 ^ 63 - 1"
  shows "proceeds (claim_body req ex) s"
  unfolding claim_body_def
proof (rule proceeds_bind)
  have rows: "rows_ok d"
    using assms(3) by (simp add: db_ok_def jobs_ok_def)
  show "proceeds (tx_map_err ClaimError_Storage (plan_maintenance req)) s"
    using assms(1, 2) rows by (intro proceeds_map_err proceeds_plan_maintenance) simp_all
  fix ms and s1 :: tx_state
  assume env1: "tx_env s1 = tx_env s"
    and "tx_yields (tx_map_err ClaimError_Storage (plan_maintenance req)) (tx_db s) ms (tx_db s1)"
  then have ms: "ms = map maintenance_of (expired_rows req d)" and d1: "tx_db s1 = d"
    using plan_maintenance_yields [OF yields_map_err] rows assms(2) by blast+
  have s1: "healthy s1" "supplied (tx_env s1) d"
    using assms(1, 4) env1 by (simp_all add: healthy_def)
  show "proceeds (tx_bind (tx_map_err error_to_claim (plan_leases req)) (\<lambda>(leases, last_leased).
     if ms = [] \<and> leases = [] then tx_return (Roll_Back ())
     else
     tx_bind (tx_map_err error_to_claim tx_random_id) (\<lambda>transaction_id.
     tx_bind (tx_map_err ClaimError_Storage (insert_claim_transaction transaction_id req
       (length ms + length leases))) (\<lambda>_.
     tx_bind (tx_for_each (perform_maintenance req transaction_id) ms) (\<lambda>_.
     tx_bind (tx_fold (grant_lease req ex transaction_id) [] leases) (\<lambda>claimed.
     tx_bind (advance_cursor req last_leased) (\<lambda>_.
     tx_return (To_Commit (transaction_id, claimed)))))))) ) s1"
  proof (rule proceeds_bind)
    show "proceeds (tx_map_err error_to_claim (plan_leases req)) s1"
      using s1 rows d1 by (intro proceeds_map_err proceeds_plan_leases) simp_all
    fix plan and s2 :: tx_state
    assume env2: "tx_env s2 = tx_env s1"
      and run: "tx_yields (tx_map_err error_to_claim (plan_leases req)) (tx_db s1) plan (tx_db s2)"
    obtain leases last_leased where plan: "plan = (leases, last_leased)"
      by (cases plan)
    have leases: "list_all2 (leaseable req d) (leased_partitions req d) leases" and d2: "tx_db s2 = d"
      using plan_leases_yields [OF yields_map_err [OF run]] rows by (simp_all add: d1 plan)
    have "proceeds (tx_bind (tx_map_err error_to_claim tx_random_id) (\<lambda>t.
     tx_bind (tx_map_err ClaimError_Storage (insert_claim_transaction t req n)) (\<lambda>_.
     tx_bind (tx_for_each (perform_maintenance req t) (map maintenance_of (expired_rows req d))) (\<lambda>_.
     tx_bind (tx_fold (grant_lease req ex t) [] leases) (\<lambda>claimed.
     tx_bind (advance_cursor req last_leased) (\<lambda>_. tx_return (To_Commit (t, claimed) :: (unit, id \<times> claimed_job list) tx_end))))))) s2" for n
    proof (rule proceeds_bind)
      show "proceeds (tx_map_err error_to_claim tx_random_id) s2"
        using s1(2) env2 by (intro proceeds_map_err proceeds_random) simp
      fix t and s3 :: tx_state
      assume draw: "tx_map_err error_to_claim tx_random_id s2 = Inr (t, s3)" and env3: "tx_env s3 = tx_env s2"
        and "tx_yields (tx_map_err error_to_claim tx_random_id) (tx_db s2) t (tx_db s3)"
      then have "tx_db s3 = d"
        using yields_random_id [OF yields_map_err] d2 by blast
      moreover have "tx_random_id s2 = Inr (t, s3)"
        using draw by (cases "tx_random_id s2") (simp_all add: tx_map_err_def)
      then have "\<not> transaction_exists (as_bytes t) d"
        by (rule random_fresh) (simp add: env2 s1(2))
      moreover have "healthy s3"
        using s1(1) env2 env3 by (simp add: healthy_def)
      ultimately show "proceeds (tx_bind (tx_map_err ClaimError_Storage (insert_claim_transaction t req n)) (\<lambda>_.
     tx_bind (tx_for_each (perform_maintenance req t) (map maintenance_of (expired_rows req d))) (\<lambda>_.
     tx_bind (tx_fold (grant_lease req ex t) [] leases) (\<lambda>claimed.
     tx_bind (advance_cursor req last_leased) (\<lambda>_. tx_return (To_Commit (t, claimed) :: (unit, id \<times> claimed_job list) tx_end)))))) s3"
        using assms(3, 5) leases by (intro proceeds_claim_changes)
    qed
    then show "proceeds (case plan of (leases, last_leased) \<Rightarrow>
     if ms = [] \<and> leases = [] then tx_return (Roll_Back ())
     else
     tx_bind (tx_map_err error_to_claim tx_random_id) (\<lambda>transaction_id.
     tx_bind (tx_map_err ClaimError_Storage (insert_claim_transaction transaction_id req
       (length ms + length leases))) (\<lambda>_.
     tx_bind (tx_for_each (perform_maintenance req transaction_id) ms) (\<lambda>_.
     tx_bind (tx_fold (grant_lease req ex transaction_id) [] leases) (\<lambda>claimed.
     tx_bind (advance_cursor req last_leased) (\<lambda>_.
     tx_return (To_Commit (transaction_id, claimed)))))))) s2"
      by (simp add: plan ms)
  qed
qed


section \<open>A claim in good conditions\<close>

text \<open>Nothing fails, COMMIT is durable and reported, and the generator draws unused numbers.\<close>

definition all_well :: "env \<Rightarrow> db \<Rightarrow> bool" where
  "all_well e d \<longleftrightarrow> env_begin e = None \<and> (\<forall>n. env_fault e n = None) \<and> \<not> env_read_only e \<and>
     env_commit e = Commit_Ok \<and> \<not> env_failpoint e \<and> supplied e d"

text \<open>The job at the head of its partition is ready.\<close>

definition ready_head :: "claim_request \<Rightarrow> db \<Rightarrow> jobs_row \<Rightarrow> bool" where
  "ready_head req d r \<longleftrightarrow> r \<in> set (jobs d) \<and> jobs_queue r = req_queue req \<and>
     job_ready (req_now_ms req) (decoded_job r) \<and>
     (\<forall>x \<in> set (jobs d). is_active_in (jobs_queue r) (jobs_partition_key r) x \<longrightarrow>
        jobs_enqueue_sequence r \<le> jobs_enqueue_sequence x)"

definition ready_partitions :: "claim_request \<Rightarrow> db \<Rightarrow> string set" where
  "ready_partitions req d = jobs_partition_key ` {r \<in> set (jobs d). ready_head req d r}"

lemma claim_goes_through:
  assumes "all_well e d" "db_ok d" "validate_claim req = Inr ex" "length (transactions d) < 2 ^ 63 - 1"
  obtains out d' where "claim_jobs e req d = (Inr out, d')"
proof -
  have "healthy (tx_start e d)" "tx_db (tx_start e d) = d" "supplied (tx_env (tx_start e d)) d"
    using assms(1) by (simp_all add: all_well_def healthy_def tx_start_def)
  from proceeds_claim_body [OF this(1, 2) assms(2) this(3) assms(4), of req ex]
  obtain res s where "claim_body req ex (tx_start e d) = Inr (res, s)"
    by (auto simp: proceeds_def)
  then show thesis
    using assms(1, 3) that by (cases res) (auto simp: claim_jobs_def run_tx_def all_well_def)
qed

lemma ready_head_iff:
  assumes "rows_ok d" "jobs_queue r = req_queue req" "jobs_partition_key r = p"
  shows "ready_head req d r \<longleftrightarrow> (\<exists>rest. partition_jobs (jobs d) (req_queue req) p = r # rest) \<and>
    job_ready (req_now_ms req) (decoded_job r)"
proof
  assume r: "ready_head req d r"
  then have job: "r \<in> set (jobs d)" "job_row_ok r" and ready: "job_ready (req_now_ms req) (decoded_job r)"
    using assms(1) by (simp_all add: ready_head_def rows_ok_def)
  have "is_active_in (req_queue req) p r"
    using jobs_state_encode [OF job(2)] job_ready_state [OF ready] assms(2, 3)
    by (auto simp: is_active_in_def active_states_sql_def)
  then have r_in: "r \<in> set (partition_jobs (jobs d) (req_queue req) p)"
    using job(1) by (simp add: partition_jobs_def)
  then obtain h rest where part: "partition_jobs (jobs d) (req_queue req) p = h # rest"
    by (cases "partition_jobs (jobs d) (req_queue req) p") auto
  have h: "h \<in> set (jobs d)" "is_active_in (req_queue req) p h"
    using arg_cong [OF part, of set] by (auto simp: partition_jobs_def)
  have "jobs_enqueue_sequence r \<le> jobs_enqueue_sequence h"
    using r h assms(2, 3) by (simp add: ready_head_def)
  moreover have "jobs_enqueue_sequence h \<le> jobs_enqueue_sequence r"
    using part assms(1) job(1) \<open>is_active_in (req_queue req) p r\<close> by (rule partition_head_first)
  ultimately have "r = h"
    using numbered_find [of jobs_enqueue_sequence "jobs d"] job(1) h(1) assms(1) by (simp add: rows_ok_def)
  with part ready show "(\<exists>rest. partition_jobs (jobs d) (req_queue req) p = r # rest) \<and>
      job_ready (req_now_ms req) (decoded_job r)" by blast
next
  assume "(\<exists>rest. partition_jobs (jobs d) (req_queue req) p = r # rest) \<and> job_ready (req_now_ms req) (decoded_job r)"
  then obtain rest where part: "partition_jobs (jobs d) (req_queue req) p = r # rest"
    and ready: "job_ready (req_now_ms req) (decoded_job r)"
    by blast
  then show "ready_head req d r"
    using partition_head_first [OF part assms(1)] partition_head_job(1) [OF part] assms(2, 3)
    by (simp add: ready_head_def)
qed


text \<open>So the partitions of the round that a claim can lease are those with a ready head.\<close>

lemma will_lease_set:
  assumes "jobs_ok d"
  shows "{p \<in> set (queue_partitions (req_queue req) d). will_lease req d p} = ready_partitions req d"
proof (intro set_eqI iffI)
  have rows: "rows_ok d" and parts: "partitions_ok d"
    using assms by (simp_all add: jobs_ok_def)
  fix p
  show "p \<in> ready_partitions req d" if p: "p \<in> {p \<in> set (queue_partitions (req_queue req) d). will_lease req d p}"
  proof -
    obtain r rest where part: "partition_jobs (jobs d) (req_queue req) p = r # rest"
      and "job_ready (req_now_ms req) (decoded_job r)"
      using p by (cases "partition_jobs (jobs d) (req_queue req) p") (auto simp: will_lease_def)
    moreover note head = partition_head_job [OF part]
    ultimately have "ready_head req d r"
      using ready_head_iff [OF rows] by blast
    with head show ?thesis by (auto simp: ready_partitions_def)
  qed
  show "p \<in> {p \<in> set (queue_partitions (req_queue req) d). will_lease req d p}" if p: "p \<in> ready_partitions req d"
  proof -
    obtain r where r: "ready_head req d r" "jobs_partition_key r = p"
      using p by (auto simp: ready_partitions_def)
    then obtain rest where "partition_jobs (jobs d) (req_queue req) p = r # rest"
      "job_ready (req_now_ms req) (decoded_job r)"
      using ready_head_iff [OF rows, of r req p] by (auto simp: ready_head_def)
    moreover from this have "(req_queue req, p) \<in> fst ` set (active_partitions d)"
      using parts by (simp add: partitions_ok_def)
    ultimately show ?thesis by (simp add: will_lease_def queue_partitions_set)
  qed
qed

lemma length_leased_partitions:
  assumes "jobs_ok d"
  shows "length (leased_partitions req d) = min (unat (req_limit req)) (card (ready_partitions req d))"
    and "set (leased_partitions req d) \<subseteq> ready_partitions req d"
proof -
  let ?round = "filter (will_lease req d) (claim_order (flatten (map_of (queue_cursors d) (req_queue req)))
      (queue_partitions (req_queue req) d))"
  have "set ?round = ready_partitions req d"
    using will_lease_set [OF assms, of req] by (simp add: set_claim_order)
  moreover have "distinct ?round"
    using assms by (intro distinct_filter distinct_claim_order distinct_queue_partitions) (simp add: jobs_ok_def)
  ultimately have "length ?round = card (ready_partitions req d)"
    using distinct_card by metis
  then show "length (leased_partitions req d) = min (unat (req_limit req)) (card (ready_partitions req d))"
    by (simp add: leased_partitions_def)
  show "set (leased_partitions req d) \<subseteq> ready_partitions req d"
    using \<open>set ?round = _\<close> set_take_subset unfolding leased_partitions_def by metis
qed

section \<open>Fairness of the round\<close>

text \<open>\<open>precedes xs a b\<close>: \<open>a\<close> stands before \<open>b\<close>.\<close>

definition precedes :: "'a list \<Rightarrow> 'a \<Rightarrow> 'a \<Rightarrow> bool" where
  "precedes xs a b \<longleftrightarrow> (\<exists>us vs. xs = us @ vs \<and> a \<in> set us \<and> b \<in> set vs)"

text \<open>The order of a round that starts after a cursor.\<close>

fun round_before :: "string option \<Rightarrow> string \<Rightarrow> string \<Rightarrow> bool" where
  "round_before None a b \<longleftrightarrow> a < b"
| "round_before (Some c) a b \<longleftrightarrow> c < a \<and> b \<le> c \<or> (c < a \<longleftrightarrow> c < b) \<and> a < b"

lemma sorted_wrt_round:
  assumes "sorted ps" "distinct ps"
  shows "sorted_wrt (round_before c) (claim_order c ps)"
proof -
  have sorted: "sorted_wrt (<) (filter q ps)" for q
    using assms by (simp add: strict_sorted_iff sorted_wrt_filter)
  show ?thesis
  proof (cases c)
    case None
    have "sorted_wrt (round_before c) (filter (\<lambda>_. True) ps)"
      using sorted by (rule sorted_wrt_mono_rel [rotated]) (simp add: None)
    with None show ?thesis by simp
  next
    case (Some x)
    have "sorted_wrt (round_before c) (filter (\<lambda>p. x < p) ps)"
      using sorted by (rule sorted_wrt_mono_rel [rotated]) (simp add: Some)
    moreover have "sorted_wrt (round_before c) (filter (\<lambda>p. p \<le> x) ps)"
      using sorted by (rule sorted_wrt_mono_rel [rotated]) (auto simp: Some)
    ultimately show ?thesis
      using assms(1) by (auto simp: Some claim_order_sorted sorted_wrt_append)
  qed
qed

lemma round_before_precedes:
  assumes "sorted_wrt (round_before c) xs" "a \<in> set xs" "b \<in> set xs" "round_before c a b"
  shows "precedes xs a b"
proof -
  obtain us vs where xs: "xs = us @ a # vs"
    using assms(2) by (meson split_list)
  have asym: "\<not> round_before c b a" "a \<noteq> b"
    using assms(4) by (cases c; auto)+
  then have "b \<in> set vs"
    using assms(1, 3) by (auto simp: xs sorted_wrt_append)
  then show ?thesis
    unfolding precedes_def xs by (intro exI [of _ "us @ [a]"] exI [of _ vs]) simp
qed

text \<open>What was leased goes behind what was passed over: the round moves on from the last one leased.\<close>

lemma round_moves_on:
  assumes "round_before c x p" "round_before c l p" "x = l \<or> round_before c x l"
  shows "round_before (Some l) p x"
  using assms by (cases c) auto


lemma passed_over:
  assumes "jobs_ok d" "p \<in> ready_partitions req d" "p \<notin> set (leased_partitions req d)"
    and "x \<in> set (leased_partitions req d)"
  shows "round_before (Some (last (leased_partitions req d))) p x"
proof -
  let ?c = "flatten (map_of (queue_cursors d) (req_queue req))" and ?n = "unat (req_limit req)"
  let ?order = "claim_order ?c (queue_partitions (req_queue req) d)"
  let ?round = "filter (will_lease req d) ?order" and ?leased = "leased_partitions req d"
  have "sorted (queue_partitions (req_queue req) d)" "distinct (queue_partitions (req_queue req) d)"
    using assms(1) distinct_queue_partitions by (simp_all add: queue_partitions_def jobs_ok_def)
  then have "sorted_wrt (round_before ?c) (take ?n ?round @ drop ?n ?round)"
    by (simp add: sorted_wrt_round sorted_wrt_filter)
  then have order: "sorted_wrt (round_before ?c) ?leased" "\<forall>x \<in> set ?leased. \<forall>y \<in> set (drop ?n ?round). round_before ?c x y"
    unfolding sorted_wrt_append leased_partitions_def by blast+
  have "p \<in> set ?round"
    using assms(1, 2) will_lease_set [of d req] by (auto simp: set_claim_order)
  then have p: "p \<in> set (drop ?n ?round)"
    using assms(3) append_take_drop_id [of ?n ?round] unfolding leased_partitions_def by (metis Un_iff set_append)
  obtain us l where us: "?leased = us @ [l]"
    using assms(4) by (cases ?leased rule: rev_cases) auto
  then have "x = l \<or> round_before ?c x l"
    using assms(4) order(1) by (auto simp: sorted_wrt_append)
  moreover have "round_before ?c x p" "round_before ?c l p"
    using order(2) p assms(4) us by auto
  ultimately show ?thesis
    using round_moves_on us by simp
qed

lemma passed_over_goes_first:
  assumes "jobs_ok d" "p \<in> ready_partitions req d" "p \<notin> set (leased_partitions req d)"
    and "x \<in> set (leased_partitions req d)"
    and "partitions_ok d2" "{p, x} \<subseteq> set (queue_partitions (req_queue req) d2)"
  shows "precedes (claim_order (Some (last (leased_partitions req d))) (queue_partitions (req_queue req) d2)) p x"
  using passed_over [OF assms(1-4)] assms(6) distinct_queue_partitions [OF assms(5)]
  by (intro round_before_precedes [OF sorted_wrt_round]) (auto simp: set_claim_order queue_partitions_def)

end
