(* ===== verification/Migrations.thy ===== *)
theory Migrations
  imports Checksum Database
begin

text \<open>
  Schema migrations, \<open>src/store/migrations.rs\<close>. A database file holds the table
  \<open>schema_migrations\<close> (absent before the first \<open>migrate\<close>) and the tables of one schema: none, those of
  version 1, or those of version 2, which differ in the CHECK constraints of \<open>jobs\<close>. A
  migration is its version, its SQL text (which the checksum is about) and what SQLite does when it
  executes the text. \<open>migrate_env\<close> says which driver calls fail, how each COMMIT ends, and the time.
\<close>

section \<open>The file\<close>

record schema_migrations_row =
  sm_version :: i64
  sm_applied_at_ms :: i64
  sm_checksum :: blob

datatype schema = No_Schema | Schema_V1 db | Schema_V2 db

record db_file =
  schema_migrations :: "schema_migrations_row list option"
  file_schema :: schema

definition empty_file :: db_file where
  "empty_file = \<lparr>schema_migrations = None, file_schema = No_Schema\<rparr>"

text \<open>The contents of the tables; before the first migration there is nothing.\<close>

fun schema_db :: "schema \<Rightarrow> db" where
  "schema_db No_Schema = empty_db"
| "schema_db (Schema_V1 d) = d"
| "schema_db (Schema_V2 d) = d"

section \<open>The migrations of this build\<close>

text \<open>The SQL texts, one statement to a line.\<close>

definition sql_lines :: "string list \<Rightarrow> string" where
  "sql_lines ls = concat (map (\<lambda>l. l @ [CHR 0x0A]) ls)"

definition migration_v1_sql :: string where
  "migration_v1_sql = sql_lines [
     ''CREATE TABLE transactions (transaction_id BLOB PRIMARY KEY, transaction_sequence '' @
       ''INTEGER NOT NULL UNIQUE, committed_at_ms INTEGER NOT NULL, correlation_id BLOB, '' @
       ''metadata BLOB NOT NULL, request_digest BLOB NOT NULL, operation_count INTEGER NOT NULL);'',
     ''CREATE TABLE events (global_sequence INTEGER PRIMARY KEY AUTOINCREMENT, event_id BLOB '' @
       ''NOT NULL UNIQUE, transaction_id BLOB NOT NULL REFERENCES transactions(transaction_id), '' @
       ''stream_id TEXT NOT NULL, stream_version INTEGER NOT NULL, event_type TEXT NOT NULL, '' @
       ''schema_version INTEGER NOT NULL, occurred_at_ms INTEGER NOT NULL, causation_id BLOB, '' @
       ''correlation_id BLOB, payload BLOB NOT NULL, metadata BLOB NOT NULL, UNIQUE(stream_id, '' @
       ''stream_version));'',
     ''CREATE INDEX events_stream_idx ON events(stream_id, stream_version);'',
     ''CREATE INDEX events_transaction_idx ON events(transaction_id);'',
     ''CREATE TABLE streams (stream_id TEXT PRIMARY KEY, current_version INTEGER NOT NULL);'',
     ''CREATE TABLE projection_meta (projection TEXT PRIMARY KEY, version INTEGER NOT NULL);'',
     ''CREATE TABLE projection_entries (projection TEXT NOT NULL REFERENCES '' @
       ''projection_meta(projection) ON DELETE CASCADE, key BLOB NOT NULL, value BLOB NOT NULL, '' @
       ''PRIMARY KEY(projection, key));'',
     ''CREATE TABLE jobs (job_id BLOB PRIMARY KEY, enqueue_sequence INTEGER NOT NULL UNIQUE, '' @
       ''enqueue_transaction_id BLOB NOT NULL REFERENCES transactions(transaction_id), queue '' @
       ''TEXT NOT NULL, partition_key TEXT NOT NULL, payload BLOB NOT NULL, not_before_ms '' @
       ''INTEGER NOT NULL, max_attempts INTEGER NOT NULL, effect_mode INTEGER NOT NULL, '' @
       ''idempotency_key TEXT, state INTEGER NOT NULL, attempt INTEGER NOT NULL, lease_token '' @
       ''BLOB, worker_id TEXT, lease_expires_at_ms INTEGER, retry_after_ms INTEGER, '' @
       ''terminal_at_ms INTEGER, result_digest BLOB, error_summary TEXT, updated_transaction_id '' @
       ''BLOB NOT NULL);'',
     ''CREATE INDEX jobs_ready_idx ON jobs(queue, partition_key, state, not_before_ms, '' @
       ''enqueue_sequence);'',
     ''CREATE INDEX jobs_expiry_idx ON jobs(state, lease_expires_at_ms);'',
     ''CREATE INDEX jobs_queue_state_idx ON jobs(queue, state);'',
     ''CREATE INDEX jobs_transaction_idx ON jobs(updated_transaction_id);'',
     ''CREATE TABLE queue_cursors (queue TEXT PRIMARY KEY, last_partition_key TEXT);'',
     ''CREATE TABLE active_partitions (queue TEXT NOT NULL, partition_key TEXT NOT NULL, '' @
       ''first_active_sequence INTEGER NOT NULL, PRIMARY KEY(queue, partition_key));'',
     ''CREATE TABLE claim_receipts (transaction_id BLOB NOT NULL REFERENCES '' @
       ''transactions(transaction_id), job_id BLOB NOT NULL, lease_token BLOB NOT NULL, attempt '' @
       ''INTEGER NOT NULL, worker_id TEXT NOT NULL, lease_expires_at_ms INTEGER NOT NULL, '' @
       ''PRIMARY KEY(transaction_id, job_id));'']"

definition migration_v2_sql :: string where
  "migration_v2_sql = sql_lines [
     ''CREATE TABLE jobs_v2 (job_id BLOB PRIMARY KEY, enqueue_sequence INTEGER NOT NULL '' @
       ''UNIQUE, enqueue_transaction_id BLOB NOT NULL REFERENCES transactions(transaction_id), '' @
       ''queue TEXT NOT NULL, partition_key TEXT NOT NULL, payload BLOB NOT NULL, not_before_ms '' @
       ''INTEGER NOT NULL, max_attempts INTEGER NOT NULL CHECK (max_attempts > 0), effect_mode '' @
       ''INTEGER NOT NULL, idempotency_key TEXT, state INTEGER NOT NULL CHECK (state BETWEEN 0 '' @
       ''AND 6), attempt INTEGER NOT NULL CHECK (attempt >= 0), lease_token BLOB, worker_id '' @
       ''TEXT, lease_expires_at_ms INTEGER, retry_after_ms INTEGER, terminal_at_ms INTEGER, '' @
       ''result_digest BLOB, error_summary TEXT, updated_transaction_id BLOB NOT NULL, CHECK '' @
       ''(state <> 1 OR (lease_token IS NOT NULL AND worker_id IS NOT NULL AND '' @
       ''lease_expires_at_ms IS NOT NULL)), CHECK (state = 1 OR (lease_token IS NULL AND '' @
       ''worker_id IS NULL AND lease_expires_at_ms IS NULL)), CHECK (state <> 2 OR '' @
       ''retry_after_ms IS NOT NULL), CHECK ((state IN (4, 5, 6)) = (terminal_at_ms IS NOT '' @
       ''NULL)));'',
     ''INSERT INTO jobs_v2 SELECT * FROM jobs;'',
     ''DROP TABLE jobs;'',
     ''ALTER TABLE jobs_v2 RENAME TO jobs;'',
     ''CREATE INDEX jobs_ready_idx ON jobs(queue, partition_key, state, not_before_ms, '' @
       ''enqueue_sequence);'',
     ''CREATE INDEX jobs_expiry_idx ON jobs(state, lease_expires_at_ms);'',
     ''CREATE INDEX jobs_queue_state_idx ON jobs(queue, state);'',
     ''CREATE INDEX jobs_transaction_idx ON jobs(updated_transaction_id);'']"

text \<open>
  What the texts do. The first creates the tables, which fails where they exist. The second copies
  \<open>jobs\<close> into a table with the CHECK constraints, row by row and in rowid order, so it fails
  on a row that violates them; the copy then takes the name of the original.
\<close>

fun execute_v1 :: "schema \<Rightarrow> sqlite_error + schema" where
  "execute_v1 No_Schema = Inr (Schema_V1 empty_db)"
| "execute_v1 _ = Inl (DriverFault ''table transactions already exists'')"

definition rebuild_jobs :: "db \<Rightarrow> sqlite_error + schema" where
  "rebuild_jobs d =
     err_bind (ensure (\<forall>r \<in> set (jobs d). jobs_check r) (CheckViolation ''jobs_v2'')) (\<lambda>_.
     Inr (Schema_V2 d))"

fun execute_v2 :: "schema \<Rightarrow> sqlite_error + schema" where
  "execute_v2 No_Schema = Inl (DriverFault ''no such table: jobs'')"
| "execute_v2 (Schema_V1 d) = rebuild_jobs d"
| "execute_v2 (Schema_V2 d) = rebuild_jobs d"

record migration =
  m_version :: u32
  m_sql :: string
  m_execute :: "schema \<Rightarrow> sqlite_error + schema"

definition migration_1 :: migration where
  "migration_1 = \<lparr>m_version = 1, m_sql = migration_v1_sql, m_execute = execute_v1\<rparr>"

definition migration_2 :: migration where
  "migration_2 = \<lparr>m_version = 2, m_sql = migration_v2_sql, m_execute = execute_v2\<rparr>"

definition migrations :: "migration list" where
  "migrations = [migration_1, migration_2]"

lemma migration_simps [simp]:
  "m_version migration_1 = 1" "m_execute migration_1 = execute_v1"
  "m_version migration_2 = 2" "m_execute migration_2 = execute_v2"
  by (simp_all add: migration_1_def migration_2_def)

definition supported_version :: u32 where
  "supported_version = (if migrations = [] then 0 else m_version (last migrations))"

section \<open>Applying migrations\<close>

datatype migration_call =
    Create_Migrations_Table
  | Read_Version
  | Read_Applied u32
  | Begin_Migration u32
  | Run_Sql u32
  | Insert_Applied u32

record migrate_env =
  mig_fault :: "migration_call \<Rightarrow> sqlite_error option"
  mig_commit :: "u32 \<Rightarrow> commit_outcome"
  mig_now :: "u32 \<Rightarrow> i64"

definition driver_call :: "migrate_env \<Rightarrow> migration_call \<Rightarrow> sqlite_error + unit" where
  "driver_call e c = (case mig_fault e c of Some err \<Rightarrow> Inl err | None \<Rightarrow> Inr ())"

definition applied_rows :: "db_file \<Rightarrow> schema_migrations_row list" where
  "applied_rows f = (case schema_migrations f of None \<Rightarrow> [] | Some rows \<Rightarrow> rows)"

text \<open>\<open>SELECT COALESCE(MAX(version), 0)\<close>, read as a \<open>u32\<close>.\<close>

definition max_version :: "db_file \<Rightarrow> sqlite_error + u32" where
  "max_version f =
     ok_or (u32_try_from (sql_coalesce_max (map sm_version (applied_rows f)))) InvalidColumnType"

definition find_applied :: "u32 \<Rightarrow> db_file \<Rightarrow> schema_migrations_row option" where
  "find_applied v f = List.find (\<lambda>r. sm_version r = i64_from_u32 v) (applied_rows f)"

definition create_migrations_table :: "db_file \<Rightarrow> db_file" where
  "create_migrations_table f = f\<lparr>schema_migrations := Some (applied_rows f)\<rparr>"

definition record_applied :: "migrate_env \<Rightarrow> migration \<Rightarrow> db_file \<Rightarrow> db_file" where
  "record_applied e m f = f\<lparr>schema_migrations := Some (applied_rows f @
     [\<lparr>sm_version = i64_from_u32 (m_version m), sm_applied_at_ms = mig_now e (m_version m),
       sm_checksum = checksum (m_sql m)\<rparr>])\<rparr>"

text \<open>The transaction of one pending migration.\<close>

definition migration_body :: "migrate_env \<Rightarrow> migration \<Rightarrow> db_file \<Rightarrow> sqlite_error + db_file" where
  "migration_body e m f =
     err_bind (driver_call e (Begin_Migration (m_version m))) (\<lambda>_.
     err_bind (driver_call e (Run_Sql (m_version m))) (\<lambda>_.
     err_bind (m_execute m (file_schema f)) (\<lambda>s.
     err_bind (driver_call e (Insert_Applied (m_version m))) (\<lambda>_.
     Inr (record_applied e m (f\<lparr>file_schema := s\<rparr>))))))"

definition apply_migration :: "migrate_env \<Rightarrow> migration \<Rightarrow> db_file \<Rightarrow> (storage_error + unit) \<times> db_file" where
  "apply_migration e m f =
     (case migration_body e m f of
        Inl err \<Rightarrow> (Inl (from_sqlite err), f)
      | Inr f' \<Rightarrow>
          (case mig_commit e (m_version m) of
             Commit_Ok \<Rightarrow> (Inr (), f')
           | Commit_Failed err durable \<Rightarrow> (Inl (from_sqlite err), if durable then f' else f)))"

fun migrate_each :: "migrate_env \<Rightarrow> migration list \<Rightarrow> db_file \<Rightarrow> (storage_error + unit) \<times> db_file" where
  "migrate_each e [] f = (Inr (), f)"
| "migrate_each e (m # ms) f =
     (case driver_call e (Read_Applied (m_version m)) of
        Inl err \<Rightarrow> (Inl (from_sqlite err), f)
      | Inr _ \<Rightarrow>
          (case find_applied (m_version m) f of
             Some row \<Rightarrow>
               (if sm_checksum row \<noteq> checksum (m_sql m)
                then (Inl (MigrationChecksumMismatch (m_version m)), f)
                else migrate_each e ms f)
           | None \<Rightarrow>
               (case apply_migration e m f of
                  (Inl err, f') \<Rightarrow> (Inl err, f')
                | (Inr _, f') \<Rightarrow> migrate_each e ms f')))"

definition migrate :: "migrate_env \<Rightarrow> db_file \<Rightarrow> (storage_error + unit) \<times> db_file" where
  "migrate e f =
     (case driver_call e Create_Migrations_Table of
        Inl err \<Rightarrow> (Inl (from_sqlite err), f)
      | Inr _ \<Rightarrow>
          (let f = create_migrations_table f in
           case err_bind (driver_call e Read_Version) (\<lambda>_. max_version f) of
             Inl err \<Rightarrow> (Inl (from_sqlite err), f)
           | Inr current \<Rightarrow>
               (if supported_version < current
                then (Inl (SchemaTooNew current supported_version), f)
                else migrate_each e migrations f)))"

section \<open>Inspection\<close>

text \<open>\<open>require_current\<close>: its two queries fail as the calls of \<open>migrate\<close> at these places do.\<close>

definition require_current :: "migrate_env \<Rightarrow> db_file \<Rightarrow> storage_error + unit" where
  "require_current e f =
     err_bind (map_err from_sqlite (driver_call e Create_Migrations_Table)) (\<lambda>_.
     err_bind
       (if schema_migrations f = None then Inr 0
        else map_err from_sqlite (err_bind (driver_call e Read_Version) (\<lambda>_. max_version f))) (\<lambda>current.
     err_bind (ensure (\<not> supported_version < current) (SchemaTooNew current supported_version)) (\<lambda>_.
     ensure (\<not> current < supported_version)
       (StorageError_Sqlite (Schema_Older current supported_version)))))"

record migration_status =
  ms_version :: u32
  ms_applied_at_ms :: i64
  ms_checksum_ok :: bool

definition status_of :: "migration \<Rightarrow> schema_migrations_row \<Rightarrow> migration_status" where
  "status_of m row = \<lparr>ms_version = m_version m, ms_applied_at_ms = sm_applied_at_ms row,
     ms_checksum_ok = (sm_checksum row = checksum (m_sql m))\<rparr>"

fun status_each :: "migration list \<Rightarrow> db_file \<Rightarrow> migration_status list" where
  "status_each [] f = []"
| "status_each (m # ms) f =
     (case find_applied (m_version m) f of
        None \<Rightarrow> status_each ms f
      | Some row \<Rightarrow> status_of m row # status_each ms f)"

text \<open>\<open>status\<close> as the facade runs it, one query for each migration of the build.\<close>

fun status_queries :: "db_file \<Rightarrow> migration list \<Rightarrow> (storage_error, migration_status list) tx" where
  "status_queries f [] = tx_return []"
| "status_queries f (m # ms) =
     tx_bind (query (\<lambda>_. Inr (find_applied (m_version m) f))) (\<lambda>row.
     tx_bind (status_queries f ms) (\<lambda>rest.
     tx_return (case row of None \<Rightarrow> rest | Some r \<Rightarrow> status_of m r # rest)))"

definition status :: "db_file \<Rightarrow> (storage_error, migration_status list) tx" where
  "status f = status_queries f migrations"

lemma status_yields: "tx_yields (status_queries f ms) d out d' \<Longrightarrow> out = status_each ms f \<and> d' = d"
  by (induction ms arbitrary: out) (fastforce dest!: yields split: option.split)+

end
