(* ===== verification/Store_Open.thy ===== *)
theory Store_Open
  imports Migrations Store_Runs
begin

text \<open>
  Opening a store, \<open>StoreBuilder\<close> of \<open>src/store/mod.rs\<close>, on top of the migrations; and what the
  migrations leave of a file. \<open>schema_agrees\<close> relates the table \<open>schema_migrations\<close> to the tables
  that exist: it holds of a missing or empty file and every run of \<open>migrate\<close> keeps it, also one
  that fails half way.
\<close>

section \<open>What a migration leaves\<close>

fun schema_versions :: "schema \<Rightarrow> u32 list" where
  "schema_versions No_Schema = []"
| "schema_versions (Schema_V1 d) = [1]"
| "schema_versions (Schema_V2 d) = [1, 2]"

definition schema_agrees :: "db_file \<Rightarrow> bool" where
  "schema_agrees f \<longleftrightarrow> map sm_version (applied_rows f) = map i64_from_u32 (schema_versions (file_schema f))"

lemma schema_agrees_empty [simp]: "schema_agrees empty_file"
  by (simp add: schema_agrees_def empty_file_def applied_rows_def)

lemma applied_rows_create [simp]:
  "applied_rows (create_migrations_table f) = applied_rows f"
  "file_schema (create_migrations_table f) = file_schema f"
  "schema_agrees (create_migrations_table f) = schema_agrees f"
  by (simp_all add: create_migrations_table_def applied_rows_def schema_agrees_def)

lemma find_applied_create [simp]: "find_applied v (create_migrations_table f) = find_applied v f"
  by (simp add: find_applied_def)

lemma applied_rows_record [simp]:
  "applied_rows (record_applied e m f) = applied_rows f @
     [\<lparr>sm_version = i64_from_u32 (m_version m), sm_applied_at_ms = mig_now e (m_version m),
       sm_checksum = checksum (m_sql m)\<rparr>]"
  "file_schema (record_applied e m f) = file_schema f"
  by (simp_all add: record_applied_def applied_rows_def)

lemma applied_rows_schema [simp]: "applied_rows (f\<lparr>file_schema := s\<rparr>) = applied_rows f"
  by (simp add: applied_rows_def)

lemma find_applied_None: "find_applied v f = None \<longleftrightarrow> i64_from_u32 v \<notin> sm_version ` set (applied_rows f)"
  by (simp add: find_applied_def find_None_key)

lemma find_append: "List.find p (xs @ ys) = (case List.find p xs of Some x \<Rightarrow> Some x | None \<Rightarrow> List.find p ys)"
  by (induction xs) auto

lemma find_applied_record:
  "find_applied v (record_applied e m f) = (case find_applied v f of Some row \<Rightarrow> Some row
     | None \<Rightarrow> if m_version m = v then Some \<lparr>sm_version = i64_from_u32 v,
         sm_applied_at_ms = mig_now e v, sm_checksum = checksum (m_sql m)\<rparr> else None)"
  by (simp add: find_applied_def find_append split: option.split)

lemma find_applied_schema [simp]: "find_applied v (f\<lparr>file_schema := s\<rparr>) = find_applied v f"
  by (simp add: find_applied_def)

lemma find_applied_agrees:
  assumes "schema_agrees f"
  shows "find_applied v f = None \<longleftrightarrow> v \<notin> set (schema_versions (file_schema f))"
proof -
  have "sm_version ` set (applied_rows f) = i64_from_u32 ` set (schema_versions (file_schema f))"
    using assms unfolding schema_agrees_def by (metis list.set_map)
  then show ?thesis
    by (auto simp: find_applied_None)
qed

lemma apply_migration_cases:
  assumes "apply_migration e m f = (r, f')"
  obtains (failed) err where "r = Inl err" "f' = f"
  | (run) s where "m_execute m (file_schema f) = Inr s"
      "f' = record_applied e m (f\<lparr>file_schema := s\<rparr>)"
proof (cases "migration_body e m f")
  case (Inl err)
  with assms show ?thesis by (intro failed) (auto simp: apply_migration_def)
next
  case (Inr g)
  then obtain s where s: "m_execute m (file_schema f) = Inr s"
      "g = record_applied e m (f\<lparr>file_schema := s\<rparr>)"
    by (auto simp: migration_body_def)
  from assms Inr have "f' = g \<or> f' = f \<and> (\<exists>err. r = Inl err)"
    by (auto simp: apply_migration_def split: commit_outcome.splits if_splits)
  then show ?thesis
    using s that by blast
qed

text \<open>A pending migration runs only on the schema before its own, and keeps the contents.\<close>

lemma pending_migration:
  assumes "schema_agrees f" "m \<in> set migrations" "find_applied (m_version m) f = None"
    and "m_execute m (file_schema f) = Inr s"
  shows "schema_agrees (record_applied e m (f\<lparr>file_schema := s\<rparr>)) \<and>
    schema_db s = schema_db (file_schema f)"
proof -
  have v: "m_version m \<notin> set (schema_versions (file_schema f))"
    using assms(1, 3) by (simp add: find_applied_agrees)
  have "schema_versions s = schema_versions (file_schema f) @ [m_version m] \<and>
      schema_db s = schema_db (file_schema f)"
    using assms(2, 4) v
    by (cases "file_schema f") (auto simp: migrations_def rebuild_jobs_def)
  then show ?thesis
    using assms(1) by (simp add: schema_agrees_def)
qed

text \<open>The parts of the file that a run of \<open>migrate\<close> may not lose.\<close>

definition migrated :: "db_file \<Rightarrow> db_file \<Rightarrow> bool" where
  "migrated f f' \<longleftrightarrow> schema_agrees f' \<and> schema_db (file_schema f') = schema_db (file_schema f) \<and>
     prefix (applied_rows f) (applied_rows f')"

lemma migrate_each_migrated:
  assumes "migrate_each e ms f = (r, f')" "set ms \<subseteq> set migrations" "schema_agrees f"
  shows "migrated f f'"
  using assms
proof (induction ms arbitrary: f)
  case Nil
  then show ?case by (simp add: migrated_def)
next
  case (Cons m ms)
  have refl: "migrated f f"
    using Cons.prems(3) by (simp add: migrated_def)
  show ?case
  proof (cases "driver_call e (Read_Applied (m_version m))")
    case (Inl err)
    with Cons.prems(1) refl show ?thesis by simp
  next
    case (Inr u)
    note called = Inr
    show ?thesis
    proof (cases "find_applied (m_version m) f")
      case (Some row)
      with called Cons refl show ?thesis by (auto split: if_splits)
    next
      case None
      obtain a g where ag: "apply_migration e m f = (a, g)" by fastforce
      then have g: "migrated f g"
      proof (cases rule: apply_migration_cases)
        case (run s)
        with pending_migration [OF Cons.prems(3) _ None] Cons.prems(2) show ?thesis
          by (auto simp: migrated_def)
      qed (use refl in simp)
      show ?thesis
      proof (cases a)
        case (Inl err)
        with g called None ag Cons.prems(1) show ?thesis by simp
      next
        case (Inr u)
        then have "migrate_each e ms g = (r, f')"
          using called None ag Cons.prems(1) by simp
        with Cons.IH [of g] g Cons.prems(2) show ?thesis
          by (auto simp: migrated_def intro: prefix_order.trans)
      qed
    qed
  qed
qed

lemma migrated_create [simp]: "migrated (create_migrations_table f) f' = migrated f f'"
  by (simp add: migrated_def)

lemma migrate_migrated:
  assumes "migrate e f = (r, f')" "schema_agrees f"
  shows "migrated f f'"
proof -
  have "migrated f f" "migrated f (create_migrations_table f)"
    using assms(2) by (simp_all add: migrated_def)
  with assms migrate_each_migrated [of e migrations "create_migrations_table f" r f'] show ?thesis
    by (auto simp: migrate_def Let_def split: sum.splits if_splits)
qed

section \<open>What a successful run leaves\<close>

definition checked :: "db_file \<Rightarrow> migration \<Rightarrow> bool" where
  "checked f m \<longleftrightarrow> (\<exists>row. find_applied (m_version m) f = Some row \<and> sm_checksum row = checksum (m_sql m))"

definition mismatched :: "db_file \<Rightarrow> migration \<Rightarrow> bool" where
  "mismatched f m \<longleftrightarrow> (\<exists>row. find_applied (m_version m) f = Some row \<and> sm_checksum row \<noteq> checksum (m_sql m))"

lemma checked_simps [simp]:
  "checked (create_migrations_table f) = checked f"
  "mismatched (create_migrations_table f) = mismatched f"
  by (simp_all add: checked_def mismatched_def fun_eq_iff)

lemma checked_prefix: "migrated f g \<Longrightarrow> checked f m \<Longrightarrow> checked g m"
  by (auto simp: migrated_def checked_def find_applied_def find_append prefix_def)

lemma migrate_each_checked:
  assumes "migrate_each e ms f = (Inr (), f')" "set ms \<subseteq> set migrations" "schema_agrees f" "m \<in> set ms"
  shows "checked f' m"
  using assms
proof (induction ms arbitrary: f)
  case (Cons n ms)
  obtain u where called: "driver_call e (Read_Applied (m_version n)) = Inr u"
    using Cons.prems(1) by (auto split: sum.splits)
  obtain g where g: "migrated f g" "checked g n" "migrate_each e ms g = (Inr (), f')"
  proof (cases "find_applied (m_version n) f")
    case (Some row)
    with Cons.prems(1, 3) called show ?thesis
      by (intro that [of f]) (auto simp: migrated_def checked_def split: if_splits)
  next
    case None
    obtain a g where ag: "apply_migration e n f = (a, g)" by fastforce
    with Cons.prems(1) called None have a: "a = Inr ()" "migrate_each e ms g = (Inr (), f')"
      by (auto split: sum.splits)
    have "migrated f g"
      using migrate_each_migrated [of e "[n]" f a g] ag called None Cons.prems(2, 3)
      by (cases a) simp_all
    moreover have "checked g n"
      using ag a(1) None by (cases rule: apply_migration_cases) (auto simp: checked_def find_applied_record)
    ultimately show ?thesis using a(2) by (intro that)
  qed
  have agrees: "schema_agrees g" and sub: "set ms \<subseteq> set migrations"
    using g(1) Cons.prems(2) by (simp_all add: migrated_def)
  show ?case
  proof (cases "m = n")
    case True
    with checked_prefix [OF migrate_each_migrated [OF g(3) sub agrees]] g(2) show ?thesis by simp
  next
    case False
    with Cons.IH [OF g(3) sub agrees] Cons.prems(4) show ?thesis by simp
  qed
qed simp

definition up_to_date :: "db_file \<Rightarrow> bool" where
  "up_to_date f \<longleftrightarrow> schema_agrees f \<and> (\<exists>d. file_schema f = Schema_V2 d) \<and> (\<forall>m \<in> set migrations. checked f m)"

lemma migrate_up_to_date:
  assumes "migrate e f = (Inr (), f')" "schema_agrees f"
  shows "up_to_date f'"
proof -
  have each: "migrate_each e migrations (create_migrations_table f) = (Inr (), f')"
    using assms(1) by (auto simp: migrate_def Let_def split: sum.splits if_splits)
  then have checked: "checked f' m" if "m \<in> set migrations" for m
    using migrate_each_checked [OF each _ _ that] assms(2) by simp
  have agrees: "schema_agrees f'"
    using migrate_migrated [OF assms] by (simp add: migrated_def)
  have "find_applied 2 f' \<noteq> None"
    using checked [of migration_2] by (auto simp: migrations_def checked_def)
  then have "\<exists>d. file_schema f' = Schema_V2 d"
    using find_applied_agrees [OF agrees, of 2] by (cases "file_schema f'") auto
  with checked agrees show ?thesis by (simp add: up_to_date_def)
qed

lemma supported_version [simp]: "supported_version = 2"
  by (simp add: supported_version_def migrations_def)

lemma max_version_agrees:
  assumes "schema_agrees f"
  shows "max_version f = Inr (case file_schema f of No_Schema \<Rightarrow> 0 | Schema_V1 d \<Rightarrow> 1 | Schema_V2 d \<Rightarrow> 2)"
proof -
  have "I64 0 = i64_from_u32 0"
    by (simp add: i64_from_u32_def)
  then have "sql_coalesce_max (map i64_from_u32 (schema_versions s)) =
      i64_from_u32 (case s of No_Schema \<Rightarrow> 0 | Schema_V1 d \<Rightarrow> 1 | Schema_V2 d \<Rightarrow> 2)" for s
    by (cases s) (simp_all add: sql_coalesce_max_def max_def less_eq_i64_def)
  then show ?thesis
    using assms by (simp add: max_version_def schema_agrees_def)
qed

section \<open>Runs without driver failures\<close>

definition healthy_migration :: "migrate_env \<Rightarrow> bool" where
  "healthy_migration e \<longleftrightarrow> (\<forall>c. mig_fault e c = None) \<and> (\<forall>v. mig_commit e v = Commit_Ok)"

lemma healthy_driver_call [simp]: "healthy_migration e \<Longrightarrow> driver_call e c = Inr ()"
  by (simp add: healthy_migration_def driver_call_def)

text \<open>The migrations a run has to execute, and the file it leaves when nothing stops it.\<close>

definition pending :: "db_file \<Rightarrow> migration list" where
  "pending f = filter (\<lambda>m. find_applied (m_version m) f = None) migrations"

definition upgraded :: "migrate_env \<Rightarrow> db_file \<Rightarrow> db_file" where
  "upgraded e f = (fold (record_applied e) (pending f) (create_migrations_table f))
     \<lparr>file_schema := Schema_V2 (schema_db (file_schema f))\<rparr>"

definition checks_hold :: "db \<Rightarrow> bool" where
  "checks_hold d \<longleftrightarrow> (\<forall>r \<in> set (jobs d). jobs_check r)"

lemma healthy_apply:
  "healthy_migration e \<Longrightarrow> apply_migration e m f = (case m_execute m (file_schema f) of
     Inl err \<Rightarrow> (Inl (from_sqlite err), f)
   | Inr s \<Rightarrow> (Inr (), record_applied e m (f\<lparr>file_schema := s\<rparr>)))"
  by (simp add: apply_migration_def migration_body_def split: sum.split)
     (simp add: healthy_migration_def)

lemma migrate_each_applied:
  assumes "healthy_migration e" "\<forall>m \<in> set ms. find_applied (m_version m) f \<noteq> None"
  shows "migrate_each e ms f = (case List.find (mismatched f) ms of
     Some m \<Rightarrow> (Inl (MigrationChecksumMismatch (m_version m)), f) | None \<Rightarrow> (Inr (), f))"
  using assms by (induction ms) (auto simp: mismatched_def)

lemma healthy_migrate:
  assumes "healthy_migration e" "schema_agrees f"
  shows "migrate e f = migrate_each e migrations (create_migrations_table f)"
  using assms max_version_agrees [of "create_migrations_table f"]
  by (cases "file_schema f") (simp_all add: migrate_def)


lemma record_applied_schema [simp]:
  "record_applied e m (f\<lparr>file_schema := s\<rparr>) = (record_applied e m f)\<lparr>file_schema := s\<rparr>"
  by (simp add: record_applied_def applied_rows_def)

lemma find_applied_schemas:
  assumes "schema_agrees f"
  shows "file_schema f = No_Schema \<Longrightarrow> find_applied 1 f = None \<and> find_applied 2 f = None"
    and "file_schema f = Schema_V1 d \<Longrightarrow> find_applied 1 f \<noteq> None \<and> find_applied 2 f = None"
    and "file_schema f = Schema_V2 d \<Longrightarrow> find_applied 1 f \<noteq> None \<and> find_applied 2 f \<noteq> None"
  using find_applied_agrees [OF assms] by simp_all

lemma migrate_exact:
  assumes "healthy_migration e" "schema_agrees f"
  shows "migrate e f = (case List.find (mismatched f) migrations of
       Some m \<Rightarrow> (Inl (MigrationChecksumMismatch (m_version m)), create_migrations_table f)
     | None \<Rightarrow>
         (if pending f \<noteq> [] \<and> \<not> checks_hold (schema_db (file_schema f))
          then (Inl (from_sqlite (CheckViolation ''jobs_v2'')), create_migrations_table f)
          else (Inr (), upgraded e f)))"
proof (cases "file_schema f")
  case No_Schema
  have "checks_hold empty_db"
    by (simp add: checks_hold_def empty_db_def)
  with No_Schema find_applied_schemas(1) [OF assms(2) No_Schema] assms show ?thesis
    by (simp add: healthy_migrate migrations_def pending_def upgraded_def mismatched_def healthy_apply
        find_applied_record rebuild_jobs_def checks_hold_def ensure_def)
next
  case (Schema_V1 d)
  obtain row where "find_applied 1 f = Some row" "find_applied 2 f = None"
    using find_applied_schemas(2) [OF assms(2) Schema_V1] by blast
  with Schema_V1 assms show ?thesis
    by (simp add: healthy_migrate migrations_def pending_def upgraded_def mismatched_def healthy_apply
        rebuild_jobs_def checks_hold_def ensure_def)
next
  case (Schema_V2 d)
  then have "\<forall>m \<in> set migrations. find_applied (m_version m) f \<noteq> None"
    using find_applied_schemas(3) [OF assms(2)] by (simp add: migrations_def)
  moreover from this have "pending f = []"
    by (simp add: pending_def)
  moreover have "upgraded e f = create_migrations_table f"
    using Schema_V2 \<open>pending f = []\<close> by (cases f) (simp add: upgraded_def create_migrations_table_def)
  ultimately show ?thesis
    using Schema_V2 assms by (simp add: healthy_migrate migrate_each_applied split: option.split)
qed

section \<open>Opening\<close>

record store_builder =
  sb_durability :: durability
  sb_limits :: limits
  sb_read_pool_size :: usize

definition store_builder_new :: store_builder where
  "store_builder_new = \<lparr>sb_durability = Strict, sb_limits = limits_new,
     sb_read_pool_size = default_read_pool_size\<rparr>"

definition store_at :: "connection \<Rightarrow> db \<Rightarrow> store_builder \<Rightarrow> store" where
  "store_at conn d b = \<lparr>store_db = d, store_writer = Some conn,
     store_readers = read_pool_new (sb_read_pool_size b), store_limits = sb_limits b,
     store_durability = sb_durability b\<rparr>"

text \<open>
  \<open>StoreBuilder::open\<close> on the file at the path (\<open>None\<close>: there is none). Connecting creates an empty
  file; whether a failed connection already did is \<open>created\<close>.
\<close>

definition builder_open :: "open_outcome \<Rightarrow> bool \<Rightarrow> migrate_env \<Rightarrow> store_builder \<Rightarrow> db_file option \<Rightarrow>
    (error + store) \<times> db_file option" where
  "builder_open opn created e b f =
     (case validate_limits (sb_limits b) of
        Inl v \<Rightarrow> (Inl (Error_Validation v), f)
      | Inr _ \<Rightarrow>
          (case open_writer opn (sb_durability b) of
             Inl err \<Rightarrow> (Inl (Error_Storage err), if f = None \<and> created then Some empty_file else f)
           | Inr conn \<Rightarrow>
               (case migrate e (case f of None \<Rightarrow> empty_file | Some g \<Rightarrow> g) of
                  (Inl err, g) \<Rightarrow> (Inl (Error_Storage err), Some g)
                | (Inr _, g) \<Rightarrow> (Inr (store_at conn (schema_db (file_schema g)) b), Some g))))"

text \<open>\<open>StoreBuilder::open_existing\<close> leaves the file alone, so it returns the store only.\<close>

definition builder_open_existing :: "open_outcome \<Rightarrow> migrate_env \<Rightarrow> string \<Rightarrow> store_builder \<Rightarrow>
    db_file option \<Rightarrow> error + store" where
  "builder_open_existing opn e path b f =
     err_bind (map_err Error_Validation (validate_limits (sb_limits b))) (\<lambda>_.
     err_bind (ok_or f (Error_Storage (StorageError_Io
       (''database file '' @ path @ '' does not exist'')))) (\<lambda>g.
     err_bind (map_err Error_Storage (open_reader opn)) (\<lambda>conn.
     err_bind (map_err Error_Storage (require_current e g)) (\<lambda>_.
     Inr (store_at conn (schema_db (file_schema g)) b)))))"

section \<open>The builder and its connections\<close>

text \<open>The builder's methods, and \<open>ControlPlaneStore::open\<close> and \<open>open_existing\<close> with the default builder.\<close>

definition with_durability :: "durability \<Rightarrow> store_builder \<Rightarrow> store_builder" where
  "with_durability dur b = b\<lparr>sb_durability := dur\<rparr>"

definition with_limits :: "limits \<Rightarrow> store_builder \<Rightarrow> store_builder" where
  "with_limits l b = b\<lparr>sb_limits := l\<rparr>"

definition with_read_pool_size :: "usize \<Rightarrow> store_builder \<Rightarrow> store_builder" where
  "with_read_pool_size n b = b\<lparr>sb_read_pool_size := n\<rparr>"

definition store_open :: "open_outcome \<Rightarrow> bool \<Rightarrow> migrate_env \<Rightarrow> db_file option \<Rightarrow> (error + store) \<times> db_file option" where
  "store_open opn created e f = builder_open opn created e store_builder_new f"

definition store_open_existing :: "open_outcome \<Rightarrow> migrate_env \<Rightarrow> string \<Rightarrow> db_file option \<Rightarrow> error + store" where
  "store_open_existing opn e path f = builder_open_existing opn e path store_builder_new f"

text \<open>
  \<open>store/connection.rs\<close>: the PRAGMA statements that each kind of connection runs, as names with the values they
  set, in their order. Only a connection for writing sets the journal mode and the synchronous level.
\<close>

type_synonym setting = "string \<times> string"

definition base_pragmas :: "setting list" where
  "base_pragmas = [(''foreign_keys'', ''ON''), (''trusted_schema'', ''OFF''), (''busy_timeout'', ''5000'')]"

definition apply_pragmas :: "durability \<Rightarrow> setting list" where
  "apply_pragmas dur = (''journal_mode'', ''WAL'') # base_pragmas @ [(''synchronous'', synchronous_pragma dur)]"

definition reader_pragmas :: "setting list" where
  "reader_pragmas = base_pragmas @ [(''query_only'', ''ON'')]"

text \<open>The settings after the statements, from those that SQLite starts with.\<close>

definition settings_after :: "setting list \<Rightarrow> (string \<rightharpoonup> string) \<Rightarrow> (string \<rightharpoonup> string)" where
  "settings_after ps m = fold (\<lambda>(name, v) m. m(name \<mapsto> v)) ps m"

lemma writer_settings:
  "settings_after (apply_pragmas dur) m ''journal_mode'' = Some ''WAL''"
  "settings_after (apply_pragmas dur) m ''synchronous'' = Some (synchronous_pragma dur)"
  "settings_after (apply_pragmas dur) m ''foreign_keys'' = Some ''ON''"
  by (simp_all add: settings_after_def apply_pragmas_def base_pragmas_def)

lemma reader_settings:
  "settings_after reader_pragmas m ''query_only'' = Some ''ON''"
  "settings_after reader_pragmas m ''foreign_keys'' = Some ''ON''"
  "settings_after reader_pragmas m ''journal_mode'' = m ''journal_mode''"
  "settings_after base_pragmas m ''journal_mode'' = m ''journal_mode''"
  by (simp_all add: settings_after_def reader_pragmas_def base_pragmas_def)

end
