(* ===== verification/Store_Ops.thy ===== *)
theory Store_Ops
  imports Migrations Commit_Steps
begin

text \<open>
  Verification and statistics, \<open>src/store/ops.rs\<close>. The two PRAGMA checks of SQLite are parameters
  (functions of the database); every other statement is computed on the tables. The rows of
  \<open>schema_migrations\<close> come from the file, which only \<open>migrate\<close> writes.
\<close>

section \<open>Reports\<close>

record verify_finding =
  vf_check :: string
  vf_detail :: string

record verify_report =
  findings :: "verify_finding list"

definition report_is_ok :: "verify_report \<Rightarrow> bool" where
  "report_is_ok r \<longleftrightarrow> findings r = []"

record pragmas =
  integrity_check :: "db \<Rightarrow> string list"
  foreign_key_check :: "db \<Rightarrow> (string \<times> i64 option \<times> string) list"

definition finding :: "string \<Rightarrow> string \<Rightarrow> verify_finding" where
  "finding check detail = \<lparr>vf_check = check, vf_detail = detail\<rparr>"

text \<open>A check runs its statement and turns every row into a finding; the findings are appended.\<close>

definition select_findings :: "(db \<Rightarrow> 'r list) \<Rightarrow> ('r \<Rightarrow> verify_finding) \<Rightarrow> (error, verify_finding list) tx" where
  "select_findings rows describe =
     tx_map_err Error_Storage (tx_bind (query (\<lambda>d. Inr (rows d))) (\<lambda>rs. tx_return (map describe rs)))"

fun tx_concat :: "('e, 'a list) tx list \<Rightarrow> ('e, 'a list) tx" where
  "tx_concat [] = tx_return []"
| "tx_concat (m # ms) = tx_bind m (\<lambda>xs. tx_bind (tx_concat ms) (\<lambda>ys. tx_return (xs @ ys)))"

section \<open>The semantic checks\<close>

text \<open>\<open>LEFT JOIN events .. GROUP BY .. HAVING\<close>: the streams whose version is not that of their last event.\<close>

definition stream_version_rows :: "db \<Rightarrow> (string \<times> i64 \<times> i64) list" where
  "stream_version_rows d =
     filter (\<lambda>(s, current, latest). current \<noteq> latest)
       (map (\<lambda>(s, current). (s, current,
           sql_coalesce_max (map ev_stream_version (filter (\<lambda>e. ev_stream_id e = s) (events d)))))
         (sort_key fst (streams d)))"

definition orphan_streams :: "db \<Rightarrow> string list" where
  "orphan_streams d = rev (remdups (rev (map ev_stream_id
     (filter (\<lambda>e. map_of (streams d) (ev_stream_id e) = None) (events d)))))"

definition terminal_with_lease :: "db \<Rightarrow> blob list" where
  "terminal_with_lease d = map jobs_job_id (filter (\<lambda>r. jobs_state r \<in> set terminal_states_sql \<and>
     (jobs_lease_token r \<noteq> None \<or> jobs_worker_id r \<noteq> None \<or> jobs_lease_expires_at_ms r \<noteq> None)) (jobs d))"

definition idle_partitions :: "db \<Rightarrow> (string \<times> string) list" where
  "idle_partitions d =
     filter (\<lambda>(q, p). \<not> list_ex (is_active_in q p) (jobs d)) (map fst (active_partitions d))"

definition leased_without_lease :: "db \<Rightarrow> blob list" where
  "leased_without_lease d = map jobs_job_id (filter (\<lambda>r. jobs_state r = job_state_encode Leased \<and>
     (jobs_lease_token r = None \<or> jobs_worker_id r = None \<or> jobs_lease_expires_at_ms r = None)) (jobs d))"

definition receipt_key :: "claim_receipts_row \<Rightarrow> blob \<times> blob" where
  "receipt_key c = (cr_transaction_id c, cr_job_id c)"

definition receipts_without_job :: "db \<Rightarrow> (blob \<times> blob) list" where
  "receipts_without_job d =
     map receipt_key (filter (\<lambda>c. cr_job_id c \<notin> jobs_job_id ` set (jobs d)) (claim_receipts d))"

definition receipts_without_transaction :: "db \<Rightarrow> (blob \<times> blob) list" where
  "receipts_without_transaction d =
     map receipt_key (filter (\<lambda>c. \<not> transaction_exists (cr_transaction_id c) d) (claim_receipts d))"

definition checksum_findings :: "string \<Rightarrow> db_file \<Rightarrow> (error, verify_finding list) tx" where
  "checksum_findings check f =
     tx_map_err Error_Storage (tx_bind (status f) (\<lambda>statuses. tx_return
       (map (\<lambda>s. finding check (''migration '' @ show_nat (unat (ms_version s)) @ '' checksum mismatch''))
         (filter (\<lambda>s. \<not> ms_checksum_ok s) statuses))))"

definition semantic_checks :: "db_file \<Rightarrow> (error, verify_finding list) tx" where
  "semantic_checks f = tx_concat [
     select_findings stream_version_rows (\<lambda>(s, current, latest). finding ''stream_versions''
       (''stream '' @ s @ '' current_version '' @ show_i64 current @
        '' != max event version '' @ show_i64 latest)),
     select_findings orphan_streams (\<lambda>s. finding ''stream_versions''
       (''stream '' @ s @ '' has events but no streams row'')),
     select_findings terminal_with_lease (\<lambda>i. finding ''terminal_jobs''
       (''terminal job '' @ hex i @ '' still has lease fields'')),
     select_findings idle_partitions (\<lambda>(q, p). finding ''active_partitions''
       (''partition '' @ q @ ''/'' @ p @ '' is active but has no nonterminal jobs'')),
     checksum_findings ''migration_checksums'' f,
     select_findings leased_without_lease (\<lambda>i. finding ''leased_jobs''
       (''leased job '' @ hex i @ '' is missing lease fields'')),
     select_findings receipts_without_job (\<lambda>(t, i). finding ''claim_receipts''
       (''claim receipt in transaction '' @ hex t @ '' references missing job '' @ hex i)),
     select_findings receipts_without_transaction (\<lambda>(t, i). finding ''claim_receipts''
       (''claim receipt for job '' @ hex i @ '' references missing transaction '' @ hex t))]"

section \<open>verify\<close>

definition no_migrations_finding :: "db_file \<Rightarrow> (error, verify_finding list) tx" where
  "no_migrations_finding f =
     tx_map_err Error_Storage (tx_bind (status f) (\<lambda>statuses. tx_return
       ((if statuses = [] then [finding ''migrations'' ''no migrations applied''] else []) @
        map (\<lambda>s. finding ''migrations'' (''migration '' @ show_nat (unat (ms_version s)) @ '' checksum mismatch''))
          (filter (\<lambda>s. \<not> ms_checksum_ok s) statuses))))"

definition verify_checks :: "pragmas \<Rightarrow> db_file \<Rightarrow> (error, verify_finding list) tx" where
  "verify_checks p f = tx_concat [
     select_findings (\<lambda>d. filter (\<lambda>detail. detail \<noteq> ''ok'') (integrity_check p d))
       (finding ''integrity_check''),
     select_findings (foreign_key_check p) (\<lambda>(table, rowid, parent). finding ''foreign_key_check''
       (''table '' @ table @ '' rowid '' @ (case rowid of None \<Rightarrow> ''?'' | Some r \<Rightarrow> show_i64 r) @
        '' references missing row in '' @ parent)),
     no_migrations_finding f,
     semantic_checks f]"

definition verify :: "pragmas \<Rightarrow> db_file \<Rightarrow> (error, verify_report) tx" where
  "verify p f = tx_bind (verify_checks p f) (\<lambda>fs. tx_return \<lparr>findings = fs\<rparr>)"

section \<open>Statistics\<close>

text \<open>A \<open>BTreeMap\<close> is its list of entries in key order.\<close>

fun btree_insert :: "'k::linorder \<Rightarrow> 'v \<Rightarrow> ('k \<times> 'v) list \<Rightarrow> ('k \<times> 'v) list" where
  "btree_insert k v [] = [(k, v)]"
| "btree_insert k v ((k', v') # m) =
     (if k < k' then (k, v) # (k', v') # m
      else if k = k' then (k, v) # m
      else (k', v') # btree_insert k v m)"

definition state_name :: "i64 \<Rightarrow> string" where
  "state_name code = (case job_state_decode code of
     Some s \<Rightarrow> job_state_name s | None \<Rightarrow> ''unknown('' @ show_i64 code @ '')'')"

text \<open>\<open>COUNT(*)\<close> is an \<open>i64\<close>, which the code casts to \<open>u64\<close>.\<close>

definition sql_count :: "'r list \<Rightarrow> u64" where
  "sql_count rows = i64_as_u64 (i64_of_int (int (length rows)))"

definition state_groups :: "db \<Rightarrow> (i64 \<times> u64) list" where
  "state_groups d = map (\<lambda>s. (s, sql_count (filter (\<lambda>r. jobs_state r = s) (jobs d))))
     (sort (remdups (map jobs_state (jobs d))))"

text \<open>\<open>MIN\<close> skips nulls and is null on no value.\<close>

definition sql_min :: "i64 option list \<Rightarrow> i64 option" where
  "sql_min xs = (case List.map_filter id xs of [] \<Rightarrow> None | y # ys \<Rightarrow> Some (fold min ys y))"

definition uncertain_times :: "db \<Rightarrow> i64 list" where
  "uncertain_times d = concat (map (\<lambda>j. map tx_committed_at_ms
       (filter (\<lambda>t. tx_transaction_id t = jobs_updated_transaction_id j) (transactions d)))
     (filter (\<lambda>j. jobs_state j = job_state_encode Uncertain) (jobs d)))"

record store_stats =
  st_transactions :: u64
  st_events :: u64
  st_streams :: u64
  st_projections :: u64
  st_projection_entries :: u64
  st_jobs_by_state :: "(string \<times> u64) list"
  st_active_partitions :: u64
  st_file_size_bytes :: u64
  st_migration_version :: u32
  st_oldest_active_lease_ms :: "i64 option"
  st_oldest_uncertain_job_ms :: "i64 option"

definition select :: "(db \<Rightarrow> 'a) \<Rightarrow> (error, 'a) tx" where
  "select f = tx_map_err Error_Storage (query (\<lambda>d. Inr (f d)))"

text \<open>The size comes from the file system, which may fail.\<close>

definition stats :: "string + u64 \<Rightarrow> db_file \<Rightarrow> (error, store_stats) tx" where
  "stats file_size f =
     tx_bind (select state_groups) (\<lambda>groups.
     tx_bind (select (\<lambda>d. sql_count (transactions d))) (\<lambda>n_transactions.
     tx_bind (select (\<lambda>d. sql_count (events d))) (\<lambda>n_events.
     tx_bind (select (\<lambda>d. sql_count (streams d))) (\<lambda>n_streams.
     tx_bind (select (\<lambda>d. sql_count (projection_meta d))) (\<lambda>n_projections.
     tx_bind (select (\<lambda>d. sql_count (projection_entries d))) (\<lambda>n_entries.
     tx_bind (select (\<lambda>d. sql_count (active_partitions d))) (\<lambda>n_partitions.
     tx_bind (tx_lift (map_err (\<lambda>msg. Error_Storage (StorageError_Io msg)) file_size)) (\<lambda>bytes.
     tx_bind (select (\<lambda>_. i64_as_u32 (sql_coalesce_max (map sm_version (applied_rows f))))) (\<lambda>version.
     tx_bind (select (\<lambda>d. sql_min (map jobs_lease_expires_at_ms
       (filter (\<lambda>r. jobs_state r = job_state_encode Leased) (jobs d))))) (\<lambda>lease.
     tx_bind (select (\<lambda>d. sql_min (map Some (uncertain_times d)))) (\<lambda>uncertain.
     tx_return \<lparr>st_transactions = n_transactions, st_events = n_events, st_streams = n_streams,
       st_projections = n_projections, st_projection_entries = n_entries,
       st_jobs_by_state = fold (\<lambda>(state, n) m. btree_insert (state_name state) n m) groups [],
       st_active_partitions = n_partitions, st_file_size_bytes = bytes,
       st_migration_version = version, st_oldest_active_lease_ms = lease,
       st_oldest_uncertain_job_ms = uncertain\<rparr>)))))))))))"

section \<open>What the checks find\<close>

text \<open>\<open>finds m P\<close>: when \<open>m\<close> answers, it has no finding exactly if \<open>P\<close> holds of the database.\<close>

definition finds :: "(error, verify_finding list) tx \<Rightarrow> (db \<Rightarrow> bool) \<Rightarrow> bool" where
  "finds m P \<longleftrightarrow> (\<forall>d out d'. tx_yields m d out d' \<longrightarrow> (out = [] \<longleftrightarrow> P d) \<and> d' = d)"

lemma findsD: "finds m P \<Longrightarrow> tx_yields m d out d' \<Longrightarrow> (out = [] \<longleftrightarrow> P d) \<and> d' = d"
  by (simp add: finds_def)

named_theorems finds_rules

lemma finds_select [finds_rules]: "finds (select_findings rows describe) (\<lambda>d. rows d = [])"
  unfolding finds_def select_findings_def by (auto dest!: yields)

lemma finds_concat_Nil [finds_rules]: "finds (tx_concat []) (\<lambda>d. True)"
  unfolding finds_def by (auto dest!: yields)

lemma finds_concat_Cons [finds_rules]:
  assumes "finds m P" "finds (tx_concat ms) Q"
  shows "finds (tx_concat (m # ms)) (\<lambda>d. P d \<and> Q d)"
  unfolding finds_def
proof (intro allI impI)
  fix d out d' assume "tx_yields (tx_concat (m # ms)) d out d'"
  then obtain xs e ys where "tx_yields m d xs e" "tx_yields (tx_concat ms) e ys d'" "out = xs @ ys"
    by (auto dest!: yields)
  moreover from this have "e = d"
    using findsD [OF assms(1)] by blast
  ultimately show "(out = [] \<longleftrightarrow> P d \<and> Q d) \<and> d' = d"
    using findsD [OF assms(1)] findsD [OF assms(2)] by fastforce
qed

text \<open>The file agrees with this build: every migration applied with the checksum of its text.\<close>

definition checksums_ok :: "db_file \<Rightarrow> bool" where
  "checksums_ok f \<longleftrightarrow> (\<forall>s \<in> set (status_each migrations f). ms_checksum_ok s)"

lemma yields_status: "tx_yields (status f) d out d' \<Longrightarrow> out = status_each migrations f \<and> d' = d"
  unfolding status_def by (rule status_yields)

lemma finds_checksums [finds_rules]: "finds (checksum_findings c f) (\<lambda>d. checksums_ok f)"
  unfolding finds_def checksum_findings_def
  by (auto dest!: yields_map_err yields_bind yields_status yields_return
      simp: checksums_ok_def filter_empty_conv)

lemma finds_no_migrations [finds_rules]:
  "finds (no_migrations_finding f) (\<lambda>d. status_each migrations f \<noteq> [] \<and> checksums_ok f)"
  unfolding finds_def no_migrations_finding_def
  by (auto dest!: yields_map_err yields_bind yields_status yields_return
      simp: checksums_ok_def filter_empty_conv)

text \<open>What the semantic checks are about.\<close>

definition latest_version :: "db \<Rightarrow> string \<Rightarrow> i64" where
  "latest_version d s = sql_coalesce_max (map ev_stream_version (history d s))"

definition semantics_hold :: "db \<Rightarrow> bool" where
  "semantics_hold d \<longleftrightarrow>
     (\<forall>(s, v) \<in> set (streams d). v = latest_version d s) \<and>
     (\<forall>e \<in> set (events d). ev_stream_id e \<in> fst ` set (streams d)) \<and>
     (\<forall>r \<in> set (jobs d). jobs_state r \<in> set terminal_states_sql \<longrightarrow>
        jobs_lease_token r = None \<and> jobs_worker_id r = None \<and> jobs_lease_expires_at_ms r = None) \<and>
     (\<forall>(q, p) \<in> fst ` set (active_partitions d). \<exists>r \<in> set (jobs d). is_active_in q p r) \<and>
     (\<forall>r \<in> set (jobs d). jobs_state r = job_state_encode Leased \<longrightarrow>
        jobs_lease_token r \<noteq> None \<and> jobs_worker_id r \<noteq> None \<and> jobs_lease_expires_at_ms r \<noteq> None) \<and>
     (\<forall>c \<in> set (claim_receipts d). cr_job_id c \<in> jobs_job_id ` set (jobs d) \<and>
        transaction_exists (cr_transaction_id c) d)"

lemma stream_version_rows_Nil:
  "stream_version_rows d = [] \<longleftrightarrow> (\<forall>(s, v) \<in> set (streams d). v = latest_version d s)"
  by (auto simp: stream_version_rows_def filter_empty_conv latest_version_def history_def)

lemma orphan_streams_Nil:
  "orphan_streams d = [] \<longleftrightarrow> (\<forall>e \<in> set (events d). ev_stream_id e \<in> fst ` set (streams d))"
  by (simp add: orphan_streams_def filter_empty_conv map_of_eq_None_iff)

lemma idle_partitions_Nil:
  "idle_partitions d = [] \<longleftrightarrow>
     (\<forall>(q, p) \<in> fst ` set (active_partitions d). \<exists>r \<in> set (jobs d). is_active_in q p r)"
  by (auto simp: idle_partitions_def filter_empty_conv list_ex_iff)

lemma finds_semantic [finds_rules]: "finds (semantic_checks f) (\<lambda>d. semantics_hold d \<and> checksums_ok f)"
proof -
  have "finds (semantic_checks f) (\<lambda>d. stream_version_rows d = [] \<and> orphan_streams d = [] \<and>
      terminal_with_lease d = [] \<and> idle_partitions d = [] \<and> checksums_ok f \<and>
      leased_without_lease d = [] \<and> receipts_without_job d = [] \<and>
      receipts_without_transaction d = [] \<and> True)"
    unfolding semantic_checks_def by (intro finds_rules)
  moreover have "terminal_with_lease d = [] \<longleftrightarrow> (\<forall>r \<in> set (jobs d). jobs_state r \<in> set terminal_states_sql \<longrightarrow>
      jobs_lease_token r = None \<and> jobs_worker_id r = None \<and> jobs_lease_expires_at_ms r = None)"
    "leased_without_lease d = [] \<longleftrightarrow> (\<forall>r \<in> set (jobs d). jobs_state r = job_state_encode Leased \<longrightarrow>
      jobs_lease_token r \<noteq> None \<and> jobs_worker_id r \<noteq> None \<and> jobs_lease_expires_at_ms r \<noteq> None)"
    "receipts_without_job d = [] \<and> receipts_without_transaction d = [] \<longleftrightarrow>
      (\<forall>c \<in> set (claim_receipts d). cr_job_id c \<in> jobs_job_id ` set (jobs d) \<and>
        transaction_exists (cr_transaction_id c) d)" for d
    by (auto simp: terminal_with_lease_def leased_without_lease_def receipts_without_job_def
        receipts_without_transaction_def filter_empty_conv)
  ultimately show ?thesis
    unfolding finds_def semantics_hold_def stream_version_rows_Nil orphan_streams_Nil idle_partitions_Nil
    by blast
qed

lemma finds_verify: "finds (verify_checks p f) (\<lambda>d. filter (\<lambda>detail. detail \<noteq> ''ok'') (integrity_check p d) = [] \<and>
    foreign_key_check p d = [] \<and> (status_each migrations f \<noteq> [] \<and> checksums_ok f) \<and>
    (semantics_hold d \<and> checksums_ok f) \<and> True)"
  unfolding verify_checks_def by (intro finds_rules)

lemma verify_exact:
  assumes "tx_yields (verify p f) d rep d'"
  shows "(report_is_ok rep \<longleftrightarrow> (\<forall>detail \<in> set (integrity_check p d). detail = ''ok'') \<and>
      foreign_key_check p d = [] \<and> status_each migrations f \<noteq> [] \<and> checksums_ok f \<and> semantics_hold d) \<and>
    d' = d"
proof -
  obtain fs where "tx_yields (verify_checks p f) d fs d'" and rep: "rep = \<lparr>findings = fs\<rparr>"
    using yields_bind [OF assms [unfolded verify_def]] by (auto dest!: yields_return)
  from findsD [OF finds_verify this(1)] show ?thesis
    by (auto simp: rep report_is_ok_def filter_empty_conv)
qed

section \<open>The invariant passes every check\<close>

lemma db_ok_streams:
  assumes "db_ok d"
  shows "\<forall>(s, v) \<in> set (streams d). v = latest_version d s"
    and "\<forall>e \<in> set (events d). ev_stream_id e \<in> fst ` set (streams d)"
proof -
  have ok: "distinct (map fst (streams d))"
    "\<And>s. i64_int (stored_version d s) = int (length (history d s))"
    "\<And>s. numbered (map ev_stream_version (history d s))"
    using assms by (simp_all add: db_ok_def streams_ok_def versions_ok_def)
  have "v = latest_version d s" if "(s, v) \<in> set (streams d)" for s v
  proof -
    have "stored_version d s = v"
      using that ok(1) by (simp add: stored_version_def)
    moreover have "i64_int (latest_version d s) = int (length (history d s))"
      using numbered_coalesce_max [OF ok(3) [of s]] by (simp add: latest_version_def)
    ultimately show ?thesis
      using ok(2) [of s] by (metis i64_int_inject)
  qed
  then show "\<forall>(s, v) \<in> set (streams d). v = latest_version d s" by blast
  show "\<forall>e \<in> set (events d). ev_stream_id e \<in> fst ` set (streams d)"
  proof (rule ballI, rule ccontr)
    fix e assume e: "e \<in> set (events d)" "ev_stream_id e \<notin> fst ` set (streams d)"
    then have "stored_version d (ev_stream_id e) = I64 0"
      by (simp add: stored_version_def map_of_eq_None_iff [THEN iffD2])
    then have "history d (ev_stream_id e) = []"
      using ok(2) [of "ev_stream_id e"] by simp
    with e(1) show False
      by (auto simp: history_def filter_empty_conv)
  qed
qed

lemma db_ok_semantics:
  assumes "db_ok d"
  shows "semantics_hold d"
proof -
  have jobs: "rows_ok d" "partitions_ok d" "receipts_ok d"
    using assms by (simp_all add: db_ok_def jobs_ok_def)
  have row: "jobs_check r" "jobs_state r = job_state_encode (state_of r)" if "r \<in> set (jobs d)" for r
    using jobs(1) that jobs_state_encode by (auto simp: rows_ok_def job_row_ok_def)
  have "jobs_lease_token r = None \<and> jobs_worker_id r = None \<and> jobs_lease_expires_at_ms r = None"
    if "r \<in> set (jobs d)" "jobs_state r \<in> set terminal_states_sql" for r
  proof -
    have "is_terminal (state_of r)"
      using that(2) unfolding row(2) [OF that(1)] by simp
    then have "state_of r \<noteq> Leased" by auto
    then show ?thesis
      using jobs_check_state(1-3) [OF row [OF that(1)]] by blast
  qed
  moreover have "jobs_lease_token r \<noteq> None \<and> jobs_worker_id r \<noteq> None \<and> jobs_lease_expires_at_ms r \<noteq> None"
    if "r \<in> set (jobs d)" "jobs_state r = job_state_encode Leased" for r
    using jobs_check_state(1-3) [OF row(1) [OF that(1)] that(2)] by simp
  moreover have "\<exists>r \<in> set (jobs d). is_active_in q p r" if "(q, p) \<in> fst ` set (active_partitions d)" for q p
    using jobs(2) that unfolding partitions_ok_def
    by (metis list_ex_iff list_ex_partition_jobs)
  ultimately show ?thesis
    using db_ok_streams [OF assms] jobs(3) unfolding semantics_hold_def receipts_ok_def by blast
qed

text \<open>The declared foreign keys.\<close>

definition foreign_keys_hold :: "db \<Rightarrow> bool" where
  "foreign_keys_hold d \<longleftrightarrow>
     (\<forall>e \<in> set (events d). transaction_exists (ev_transaction_id e) d) \<and>
     (\<forall>x \<in> set (projection_entries d). fst (fst x) \<in> fst ` set (projection_meta d)) \<and>
     (\<forall>r \<in> set (jobs d). transaction_exists (jobs_enqueue_transaction_id r) d) \<and>
     (\<forall>c \<in> set (claim_receipts d). transaction_exists (cr_transaction_id c) d)"

lemma db_ok_foreign_keys:
  assumes "db_ok d"
  shows "foreign_keys_hold d"
proof -
  have "fst (fst x) \<in> fst ` set (projection_meta d)" if "x \<in> set (projection_entries d)" for x
    using assms that unfolding db_ok_def projections_ok_def by blast
  then show ?thesis
    using assms
    by (simp add: db_ok_def foreign_keys_hold_def events_ok_def jobs_ok_def rows_ok_def receipts_ok_def)
qed

section \<open>What the statistics say\<close>

lemma yields_select: "tx_yields (select f) d x d' \<Longrightarrow> x = f d \<and> d' = d"
  unfolding select_def by (auto dest!: yields)

lemma stats_yields:
  assumes "tx_yields (stats file_size f) d x d'"
  obtains bytes where "file_size = Inr bytes" "d' = d"
    "x = \<lparr>st_transactions = sql_count (transactions d), st_events = sql_count (events d),
       st_streams = sql_count (streams d), st_projections = sql_count (projection_meta d),
       st_projection_entries = sql_count (projection_entries d),
       st_jobs_by_state = fold (\<lambda>(state, n) m. btree_insert (state_name state) n m) (state_groups d) [],
       st_active_partitions = sql_count (active_partitions d), st_file_size_bytes = bytes,
       st_migration_version = i64_as_u32 (sql_coalesce_max (map sm_version (applied_rows f))),
       st_oldest_active_lease_ms = sql_min (map jobs_lease_expires_at_ms
         (filter (\<lambda>r. jobs_state r = job_state_encode Leased) (jobs d))),
       st_oldest_uncertain_job_ms = sql_min (map Some (uncertain_times d))\<rparr>"
  using assms unfolding stats_def
  by (elim yields_bind [THEN exE] exE conjE)
     (auto dest!: yields_bind yields_select yields_lift yields_return)

lemma sql_count_word: "sql_count rows = word_of_nat (length rows)"
  by (simp add: sql_count_def i64_of_int_def i64_as_u64_def)

lemma map_of_btree_insert: "map_of (btree_insert k v m) = (map_of m)(k \<mapsto> v)"
  by (induction k v m rule: btree_insert.induct) (auto simp: fun_eq_iff)

lemma sorted_btree_insert:
  "sorted_wrt (<) (map fst m) \<Longrightarrow> sorted_wrt (<) (map fst (btree_insert k v m)) \<and>
     set (map fst (btree_insert k v m)) = insert k (set (map fst m))"
  by (induction k v m rule: btree_insert.induct) auto

lemma state_name_inject: "job_state_name s = job_state_name t \<longleftrightarrow> s = t"
  by (cases s; cases t) simp_all

lemma map_of_fold_btree:
  assumes "distinct (map fst xs)"
  shows "map_of (fold (\<lambda>(k, v). btree_insert k v) xs m) = map_of m ++ map_of xs"
  using assms
proof (induction xs arbitrary: m)
  case (Cons x xs)
  obtain k v where x: "x = (k, v)" by fastforce
  with Cons.prems have "k \<notin> dom (map_of xs)"
    by (simp add: dom_map_of_conv_image_fst)
  then have "(map_of m)(k \<mapsto> v) ++ map_of xs = map_of m ++ map_of (x # xs)"
    by (auto simp: x map_add_def fun_eq_iff split: option.split)
  moreover have "map_of (fold (\<lambda>(k, v). btree_insert k v) (x # xs) m) = (map_of m)(k \<mapsto> v) ++ map_of xs"
    using Cons x by (simp add: map_of_btree_insert)
  ultimately show ?case by (simp only:)
qed simp

lemma sorted_fold_btree:
  "sorted_wrt (<) (map fst m) \<Longrightarrow> sorted_wrt (<) (map fst (fold (\<lambda>(k, v). btree_insert k v) xs m))"
  by (induction xs arbitrary: m) (auto simp: sorted_btree_insert split: prod.split)

definition jobs_in_state :: "db \<Rightarrow> job_state \<Rightarrow> jobs_row list" where
  "jobs_in_state d s = filter (\<lambda>r. state_of r = s) (jobs d)"

definition named_groups :: "db \<Rightarrow> (string \<times> u64) list" where
  "named_groups d = map (\<lambda>(state, n). (state_name state, n)) (state_groups d)"

lemma fold_state_groups:
  "fold (\<lambda>(state, n) m. btree_insert (state_name state) n m) (state_groups d) m =
     fold (\<lambda>(k, v). btree_insert k v) (named_groups d) m"
  unfolding named_groups_def fold_map by (rule fold_cong) auto

lemma named_groups_ok:
  assumes "db_ok d"
  shows "distinct (map fst (named_groups d))"
    and "map_of (named_groups d) (job_state_name s) =
      (if jobs_in_state d s = [] then None else Some (sql_count (jobs_in_state d s)))"
    and "fst ` set (named_groups d) \<subseteq> range job_state_name"
proof -
  have row: "jobs_state r = job_state_encode (state_of r)" if "r \<in> set (jobs d)" for r
    using assms that jobs_state_encode by (auto simp: db_ok_def jobs_ok_def rows_ok_def)
  have names: "state_name (job_state_encode t) = job_state_name t" for t
    by (simp add: state_name_def)
  let ?states = "sort (remdups (map jobs_state (jobs d)))"
  have fst: "map fst (named_groups d) = map state_name ?states"
    by (simp add: named_groups_def state_groups_def)
  have encoded: "\<exists>t. v = job_state_encode t" if "v \<in> set ?states" for v
    using that row by auto
  then have "inj_on state_name (set ?states)"
    by (intro inj_onI) (metis names state_name_inject)
  then show distinct: "distinct (map fst (named_groups d))"
    unfolding fst distinct_map by simp
  show "fst ` set (named_groups d) \<subseteq> range job_state_name"
    using encoded names unfolding list.set_map [symmetric] fst by fastforce
  have same: "filter (\<lambda>r. jobs_state r = job_state_encode s) (jobs d) = jobs_in_state d s"
    unfolding jobs_in_state_def using row by (intro filter_cong) auto
  show "map_of (named_groups d) (job_state_name s) =
      (if jobs_in_state d s = [] then None else Some (sql_count (jobs_in_state d s)))"
  proof (cases "jobs_in_state d s = []")
    case True
    have "job_state_name s \<notin> set (map fst (named_groups d))"
    proof
      assume "job_state_name s \<in> set (map fst (named_groups d))"
      then obtain r where r: "r \<in> set (jobs d)" "job_state_name s = state_name (jobs_state r)"
        unfolding fst by auto
      then have "state_of r = s"
        using row [OF r(1)] names state_name_inject by metis
      with True r(1) show False by (auto simp: jobs_in_state_def filter_empty_conv)
    qed
    with True show ?thesis by (simp add: map_of_eq_None_iff)
  next
    case False
    then obtain r where r: "r \<in> set (jobs d)" "state_of r = s"
      by (auto simp: jobs_in_state_def filter_empty_conv)
    then have "job_state_encode s \<in> set ?states"
      using row by (metis image_eqI list.set_map set_remdups set_sort)
    then have "(job_state_encode s, sql_count (jobs_in_state d s)) \<in> set (state_groups d)"
      unfolding state_groups_def set_map by (intro image_eqI [where x = "job_state_encode s"]) (simp_all add: same)
    then have "(job_state_name s, sql_count (jobs_in_state d s)) \<in> set (named_groups d)"
      unfolding named_groups_def set_map by (rule image_eqI [rotated]) (simp add: names)
    with False map_of_is_SomeI [OF distinct] show ?thesis by simp
  qed
qed

end
