(* ===== verification/Diagnostic_Export.thy ===== *)
theory Diagnostic_Export
  imports Store_Ops
begin

text \<open>
  The diagnostic export of \<open>src/store/ops.rs\<close>: JSON lines, written table by table. The large tables
  are read in pages of 512 rows, each page starting after the key of the last row of the one before.
  A line is built from its fields; the code writes the same text with one format string.
\<close>

section \<open>JSON text\<close>

definition json_escape_char :: "char \<Rightarrow> string" where
  "json_escape_char c =
     (let n = of_char c :: nat in
      if n = 0x22 then [CHR 0x5C, CHR 0x22]
      else if n = 0x5C then [CHR 0x5C, CHR 0x5C]
      else if n = 0x0A then [CHR 0x5C, CHR ''n'']
      else if n = 0x0D then [CHR 0x5C, CHR ''r'']
      else if n = 0x09 then [CHR 0x5C, CHR ''t'']
      else if n < 0x20 then
        [CHR 0x5C, CHR ''u'', CHR ''0'', CHR ''0'', hex_digits ! (n div 16), hex_digits ! (n mod 16)]
      else [c])"

definition json_escape :: "string \<Rightarrow> string" where
  "json_escape s = concat (map json_escape_char s)"

definition quote :: "string \<Rightarrow> string" where
  "quote s = [CHR 0x22] @ s @ [CHR 0x22]"

definition json_string :: "string \<Rightarrow> string" where
  "json_string s = quote (json_escape s)"

definition opt_i64 :: "i64 option \<Rightarrow> string" where
  "opt_i64 v = (case v of None \<Rightarrow> ''null'' | Some n \<Rightarrow> show_i64 n)"

definition opt_string :: "string option \<Rightarrow> string" where
  "opt_string v = (case v of None \<Rightarrow> ''null'' | Some s \<Rightarrow> json_string s)"

definition show_bool :: "bool \<Rightarrow> string" where
  "show_bool b = (if b then ''true'' else ''false'')"

type_synonym field = "string \<times> string"

fun join_fields :: "field list \<Rightarrow> string" where
  "join_fields [] = []"
| "join_fields [(name, v)] = quote name @ '':'' @ v"
| "join_fields ((name, v) # fs) = quote name @ '':'' @ v @ '','' @ join_fields fs"

definition json_object :: "field list \<Rightarrow> string" where
  "json_object fs = ''{'' @ join_fields fs @ ''}''"

definition json_line :: "string \<Rightarrow> field list \<Rightarrow> string" where
  "json_line kind fs = json_object ((''kind'', quote kind) # fs) @ [CHR 0x0A]"

section \<open>The lines\<close>

definition payload_fields :: "blob \<Rightarrow> bool \<Rightarrow> field list" where
  "payload_fields payload include_payloads =
     (if include_payloads
      then [(''payload_len'', show_nat (length payload)), (''payload_hex'', quote (hex payload))]
      else [(''payload_len'', show_nat (length payload))])"

definition value_fields :: "blob \<Rightarrow> bool \<Rightarrow> field list" where
  "value_fields v include_payloads =
     (if include_payloads
      then [(''value_len'', show_nat (length v)), (''value_hex'', quote (hex v))]
      else [(''value_len'', show_nat (length v))])"

text \<open>The length of a summary is cast to \<open>i64\<close>.\<close>

definition error_summary_fields :: "string option \<Rightarrow> bool \<Rightarrow> field list" where
  "error_summary_fields summary include_payloads =
     (if include_payloads then [(''error_summary'', opt_string summary)]
      else [(''error_summary_len'', opt_i64 (map_option (\<lambda>s. i64_of_int (int (length s))) summary))])"

definition header_line :: "store_stats \<Rightarrow> bool \<Rightarrow> string" where
  "header_line s include_payloads = json_line ''header''
     [(''format'', quote ''minisqlite-diagnostic-v1''), (''restorable'', ''false''),
      (''schema_version'', show_nat (unat (st_migration_version s))),
      (''payloads_included'', show_bool include_payloads)]"

definition stats_line :: "store_stats \<Rightarrow> string" where
  "stats_line s = json_line ''stats''
     [(''transactions'', show_u64 (st_transactions s)), (''events'', show_u64 (st_events s)),
      (''streams'', show_u64 (st_streams s)), (''projections'', show_u64 (st_projections s)),
      (''projection_entries'', show_u64 (st_projection_entries s)),
      (''active_partitions'', show_u64 (st_active_partitions s)),
      (''file_size_bytes'', show_u64 (st_file_size_bytes s)),
      (''jobs_by_state'',
        json_object (map (\<lambda>(state, n). (json_escape state, show_u64 n)) (st_jobs_by_state s)))]"

definition transaction_line :: "transactions_row \<Rightarrow> string" where
  "transaction_line r = json_line ''transaction''
     [(''transaction_sequence'', show_i64 (tx_transaction_sequence r)),
      (''transaction_id'', quote (hex (tx_transaction_id r))),
      (''committed_at_ms'', show_i64 (tx_committed_at_ms r)),
      (''operation_count'', show_i64 (tx_operation_count r))]"

definition event_line :: "bool \<Rightarrow> events_row \<Rightarrow> string" where
  "event_line include_payloads r = json_line ''event''
     ([(''global_sequence'', show_i64 (ev_global_sequence r)),
       (''event_id'', quote (hex (ev_event_id r))),
       (''transaction_id'', quote (hex (ev_transaction_id r))),
       (''stream_id'', json_string (ev_stream_id r)),
       (''stream_version'', show_i64 (ev_stream_version r)),
       (''event_type'', json_string (ev_event_type r)),
       (''schema_version'', show_i64 (ev_schema_version r)),
       (''occurred_at_ms'', show_i64 (ev_occurred_at_ms r))] @
      payload_fields (ev_payload r) include_payloads)"

definition stream_line :: "string \<times> i64 \<Rightarrow> string" where
  "stream_line = (\<lambda>(s, version). json_line ''stream''
     [(''stream_id'', json_string s), (''current_version'', show_i64 version)])"

definition projection_line :: "string \<times> i64 \<Rightarrow> string" where
  "projection_line = (\<lambda>(p, version). json_line ''projection''
     [(''projection'', json_string p), (''version'', show_i64 version)])"

definition entry_line :: "bool \<Rightarrow> nat \<times> (string \<times> blob) \<times> blob \<Rightarrow> string" where
  "entry_line include_payloads = (\<lambda>(rowid, (p, key), v). json_line ''projection_entry''
     ([(''projection'', json_string p), (''key_hex'', quote (hex key))] @
      value_fields v include_payloads))"

definition job_line :: "bool \<Rightarrow> jobs_row \<Rightarrow> string" where
  "job_line include_payloads r = json_line ''job''
     ([(''enqueue_sequence'', show_i64 (jobs_enqueue_sequence r)),
       (''job_id'', quote (hex (jobs_job_id r))),
       (''queue'', json_string (jobs_queue r)),
       (''partition_key'', json_string (jobs_partition_key r)),
       (''state'', quote (state_name (jobs_state r))),
       (''attempt'', show_i64 (jobs_attempt r)),
       (''max_attempts'', show_i64 (jobs_max_attempts r)),
       (''effect_mode'', show_i64 (jobs_effect_mode r)),
       (''not_before_ms'', show_i64 (jobs_not_before_ms r)),
       (''worker_id'', opt_string (jobs_worker_id r)),
       (''lease_expires_at_ms'', opt_i64 (jobs_lease_expires_at_ms r)),
       (''retry_after_ms'', opt_i64 (jobs_retry_after_ms r)),
       (''terminal_at_ms'', opt_i64 (jobs_terminal_at_ms r))] @
      error_summary_fields (jobs_error_summary r) include_payloads @
      payload_fields (jobs_payload r) include_payloads)"

definition partition_line :: "(string \<times> string) \<times> i64 \<Rightarrow> string" where
  "partition_line = (\<lambda>((q, p), first). json_line ''active_partition''
     [(''queue'', json_string q), (''partition_key'', json_string p),
      (''first_active_sequence'', show_i64 first)])"

definition claim_receipt_line :: "claim_receipts_row \<Rightarrow> string" where
  "claim_receipt_line r = json_line ''claim_receipt''
     [(''transaction_id'', quote (hex (cr_transaction_id r))),
      (''job_id'', quote (hex (cr_job_id r))),
      (''attempt'', show_i64 (cr_attempt r)),
      (''worker_id'', json_string (cr_worker_id r)),
      (''lease_expires_at_ms'', show_i64 (cr_lease_expires_at_ms r))]"

section \<open>Reading in pages\<close>

definition export_page_size :: usize where "export_page_size = 512"

definition page :: "(db \<Rightarrow> 'r list) \<Rightarrow> ('r \<Rightarrow> 'k::linorder) \<Rightarrow> 'k \<Rightarrow> db \<Rightarrow> 'r list" where
  "page table key after d = sql_limit (u64_as_i64 export_page_size)
     (sort_key key (filter (\<lambda>r. after < key r) (table d)))"

lemma page_take: "page table key after d = take 512 (sort_key key (filter (\<lambda>r. after < key r) (table d)))"
  by (simp add: page_def sql_limit_def export_page_size_def u64_as_i64_def)

lemma select_Inr: "select f s = Inr (x, s') \<Longrightarrow> x = f (tx_db s) \<and> tx_db s' = tx_db s"
  by (auto simp: select_def tx_map_err_def query_def sql_def split: option.splits)

lemma filter_less_shorter:
  assumes "x \<in> set xs" "P x" "\<not> Q x" "\<And>y. Q y \<Longrightarrow> P y"
  shows "length (filter Q xs) < length (filter P xs)"
proof -
  have "filter Q xs = filter Q (filter P xs)"
    using assms(4) by (auto intro: filter_cong)
  moreover have "length (filter Q (filter P xs)) < length (filter P xs)"
    using assms(1-3) by (intro length_filter_less [of x]) auto
  ultimately show ?thesis by simp
qed

lemma page_progress:
  assumes "page table key after d \<noteq> []"
  shows "length (filter (\<lambda>r. key (last (page table key after d)) < key r) (table d)) <
    length (filter (\<lambda>r. after < key r) (table d))"
proof -
  have "last (page table key after d) \<in> set (page table key after d)"
    using assms by (rule last_in_set)
  then have "last (page table key after d) \<in> set (table d)" "after < key (last (page table key after d))"
    by (auto simp: page_take dest!: in_set_takeD)
  then show ?thesis
    by (intro filter_less_shorter [of "last (page table key after d)"]) auto
qed

text \<open>The loop of the exports: it ends with a page that is not full.\<close>

function (sequential) export_loop ::
  "(db \<Rightarrow> 'r list) \<Rightarrow> ('r \<Rightarrow> 'k::linorder) \<Rightarrow> ('r \<Rightarrow> string) \<Rightarrow> 'k \<Rightarrow> (error, string list) tx" where
  "export_loop table key line after s =
     (case select (page table key after) s of
        Inl err \<Rightarrow> Inl err
      | Inr (rows, s') \<Rightarrow>
          (if length rows < unat export_page_size then Inr (map line rows, s')
           else (case export_loop table key line (key (last rows)) s' of
                   Inl err \<Rightarrow> Inl err
                 | Inr (rest, s'') \<Rightarrow> Inr (map line rows @ rest, s''))))"
  by pat_completeness auto

termination
proof (relation "measure (\<lambda>(table, key, line, after, s).
    length (filter (\<lambda>r. after < key r) (table (tx_db s))))", simp, clarify)
  fix table and key :: "'r \<Rightarrow> 'k::linorder" and line :: "'r \<Rightarrow> string" and after s rows s'
  assume select: "select (page table key after) s = Inr (rows, s')"
    and full: "\<not> length rows < unat export_page_size"
  have rows: "rows = page table key after (tx_db s)" "tx_db s' = tx_db s"
    using select_Inr [OF select] by simp_all
  then have "page table key after (tx_db s) \<noteq> []"
    using full by (auto simp: export_page_size_def)
  from page_progress [OF this] show "((table, key, line, key (last rows), s'), (table, key, line, after, s))
      \<in> measure (\<lambda>(table, key, line, after, s). length (filter (\<lambda>r. after < key r) (table (tx_db s))))"
    by (simp add: rows)
qed

declare export_loop.simps [simp del]

section \<open>The export\<close>

definition select_lines :: "(db \<Rightarrow> 'r list) \<Rightarrow> ('r \<Rightarrow> string) \<Rightarrow> (error, string list) tx" where
  "select_lines rows line = tx_bind (select rows) (\<lambda>rs. tx_return (map line rs))"

text \<open>The rowid of an entry is its place in the table: only the order of the rowids matters here.\<close>

definition entry_rows :: "db \<Rightarrow> (nat \<times> (string \<times> blob) \<times> blob) list" where
  "entry_rows d = enumerate 1 (projection_entries d)"

definition export_transactions :: "(error, string list) tx" where
  "export_transactions = export_loop transactions tx_transaction_sequence transaction_line (I64 0)"

definition export_events :: "bool \<Rightarrow> (error, string list) tx" where
  "export_events include_payloads =
     export_loop events ev_global_sequence (event_line include_payloads) (I64 0)"

definition export_streams :: "(error, string list) tx" where
  "export_streams = export_loop streams fst stream_line ''''"

definition export_projections :: "bool \<Rightarrow> (error, string list) tx" where
  "export_projections include_payloads = tx_concat
     [select_lines (\<lambda>d. sort_key fst (projection_meta d)) projection_line,
      export_loop entry_rows fst (entry_line include_payloads) 0]"

definition export_jobs :: "bool \<Rightarrow> (error, string list) tx" where
  "export_jobs include_payloads =
     export_loop jobs jobs_enqueue_sequence (job_line include_payloads) (I64 0)"

definition export_partitions :: "(error, string list) tx" where
  "export_partitions = select_lines (\<lambda>d. sort_key fst (active_partitions d)) partition_line"

definition export_claim_receipts :: "(error, string list) tx" where
  "export_claim_receipts = select_lines claim_receipts claim_receipt_line"

definition export_tables :: "bool \<Rightarrow> (error, string list) tx" where
  "export_tables include_payloads = tx_concat
     [export_transactions, export_events include_payloads, export_streams,
      export_projections include_payloads, export_jobs include_payloads, export_partitions,
      export_claim_receipts]"

definition diagnostic_export :: "string + u64 \<Rightarrow> db_file \<Rightarrow> bool \<Rightarrow> (error, string) tx" where
  "diagnostic_export file_size f include_payloads =
     tx_bind (stats file_size f) (\<lambda>s.
     tx_bind (export_tables include_payloads) (\<lambda>ls.
     tx_return (concat (header_line s include_payloads # stats_line s # ls))))"

section \<open>What the pages add up to\<close>

lemma filter_sorted_after:
  fixes key :: "'r \<Rightarrow> 'k::linorder"
  assumes "sorted_wrt (\<lambda>a b. key a < key b) rows" "take n rows \<noteq> []"
  shows "filter (\<lambda>r. key (last (take n rows)) < key r) rows = drop n rows"
proof -
  let ?l = "last (take n rows)"
  have rows: "rows = take n rows @ drop n rows" by simp
  have "sorted_wrt (\<lambda>a b. key a < key b) (take n rows @ drop n rows)"
    using assms(1) by simp
  then have late: "\<forall>r \<in> set (drop n rows). key ?l < key r"
    using last_in_set [OF assms(2)] unfolding sorted_wrt_append by blast
  have "sorted_wrt (\<lambda>a b. key a < key b) (butlast (take n rows) @ [?l])"
    using assms(1) sorted_wrt_take [of _ rows n] append_butlast_last_id [OF assms(2)] by simp
  then have "\<forall>r \<in> set (butlast (take n rows)). key r < key ?l"
    by (simp add: sorted_wrt_append)
  then have "\<forall>r \<in> set (take n rows). \<not> key ?l < key r"
    using append_butlast_last_id [OF assms(2)]
    by (metis Un_iff empty_iff insert_iff less_asym list.set(1) list.set(2) set_append)
  then have "filter (\<lambda>r. key ?l < key r) (take n rows) = []"
    by (simp add: filter_empty_conv)
  moreover have "filter (\<lambda>r. key ?l < key r) (drop n rows) = drop n rows"
    using late by simp
  ultimately show ?thesis
    by (subst rows) (simp only: filter_append append_Nil)
qed

lemma strictly_sorted_sort_key:
  fixes key :: "'r \<Rightarrow> 'k::linorder"
  assumes "distinct (map key rows)"
  shows "sorted_wrt (\<lambda>a b. key a < key b) (sort_key key rows)"
proof -
  have "distinct (map key (sort_key key rows))"
    using assms by (metis distinct_map distinct_sort inj_on_def set_sort)
  then have "sorted_wrt (<) (map key (sort_key key rows))"
    using strict_sorted_iff sorted_sort_key by blast
  then show ?thesis by (simp add: sorted_wrt_map)
qed

text \<open>With distinct keys the loop writes the rows after the first key, each once and in key order.\<close>

lemma export_loop_Inr:
  fixes key :: "'r \<Rightarrow> 'k::linorder"
  assumes "export_loop table key line after s = Inr (out, s')" "distinct (map key (table (tx_db s)))"
  shows "out = map line (sort_key key (filter (\<lambda>r. after < key r) (table (tx_db s)))) \<and> tx_db s' = tx_db s"
  using assms
proof (induction table key line after s arbitrary: out s' rule: export_loop.induct)
  case (1 table key line after s)
  let ?rows = "sort_key key (filter (\<lambda>r. after < key r) (table (tx_db s)))"
  have sorted: "sorted_wrt (\<lambda>a b. key a < key b) ?rows"
    by (rule strictly_sorted_sort_key) (rule distinct_map_filter [OF "1.prems"(2)])
  obtain rs t where sel: "select (page table key after) s = Inr (rs, t)"
    using "1.prems"(1) by (subst (asm) export_loop.simps) (auto split: sum.splits)
  then have rs: "rs = take 512 ?rows" and t: "tx_db t = tx_db s"
    using select_Inr [OF sel] by (simp_all add: page_take)
  show ?case
  proof (cases "length rs < 512")
    case True
    then have "rs = ?rows" using rs by (auto simp: min_def split: if_splits)
    with True sel t "1.prems"(1) show ?thesis
      by (subst (asm) export_loop.simps) (simp add: export_page_size_def)
  next
    case False
    then have full: "\<not> length rs < unat export_page_size"
      by (simp add: export_page_size_def)
    have ne: "take 512 ?rows \<noteq> []"
      using False rs by (metis length_0_conv zero_less_numeral)
    obtain rest where rest: "export_loop table key line (key (last rs)) t = Inr (rest, s')" "out = map line rs @ rest"
      using "1.prems"(1) sel full by (subst (asm) export_loop.simps) (auto split: sum.splits)
    have later: "after < key (last rs)"
      using last_in_set [OF ne] unfolding rs by (auto dest!: in_set_takeD)
    have "sort_key key (filter (\<lambda>r. key (last rs) < key r) (table (tx_db s))) =
        sort_key key (filter (\<lambda>r. key (last rs) < key r) (filter (\<lambda>r. after < key r) (table (tx_db s))))"
      using later by (simp only: filter_filter) (metis (no_types, lifting) less_trans)
    also have "\<dots> = filter (\<lambda>r. key (last rs) < key r) ?rows"
      by (rule filter_sort [symmetric])
    also have "\<dots> = drop 512 ?rows"
      using filter_sorted_after [OF sorted ne] by (simp only: rs)
    finally have "rest = map line (drop 512 ?rows) \<and> tx_db s' = tx_db s"
      using "1.IH" [OF sel refl full rest(1)] "1.prems"(2) by (simp only: t)
    then show ?thesis
      using rest(2) unfolding rs by (metis append_take_drop_id map_append)
  qed
qed

lemma yields_export_loop:
  assumes "tx_yields (export_loop table key line after) d out d'" "distinct (map key (table d))"
  shows "out = map line (sort_key key (filter (\<lambda>r. after < key r) (table d))) \<and> d' = d"
  using assms export_loop_Inr unfolding tx_yields_def by blast

end
