(* ===== verification/Facade_Ops.thy ===== *)
theory Facade_Ops
  imports Store_Open Diagnostic_Export
begin

text \<open>
  The operational methods of the facade, \<open>src/store/mod.rs\<close>, and \<open>backup\<close> of \<open>src/store/ops.rs\<close>.
  The file system is a map from paths to contents. SQLite's backup interface copies the source when
  it completes; what an interrupted copy leaves at the destination is a parameter. The files that SQLite keeps beside
  a database while it is open are left out here; the command line has them (\<open>settle\<close> of Command_Line).
\<close>

section \<open>Files\<close>

datatype content = Database db_file | Other_File

type_synonym file_system = "string \<rightharpoonup> content"

text \<open>The failures of the calls of \<open>backup\<close>, in the order of the calls.\<close>

record backup_env =
  bk_remove :: "string option"
  bk_open :: "sqlite_error option"
  bk_begin :: "sqlite_error option"
  bk_run :: "sqlite_error option"
  bk_partial :: content
  bk_integrity :: "sqlite_error + string"

text \<open>The removal of an old destination.\<close>

definition remove_destination :: "backup_env \<Rightarrow> string \<Rightarrow> bool \<Rightarrow> file_system \<Rightarrow> (error + unit) \<times> file_system" where
  "remove_destination e dest overwrite fs =
     (if fs dest = None then (Inr (), fs)
      else if \<not> overwrite then (Inl (Error_Validation (BackupDestinationExists dest)), fs)
      else (case bk_remove e of
          Some msg \<Rightarrow> (Inl (Error_Storage (StorageError_Io (''remove '' @ dest @ '': '' @ msg))), fs)
        | None \<Rightarrow> (Inr (), fs(dest := None))))"

definition sqlite_failure :: "sqlite_error \<Rightarrow> error" where
  "sqlite_failure e = Error_Storage (from_sqlite e)"

definition check_copy :: "backup_env \<Rightarrow> string \<Rightarrow> error + unit" where
  "check_copy e dest =
     err_bind (map_err sqlite_failure (bk_integrity e)) (\<lambda>text.
     ensure (text = ''ok'') (Error_Storage (StorageError_Io
       (''backup at '' @ dest @ '' failed integrity check: '' @ text))))"

definition backup :: "backup_env \<Rightarrow> db_file \<Rightarrow> string \<Rightarrow> bool \<Rightarrow> file_system \<Rightarrow> (error + unit) \<times> file_system" where
  "backup e source dest overwrite fs =
     (case remove_destination e dest overwrite fs of
        (Inl err, fs) \<Rightarrow> (Inl err, fs)
      | (Inr _, fs) \<Rightarrow>
          (case bk_open e of
             Some err \<Rightarrow> (Inl (sqlite_failure err), fs)
           | None \<Rightarrow>
               (case bk_begin e of
                  Some err \<Rightarrow> (Inl (sqlite_failure err), fs(dest \<mapsto> Database empty_file))
                | None \<Rightarrow>
                    (case bk_run e of
                       Some err \<Rightarrow> (Inl (sqlite_failure err), fs(dest \<mapsto> bk_partial e))
                     | None \<Rightarrow>
                         (check_copy e dest, fs(dest \<mapsto> Database source))))))"

section \<open>The methods\<close>

definition store_verify :: "open_outcome \<Rightarrow> env \<Rightarrow> pragmas \<Rightarrow> db_file \<Rightarrow> store \<Rightarrow> (error + verify_report) \<times> store" where
  "store_verify opn e p f st = with_reader opn e (verify p f) st"

definition store_stats_of :: "open_outcome \<Rightarrow> env \<Rightarrow> string + u64 \<Rightarrow> db_file \<Rightarrow> store \<Rightarrow> (error + store_stats) \<times> store" where
  "store_stats_of opn e file_size f st = with_reader opn e (stats file_size f) st"

definition store_diagnostic_export_with :: "open_outcome \<Rightarrow> env \<Rightarrow> string + u64 \<Rightarrow> db_file \<Rightarrow> bool \<Rightarrow> store \<Rightarrow>
    (error + string) \<times> store" where
  "store_diagnostic_export_with opn e file_size f include_payloads st =
     with_reader opn e (diagnostic_export file_size f include_payloads) st"

definition store_diagnostic_export :: "open_outcome \<Rightarrow> env \<Rightarrow> string + u64 \<Rightarrow> db_file \<Rightarrow> store \<Rightarrow>
    (error + string) \<times> store" where
  "store_diagnostic_export opn e file_size f st = store_diagnostic_export_with opn e file_size f False st"

definition store_migrations_status :: "open_outcome \<Rightarrow> env \<Rightarrow> db_file \<Rightarrow> store \<Rightarrow>
    (error + migration_status list) \<times> store" where
  "store_migrations_status opn e f st = with_reader opn e (tx_map_err Error_Storage (status f)) st"

text \<open>
  A backup runs on the writer connection. The source is the file of the store: its schema rows with the
  tables the store sees.
\<close>

definition store_backup :: "open_outcome \<Rightarrow> backup_env \<Rightarrow> db_file \<Rightarrow> string \<Rightarrow> bool \<Rightarrow> store \<times> file_system \<Rightarrow>
    (error + unit) \<times> store \<times> file_system" where
  "store_backup opn e source dest overwrite = (\<lambda>(st, fs).
     case writer_connection opn st of
       (Inl err, st) \<Rightarrow> (Inl (Error_Storage err), st, fs)
     | (Inr _, st) \<Rightarrow> (let (r, fs) = backup e source dest overwrite fs in (r, st, fs)))"

section \<open>What a backup does\<close>

lemma remove_destination_cases:
  assumes "remove_destination e dest overwrite fs = (r, fs')"
  obtains (refused) err where "r = Inl err" "fs' = fs" "fs dest \<noteq> None"
  | (removed) "r = Inr ()" "fs' = fs(dest := None)" "fs dest = None \<or> overwrite"
proof (cases "fs dest")
  case None
  then have "fs' = fs(dest := None)"
    using assms by (simp add: remove_destination_def fun_upd_idem)
  with None assms show ?thesis
    by (intro removed) (simp_all add: remove_destination_def)
next
  case (Some c)
  then have "(\<exists>err. r = Inl err) \<and> fs' = fs \<or> r = Inr () \<and> fs' = fs(dest := None) \<and> overwrite"
    using assms by (auto simp: remove_destination_def split: if_splits option.splits)
  with Some refused removed show ?thesis by fastforce
qed

lemma backup_elsewhere:
  assumes "backup e source dest overwrite fs = (r, fs')" "path \<noteq> dest"
  shows "fs' path = fs path"
proof -
  obtain a g where g: "remove_destination e dest overwrite fs = (a, g)" by fastforce
  then have "g path = fs path"
    by (rule remove_destination_cases) (use assms(2) in simp_all)
  with assms g show ?thesis
    by (cases a) (auto simp: backup_def split: option.splits)
qed

lemma backup_Inr:
  assumes "backup e source dest overwrite fs = (Inr (), fs')"
  shows "fs' = fs(dest \<mapsto> Database source) \<and> (fs dest = None \<or> overwrite) \<and> bk_integrity e = Inr ''ok''"
proof -
  obtain g where g: "remove_destination e dest overwrite fs = (Inr (), g)"
    "check_copy e dest = Inr ()" "fs' = g(dest \<mapsto> Database source)"
    using assms by (auto simp: backup_def split: sum.splits option.splits prod.splits)
  from g(1) have "g = fs(dest := None)" "fs dest = None \<or> overwrite"
    by (rule remove_destination_cases; simp)+
  with g show ?thesis by (simp add: check_copy_def)
qed

lemma backup_refused:
  assumes "fs dest \<noteq> None" "\<not> overwrite"
  shows "backup e source dest overwrite fs = (Inl (Error_Validation (BackupDestinationExists dest)), fs)"
  using assms by (auto simp: backup_def remove_destination_def)

text \<open>An old destination is removed before the new file is opened: a failure then leaves neither.\<close>

lemma backup_removes_first:
  assumes "fs dest \<noteq> None" "bk_remove e = None" "bk_open e = Some err"
  shows "backup e source dest True fs = (Inl (sqlite_failure err), fs(dest := None))"
  using assms by (auto simp: backup_def remove_destination_def)

end
