(* ===== verification/Error_Texts.thy ===== *)
theory Error_Texts
  imports Errors
begin

text \<open>
  The \<open>Display\<close> implementations of \<open>src/error.rs\<close>, and the quoted texts of \<open>{:?}\<close>. The text of an error of the SQLite driver is the
  driver's: it is the parameter \<open>driver\<close>. \<open>validation_message\<close> gives each constructor of
  \<open>validation_error\<close> the text that the code formats where it raises the error.
\<close>

section \<open>Quoted texts\<close>

text \<open>
  \<open>Debug\<close> of a string, in quotes. Characters of several bytes are left as they are, which is what Rust does with the
  printable ones.
\<close>

definition backslash :: char where
  "backslash = CHR 0x5C"

fun debug_char :: "char \<Rightarrow> string" where
  "debug_char c =
     (let n = of_char c :: nat in
      if n = 0 then [backslash, CHR ''0'']
      else if n = 9 then [backslash, CHR ''t'']
      else if n = 10 then [backslash, CHR ''n'']
      else if n = 13 then [backslash, CHR ''r'']
      else if n = 34 \<or> n = 92 then [backslash, c]
      else if n < 16 then [backslash] @ ''u{'' @ [hex_digits ! n] @ ''}''
      else if n < 32 \<or> n = 127
      then [backslash] @ ''u{'' @ [hex_digits ! (n div 16), hex_digits ! (n mod 16)] @ ''}''
      else [c])"

definition debug_str :: "string \<Rightarrow> string" where
  "debug_str s = [CHR 0x22] @ concat (map debug_char s) @ [CHR 0x22]"

section \<open>Storage errors\<close>

fun sqlite_message_text :: "(sqlite_error \<Rightarrow> string) \<Rightarrow> sqlite_message \<Rightarrow> string"
and storage_error_text :: "(sqlite_error \<Rightarrow> string) \<Rightarrow> storage_error \<Rightarrow> string"
and cause_text :: "(sqlite_error \<Rightarrow> string) \<Rightarrow> indeterminate_cause \<Rightarrow> string" where
  "sqlite_message_text driver (Driver e) = driver e"
| "sqlite_message_text driver (Corrupt what) = ''corrupt '' @ what"
| "sqlite_message_text driver (Schema_Older current supported) =
     ''schema version '' @ show_u32 current @ '' is older than supported '' @ show_u32 supported @
     ''; open the store with a writer to migrate''"
| "sqlite_message_text driver (Indeterminate_Text c) = cause_text driver c"
| "storage_error_text driver (StorageError_Io msg) = ''io error: '' @ msg"
| "storage_error_text driver (StorageError_Sqlite m) = ''sqlite error: '' @ sqlite_message_text driver m"
| "storage_error_text driver (MigrationChecksumMismatch version) =
     ''migration '' @ show_u32 version @ '' checksum mismatch''"
| "storage_error_text driver (SchemaTooNew version supported) =
     ''schema version '' @ show_u32 version @ '' is newer than supported '' @ show_u32 supported"
| "cause_text driver (Commit_Step e) = storage_error_text driver e"
| "cause_text driver Failpoint = ''failpoint: COMMIT outcome unknown''"

section \<open>Validation errors\<close>

definition too_large_text :: "string \<Rightarrow> nat \<Rightarrow> usize \<Rightarrow> string" where
  "too_large_text kind len limit = kind @ '' exceeds limit: '' @ show_nat len @ '' > '' @ show_usize limit"

text \<open>The texts of a batch's validation come first, then those of its patches, of job operations, claims, pages and backups.\<close>

fun validation_message :: "validation_error \<Rightarrow> string" where
  "validation_message TransactionIdZero = ''transaction id cannot be zero''"
| "validation_message (OperationCountExceeds n limit) =
     ''operation count '' @ show_nat n @ '' exceeds limit '' @ show_usize limit"
| "validation_message EventIdZero = ''event id cannot be zero''"
| "validation_message (ReplaceEntryCountExceeds n limit) =
     ''replace entry count '' @ show_nat n @ '' exceeds limit '' @ show_usize limit"
| "validation_message JobIdZero = ''job id cannot be zero''"
| "validation_message MaxAttemptsZero = ''job max_attempts must be at least 1''"
| "validation_message LeaseTokenZero = ''lease token cannot be zero''"
| "validation_message (TooLarge kind len limit) = too_large_text kind len limit"
| "validation_message MaxOperationsZero = ''max_operations_per_commit must be greater than 0''"
| "validation_message MaxReplaceEntriesZero = ''max_replace_entries must be greater than 0''"
| "validation_message (StreamVersionOverflow stream_id) = ''stream '' @ stream_id @ '' version overflow''"
| "validation_message (PatchVersionNotNext projection new_version expected_version) =
     ''projection '' @ projection @ '' patch new_version '' @ show_u64 new_version @
     '' must be expected_version '' @ show_u64 expected_version @ '' + 1''"
| "validation_message (PatchDuplicateKey projection) =
     ''projection '' @ projection @ '' patch has contradictory duplicate key''"
| "validation_message (ReplaceDuplicateKey projection) =
     ''projection '' @ projection @ '' replace has contradictory duplicate key''"
| "validation_message (JobDoesNotExist i) = ''job '' @ to_hex i @ '' does not exist''"
| "validation_message (JobAlreadyExists i) = ''job '' @ to_hex i @ '' already exists''"
| "validation_message (StaleLeaseToken i) = ''stale lease token for job '' @ to_hex i"
| "validation_message DefaultRetryOverflow =
     ''default retry timestamp overflows i64; supply retry_after_ms explicitly''"
| "validation_message (CancelRequiresToken i) =
     ''cancelling leased job '' @ to_hex i @ '' requires its lease token''"
| "validation_message ClaimQueueEmpty = ''claim queue cannot be empty''"
| "validation_message ClaimWorkerEmpty = ''claim worker id cannot be empty''"
| "validation_message ClaimLeaseNotPositive = ''claim lease_ms must be positive''"
| "validation_message LeaseExpiryOverflow = ''lease expiry timestamp overflows i64''"
| "validation_message (AfterSequenceOutOfRange after) =
     ''jobs_page after_sequence '' @ show_u64 after @ '' exceeds the supported range''"
| "validation_message (PageLimitOutOfRange limit) =
     ''jobs_page limit '' @ show_usize limit @ '' exceeds the supported range''"
| "validation_message (BackupDestinationExists dest) =
     ''backup destination '' @ dest @ '' already exists (pass overwrite to replace it)''"

definition validation_error_text :: "validation_error \<Rightarrow> string" where
  "validation_error_text v = ''validation error: '' @ validation_message v"

section \<open>Conflicts\<close>

fun lease_conflict_text :: "lease_conflict \<Rightarrow> string" where
  "lease_conflict_text (JobNotFound i) = ''job '' @ to_hex i @ '' not found''"
| "lease_conflict_text (InvalidToken i) = ''invalid lease token for job '' @ to_hex i"
| "lease_conflict_text (NotLeased i state) =
     ''job '' @ to_hex i @ '' is not leased (state '' @ job_state_debug state @ '')''"
| "lease_conflict_text (ExpiryNotLater i current_ms requested_ms) =
     ''job '' @ to_hex i @ '' lease expiry '' @ show_i64 requested_ms @ '' is not later than current '' @
     show_i64 current_ms"
| "lease_conflict_text (LeaseExpired i lease_expires_at_ms now_ms) =
     ''job '' @ to_hex i @ '' lease expired at '' @ show_i64 lease_expires_at_ms @ '' (now '' @ show_i64 now_ms @
     ''); an expired lease cannot be extended''"

fun conflict_text :: "conflict \<Rightarrow> string" where
  "conflict_text (Conflict_StreamVersion stream_id expected actual) =
     ''stream version conflict for '' @ stream_id @ '': expected '' @ show_u64 expected @ '', actual '' @
     show_u64 actual"
| "conflict_text (Conflict_ProjectionVersion projection expected actual) =
     ''projection version conflict for '' @ projection @ '': expected '' @ show_u64 expected @ '', actual '' @
     show_u64 actual"
| "conflict_text (Conflict_JobTransition i from_state to_state) =
     ''invalid job transition for '' @ to_hex i @ '': '' @ job_state_debug from_state @ '' -> '' @
     job_state_debug to_state"
| "conflict_text (Conflict_Lease c) = lease_conflict_text c"

section \<open>The errors of the calls\<close>

fun error_text :: "(sqlite_error \<Rightarrow> string) \<Rightarrow> error \<Rightarrow> string" where
  "error_text driver (Error_Storage s) = storage_error_text driver s"
| "error_text driver (Error_Validation v) = validation_error_text v"
| "error_text driver (Error_Conflict c) = conflict_text c"

fun commit_error_text :: "(sqlite_error \<Rightarrow> string) \<Rightarrow> commit_error \<Rightarrow> string" where
  "commit_error_text driver (CommitError_Conflict c) = conflict_text c"
| "commit_error_text driver (CommitError_Validation v) = validation_error_text v"
| "commit_error_text driver DuplicateIdWithDifferentContent = ''transaction id reused with different content''"
| "commit_error_text driver (CommitError_Indeterminate i) =
     ''commit '' @ to_hex (ic_transaction_id i) @ '' outcome indeterminate; recover_transaction to verify''"
| "commit_error_text driver (CommitError_Storage s) = storage_error_text driver s"

fun claim_error_text :: "(sqlite_error \<Rightarrow> string) \<Rightarrow> claim_error \<Rightarrow> string" where
  "claim_error_text driver (ClaimError_Indeterminate i) =
     ''claim '' @ to_hex (icl_transaction_id i) @ '' outcome indeterminate; recover_claim to verify''"
| "claim_error_text driver (ClaimError_Validation v) = validation_error_text v"
| "claim_error_text driver (ClaimError_Conflict c) = conflict_text c"
| "claim_error_text driver (ClaimError_Storage s) = storage_error_text driver s"

fun recovery_error_text :: "(sqlite_error \<Rightarrow> string) \<Rightarrow> recovery_error \<Rightarrow> string" where
  "recovery_error_text driver (RecoveryError_Storage s) = storage_error_text driver s"

fun lease_error_text :: "(sqlite_error \<Rightarrow> string) \<Rightarrow> lease_error \<Rightarrow> string" where
  "lease_error_text driver (LeaseError_Conflict c) = lease_conflict_text c"
| "lease_error_text driver (LeaseError_Indeterminate i) =
     ''lease extension for job '' @ to_hex (il_job_id i) @ '' outcome indeterminate; read the job to verify''"
| "lease_error_text driver (LeaseError_Storage s) = storage_error_text driver s"

end
