(* ===== verification/Node_Bindings.thy ===== *)
theory Node_Bindings
  imports Facade_Ops Error_Texts
begin

text \<open>
  The Node bindings, \<open>minisqlite-node/src/lib.rs\<close>: a handle around the facade. IDs are hexadecimal texts,
  byte payloads are buffers, and errors become a code with a message. A missing ID of an input is drawn: \<open>rnd\<close>
  gives the draws of the generator, \<open>driver\<close> the texts of the driver's errors. The conversions between JavaScript
  values and the input and output objects are napi's.
\<close>

section \<open>Errors\<close>

record js_error =
  js_code :: string
  js_message :: string

definition js_err :: "string \<Rightarrow> string \<Rightarrow> js_error" where
  "js_err code message = \<lparr>js_code = code, js_message = message\<rparr>"

fun map_error :: "(sqlite_error \<Rightarrow> string) \<Rightarrow> error \<Rightarrow> js_error" where
  "map_error driver (Error_Storage s) = js_err ''Storage'' (storage_error_text driver s)"
| "map_error driver (Error_Validation v) = js_err ''Validation'' (validation_error_text v)"
| "map_error driver (Error_Conflict c) = js_err ''Conflict'' (conflict_text c)"

fun map_commit_error :: "(sqlite_error \<Rightarrow> string) \<Rightarrow> commit_error \<Rightarrow> js_error" where
  "map_commit_error driver (CommitError_Conflict c) = js_err ''Conflict'' (conflict_text c)"
| "map_commit_error driver (CommitError_Validation v) = js_err ''Validation'' (validation_error_text v)"
| "map_commit_error driver DuplicateIdWithDifferentContent =
     js_err ''DuplicateIdWithDifferentContent'' ''transaction id reused with different content''"
| "map_commit_error driver (CommitError_Indeterminate i) = js_err ''CommitIndeterminate''
     (''commit outcome indeterminate; recoverTransaction to verify; transactionId='' @
      to_hex (ic_transaction_id i) @ '' ('' @ cause_text driver (ic_storage_error i) @ '')'')"
| "map_commit_error driver (CommitError_Storage s) = js_err ''Storage'' (storage_error_text driver s)"

fun map_claim_error :: "(sqlite_error \<Rightarrow> string) \<Rightarrow> claim_error \<Rightarrow> js_error" where
  "map_claim_error driver (ClaimError_Indeterminate i) = js_err ''ClaimIndeterminate''
     (''claim outcome indeterminate; recoverClaim to verify; transactionId='' @
      to_hex (icl_transaction_id i) @ '' ('' @ cause_text driver (icl_storage_error i) @ '')'')"
| "map_claim_error driver (ClaimError_Validation v) = js_err ''Validation'' (validation_error_text v)"
| "map_claim_error driver (ClaimError_Conflict c) = js_err ''Conflict'' (conflict_text c)"
| "map_claim_error driver (ClaimError_Storage s) = js_err ''Storage'' (storage_error_text driver s)"

fun map_lease_error :: "(sqlite_error \<Rightarrow> string) \<Rightarrow> lease_error \<Rightarrow> js_error" where
  "map_lease_error driver (LeaseError_Conflict c) = js_err ''LeaseConflict'' (lease_conflict_text c)"
| "map_lease_error driver (LeaseError_Indeterminate i) = js_err ''LeaseIndeterminate''
     (''lease extension outcome indeterminate; read the job to verify; jobId='' @
      to_hex (il_job_id i) @ '' ('' @ cause_text driver (il_storage_error i) @ '')'')"
| "map_lease_error driver (LeaseError_Storage s) = js_err ''Storage'' (storage_error_text driver s)"

fun map_recovery_error :: "(sqlite_error \<Rightarrow> string) \<Rightarrow> recovery_error \<Rightarrow> js_error" where
  "map_recovery_error driver (RecoveryError_Storage s) = js_err ''Storage'' (storage_error_text driver s)"

definition parse_js_id :: "string \<Rightarrow> string \<Rightarrow> js_error + id" where
  "parse_js_id field text =
     map_err (\<lambda>_. js_err ''InvalidId'' (field @ '': invalid id '' @ debug_str text)) (from_hex text)"

section \<open>Inputs\<close>

record expected_version_input =
  evi_stream_id :: string
  evi_version :: i64

record event_input =
  ei_event_id :: "string option"
  ei_stream_id :: string
  ei_event_type :: string
  ei_occurred_at_ms :: i64
  ei_payload :: "blob option"

record put_input =
  pui_key :: blob
  pui_value :: blob

record patch_input =
  pi_projection :: string
  pi_expected_version :: i64
  pi_puts :: "put_input list option"
  pi_deletes :: "blob list option"

record job_spec_input =
  ji_job_id :: "string option"
  ji_queue :: string
  ji_partition_key :: string
  ji_payload :: blob
  ji_effect_mode :: "string option"
  ji_idempotency_key :: "string option"
  ji_not_before_ms :: "i64 option"
  ji_max_attempts :: "u32 option"

record job_ack_input =
  ai_job_id :: string
  ai_lease_token :: string
  ai_result_digest :: "blob option"

record batch_input =
  bi_transaction_id :: "string option"
  bi_committed_at_ms :: i64
  bi_expected_stream_versions :: "expected_version_input list option"
  bi_events :: "event_input list option"
  bi_projection_patches :: "patch_input list option"
  bi_enqueue_jobs :: "job_spec_input list option"
  bi_ack_jobs :: "job_ack_input list option"

record claim_request_input =
  ci_queue :: string
  ci_worker_id :: string
  ci_now_ms :: i64
  ci_lease_ms :: i64
  ci_limit :: u32

definition unwrap_list :: "'a list option \<Rightarrow> 'a list" where
  "unwrap_list xs = (case xs of None \<Rightarrow> [] | Some ys \<Rightarrow> ys)"

section \<open>Building a batch\<close>

text \<open>Computations that draw from the generator: the state is the number of draws so far.\<close>

type_synonym 'a drawing = "nat \<Rightarrow> js_error + 'a \<times> nat"

definition draw_lift :: "js_error + 'a \<Rightarrow> 'a drawing" where
  "draw_lift r = (\<lambda>n. err_bind r (\<lambda>x. Inr (x, n)))"

definition draw_bind :: "'a drawing \<Rightarrow> ('a \<Rightarrow> 'b drawing) \<Rightarrow> 'b drawing" where
  "draw_bind m f = (\<lambda>n. err_bind (m n) (\<lambda>(x, n). f x n))"

fun draw_fold :: "('b \<Rightarrow> 'a \<Rightarrow> 'b drawing) \<Rightarrow> 'b \<Rightarrow> 'a list \<Rightarrow> 'b drawing" where
  "draw_fold f acc [] = draw_lift (Inr acc)"
| "draw_fold f acc (x # xs) = draw_bind (f acc x) (\<lambda>acc. draw_fold f acc xs)"

definition js_new_id :: "(sqlite_error \<Rightarrow> string) \<Rightarrow> string + 128 word \<Rightarrow> js_error + string" where
  "js_new_id driver draw = err_bind (map_err (map_error driver) (id_new draw)) (\<lambda>i. Inr (to_hex i))"

definition id_or_new :: "(sqlite_error \<Rightarrow> string) \<Rightarrow> (nat \<Rightarrow> string + 128 word) \<Rightarrow> string \<Rightarrow> string option \<Rightarrow> id drawing" where
  "id_or_new driver rnd field text =
     (case text of
        Some t \<Rightarrow> draw_lift (parse_js_id field t)
      | None \<Rightarrow> (\<lambda>n. err_bind (map_err (map_error driver) (id_new (rnd n))) (\<lambda>i. Inr (i, Suc n))))"

definition expect_input :: "commit_batch \<Rightarrow> expected_version_input \<Rightarrow> commit_batch" where
  "expect_input b v = expect_stream_version (evi_stream_id v) (i64_as_u64 (evi_version v)) b"

definition event_of_input :: "id \<Rightarrow> event_input \<Rightarrow> event" where
  "event_of_input i ev = event_with_json_payload i (ei_stream_id ev) (ei_event_type ev) (ei_occurred_at_ms ev)
     (case ei_payload ev of None \<Rightarrow> [] | Some bytes \<Rightarrow> bytes)"

definition patch_of_input :: "patch_input \<Rightarrow> projection_patch" where
  "patch_of_input p =
     (let q = projection_patch_new (pi_projection p) (i64_as_u64 (pi_expected_version p));
          q = foldl (\<lambda>q u. patch_push (Put (pui_key u) (pui_value u)) q) q (unwrap_list (pi_puts p))
      in foldl (\<lambda>q k. patch_push (Delete k) q) q (unwrap_list (pi_deletes p)))"

definition spec_of_input :: "id \<Rightarrow> job_spec_input \<Rightarrow> js_error + job_spec" where
  "spec_of_input i j =
     err_bind
       (case ji_effect_mode j of
          None \<Rightarrow> Inr (job_spec_reconcilable i (ji_queue j) (ji_partition_key j) (ji_payload j))
        | Some mode \<Rightarrow>
            if mode = ''reconcilable''
            then Inr (job_spec_reconcilable i (ji_queue j) (ji_partition_key j) (ji_payload j))
            else if mode = ''idempotent''
            then Inr (case ji_idempotency_key j of
                Some key \<Rightarrow> job_spec_idempotent i (ji_queue j) (ji_partition_key j) (ji_payload j) key
              | None \<Rightarrow> job_spec_intrinsically_idempotent i (ji_queue j) (ji_partition_key j) (ji_payload j))
            else Inl (js_err ''Validation'' (''unknown effect mode '' @ debug_str mode))) (\<lambda>spec.
     let spec = (case ji_not_before_ms j of None \<Rightarrow> spec | Some t \<Rightarrow> with_not_before_ms t spec);
         spec = (case ji_max_attempts j of None \<Rightarrow> spec | Some m \<Rightarrow> with_max_attempts m spec)
     in Inr spec)"

definition ack_of_input :: "job_ack_input \<Rightarrow> commit_batch \<Rightarrow> js_error + commit_batch" where
  "ack_of_input a b =
     err_bind (parse_js_id ''jobId'' (ai_job_id a)) (\<lambda>i.
     err_bind (parse_js_id ''leaseToken'' (ai_lease_token a)) (\<lambda>token.
     Inr (acknowledge_job i token (ai_result_digest a) b)))"

definition build_batch :: "(sqlite_error \<Rightarrow> string) \<Rightarrow> (nat \<Rightarrow> string + 128 word) \<Rightarrow> batch_input \<Rightarrow> commit_batch drawing" where
  "build_batch driver rnd input =
     draw_bind (id_or_new driver rnd ''transactionId'' (bi_transaction_id input)) (\<lambda>t.
     draw_bind (draw_lift (Inr (foldl expect_input (commit_batch_new t (bi_committed_at_ms input))
       (unwrap_list (bi_expected_stream_versions input))))) (\<lambda>b.
     draw_bind (draw_fold (\<lambda>b ev. draw_bind (id_or_new driver rnd ''eventId'' (ei_event_id ev)) (\<lambda>i.
         draw_lift (Inr (push_operation (AppendEvent (event_of_input i ev)) b)))) b
       (unwrap_list (bi_events input))) (\<lambda>b.
     draw_bind (draw_lift (Inr (foldl (\<lambda>b p. push_operation (ProjectionPatch (patch_of_input p)) b) b
       (unwrap_list (bi_projection_patches input))))) (\<lambda>b.
     draw_bind (draw_fold (\<lambda>b j. draw_bind (id_or_new driver rnd ''jobId'' (ji_job_id j)) (\<lambda>i.
         draw_bind (draw_lift (spec_of_input i j)) (\<lambda>spec.
         draw_lift (Inr (push_operation (EnqueueJob spec) b))))) b
       (unwrap_list (bi_enqueue_jobs input))) (\<lambda>b.
     draw_fold (\<lambda>b a. draw_lift (ack_of_input a b)) b (unwrap_list (bi_ack_jobs input)))))))"

section \<open>Outputs\<close>

record receipt_output =
  ro_transaction_id :: string
  ro_transaction_sequence :: i64
  ro_committed_at_ms :: i64

definition receipt_output_of :: "commit_receipt \<Rightarrow> receipt_output" where
  "receipt_output_of r = \<lparr>ro_transaction_id = to_hex (receipt_transaction_id r),
     ro_transaction_sequence = u64_as_i64 (receipt_transaction_sequence r),
     ro_committed_at_ms = receipt_committed_at_ms r\<rparr>"

record claimed_job_output =
  co_job_id :: string
  co_queue :: string
  co_partition_key :: string
  co_payload :: blob
  co_worker_id :: string
  co_lease_token :: string
  co_attempt :: u32
  co_lease_expires_at_ms :: i64
  co_idempotency_key :: "string option"

definition claimed_job_output_of :: "claimed_job \<Rightarrow> claimed_job_output" where
  "claimed_job_output_of j = \<lparr>co_job_id = to_hex (claimed_job_id j), co_queue = claimed_queue j,
     co_partition_key = claimed_partition_key j, co_payload = claimed_payload j,
     co_worker_id = claimed_worker_id j, co_lease_token = to_hex (claimed_lease_token j),
     co_attempt = claimed_attempt j, co_lease_expires_at_ms = claimed_lease_expires_at_ms j,
     co_idempotency_key = claimed_idempotency_key j\<rparr>"

record claim_output =
  out_kind :: string
  out_transaction_id :: "string option"
  out_jobs :: "claimed_job_output list"
  out_stale_jobs :: "string list"

definition bare_output :: "string \<Rightarrow> claim_output" where
  "bare_output kind = \<lparr>out_kind = kind, out_transaction_id = None, out_jobs = [], out_stale_jobs = []\<rparr>"

definition maintenance_output :: "id \<Rightarrow> claim_output" where
  "maintenance_output t = (bare_output ''maintenanceCommitted'')\<lparr>out_transaction_id := Some (to_hex t)\<rparr>"

definition committed_output :: "committed_claims \<Rightarrow> claim_output" where
  "committed_output c = \<lparr>out_kind = ''committed'', out_transaction_id = Some (to_hex (claims_transaction_id c)),
     out_jobs = map claimed_job_output_of (claims_jobs c), out_stale_jobs = map to_hex (claims_stale_jobs c)\<rparr>"

fun claim_outcome_output :: "claim_outcome \<Rightarrow> claim_output" where
  "claim_outcome_output ClaimOutcome_Noop = bare_output ''noop''"
| "claim_outcome_output (ClaimOutcome_MaintenanceCommitted t) = maintenance_output t"
| "claim_outcome_output (ClaimOutcome_Committed c) = committed_output c"

fun claim_recovery_output :: "claim_recovery \<Rightarrow> claim_output" where
  "claim_recovery_output ClaimRecovery_Absent = bare_output ''absent''"
| "claim_recovery_output (ClaimRecovery_MaintenanceCommitted t) = maintenance_output t"
| "claim_recovery_output (ClaimRecovery_Committed c) = committed_output c"

record extension_output =
  eo_job_id :: string
  eo_attempt :: u32
  eo_lease_expires_at_ms :: i64

record recovery_output =
  tro_kind :: string
  tro_receipt :: "receipt_output option"

fun transaction_recovery_output :: "transaction_recovery \<Rightarrow> recovery_output" where
  "transaction_recovery_output (TransactionRecovery_Committed r) =
     \<lparr>tro_kind = ''committed'', tro_receipt = Some (receipt_output_of r)\<rparr>"
| "transaction_recovery_output TransactionRecovery_Absent = \<lparr>tro_kind = ''absent'', tro_receipt = None\<rparr>"

fun js_state_name :: "job_state \<Rightarrow> string" where
  "js_state_name Pending = ''pending''"
| "js_state_name Leased = ''leased''"
| "js_state_name RetryWait = ''retryWait''"
| "js_state_name Uncertain = ''uncertain''"
| "js_state_name Succeeded = ''succeeded''"
| "js_state_name Dead = ''dead''"
| "js_state_name Cancelled = ''cancelled''"

definition parse_job_state :: "string \<Rightarrow> js_error + job_state" where
  "parse_job_state s =
     (if s = ''pending'' then Inr Pending
      else if s = ''leased'' then Inr Leased
      else if s = ''retryWait'' then Inr RetryWait
      else if s = ''uncertain'' then Inr Uncertain
      else if s = ''succeeded'' then Inr Succeeded
      else if s = ''dead'' then Inr Dead
      else if s = ''cancelled'' then Inr Cancelled
      else Inl (js_err ''Validation'' (''unknown job state '' @ debug_str s)))"

record job_info_output =
  jo_job_id :: string
  jo_queue :: string
  jo_partition_key :: string
  jo_state :: string
  jo_attempt :: u32
  jo_lease_expires_at_ms :: "i64 option"
  jo_worker_id :: "string option"
  jo_error_summary :: "string option"

definition job_info_output_of :: "job_info \<Rightarrow> job_info_output" where
  "job_info_output_of j = \<lparr>jo_job_id = to_hex (info_job_id j), jo_queue = spec_queue (info_spec j),
     jo_partition_key = spec_partition_key (info_spec j), jo_state = js_state_name (info_state j),
     jo_attempt = info_attempt j, jo_lease_expires_at_ms = info_lease_expires_at_ms j,
     jo_worker_id = info_worker_id j, jo_error_summary = info_error_summary j\<rparr>"

record event_output =
  po_transaction_id :: string
  po_global_sequence :: i64
  po_stream_version :: i64
  po_event_id :: string
  po_stream_id :: string
  po_event_type :: string
  po_occurred_at_ms :: i64
  po_payload :: blob

definition event_output_of :: "persisted_event \<Rightarrow> event_output" where
  "event_output_of p = \<lparr>po_transaction_id = to_hex (persisted_transaction_id p),
     po_global_sequence = u64_as_i64 (persisted_global_sequence p),
     po_stream_version = u64_as_i64 (persisted_stream_version p),
     po_event_id = to_hex (event_id (persisted_event p)), po_stream_id = event_stream_id (persisted_event p),
     po_event_type = event_type (persisted_event p), po_occurred_at_ms = event_occurred_at_ms (persisted_event p),
     po_payload = event_payload (persisted_event p)\<rparr>"

section \<open>The handle\<close>

text \<open>The store, until it is closed.\<close>

type_synonym handle = "store option"

definition durability_of_input :: "string option \<Rightarrow> js_error + durability" where
  "durability_of_input d =
     (case d of
        None \<Rightarrow> Inr Strict
      | Some s \<Rightarrow>
          if s = ''strict'' then Inr Strict
          else if s = ''relaxed'' then Inr Relaxed
          else Inl (js_err ''Validation'' (''unknown durability '' @ debug_str s)))"

definition node_open :: "(sqlite_error \<Rightarrow> string) \<Rightarrow> open_outcome \<Rightarrow> bool \<Rightarrow> migrate_env \<Rightarrow> string option \<Rightarrow>
    db_file option \<Rightarrow> (js_error + handle) \<times> db_file option" where
  "node_open driver opn created e d f =
     (case durability_of_input d of
        Inl err \<Rightarrow> (Inl err, f)
      | Inr durability \<Rightarrow>
          (case builder_open opn created e (with_durability durability store_builder_new) f of
             (Inl err, f) \<Rightarrow> (Inl (map_error driver err), f)
           | (Inr st, f) \<Rightarrow> (Inr (Some st), f)))"

definition node_close :: "handle \<Rightarrow> handle" where
  "node_close h = None"

definition js_closed :: js_error where
  "js_closed = js_err ''Closed'' ''store is closed''"

text \<open>A call on the open store; its error and its result are translated.\<close>

definition on_store :: "(store \<Rightarrow> (js_error + 'a) \<times> store) \<Rightarrow> handle \<Rightarrow> (js_error + 'a) \<times> handle" where
  "on_store call h =
     (case h of
        None \<Rightarrow> (Inl js_closed, None)
      | Some st \<Rightarrow> (let (r, st) = call st in (r, Some st)))"

definition translate :: "('e \<Rightarrow> js_error) \<Rightarrow> ('a \<Rightarrow> 'b) \<Rightarrow> ('e + 'a) \<times> store \<Rightarrow> (js_error + 'b) \<times> store" where
  "translate err f = (\<lambda>(r, st). (err_bind (map_err err r) (\<lambda>x. Inr (f x)), st))"

definition node_commit :: "(sqlite_error \<Rightarrow> string) \<Rightarrow> (nat \<Rightarrow> string + 128 word) \<Rightarrow> open_outcome \<Rightarrow> env \<Rightarrow> batch_input \<Rightarrow>
    handle \<Rightarrow> (js_error + receipt_output) \<times> handle" where
  "node_commit driver rnd opn e input h =
     (case build_batch driver rnd input 0 of
        Inl err \<Rightarrow> (Inl err, h)
      | Inr (b, _) \<Rightarrow> on_store (\<lambda>st. translate (map_commit_error driver) receipt_output_of (store_commit opn e b st)) h)"

definition node_claim_jobs :: "(sqlite_error \<Rightarrow> string) \<Rightarrow> open_outcome \<Rightarrow> env \<Rightarrow> claim_request_input \<Rightarrow>
    handle \<Rightarrow> (js_error + claim_output) \<times> handle" where
  "node_claim_jobs driver opn e input =
     on_store (\<lambda>st. translate (map_claim_error driver) claim_outcome_output (store_claim_jobs opn e
       \<lparr>req_queue = ci_queue input, req_worker_id = ci_worker_id input, req_now_ms = ci_now_ms input,
        req_lease_ms = ci_lease_ms input, req_limit = ucast (ci_limit input)\<rparr> st))"

definition node_extend_lease :: "(sqlite_error \<Rightarrow> string) \<Rightarrow> open_outcome \<Rightarrow> env \<Rightarrow> string \<Rightarrow> string \<Rightarrow> i64 \<Rightarrow> i64 \<Rightarrow>
    handle \<Rightarrow> (js_error + extension_output) \<times> handle" where
  "node_extend_lease driver opn e job_id lease_token new_expiry_ms now_ms =
     on_store (\<lambda>st.
       case err_bind (parse_js_id ''jobId'' job_id) (\<lambda>i.
            err_bind (parse_js_id ''leaseToken'' lease_token) (\<lambda>t. Inr (i, t))) of
         Inl err \<Rightarrow> (Inl err, st)
       | Inr (i, t) \<Rightarrow> translate (map_lease_error driver)
           (\<lambda>r. \<lparr>eo_job_id = to_hex (ext_receipt_job_id r), eo_attempt = ext_receipt_attempt r,
                eo_lease_expires_at_ms = ext_receipt_lease_expires_at_ms r\<rparr>)
           (store_extend_lease opn e i t new_expiry_ms now_ms st))"

definition node_recover_claim :: "(sqlite_error \<Rightarrow> string) \<Rightarrow> open_outcome \<Rightarrow> env \<Rightarrow> string \<Rightarrow> i64 \<Rightarrow>
    handle \<Rightarrow> (js_error + claim_output) \<times> handle" where
  "node_recover_claim driver opn e transaction_id now_ms =
     on_store (\<lambda>st.
       case parse_js_id ''transactionId'' transaction_id of
         Inl err \<Rightarrow> (Inl err, st)
       | Inr t \<Rightarrow> translate (map_recovery_error driver) claim_recovery_output (store_recover_claim opn e t now_ms st))"

definition node_recover_transaction :: "(sqlite_error \<Rightarrow> string) \<Rightarrow> open_outcome \<Rightarrow> env \<Rightarrow> string \<Rightarrow>
    handle \<Rightarrow> (js_error + recovery_output) \<times> handle" where
  "node_recover_transaction driver opn e transaction_id =
     on_store (\<lambda>st.
       case parse_js_id ''transactionId'' transaction_id of
         Inl err \<Rightarrow> (Inl err, st)
       | Inr t \<Rightarrow> translate (map_recovery_error driver) transaction_recovery_output
           (store_recover_transaction opn e t st))"

definition node_jobs :: "(sqlite_error \<Rightarrow> string) \<Rightarrow> open_outcome \<Rightarrow> env \<Rightarrow> string option \<Rightarrow> string option \<Rightarrow> u32 \<Rightarrow>
    handle \<Rightarrow> (js_error + job_info_output list) \<times> handle" where
  "node_jobs driver opn e queue state limit h =
     (case map_transpose parse_job_state state of
        Inl err \<Rightarrow> (Inl err, h)
      | Inr state \<Rightarrow> on_store (\<lambda>st. translate (map_error driver) (map job_info_output_of)
          (with_reader opn e (list_jobs queue state (ucast limit)) st)) h)"

definition node_projection_get :: "(sqlite_error \<Rightarrow> string) \<Rightarrow> open_outcome \<Rightarrow> env \<Rightarrow> string \<Rightarrow> blob \<Rightarrow>
    handle \<Rightarrow> (js_error + blob option) \<times> handle" where
  "node_projection_get driver opn e projection key =
     on_store (\<lambda>st. translate (map_error driver) id (with_reader opn e (projection_get projection key) st))"

definition node_projection_version :: "(sqlite_error \<Rightarrow> string) \<Rightarrow> open_outcome \<Rightarrow> env \<Rightarrow> string \<Rightarrow>
    handle \<Rightarrow> (js_error + i64) \<times> handle" where
  "node_projection_version driver opn e projection =
     on_store (\<lambda>st. translate (map_error driver) u64_as_i64 (with_reader opn e (projection_version projection) st))"

definition node_stream_version :: "(sqlite_error \<Rightarrow> string) \<Rightarrow> open_outcome \<Rightarrow> env \<Rightarrow> string \<Rightarrow>
    handle \<Rightarrow> (js_error + i64) \<times> handle" where
  "node_stream_version driver opn e stream_id =
     on_store (\<lambda>st. translate (map_error driver) u64_as_i64
       (with_reader opn e (tx_map_err Error_Storage (stream_version stream_id)) st))"

definition node_events_after :: "(sqlite_error \<Rightarrow> string) \<Rightarrow> open_outcome \<Rightarrow> env \<Rightarrow> i64 \<Rightarrow> u32 \<Rightarrow>
    handle \<Rightarrow> (js_error + event_output list) \<times> handle" where
  "node_events_after driver opn e after limit =
     on_store (\<lambda>st. translate (map_error driver) (map event_output_of)
       (with_reader opn e (tx_map_err Error_Storage (events_after (i64_as_u64 after) (ucast limit))) st))"

end
