(* ===== verification/Node_Results.thy ===== *)
theory Node_Results
  imports Node_Bindings Store_Recovery
begin

text \<open>
  The Node bindings refine the facade: a call on a handle leaves it as it is or is one call of the facade, so that
  what holds of the reachable stores holds of the stores of handles. The codes and the messages of the errors are
  enough to recover: the code of an indeterminate commit is that of no other error, and its message contains the ID of
  the transaction.
\<close>

section \<open>Steps of a handle\<close>

inductive node_step :: "handle \<Rightarrow> handle \<Rightarrow> bool" where
  close: "node_step h (node_close h)"
| commit: "node_commit driver rnd opn e input h = (r, h') \<Longrightarrow> node_step h h'"
| claim_jobs: "node_claim_jobs driver opn e req h = (r, h') \<Longrightarrow> node_step h h'"
| extend_lease: "node_extend_lease driver opn e i t expiry now_ms h = (r, h') \<Longrightarrow> node_step h h'"
| recover_claim: "node_recover_claim driver opn e i now_ms h = (r, h') \<Longrightarrow> node_step h h'"
| recover_transaction: "node_recover_transaction driver opn e i h = (r, h') \<Longrightarrow> node_step h h'"
| jobs: "node_jobs driver opn e q s limit h = (r, h') \<Longrightarrow> node_step h h'"
| projection_get: "node_projection_get driver opn e p key h = (r, h') \<Longrightarrow> node_step h h'"
| projection_version: "node_projection_version driver opn e p h = (r, h') \<Longrightarrow> node_step h h'"
| stream_version: "node_stream_version driver opn e s h = (r, h') \<Longrightarrow> node_step h h'"
| events_after: "node_events_after driver opn e after limit h = (r, h') \<Longrightarrow> node_step h h'"

text \<open>What a call of the bindings does to the store: nothing, or a call of the facade.\<close>

definition forwards :: "handle \<Rightarrow> handle \<Rightarrow> bool" where
  "forwards h h' \<longleftrightarrow> h' = h \<or> h' = None \<or>
     (\<exists>st q a st'. h = Some st \<and> store_step st (Call q a) st' \<and> h' = Some st')"

lemma on_store_forwards:
  assumes "on_store call h = (r, h')"
    and "\<And>st x st'. call st = (x, st') \<Longrightarrow> st' = st \<or> (\<exists>q a. store_step st (Call q a) st')"
  shows "forwards h h'"
proof (cases h)
  case None
  with assms(1) show ?thesis by (simp add: on_store_def forwards_def)
next
  case (Some st)
  then obtain st' where "call st = (r, st')" "h' = Some st'"
    using assms(1) by (auto simp: on_store_def split: prod.splits)
  with assms(2) Some show ?thesis by (auto simp: forwards_def)
qed

lemma translate_step:
  assumes "translate err f m = (x, st')" "respond c m = perform opn e q st"
  shows "\<exists>q a. store_step st (Call q a) st'"
proof -
  obtain r where m: "m = (r, st')"
    using assms(1) by (cases m) (simp add: translate_def)
  then have "store_step st (Call q (c r)) st'"
    using assms(2) by (intro store_step.call [of opn e]) (simp add: respond_def)
  then show ?thesis by blast
qed

lemma translated_call:
  assumes "on_store (\<lambda>st. translate err f (call st)) h = (r, h')"
    and "\<And>st. respond c (call st) = perform opn e q st"
  shows "forwards h h'"
  using assms(1)
proof (rule on_store_forwards)
  fix st x st'
  assume "translate err f (call st) = (x, st')"
  then show "st' = st \<or> (\<exists>q a. store_step st (Call q a) st')"
    using translate_step assms(2) by blast
qed

lemma guarded_call:
  assumes "on_store (\<lambda>st. case p of Inl err \<Rightarrow> (Inl err, st) | Inr x \<Rightarrow> translate (err' x) (f x) (call x st)) h = (r, h')"
    and "\<And>st x. respond c (call x st) = perform opn e (q x) st"
  shows "forwards h h'"
  using assms(1)
proof (rule on_store_forwards)
  fix st y st'
  assume run: "(case p of Inl err \<Rightarrow> (Inl err, st) | Inr x \<Rightarrow> translate (err' x) (f x) (call x st)) = (y, st')"
  show "st' = st \<or> (\<exists>q a. store_step st (Call q a) st')"
  proof (cases p)
    case (Inl err)
    with run show ?thesis by simp
  next
    case (Inr x)
    with run have "translate (err' x) (f x) (call x st) = (y, st')" by simp
    from translate_step [OF this assms(2)] show ?thesis ..
  qed
qed

lemma forwards_refl [simp]: "forwards h h"
  by (simp add: forwards_def)

lemma node_commit_forwards:
  assumes "node_commit driver rnd opn e input h = (r, h')"
  shows "forwards h h'"
proof (cases "build_batch driver rnd input 0")
  case (Inl err)
  with assms show ?thesis by (simp add: node_commit_def)
next
  case (Inr bn)
  with assms have run: "on_store (\<lambda>st. translate (map_commit_error driver) receipt_output_of
      (store_commit opn e (fst bn) st)) h = (r, h')"
    by (simp add: node_commit_def case_prod_unfold)
  show ?thesis
    by (rule translated_call [OF run, where c = Commit_Result and opn = opn and e = e and q = "Call_Commit (fst bn)"])
      simp
qed

lemma node_jobs_forwards:
  assumes "node_jobs driver opn e queue s limit h = (r, h')"
  shows "forwards h h'"
proof (cases "map_transpose parse_job_state s")
  case (Inl err)
  with assms show ?thesis by (simp add: node_jobs_def)
next
  case (Inr state)
  with assms have run: "on_store (\<lambda>st. translate (map_error driver) (map job_info_output_of)
      (with_reader opn e (list_jobs queue state (ucast limit)) st)) h = (r, h')"
    by (simp add: node_jobs_def)
  show ?thesis
    by (rule translated_call [OF run, where c = Job_List and opn = opn and e = e and q = "Call_Jobs queue state (ucast limit)"])
      simp
qed

lemma node_step_forwards:
  assumes "node_step h h'"
  shows "forwards h h'"
  using assms
proof cases
  case close
  then show ?thesis by (simp add: forwards_def node_close_def)
next
  case (commit driver rnd opn e input r)
  then show ?thesis by (rule node_commit_forwards)
next
  case (claim_jobs driver opn e req r)
  show ?thesis
    using claim_jobs unfolding node_claim_jobs_def
    by (rule translated_call [where c = Claim_Result and opn = opn and e = e]) (rule perform.simps(15) [symmetric])
next
  case (extend_lease driver opn e i t expiry now_ms r)
  show ?thesis
    using extend_lease unfolding node_extend_lease_def case_prod_unfold
    by (rule guarded_call [where c = Lease_Result and opn = opn and e = e]) (rule perform.simps(16) [symmetric])
next
  case (recover_claim driver opn e i now_ms r)
  show ?thesis
    using recover_claim unfolding node_recover_claim_def
    by (rule guarded_call [where c = Recovered_Claim and opn = opn and e = e]) (rule perform.simps(17) [symmetric])
next
  case (recover_transaction driver opn e i r)
  show ?thesis
    using recover_transaction unfolding node_recover_transaction_def
    by (rule guarded_call [where c = Recovered_Transaction and opn = opn and e = e]) (rule perform.simps(2) [symmetric])
next
  case (jobs driver opn e q s limit r)
  then show ?thesis by (rule node_jobs_forwards)
next
  case (projection_get driver opn e p key r)
  show ?thesis
    using projection_get unfolding node_projection_get_def
    by (rule translated_call [where c = Value_Found and opn = opn and e = e]) (rule perform.simps(9) [symmetric])
next
  case (projection_version driver opn e p r)
  show ?thesis
    using projection_version unfolding node_projection_version_def
    by (rule translated_call [where c = Version_Result and opn = opn and e = e]) (rule perform.simps(8) [symmetric])
next
  case (stream_version driver opn e s r)
  show ?thesis
    using stream_version unfolding node_stream_version_def
    by (rule translated_call [where c = Version_Result and opn = opn and e = e]) (rule perform.simps(7) [symmetric])
next
  case (events_after driver opn e after limit r)
  show ?thesis
    using events_after unfolding node_events_after_def
    by (rule translated_call [where c = Event_List and opn = opn and e = e]) (rule perform.simps(3) [symmetric])
qed

lemma reachable_call:
  assumes "reachable st" "store_step st l st'"
  shows "reachable st'"
proof -
  obtain c dur n ls where "runs store_step (new_store c dur n) ls st"
    using assms(1) by (auto simp: reachable_def)
  then have "runs store_step (new_store c dur n) (ls @ [l]) st'"
    using assms(2) by (auto simp: runs_append runs_Cons)
  then show ?thesis unfolding reachable_def by blast
qed

definition reachable_handle :: "handle \<Rightarrow> bool" where
  "reachable_handle h \<longleftrightarrow> (case h of None \<Rightarrow> True | Some st \<Rightarrow> reachable st)"

lemma node_step_reachable: "node_step h h' \<Longrightarrow> reachable_handle h \<Longrightarrow> reachable_handle h'"
  using node_step_forwards [of h h'] reachable_call by (auto simp: forwards_def reachable_handle_def)

lemma node_steps_reachable: "rtranclp node_step h h' \<Longrightarrow> reachable_handle h \<Longrightarrow> reachable_handle h'"
  by (induction rule: rtranclp_induct) (auto intro: node_step_reachable)

section \<open>Codes of errors\<close>

text \<open>A computation none of whose errors has the code.\<close>

definition never :: "string \<Rightarrow> 'a drawing \<Rightarrow> bool" where
  "never code m \<longleftrightarrow> (\<forall>n err. m n = Inl err \<longrightarrow> js_code err \<noteq> code)"

named_theorems never_rules

lemma never_bind [never_rules]: "never code m \<Longrightarrow> (\<And>x. never code (f x)) \<Longrightarrow> never code (draw_bind m f)"
  unfolding never_def draw_bind_def by (simp add: err_bind_Inl) fast

lemma never_return [never_rules]: "never code (draw_lift (Inr x))"
  by (simp add: never_def draw_lift_def)

lemma never_fold [never_rules]: "(\<And>acc x. never code (f acc x)) \<Longrightarrow> never code (draw_fold f acc xs)"
  by (induction xs arbitrary: acc) (auto intro: never_rules)

lemma never_lift:
  "(\<And>err. m = Inl err \<Longrightarrow> js_code err \<noteq> code) \<Longrightarrow> never code (draw_lift m)"
  by (cases m) (auto simp: never_def draw_lift_def)

lemma parse_js_id_code: "parse_js_id field text = Inl err \<Longrightarrow> js_code err = ''InvalidId''"
  by (auto simp: parse_js_id_def map_err_Inl js_err_def)

lemma id_or_new_never [never_rules]: "never ''CommitIndeterminate'' (id_or_new driver rnd field text)"
  by (auto simp: id_or_new_def never_def draw_lift_def id_new_def js_err_def err_bind_Inl map_err_Inl
      dest: parse_js_id_code split: option.splits sum.splits)

lemma spec_of_input_never [never_rules]: "never ''CommitIndeterminate'' (draw_lift (spec_of_input i j))"
  by (rule never_lift) (auto simp: spec_of_input_def err_bind_Inl js_err_def Let_def split: option.splits if_splits)

lemma ack_of_input_never [never_rules]: "never ''CommitIndeterminate'' (draw_lift (ack_of_input a b))"
  by (rule never_lift) (auto simp: ack_of_input_def err_bind_Inl dest: parse_js_id_code)

lemma build_batch_never: "never ''CommitIndeterminate'' (build_batch driver rnd input)"
  unfolding build_batch_def by (intro never_rules)

text \<open>The message of an indeterminate commit gives the ID of the transaction.\<close>

fun text_after :: "string \<Rightarrow> string \<Rightarrow> string" where
  "text_after tag [] = []"
| "text_after tag (c # s) = (if prefix tag (c # s) then drop (length tag) (c # s) else text_after tag s)"

lemma from_hex_to_hex: "from_hex (to_hex i) = Inr i"
  by (simp add: from_hex_def to_hex_def from_hex_pairs_hex)

lemma transaction_id_of_message:
  "take 32 (text_after ''transactionId='' (js_message (map_commit_error driver (CommitError_Indeterminate i)))) =
     to_hex (ic_transaction_id i)"
  by (simp add: js_err_def length_to_hex)

lemma commit_error_code:
  "js_code (map_commit_error driver err) = ''CommitIndeterminate'' \<longleftrightarrow> (\<exists>i. err = CommitError_Indeterminate i)"
  by (cases err) (simp_all add: js_err_def)

lemma node_commit_indeterminate:
  assumes "node_commit driver rnd opn e input (Some st) = (Inl err, h)" "js_code err = ''CommitIndeterminate''"
  obtains b n i st' where "build_batch driver rnd input 0 = Inr (b, n)"
    "store_commit opn e b st = (Inl (CommitError_Indeterminate i), st')" "h = Some st'"
    "take 32 (text_after ''transactionId='' (js_message err)) = to_hex (ic_transaction_id i)"
proof (cases "build_batch driver rnd input 0")
  case (Inl x)
  with assms build_batch_never have False
    by (auto simp: node_commit_def never_def)
  then show thesis ..
next
  case (Inr bn)
  obtain b n where bn: "bn = (b, n)" by (cases bn)
  obtain x st' where call: "store_commit opn e b st = (x, st')" by (cases "store_commit opn e b st")
  with assms(1) Inr bn obtain ce where ce: "x = Inl ce" "err = map_commit_error driver ce" "h = Some st'"
    by (cases x) (simp_all add: node_commit_def on_store_def translate_def)
  then obtain i where i: "ce = CommitError_Indeterminate i"
    using assms(2) by (auto simp: commit_error_code)
  show thesis
    using that Inr call ce transaction_id_of_message [of driver i] unfolding bn i by blast
qed

lemma node_recover_transaction_of_hex:
  assumes "node_recover_transaction driver opn e (to_hex i) (Some st) = (Inr out, h)"
  obtains res st' where "store_recover_transaction opn e i st = (Inr res, st')" "h = Some st'"
    "out = transaction_recovery_output res"
proof -
  obtain x st' where call: "store_recover_transaction opn e i st = (x, st')"
    by (cases "store_recover_transaction opn e i st")
  with assms show thesis
    using that by (cases x)
      (simp_all add: node_recover_transaction_def on_store_def parse_js_id_def from_hex_to_hex translate_def)
qed

lemma parse_job_state_name: "parse_job_state (js_state_name s) = Inr s"
  by (cases s) (simp_all add: parse_job_state_def)

end
