(* ===== verification/Provider_Turn.thy ===== *)
theory Provider_Turn
  imports Store_Open
begin

text \<open>
  The worker protocol of \<open>examples/synara_provider_turn.rs\<close>: a client of the facade that requests a turn, claims
  its job, performs an effect outside the store, and completes the turn, with recovery of the outcomes that are
  indeterminate. A computation has the store, the number of interactions with the environment so far, and the
  effects performed. The environment gives every interaction its faults, the time and the draws of the generator; lines
  that are only printed are left out.
\<close>

section \<open>Computations of the client\<close>

record turn_env =
  te_open :: "nat \<Rightarrow> open_outcome"
  te_env :: "nat \<Rightarrow> env"
  te_now :: "nat \<Rightarrow> i64"
  te_random :: "nat \<Rightarrow> string + 128 word"

record turn_state =
  ts_store :: store
  ts_ticks :: nat
  ts_effects :: "claimed_job list"

text \<open>The boxed errors; \<open>Turn_Panic\<close> is \<open>remove(0)\<close> of an empty vector, or a sum of times that overflows.\<close>

datatype turn_error =
    Turn_Error error
  | Turn_Commit commit_error
  | Turn_Claim claim_error
  | Turn_Recovery recovery_error
  | Turn_Lease lease_error
  | Turn_Queue_Empty
  | Turn_Panic

type_synonym 'a turn = "turn_state \<Rightarrow> (turn_error + 'a) \<times> turn_state"

definition turn_lift :: "turn_error + 'a \<Rightarrow> 'a turn" where
  "turn_lift r = (\<lambda>s. (r, s))"

definition turn_return :: "'a \<Rightarrow> 'a turn" where
  "turn_return x = turn_lift (Inr x)"

definition turn_bind :: "'a turn \<Rightarrow> ('a \<Rightarrow> 'b turn) \<Rightarrow> 'b turn" where
  "turn_bind m f = (\<lambda>s. case m s of (Inl e, s) \<Rightarrow> (Inl e, s) | (Inr x, s) \<Rightarrow> f x s)"

text \<open>A call of the facade, whose result is a value here.\<close>

definition attempt :: "turn_env \<Rightarrow> (open_outcome \<Rightarrow> env \<Rightarrow> store \<Rightarrow> ('e + 'a) \<times> store) \<Rightarrow> ('e + 'a) turn" where
  "attempt te op = (\<lambda>s.
     let (r, st) = op (te_open te (ts_ticks s)) (te_env te (ts_ticks s)) (ts_store s) in
     (Inr r, s\<lparr>ts_store := st, ts_ticks := Suc (ts_ticks s)\<rparr>))"

definition turn_call :: "turn_env \<Rightarrow> (open_outcome \<Rightarrow> env \<Rightarrow> store \<Rightarrow> ('e + 'a) \<times> store) \<Rightarrow> ('e \<Rightarrow> turn_error) \<Rightarrow> 'a turn" where
  "turn_call te op fail = turn_bind (attempt te op) (\<lambda>r. turn_lift (map_err fail r))"

definition turn_now :: "turn_env \<Rightarrow> i64 turn" where
  "turn_now te = (\<lambda>s. (Inr (te_now te (ts_ticks s)), s\<lparr>ts_ticks := Suc (ts_ticks s)\<rparr>))"

definition turn_new_id :: "turn_env \<Rightarrow> id turn" where
  "turn_new_id te = (\<lambda>s. (map_err Turn_Error (id_new (te_random te (ts_ticks s))), s\<lparr>ts_ticks := Suc (ts_ticks s)\<rparr>))"

definition turn_read :: "turn_env \<Rightarrow> (error, 'a) tx \<Rightarrow> 'a turn" where
  "turn_read te m = turn_call te (\<lambda>opn e. with_reader opn e m) Turn_Error"

text \<open>The sum of two times: an overflow panics, as it does in the debug build that \<open>cargo run --example\<close> makes.\<close>

definition i64_plus :: "i64 \<Rightarrow> i64 \<Rightarrow> turn_error + i64" where
  "i64_plus a b = ok_or (i64_checked_add a b) Turn_Panic"

section \<open>The steps of a turn\<close>

definition threads :: string where
  "threads = ''threads''"

definition turn_queue :: string where
  "turn_queue = ''provider-command''"

definition thread_stream :: "string \<Rightarrow> string" where
  "thread_stream thread_id = ''thread:'' @ thread_id"

definition turn_event :: "turn_env \<Rightarrow> string \<Rightarrow> string \<Rightarrow> string \<Rightarrow> event turn" where
  "turn_event te stream type_name payload =
     turn_bind (turn_new_id te) (\<lambda>i.
     turn_bind (turn_now te) (\<lambda>now.
     turn_return (event_with_json_payload i stream type_name now (str_bytes payload))))"

definition thread_status :: "turn_env \<Rightarrow> string \<Rightarrow> blob option turn" where
  "thread_status te thread_id =
     turn_bind (attempt te (\<lambda>opn e. with_reader opn e (projection_get threads (str_bytes thread_id)))) (\<lambda>r.
     turn_return (case r of Inr v \<Rightarrow> v | Inl _ \<Rightarrow> None))"

text \<open>The patch that sets the status of a thread.\<close>

definition status_patch :: "turn_env \<Rightarrow> string \<Rightarrow> string \<Rightarrow> projection_patch turn" where
  "status_patch te thread_id new_status =
     turn_bind (turn_read te (projection_version threads)) (\<lambda>version.
     turn_return (patch_push (Put (str_bytes thread_id) (str_bytes new_status)) (projection_patch_new threads version)))"

definition new_batch :: "turn_env \<Rightarrow> commit_batch turn" where
  "new_batch te =
     turn_bind (turn_new_id te) (\<lambda>t.
     turn_bind (turn_now te) (\<lambda>now.
     turn_return (commit_batch_new t now)))"

definition turn_commit :: "turn_env \<Rightarrow> commit_batch \<Rightarrow> commit_receipt turn" where
  "turn_commit te b = turn_call te (\<lambda>opn e. store_commit opn e b) Turn_Commit"

definition request_turn :: "turn_env \<Rightarrow> string \<Rightarrow> id turn" where
  \<open>request_turn te thread_id =
     (let stream = thread_stream thread_id in
      turn_bind (new_batch te) (\<lambda>b.
      turn_bind (turn_event te stream ''thread.created'' ''{}'') (\<lambda>ev.
      turn_bind (status_patch te thread_id ''{"status":"idle"}'') (\<lambda>p.
      turn_bind (turn_commit te (push_operation (ProjectionPatch p) (push_operation (AppendEvent ev)
        (expect_stream_version stream 0 b)))) (\<lambda>_.
      turn_bind (turn_new_id te) (\<lambda>job_id.
      turn_bind (new_batch te) (\<lambda>b.
      turn_bind (turn_event te stream ''thread.turn-requested'' ''{"turn":1}'') (\<lambda>ev.
      turn_bind (status_patch te thread_id ''{"status":"queued"}'') (\<lambda>p.
      turn_bind (turn_commit te (push_operation (EnqueueJob (job_spec_reconcilable job_id turn_queue stream
          (str_bytes ''{"turn":1,"provider":"simulated"}'')))
        (push_operation (ProjectionPatch p) (push_operation (AppendEvent ev)
        (expect_stream_version stream 1 b))))) (\<lambda>_.
      turn_return job_id))))))))))\<close>

definition heartbeat :: "turn_env \<Rightarrow> claimed_job \<Rightarrow> unit turn" where
  "heartbeat te job =
     turn_bind (turn_now te) (\<lambda>now.
     turn_bind (turn_lift (i64_plus now (I64 60000))) (\<lambda>expiry.
     turn_bind (turn_call te (\<lambda>opn e. store_extend_lease opn e (claimed_job_id job) (claimed_lease_token job)
       expiry now) Turn_Lease) (\<lambda>_.
     turn_return ())))"

definition start_turn :: "turn_env \<Rightarrow> string \<Rightarrow> unit turn" where
  \<open>start_turn te thread_id =
     turn_bind (new_batch te) (\<lambda>b.
     turn_bind (turn_event te (thread_stream thread_id) ''thread.turn-started'' ''{"turn":1}'') (\<lambda>ev.
     turn_bind (status_patch te thread_id ''{"status":"running"}'') (\<lambda>p.
     turn_bind (turn_commit te (push_operation (ProjectionPatch p) (push_operation (AppendEvent ev) b))) (\<lambda>_.
     turn_return ()))))\<close>

definition call_provider :: "claimed_job \<Rightarrow> unit turn" where
  "call_provider job = (\<lambda>s. (Inr (), s\<lparr>ts_effects := ts_effects s @ [job]\<rparr>))"

text \<open>The batch that completes a turn, and its commit with the recovery of an unknown outcome.\<close>

definition completion_batch :: "turn_env \<Rightarrow> string \<Rightarrow> claimed_job \<Rightarrow> commit_batch turn" where
  \<open>completion_batch te thread_id job =
     turn_bind (new_batch te) (\<lambda>b.
     turn_bind (turn_event te (thread_stream thread_id) ''thread.turn-completed'' ''{"turn":1}'') (\<lambda>ev.
     turn_bind (status_patch te thread_id ''{"status":"idle"}'') (\<lambda>p.
     turn_return (acknowledge_job (claimed_job_id job) (claimed_lease_token job) None
       (push_operation (ProjectionPatch p) (push_operation (AppendEvent ev) b))))))\<close>

definition commit_or_recover :: "turn_env \<Rightarrow> commit_batch \<Rightarrow> unit turn" where
  "commit_or_recover te b =
     turn_bind (attempt te (\<lambda>opn e. store_commit opn e b)) (\<lambda>r.
     case r of
       Inr _ \<Rightarrow> turn_return ()
     | Inl (CommitError_Indeterminate i) \<Rightarrow>
         turn_bind (turn_call te (\<lambda>opn e. store_recover_transaction opn e (ic_transaction_id i)) Turn_Recovery) (\<lambda>res.
         case res of
           TransactionRecovery_Committed _ \<Rightarrow> turn_return ()
         | TransactionRecovery_Absent \<Rightarrow> turn_bind (turn_commit te b) (\<lambda>_. turn_return ()))
     | Inl other \<Rightarrow> turn_lift (Inl (Turn_Commit other)))"

definition complete_turn :: "turn_env \<Rightarrow> string \<Rightarrow> claimed_job \<Rightarrow> unit turn" where
  "complete_turn te thread_id job =
     turn_bind (completion_batch te thread_id job) (commit_or_recover te)"

section \<open>Claiming\<close>

text \<open>One poll: the transaction with its first job, or \<open>None\<close> to poll again.\<close>

definition first_claimed :: "committed_claims \<Rightarrow> (id \<times> claimed_job) option turn" where
  "first_claimed c =
     (case claims_jobs c of
        [] \<Rightarrow> turn_lift (Inl Turn_Panic)
      | job # _ \<Rightarrow> turn_return (Some (claims_transaction_id c, job)))"

definition claim_once :: "turn_env \<Rightarrow> string \<Rightarrow> (id \<times> claimed_job) option turn" where
  "claim_once te worker_id =
     turn_bind (turn_now te) (\<lambda>now.
     turn_bind (attempt te (\<lambda>opn e. store_claim_jobs opn e
       \<lparr>req_queue = turn_queue, req_worker_id = worker_id, req_now_ms = now, req_lease_ms = I64 30000, req_limit = 1\<rparr>)) (\<lambda>r.
     case r of
       Inr (ClaimOutcome_Committed c) \<Rightarrow> first_claimed c
     | Inr (ClaimOutcome_MaintenanceCommitted _) \<Rightarrow> turn_return None
     | Inr ClaimOutcome_Noop \<Rightarrow> turn_lift (Inl Turn_Queue_Empty)
     | Inl (ClaimError_Indeterminate i) \<Rightarrow>
         turn_bind (turn_now te) (\<lambda>now.
         turn_bind (turn_call te (\<lambda>opn e. store_recover_claim opn e (icl_transaction_id i) now) Turn_Recovery) (\<lambda>res.
         case res of
           ClaimRecovery_Committed c \<Rightarrow> if claims_jobs c = [] then turn_return None else first_claimed c
         | ClaimRecovery_MaintenanceCommitted _ \<Rightarrow> turn_return None
         | ClaimRecovery_Absent \<Rightarrow> turn_return None))
     | Inl other \<Rightarrow> turn_lift (Inl (Turn_Claim other))))"

text \<open>The polling loop; \<open>None\<close> is a loop that does not end.\<close>

partial_function (option) claim_one :: "turn_env \<Rightarrow> string \<Rightarrow> turn_state \<Rightarrow>
    ((turn_error + id \<times> claimed_job) \<times> turn_state) option" where
  "claim_one te worker_id s =
     (case claim_once te worker_id s of
        (Inl err, s) \<Rightarrow> Some (Inl err, s)
      | (Inr (Some claimed), s) \<Rightarrow> Some (Inr claimed, s)
      | (Inr None, s) \<Rightarrow> claim_one te worker_id s)"

section \<open>The program\<close>

text \<open>
  A session opens the store on the file, runs, and drops the store, which leaves the tables in the file. The effects of
  the sessions are collected. \<open>None\<close> is a session that does not end.
\<close>

record session_env =
  se_open :: open_outcome
  se_created :: bool
  se_migrate :: migrate_env
  se_turn :: turn_env

definition turn_start :: "store \<Rightarrow> claimed_job list \<Rightarrow> turn_state" where
  "turn_start st effects = \<lparr>ts_store = st, ts_ticks = 0, ts_effects = effects\<rparr>"

definition session :: "session_env \<Rightarrow> (turn_state \<Rightarrow> ((turn_error + 'a) \<times> turn_state) option) \<Rightarrow>
    db_file option \<times> claimed_job list \<Rightarrow> ((turn_error + 'a) \<times> db_file option \<times> claimed_job list) option" where
  "session se m = (\<lambda>(f, effects).
     case store_open (se_open se) (se_created se) (se_migrate se) f of
       (Inl err, f) \<Rightarrow> Some (Inl (Turn_Error err), f, effects)
     | (Inr st, f) \<Rightarrow>
         (case m (turn_start st effects) of
            None \<Rightarrow> None
          | Some (r, s) \<Rightarrow>
              Some (r, map_option (\<lambda>g. g\<lparr>file_schema := Schema_V2 (store_db (ts_store s))\<rparr>) f, ts_effects s)))"

definition happy_path :: "turn_env \<Rightarrow> turn_state \<Rightarrow> ((turn_error + blob option) \<times> turn_state) option" where
  "happy_path te s =
     (case request_turn te ''t-100'' s of
        (Inl err, s) \<Rightarrow> Some (Inl err, s)
      | (Inr _, s) \<Rightarrow>
          (case claim_one te ''worker-1'' s of
             None \<Rightarrow> None
           | Some (Inl err, s) \<Rightarrow> Some (Inl err, s)
           | Some (Inr (_, job), s) \<Rightarrow>
               Some (turn_bind (heartbeat te job) (\<lambda>_.
                 turn_bind (start_turn te ''t-100'') (\<lambda>_.
                 turn_bind (call_provider job) (\<lambda>_.
                 turn_bind (complete_turn te ''t-100'' job) (\<lambda>_.
                 thread_status te ''t-100'')))) s)))"

definition crash_after_claim :: "turn_env \<Rightarrow> turn_state \<Rightarrow> ((turn_error + id) \<times> turn_state) option" where
  "crash_after_claim te s =
     (case request_turn te ''t-200'' s of
        (Inl err, s) \<Rightarrow> Some (Inl err, s)
      | (Inr _, s) \<Rightarrow>
          (case claim_one te ''worker-2'' s of
             None \<Rightarrow> None
           | Some (Inl err, s) \<Rightarrow> Some (Inl err, s)
           | Some (Inr (t, _), s) \<Rightarrow> Some (Inr t, s)))"

fun run_recovered :: "turn_env \<Rightarrow> claimed_job list \<Rightarrow> unit turn" where
  "run_recovered te [] = turn_return ()"
| "run_recovered te (job # claimed) =
     turn_bind (heartbeat te job) (\<lambda>_.
     turn_bind (start_turn te ''t-200'') (\<lambda>_.
     turn_bind (call_provider job) (\<lambda>_.
     turn_bind (complete_turn te ''t-200'' job) (\<lambda>_.
     run_recovered te claimed))))"

definition recover_after_crash :: "turn_env \<Rightarrow> id \<Rightarrow> (blob option \<times> job_info list \<times> persisted_event list) turn" where
  "recover_after_crash te claim_tx =
     turn_bind (turn_now te) (\<lambda>now.
     turn_bind (turn_call te (\<lambda>opn e. store_recover_claim opn e claim_tx now) Turn_Recovery) (\<lambda>res.
     turn_bind (case res of
         ClaimRecovery_Committed c \<Rightarrow> run_recovered te (claims_jobs c)
       | ClaimRecovery_MaintenanceCommitted _ \<Rightarrow> turn_return ()
       | ClaimRecovery_Absent \<Rightarrow> turn_return ()) (\<lambda>_.
     turn_bind (thread_status te ''t-200'') (\<lambda>status_text.
     turn_bind (turn_read te (list_jobs (Some turn_queue) (Some Succeeded) 10)) (\<lambda>succeeded.
     turn_bind (turn_read te (tx_map_err Error_Storage (events_after 0 100))) (\<lambda>all_events.
     turn_return (status_text, succeeded, all_events)))))))"

text \<open>\<open>main\<close> on a new path, with its three sessions.\<close>

definition provider_main :: "session_env \<Rightarrow> session_env \<Rightarrow> session_env \<Rightarrow>
    ((turn_error + blob option \<times> job_info list \<times> persisted_event list) \<times> db_file option \<times> claimed_job list) option" where
  "provider_main se1 se2 se3 =
     (case session se1 (happy_path (se_turn se1)) (None, []) of
        None \<Rightarrow> None
      | Some (Inl err, rest) \<Rightarrow> Some (Inl err, rest)
      | Some (Inr _, rest) \<Rightarrow>
          (case session se2 (crash_after_claim (se_turn se2)) rest of
             None \<Rightarrow> None
           | Some (Inl err, rest) \<Rightarrow> Some (Inl err, rest)
           | Some (Inr claim_tx, rest) \<Rightarrow>
               session se3 (\<lambda>s. Some (recover_after_crash (se_turn se3) claim_tx s)) rest))"

end
