(* ===== verification/Turn_Results.thy ===== *)
theory Turn_Results
  imports Provider_Turn Store_Recovery Claim_Results
begin

text \<open>
  The worker protocol: what is read before the commit of a turn leaves the database as it was (\<open>quiet\<close>), and the commit with its
  recovery applies the batch exactly once when it reports success.
\<close>

section \<open>Computations that change nothing\<close>

definition quiet :: "'a turn \<Rightarrow> bool" where
  "quiet m \<longleftrightarrow> (\<forall>s r s'. m s = (r, s') \<longrightarrow> store_ok (ts_store s) \<longrightarrow>
     store_ok (ts_store s') \<and> store_db (ts_store s') = store_db (ts_store s))"

named_theorems quiet_rules

lemma quietD:
  "quiet m \<Longrightarrow> m s = (r, s') \<Longrightarrow> store_ok (ts_store s) \<Longrightarrow>
     store_ok (ts_store s') \<and> store_db (ts_store s') = store_db (ts_store s)"
  by (simp add: quiet_def)

lemma quiet_lift [quiet_rules]: "quiet (turn_lift r)"
  by (simp add: quiet_def turn_lift_def)

lemma quiet_return [quiet_rules]: "quiet (turn_return x)"
  unfolding turn_return_def by (rule quiet_lift)

lemma turn_bind_cases:
  assumes "turn_bind m f s = (r, s')"
  obtains (failed) e where "m s = (Inl e, s')" "r = Inl e"
  | (went_on) x t where "m s = (Inr x, t)" "f x t = (r, s')"
proof (cases "m s")
  case (Pair q t)
  then show thesis
    using assms that by (cases q) (simp_all add: turn_bind_def)
qed

lemma quiet_bind [quiet_rules]:
  assumes "quiet m" "\<And>x. quiet (f x)"
  shows "quiet (turn_bind m f)"
  unfolding quiet_def
proof (intro allI impI)
  fix s r s'
  assume run: "turn_bind m f s = (r, s')" and ok: "store_ok (ts_store s)"
  from run show "store_ok (ts_store s') \<and> store_db (ts_store s') = store_db (ts_store s)"
  proof (cases rule: turn_bind_cases)
    case (failed e)
    then show ?thesis
      using quietD [OF assms(1) _ ok] by simp
  next
    case (went_on x t)
    then show ?thesis
      using quietD [OF assms(1) _ ok] quietD [OF assms(2)] by metis
  qed
qed

lemma quiet_now [quiet_rules]: "quiet (turn_now te)"
  by (simp add: quiet_def turn_now_def)

lemma quiet_new_id [quiet_rules]: "quiet (turn_new_id te)"
  by (simp add: quiet_def turn_new_id_def)

lemma attempt_iff:
  "attempt te op s = (r, s') \<longleftrightarrow> (\<exists>x st. op (te_open te (ts_ticks s)) (te_env te (ts_ticks s)) (ts_store s) = (x, st) \<and>
     r = Inr x \<and> s' = s\<lparr>ts_store := st, ts_ticks := Suc (ts_ticks s)\<rparr>)"
  unfolding attempt_def by (auto split: prod.split)

lemma quiet_attempt:
  assumes "\<And>opn e st x st'. op opn e st = (x, st') \<Longrightarrow> store_ok st \<Longrightarrow> store_ok st' \<and> store_db st' = store_db st"
  shows "quiet (attempt te op)"
  unfolding quiet_def attempt_iff using assms by fastforce

lemma quiet_call:
  "(\<And>opn e st x st'. op opn e st = (x, st') \<Longrightarrow> store_ok st \<Longrightarrow> store_ok st' \<and> store_db st' = store_db st) \<Longrightarrow>
     quiet (turn_call te op fail)"
  unfolding turn_call_def by (intro quiet_rules quiet_attempt)

lemma quiet_read [quiet_rules]: "quiet (turn_read te m)"
  unfolding turn_read_def by (rule quiet_call) (use with_reader_extends with_reader_same in blast)

lemma quiet_completion_batch: "quiet (completion_batch te thread_id job)"
  unfolding completion_batch_def new_batch_def turn_event_def status_patch_def by (intro quiet_rules)

section \<open>The batch\<close>

lemma turn_bind_Inr:
  assumes "turn_bind m f s = (Inr x, s')"
  obtains y t where "m s = (Inr y, t)" "f y t = (Inr x, s')"
  using assms by (cases rule: turn_bind_cases) auto

lemma turn_return_iff: "turn_return x s = (r, s') \<longleftrightarrow> r = Inr x \<and> s' = s"
  by (auto simp: turn_return_def turn_lift_def)

definition idle :: string where
  \<open>idle = ''{"status":"idle"}''\<close>

definition completion :: "id \<Rightarrow> i64 \<Rightarrow> event \<Rightarrow> u64 \<Rightarrow> string \<Rightarrow> claimed_job \<Rightarrow> commit_batch" where
  "completion t now ev version thread_id job = \<lparr>batch_transaction_id = t, batch_committed_at_ms = now,
     batch_correlation_id = None, batch_metadata = [], batch_expected_stream_versions = [],
     batch_operations = [AppendEvent ev,
       ProjectionPatch (patch_push (Put (str_bytes thread_id) (str_bytes idle)) (projection_patch_new threads version)),
       AckJob \<lparr>ack_job_id = claimed_job_id job, ack_lease_token = claimed_lease_token job, ack_result_digest = None\<rparr>]\<rparr>"

lemma completion_batch_gives:
  assumes "completion_batch te thread_id job s = (Inr b, s')"
  obtains t now ev version where "id_new (te_random te (ts_ticks s)) = Inr t"
    "event_stream_id ev = thread_stream thread_id" "event_type ev = ''thread.turn-completed''"
    "b = completion t now ev version thread_id job"
  using assms unfolding completion_batch_def new_batch_def turn_event_def status_patch_def
  by (auto elim!: turn_bind_Inr simp: turn_return_iff turn_new_id_def turn_now_def completion_def commit_batch_new_def
      push_operation_def acknowledge_job_def event_with_json_payload_def idle_def)

section \<open>The commit\<close>

lemma store_commit_applied:
  assumes "store_commit opn e b st = (Inr receipt, st')" "store_ok st"
    and "\<not> transaction_exists (as_bytes (batch_transaction_id b)) (store_db st)"
  shows "\<exists>seq. batch_committed b seq (store_db st) (store_db st')"
  using assms(1) unfolding store_commit_def
proof (cases rule: with_writer_cases)
  case (ran conn d)
  have "db_ok (store_db st)"
    using assms(2) by (simp add: store_ok_def)
  with ran(1) show ?thesis
  proof (cases rule: commit_cases)
    case (resubmitted t)
    with assms(3) have False by (metis image_eqI transaction_exists_def)
    then show ?thesis ..
  qed (use ran in auto)
qed simp

lemma commit_or_recover_applies:
  assumes "commit_or_recover te b s = (Inr u, s')" "store_ok (ts_store s)"
    and "\<not> transaction_exists (as_bytes (batch_transaction_id b)) (store_db (ts_store s))"
  shows "\<exists>seq. batch_committed b seq (store_db (ts_store s)) (store_db (ts_store s'))"
proof -
  let ?opn = "te_open te (ts_ticks s)" and ?e = "te_env te (ts_ticks s)"
  obtain x st where call: "store_commit ?opn ?e b (ts_store s) = (x, st)"
    by (cases "store_commit ?opn ?e b (ts_store s)")
  let ?s = "s\<lparr>ts_store := st, ts_ticks := Suc (ts_ticks s)\<rparr>"
  have rest: "(case x of
       Inr _ \<Rightarrow> turn_return ()
     | Inl (CommitError_Indeterminate i) \<Rightarrow>
         turn_bind (turn_call te (\<lambda>opn e. store_recover_transaction opn e (ic_transaction_id i)) Turn_Recovery) (\<lambda>res.
         case res of
           TransactionRecovery_Committed _ \<Rightarrow> turn_return ()
         | TransactionRecovery_Absent \<Rightarrow> turn_bind (turn_commit te b) (\<lambda>_. turn_return ()))
     | Inl other \<Rightarrow> turn_lift (Inl (Turn_Commit other))) ?s = (Inr u, s')"
    using assms(1) call by (simp add: commit_or_recover_def turn_bind_def attempt_def)
  show ?thesis
  proof (cases x)
    case (Inr receipt)
    with rest have "s' = ?s" by (simp add: turn_return_iff)
    with store_commit_applied [OF _ assms(2, 3)] call Inr show ?thesis by simp
  next
    case (Inl err)
    with rest obtain i where err: "err = CommitError_Indeterminate i"
      by (cases err) (simp_all add: turn_lift_def)
    let ?recover = "store_recover_transaction (te_open te (Suc (ts_ticks s))) (te_env te (Suc (ts_ticks s))) (ic_transaction_id i) st"
    obtain y st2 where recover: "?recover = (y, st2)"
      by (cases ?recover)
    let ?s2 = "?s\<lparr>ts_store := st2, ts_ticks := Suc (Suc (ts_ticks s))\<rparr>"
    have rest2: "(case map_err Turn_Recovery y of Inl e \<Rightarrow> (Inl e, ?s2)
        | Inr (TransactionRecovery_Committed _) \<Rightarrow> turn_return () ?s2
        | Inr TransactionRecovery_Absent \<Rightarrow> turn_bind (turn_commit te b) (\<lambda>_. turn_return ()) ?s2) = (Inr u, s')"
      using rest recover unfolding Inl err
      by (cases y) (auto simp: turn_bind_def turn_call_def attempt_def turn_lift_def
          split: transaction_recovery.splits)
    then obtain res where y: "y = Inr res"
      by (cases y) auto
    have ok: "store_ok st2"
      using store_commit_extends [OF call assms(2)] recover_extends(1) [OF recover] by blast
    note outcome = recovery_after_indeterminate [OF call [unfolded Inl err] recover [unfolded y] assms(2)]
    show ?thesis
    proof (cases res)
      case (TransactionRecovery_Committed receipt)
      with rest2 outcome show ?thesis by (auto simp: y turn_return_iff)
    next
      case TransactionRecovery_Absent
      with outcome have same: "store_db st2 = store_db (ts_store s)" by simp
      from TransactionRecovery_Absent rest2
      have "turn_bind (turn_commit te b) (\<lambda>_. turn_return ()) ?s2 = (Inr u, s')" by (simp add: y)
      then obtain receipt opn3 e3 where "store_commit opn3 e3 b st2 = (Inr receipt, ts_store s')"
        by (auto elim!: turn_bind_Inr simp: turn_return_iff turn_commit_def turn_call_def attempt_iff turn_lift_def)
      from store_commit_applied [OF this ok] assms(3) same show ?thesis by simp
    qed
  qed
qed

lemma complete_turn_applies:
  assumes "complete_turn te thread_id job s = (Inr u, s')" "store_ok (ts_store s)"
    and "\<And>t. id_new (te_random te (ts_ticks s)) = Inr t \<Longrightarrow> \<not> transaction_exists (as_bytes t) (store_db (ts_store s))"
  obtains t now ev version seq where
    "event_stream_id ev = thread_stream thread_id" "event_type ev = ''thread.turn-completed''"
    "batch_committed (completion t now ev version thread_id job) seq (store_db (ts_store s)) (store_db (ts_store s'))"
proof -
  obtain b s1 where batch: "completion_batch te thread_id job s = (Inr b, s1)"
    and run: "commit_or_recover te b s1 = (Inr u, s')"
    using assms(1) unfolding complete_turn_def by (rule turn_bind_Inr)
  obtain t now ev version where b: "id_new (te_random te (ts_ticks s)) = Inr t"
    "event_stream_id ev = thread_stream thread_id" "event_type ev = ''thread.turn-completed''"
    "b = completion t now ev version thread_id job"
    using batch by (rule completion_batch_gives)
  have s1: "store_ok (ts_store s1)" "store_db (ts_store s1) = store_db (ts_store s)"
    using quietD [OF quiet_completion_batch batch assms(2)] by simp_all
  have "\<not> transaction_exists (as_bytes (batch_transaction_id b)) (store_db (ts_store s1))"
    using assms(3) [OF b(1)] b(4) s1(2) by (simp add: completion_def)
  from commit_or_recover_applies [OF run s1(1) this] show thesis
    using that b s1(2) by auto
qed

section \<open>Claiming\<close>

text \<open>The outcome of COMMIT is known.\<close>

definition certain :: "env \<Rightarrow> bool" where
  "certain e \<longleftrightarrow> env_commit e = Commit_Ok \<and> \<not> env_failpoint e"

lemma certain_claim_determinate:
  assumes "claim_jobs e req d = (Inl err, d')" "certain e"
  shows "claim_determinate err"
proof (cases "validate_claim req")
  case (Inl v)
  with assms(1) show ?thesis by (auto simp: claim_jobs_def)
next
  case (Inr ex)
  note body = claim_body_determinate [of req ex, unfolded fails_with_def]
  show ?thesis
    using assms Inr body
    by (auto simp: claim_jobs_def run_tx_def certain_def split: option.splits sum.splits prod.splits tx_end.splits)
qed

definition lease_held :: "claim_request \<Rightarrow> claimed_job \<Rightarrow> db \<Rightarrow> bool" where
  "lease_held req job d \<longleftrightarrow> (\<exists>r \<in> set (jobs d). jobs_job_id r = as_bytes (claimed_job_id job) \<and>
     jobs_queue r = req_queue req \<and> state_of r = Leased \<and>
     jobs_lease_token r = Some (as_bytes (claimed_lease_token job)) \<and> jobs_worker_id r = Some (req_worker_id req))"

lemma leased_now_held: "leased_now req ex d d' job \<Longrightarrow> lease_held req job d'"
  unfolding leased_now_def lease_held_def same_spec_def by force

definition leased_count :: "db \<Rightarrow> nat" where
  "leased_count d = length (filter (\<lambda>r. state_of r = Leased) (jobs d))"

lemma length_filter_less:
  assumes "\<And>x. x \<in> set xs \<Longrightarrow> P (f x) \<Longrightarrow> P x" "y \<in> set xs" "P y" "\<not> P (f y)"
  shows "length (filter P (map f xs)) < length (filter P xs)"
proof -
  have le: "length (filter P (map f ys)) \<le> length (filter P ys)" if "set ys \<subseteq> set xs" for ys
    using that assms(1) by (induction ys) auto
  obtain us vs where xs: "xs = us @ y # vs"
    using split_list [OF assms(2)] by blast
  have "length (filter P (map f us)) \<le> length (filter P us)" "length (filter P (map f vs)) \<le> length (filter P vs)"
    by (rule le, simp add: xs subset_insertI2)+
  then show ?thesis
    using assms(3, 4) by (simp add: xs)
qed

lemma maintenance_decreases:
  assumes "claim_committed req ex t [] d d'" "db_ok d"
  shows "leased_count d' < leased_count d"
proof -
  have rows: "rows_ok d"
    using assms(2) by (simp add: db_ok_def jobs_ok_rows)
  have row: "claim_row req ex t [] d r =
      (if r \<in> set (expired_rows req d) then maintenance_row req t r r else r)" for r
    by (simp add: claim_row_def)
  have target: "state_of (maintenance_row req t r r) \<noteq> Leased" for r
    by (simp add: maintenance_row_def maintenance_target_def split: effect_mode.split)
  have "expired_rows req d \<noteq> []"
    using assms(1) by (simp add: claim_committed_def)
  then obtain r where r: "r \<in> set (expired_rows req d)"
    by (cases "expired_rows req d") auto
  then have "r \<in> set (jobs d)" "state_of r = Leased"
    using expired_rows_leased [OF rows r] expired_rows_job [OF r] by auto
  then show ?thesis
    unfolding leased_count_def claim_committed_rows(1) [OF assms]
    using r target by (intro length_filter_less [of _ _ _ r]) (auto simp: row split: if_splits)
qed

lemma store_claim_cases:
  assumes "store_claim_jobs opn e req st = (x, st')" "store_ok st"
  obtains (failed) err where "x = Inl err" "claim_determinate err"
  | (noop) "x = Inr ClaimOutcome_Noop"
  | (maintained) t where "x = Inr (ClaimOutcome_MaintenanceCommitted t)"
      "leased_count (store_db st') < leased_count (store_db st)"
  | (leased) c job rest where "x = Inr (ClaimOutcome_Committed c)" "claims_jobs c = job # rest"
      "lease_held req job (store_db st')"
  | (unknown) i where "x = Inl (ClaimError_Indeterminate i)" "\<not> certain e"
  using assms(1) unfolding store_claim_jobs_def
proof (cases rule: with_writer_cases)
  case (unavailable err)
  then show ?thesis using failed by simp
next
  case (ran conn d)
  have ok: "db_ok (store_db st)"
    using assms(2) by (simp add: store_ok_def)
  have d: "store_db st' = d"
    using ran(3) by simp
  from ran(1) ok show ?thesis
  proof (cases rule: claim_jobs_cases)
    case (committed ex t leases)
    show ?thesis
    proof (cases leases)
      case Nil
      with committed show ?thesis
        using maintenance_decreases [OF _ ok] by (intro maintained) (auto simp: d)
    next
      case (Cons l ls)
      with committed claimed_leased_now [OF committed(3) ok, of l] show ?thesis
        by (intro leased) (auto simp: d intro: leased_now_held)
    qed
  next
    case (indeterminate ex t leases c b')
    then have "\<not> certain (on_connection conn e)"
      using certain_claim_determinate [OF ran(1)[unfolded indeterminate(2)]]
      by (auto simp: claim_indeterminate_def split: prod.splits)
    with indeterminate show ?thesis
      by (intro unknown) (auto simp: certain_def on_connection_def claim_indeterminate_def)
  qed (use failed noop in simp_all)
qed

text \<open>One poll ends with an error, with the job whose lease it holds, or with progress, unless the outcome is unknown.\<close>

definition poll_request :: "string \<Rightarrow> i64 \<Rightarrow> claim_request" where
  "poll_request worker_id now = \<lparr>req_queue = turn_queue, req_worker_id = worker_id, req_now_ms = now,
     req_lease_ms = I64 30000, req_limit = 1\<rparr>"

definition turn_held :: "string \<Rightarrow> claimed_job \<Rightarrow> db \<Rightarrow> bool" where
  "turn_held worker_id job d \<longleftrightarrow> (\<exists>r \<in> set (jobs d). jobs_job_id r = as_bytes (claimed_job_id job) \<and>
     jobs_queue r = turn_queue \<and> state_of r = Leased \<and>
     jobs_lease_token r = Some (as_bytes (claimed_lease_token job)) \<and> jobs_worker_id r = Some worker_id)"

lemma poll_request_held: "lease_held (poll_request w now) job d = turn_held w job d"
  by (simp add: lease_held_def turn_held_def poll_request_def)

definition polled :: "turn_env \<Rightarrow> string \<Rightarrow> turn_state \<Rightarrow> turn_error + (id \<times> claimed_job) option \<Rightarrow> turn_state \<Rightarrow> bool" where
  "polled te w s r s' \<longleftrightarrow> store_ok (ts_store s') \<and> ts_ticks s < ts_ticks s' \<and>
     (case r of
        Inl err \<Rightarrow> err \<noteq> Turn_Panic
      | Inr (Some (t, job)) \<Rightarrow> turn_held w job (store_db (ts_store s'))
      | Inr None \<Rightarrow> certain (te_env te (Suc (ts_ticks s))) \<longrightarrow>
          leased_count (store_db (ts_store s')) < leased_count (store_db (ts_store s)))"

lemma recover_lost_claim:
  assumes "store_claim_jobs opn e (poll_request w now) st = (Inl (ClaimError_Indeterminate i), st1)" "store_ok st"
    and "store_recover_claim opn' e' (icl_transaction_id i) n st1 = (Inr (ClaimRecovery_Committed c), st2)"
    and "claims_jobs c = job # rest"
  shows "turn_held w job (store_db st2)"
proof -
  obtain ex leases d' where claim: "claim_committed (poll_request w now) ex (icl_transaction_id i) leases (store_db st) d'"
    "db_ok d'" and st1: "store_db st1 = store_db st \<or> store_db st1 = d'"
    using assms(1, 2) by (rule indeterminate_claim_cases)
  have ok: "db_ok (store_db st)"
    using assms(2) by (simp add: store_ok_def)
  obtain b where read: "store_db st2 = store_db st1"
    "tx_yields (recover_claim (icl_transaction_id i) n) (store_db st1) (ClaimRecovery_Committed c) b"
    using store_recover_claim_yields [OF assms(3)] by blast
  have d': "store_db st1 = d'"
  proof (rule ccontr)
    assume "store_db st1 \<noteq> d'"
    with st1 have "store_db st1 = store_db st" by simp
    with recover_claim_absent [OF read(2)] claim_committed_fresh(1) [OF claim] ok show False by simp
  qed
  have "ClaimRecovery_Committed c = recovered_claim (poll_request w now) ex (icl_transaction_id i) leases n"
    using read(2) claim(1) ok claim(2) unfolding d' by (rule recover_claim_committed)
  with assms(4) have "job # rest = map (claimed_of (poll_request w now) ex) (sort_key lease_id leases)"
    by (simp add: recovered_claim_def Let_def split: if_splits)
  then have "job \<in> set (map (claimed_of (poll_request w now) ex) (sort_key lease_id leases))"
    by (metis list.set_intros(1))
  then obtain l where "l \<in> set leases" "job = claimed_of (poll_request w now) ex l" by auto
  then have "leased_now (poll_request w now) ex (store_db st) d' job"
    using claimed_leased_now [OF claim(1) ok] by simp
  from leased_now_held [OF this] show ?thesis
    using read(1) d' by (simp add: poll_request_held)
qed

lemma claim_once_polled:
  assumes "claim_once te w s = (r, s')" "store_ok (ts_store s)"
  shows "polled te w s r s'"
proof -
  let ?n = "ts_ticks s"
  let ?now = "te_now te ?n"
  let ?opn = "te_open te (Suc ?n)" and ?e = "te_env te (Suc ?n)"
  obtain x st where call: "store_claim_jobs ?opn ?e (poll_request w ?now) (ts_store s) = (x, st)"
    by (cases "store_claim_jobs ?opn ?e (poll_request w ?now) (ts_store s)")
  let ?s = "s\<lparr>ts_store := st, ts_ticks := Suc (Suc ?n)\<rparr>"
  have ok: "store_ok st"
    using store_claim_jobs_extends [OF call assms(2)] by simp
  have rest: "(case x of
       Inr (ClaimOutcome_Committed c) \<Rightarrow> first_claimed c
     | Inr (ClaimOutcome_MaintenanceCommitted _) \<Rightarrow> turn_return None
     | Inr ClaimOutcome_Noop \<Rightarrow> turn_lift (Inl Turn_Queue_Empty)
     | Inl (ClaimError_Indeterminate i) \<Rightarrow>
         turn_bind (turn_now te) (\<lambda>now.
         turn_bind (turn_call te (\<lambda>opn e. store_recover_claim opn e (icl_transaction_id i) now) Turn_Recovery) (\<lambda>res.
         case res of
           ClaimRecovery_Committed c \<Rightarrow> if claims_jobs c = [] then turn_return None else first_claimed c
         | ClaimRecovery_MaintenanceCommitted _ \<Rightarrow> turn_return None
         | ClaimRecovery_Absent \<Rightarrow> turn_return None))
     | Inl other \<Rightarrow> turn_lift (Inl (Turn_Claim other))) ?s = (r, s')"
    using assms(1) call by (simp add: claim_once_def turn_bind_def turn_now_def attempt_def poll_request_def)
  from call assms(2) show ?thesis
  proof (cases rule: store_claim_cases)
    case (failed err)
    with rest ok show ?thesis by (cases err) (auto simp: polled_def turn_lift_def)
  next
    case noop
    with rest ok show ?thesis by (auto simp: polled_def turn_lift_def)
  next
    case (maintained t)
    with rest ok show ?thesis by (auto simp: polled_def turn_return_iff)
  next
    case (leased c job jobs)
    with rest ok show ?thesis
      by (auto simp: polled_def first_claimed_def turn_return_iff poll_request_held)
  next
    case (unknown i)
    let ?m = "Suc (Suc ?n)"
    let ?recover = "store_recover_claim (te_open te (Suc ?m)) (te_env te (Suc ?m)) (icl_transaction_id i) (te_now te ?m) st"
    obtain y st2 where recover: "?recover = (y, st2)"
      by (cases ?recover)
    have ok2: "store_ok st2"
      using recover_extends(2) [OF recover ok] by simp
    let ?s2 = "s\<lparr>ts_store := st2, ts_ticks := Suc (Suc ?m)\<rparr>"
    have rest2: "(case map_err Turn_Recovery y of Inl e \<Rightarrow> (Inl e, ?s2)
        | Inr (ClaimRecovery_Committed c) \<Rightarrow> (if claims_jobs c = [] then turn_return None else first_claimed c) ?s2
        | Inr _ \<Rightarrow> turn_return None ?s2) = (r, s')"
      using rest recover unfolding unknown(1)
      by (cases y) (auto simp: turn_bind_def turn_call_def turn_now_def attempt_def turn_lift_def split: claim_recovery.splits)
    show ?thesis
    proof (cases y)
      case (Inl err)
      with rest2 ok2 show ?thesis by (auto simp: polled_def)
    next
      case (Inr res)
      show ?thesis
      proof (cases res)
        case (ClaimRecovery_Committed c)
        note lost = recover_lost_claim [OF call [unfolded unknown(1)] assms(2) recover [unfolded Inr ClaimRecovery_Committed]]
        with rest2 ok2 unknown(2) ClaimRecovery_Committed show ?thesis
          by (cases "claims_jobs c") (auto simp: Inr polled_def first_claimed_def turn_return_iff)
      qed (use rest2 ok2 unknown(2) in \<open>auto simp: Inr polled_def turn_return_iff\<close>)
    qed
  qed
qed

text \<open>
  The loop ends if the outcome of COMMIT is known from some interaction on: until then the interactions are counted, and
  after that each poll that does not end it lowers the number of leased jobs.
\<close>

lemma claim_one_ends:
  assumes "store_ok (ts_store s)" "\<forall>n \<ge> N. certain (te_env te n)"
  shows "\<exists>r s'. claim_one te w s = Some (r, s') \<and> store_ok (ts_store s') \<and>
    (case r of Inl err \<Rightarrow> err \<noteq> Turn_Panic | Inr (t, job) \<Rightarrow> turn_held w job (store_db (ts_store s')))"
  using assms(1)
proof (induction s rule: wf_induct_rule
    [OF wf_measures [of "[\<lambda>s. N - ts_ticks s, \<lambda>s. leased_count (store_db (ts_store s))]"]])
  case (1 s)
  obtain r s' where once: "claim_once te w s = (r, s')"
    by (cases "claim_once te w s")
  have polled: "polled te w s r s'"
    using once 1(2) by (rule claim_once_polled)
  show ?case
  proof (cases r)
    case (Inl err)
    then show ?thesis
      using once polled by (simp add: claim_one.simps [of te w s] polled_def)
  next
    case (Inr found)
    show ?thesis
    proof (cases found)
      case (Some claimed)
      then show ?thesis
        using once polled Inr by (simp add: claim_one.simps [of te w s] polled_def split: prod.splits)
    next
      case None
      have ticks: "ts_ticks s < ts_ticks s'" and ok: "store_ok (ts_store s')"
        using polled by (simp_all add: polled_def)
      have "(s', s) \<in> measures [\<lambda>s. N - ts_ticks s, \<lambda>s. leased_count (store_db (ts_store s))]"
      proof (cases "ts_ticks s < N")
        case True
        with ticks have "N - ts_ticks s' < N - ts_ticks s" by linarith
        then show ?thesis by simp
      next
        case False
        with assms(2) polled ticks Inr None show ?thesis by (simp add: polled_def)
      qed
      from 1(1) [OF this ok] show ?thesis
        using once Inr None by (simp add: claim_one.simps [of te w s])
    qed
  qed
qed

end
