(* ===== verification/Samples.thy ===== *)
theory Samples
  imports Claim_Progress Node_Results Turn_Results
begin

text \<open>
  Concrete inputs for the witnesses: an environment without faults, a batch with an event, a
  projection patch and a job, the database it leaves in an empty store, and a claim on it.
\<close>

definition sample_env_of :: "bool \<Rightarrow> env" where
  "sample_env_of failpoint = \<lparr>env_begin = None, env_fault = (\<lambda>_. None), env_random = (\<lambda>n. Inr (word_of_nat (100 + n))),
     env_commit = Commit_Ok, env_failpoint = failpoint, env_read_only = False\<rparr>"

abbreviation sample_env :: env where
  "sample_env \<equiv> sample_env_of False"

definition sample_event :: event where
  "sample_event = event_with_json_payload (Id 10) ''s'' ''t'' (I64 5) [1]"

definition sample_job :: job_spec where
  "sample_job = job_spec_reconcilable (Id 20) ''q'' ''p'' [2]"

definition sample_patch :: projection_patch where
  "sample_patch = patch_push (Put [3] [4]) (projection_patch_new ''v'' 0)"

definition sample_batch :: commit_batch where
  "sample_batch = push_operation (EnqueueJob sample_job) (push_operation (ProjectionPatch sample_patch)
     (push_operation (AppendEvent sample_event) (commit_batch_new (Id 1) (I64 7))))"

definition sample_db :: db where
  "sample_db = \<lparr>transactions = [transaction_row sample_batch (I64 1)],
     events = [(event_to_row (Id 1) sample_event 1)\<lparr>ev_global_sequence := I64 1\<rparr>], events_seq = I64 1,
     streams = [(''s'', I64 1)], projection_meta = [(''v'', I64 1)],
     projection_entries = [((''v'', [3]), [4])],
     jobs = [new_jobs_row (Id 1) sample_job (I64 1)], queue_cursors = [],
     active_partitions = [((''q'', ''p''), I64 1)], claim_receipts = []\<rparr>"

lemmas sample_defs = sample_env_of_def sample_event_def sample_job_def sample_patch_def sample_batch_def
  event_with_json_payload_def job_spec_reconcilable_def job_spec_base_def patch_push_def
  projection_patch_new_def push_operation_def commit_batch_new_def

lemmas tx_defs = tx_bind_def tx_map_err_def tx_return_def tx_lift_def query_def execute_def sql_def
  tx_start_def

lemma sample_valid: "validate_batch limits_new sample_batch = Inr ()"
  by (simp add: validate_batch_def sample_defs limits_new_def limit_defs id_zero_def ensure_def
      patch_validate_def u64_saturating_add_def within_limit_def)

lemma sample_transaction_row [simp]:
  "tx_transaction_id (transaction_row sample_batch n) = as_bytes (Id 1)"
  "tx_transaction_sequence (transaction_row sample_batch n) = n"
  by (simp_all add: transaction_row_def sample_defs)

definition sample_started :: db where
  "sample_started = empty_db\<lparr>transactions := [transaction_row sample_batch (I64 1)]\<rparr>"

lemma sample_append:
  "append_event (Id 1) [] sample_event \<lparr>tx_db = sample_started, tx_env = sample_env_of fp, tx_calls = n, tx_draws = k\<rparr> =
     Inr ([(''s'', 1)], \<lparr>tx_db = sample_started\<lparr>events := [(event_to_row (Id 1) sample_event 1)\<lparr>ev_global_sequence := I64 1\<rparr>],
       events_seq := I64 1\<rparr>, tx_env = sample_env_of fp, tx_calls = n + 2, tx_draws = k\<rparr>)"
  by (simp add: append_event_def tx_defs current_stream_version_def insert_event_def sample_started_def
      sample_env_of_def sample_event_def event_with_json_payload_def empty_db_def event_to_row_def
      insert_events_def transaction_exists_def i64_checked_add_def u64_checked_add_def ensure_def
      i64_in_range_def i64_of_int_def i64_as_u64_def)

abbreviation at :: "bool \<Rightarrow> db \<Rightarrow> nat \<Rightarrow> tx_state" where
  "at fp d n \<equiv> \<lparr>tx_db = d, tx_env = sample_env_of fp, tx_calls = n, tx_draws = 0\<rparr>"

lemma sample_no_fault [simp]: "env_fault (sample_env_of fp) n = None" "\<not> env_read_only (sample_env_of fp)"
  by (simp_all add: sample_env_of_def)

definition sample_appended :: db where
  "sample_appended = sample_started\<lparr>events :=
     [(event_to_row (Id 1) sample_event 1)\<lparr>ev_global_sequence := I64 1\<rparr>], events_seq := I64 1\<rparr>"

definition sample_patched :: db where
  "sample_patched = sample_appended\<lparr>projection_meta := [(''v'', I64 1)],
     projection_entries := [((''v'', [3]), [4])]\<rparr>"

lemma sample_apply_patch:
  "apply_projection_patch sample_patch (at fp sample_appended n) = Inr ((), at fp sample_patched (n + 3))"
  by (simp add: apply_projection_patch_def patch_validate_def tx_defs version_query_def sample_patch_def patch_push_def
      projection_patch_new_def sample_appended_def sample_started_def sample_patched_def empty_db_def
      u64_saturating_add_def upsert_projection_entry_def ensure_def i64_as_u64_def u64_as_i64_def)

definition sample_enqueued :: db where
  "sample_enqueued = sample_patched\<lparr>jobs := [new_jobs_row (Id 1) sample_job (I64 1)],
     active_partitions := [((''q'', ''p''), I64 1)]\<rparr>"

lemma sample_enqueue:
  "apply_enqueue (Id 1) sample_job (at fp sample_patched n) = Inr ((), at fp sample_enqueued (n + 4))"
  by (simp add: apply_enqueue_def tx_defs load_job_def sample_enqueued_def sample_patched_def
      sample_appended_def sample_started_def sample_job_def job_spec_reconcilable_def job_spec_base_def
      empty_db_def insert_jobs_def new_jobs_row_def jobs_check_def activate_partition_def ensure_def
      sql_max_plus_one_def sql_coalesce_max_def i64_checked_add_def i64_in_range_def i64_of_int_def
      transaction_exists_def i64_from_u32_def)

lemma sample_flush:
  "flush_stream_versions [(''s'', 1)] (at fp sample_enqueued n) = Inr ((), at fp sample_db (n + 1))"
  by (simp add: flush_stream_versions_def tx_defs sample_db_def sample_enqueued_def sample_patched_def
      sample_appended_def sample_started_def empty_db_def u64_as_i64_def)

lemma sample_operations:
  "tx_fold (apply_operation sample_batch) [] (batch_operations sample_batch) (at fp sample_started n) =
     Inr ([(''s'', 1)], at fp sample_enqueued (n + 9))"
proof -
  have ops: "batch_operations sample_batch =
      [AppendEvent sample_event, ProjectionPatch sample_patch, EnqueueJob sample_job]"
    "batch_transaction_id sample_batch = Id 1"
    by (simp_all add: sample_batch_def push_operation_def commit_batch_new_def)
  have "append_event (Id 1) [] sample_event (at fp sample_started n) = Inr ([(''s'', 1)], at fp sample_appended (n + 2))"
    using sample_append by (simp add: sample_appended_def)
  then show ?thesis
    by (simp add: ops tx_bind_def tx_return_def keeping_def tx_map_err_def sample_apply_patch sample_enqueue)
qed

lemma sample_commit_body:
  "commit_body sample_batch (at fp empty_db 0) =
     Inr (To_Commit (receipt_of_row (transaction_row sample_batch (I64 1))), at fp sample_db 13)"
proof -
  have "lookup_transaction (Id 1) (at fp empty_db 0) = Inr (None, at fp empty_db 1)"
    by (simp add: lookup_transaction_def tx_defs empty_db_def)
  moreover have "next_transaction_sequence (at fp empty_db 1) = Inr (I64 1, at fp empty_db 2)"
    by (simp add: next_transaction_sequence_def tx_defs empty_db_def sql_max_plus_one_def
        sql_coalesce_max_def i64_checked_add_def i64_in_range_def i64_of_int_def numeral_2_eq_2)
  moreover have "execute (insert_transactions (transaction_row sample_batch (I64 1))) (at fp empty_db 2) =
      Inr ((), at fp sample_started 3)"
    by (simp add: tx_defs insert_transactions_def transaction_exists_def ensure_def empty_db_def
        sample_started_def)
  moreover have "batch_transaction_id sample_batch = Id 1" "batch_expected_stream_versions sample_batch = []"
    "batch_committed_at_ms sample_batch = I64 7"
    by (simp_all add: sample_batch_def push_operation_def commit_batch_new_def)
  ultimately show ?thesis
    by (simp add: commit_body_def Let_def tx_bind_def tx_map_err_def tx_return_def sample_operations
        sample_flush receipt_of_row_def transaction_row_def)
qed

lemma sample_commit:
  "commit sample_env limits_new sample_batch empty_db =
     (Inr (receipt_of_row (transaction_row sample_batch (I64 1))), sample_db)"
  using sample_commit_body [of False]
  by (simp add: commit_def sample_valid run_tx_def tx_start_def Let_def sample_env_of_def)

lemma sample_db_ok: "db_ok sample_db"
  using db_ok_commit [OF sample_commit db_ok_empty] .

definition sample_store :: store where
  "sample_store = new_store limits_new Strict default_read_pool_size"

lemma sample_store_commit:
  "store_commit None sample_env sample_batch sample_store =
     (Inr (receipt_of_row (transaction_row sample_batch (I64 1))), sample_store\<lparr>store_db := sample_db\<rparr>)"
proof -
  have "on_connection (Read_Write Strict) sample_env = sample_env"
    by (simp add: on_connection_def sample_env_of_def)
  then show ?thesis
    by (simp add: store_commit_def with_writer_def writer_connection_def sample_store_def new_store_def
        sample_commit poison_def)
qed

section \<open>A claim\<close>

definition sample_request :: claim_request where
  "sample_request = \<lparr>req_queue = ''q'', req_worker_id = ''w'', req_now_ms = I64 100,
     req_lease_ms = I64 50, req_limit = 1\<rparr>"

definition sample_lease :: proposed_lease where
  "sample_lease = \<lparr>lease_job = decoded_job (new_jobs_row (Id 1) sample_job (I64 1)),
     lease_lease_token = Id 100\<rparr>"

definition sample_claimed :: db where
  "sample_claimed = cursor_moved sample_request [''p''] (granted sample_request (I64 150) (Id 101) sample_lease
     (claim_inserted sample_request (Id 101) 1 (I64 2) sample_db))"

abbreviation drawn :: "bool \<Rightarrow> db \<Rightarrow> nat \<Rightarrow> nat \<Rightarrow> tx_state" where
  "drawn fp d n k \<equiv> \<lparr>tx_db = d, tx_env = sample_env_of fp, tx_calls = n, tx_draws = k\<rparr>"

lemma sample_random [simp]:
  "tx_random_id (drawn fp d n 0) = Inr (Id 100, drawn fp d n 1)"
  "tx_random_id (drawn fp d n (Suc 0)) = Inr (Id 101, drawn fp d n 2)"
  by (simp_all add: tx_random_id_def id_new_def sample_env_of_def)

lemma sample_plan_maintenance: "plan_maintenance sample_request (at fp sample_db n) = Inr ([], at fp sample_db (n + 1))"
  by (simp add: plan_maintenance_def tx_defs sample_db_def new_jobs_row_def sql_limit_def)

lemma sample_row_ok: "job_row_ok (new_jobs_row (Id 1) sample_job (I64 1))"
  using sample_db_ok by (simp add: db_ok_def jobs_ok_def rows_ok_def sample_db_def)

lemma sample_plan_leases:
  "plan_leases sample_request (at fp sample_db n) = Inr (([sample_lease], Some ''p''), drawn fp sample_db (n + 3) 1)"
proof -
  have "partition_head ''q'' ''p'' (at fp sample_db m) =
      Inr (Some (decoded_job (new_jobs_row (Id 1) sample_job (I64 1))), at fp sample_db (m + 1))" for m
    using row_to_job_ok [OF sample_row_ok]
    by (simp add: partition_head_def tx_defs sample_db_def is_active_in_def new_jobs_row_def sample_job_def
        job_spec_reconcilable_def job_spec_base_def active_states_sql_def sql_limit_def)
  moreover have "job_ready (I64 100) (decoded_job (new_jobs_row (Id 1) sample_job (I64 1)))"
    by (simp add: job_ready_def decoded_job_def new_jobs_row_def sample_job_def
        job_spec_reconcilable_def job_spec_base_def state_of_def job_state_decode_def)
  moreover have "queue_partitions ''q'' sample_db = [''p'']" "map_of (queue_cursors sample_db) ''q'' = None"
    by (simp_all add: queue_partitions_def sample_db_def)
  ultimately show ?thesis
    by (simp add: plan_leases_def sample_request_def tx_bind_def tx_map_err_def query_def sql_def
        claim_order_def sample_lease_def tx_return_def)
qed

lemma sample_insert_claim:
  "insert_claim_transaction (Id 101) sample_request 1 (drawn fp sample_db n k) =
     Inr ((), drawn fp (claim_inserted sample_request (Id 101) 1 (I64 2) sample_db) (n + 2) k)"
proof -
  have "next_transaction_sequence (drawn fp sample_db n k) = Inr (I64 2, drawn fp sample_db (n + 1) k)"
    by (simp add: next_transaction_sequence_def query_def sql_def sample_db_def sql_max_plus_one_def
        sql_coalesce_max_def i64_checked_add_def i64_in_range_def i64_of_int_def)
  moreover have "insert_transactions (claim_transaction_row (Id 101) sample_request 1 (I64 2)) sample_db =
      Inr (claim_inserted sample_request (Id 101) 1 (I64 2) sample_db)"
    by (simp add: insert_transactions_def claim_transaction_row_def transaction_exists_def ensure_def
        sample_db_def claim_inserted_def)
  ultimately show ?thesis
    by (simp add: insert_claim_transaction_def tx_bind_def execute_def sql_def)
qed

lemma sample_lease_row:
  "row_job_id (lease_job sample_lease) = Id 20" "row_attempt (lease_job sample_lease) = 0"
  by (simp_all add: sample_lease_def decoded_job_def new_jobs_row_def sample_job_def
      job_spec_reconcilable_def job_spec_base_def i64_as_u32_def)

lemma sample_grant:
  "grant_lease sample_request (I64 150) (Id 101) [] sample_lease
      (drawn fp (claim_inserted sample_request (Id 101) 1 (I64 2) sample_db) n k) =
     Inr ([claimed_of sample_request (I64 150) sample_lease],
       drawn fp (granted sample_request (I64 150) (Id 101) sample_lease
         (claim_inserted sample_request (Id 101) 1 (I64 2) sample_db)) (n + 2) k)"
proof -
  let ?d = "claim_inserted sample_request (Id 101) 1 (I64 2) sample_db"
  let ?u = "grant_row sample_request (I64 150) (Id 101) sample_lease"
  have jobs: "jobs ?d = [new_jobs_row (Id 1) sample_job (I64 1)]" "claim_receipts ?d = []"
    by (simp_all add: claim_inserted_def sample_db_def)
  have "jobs_check (?u (new_jobs_row (Id 1) sample_job (I64 1)))"
    by (simp add: jobs_check_def grant_row_def leased_row_def new_jobs_row_def sample_lease_row
        sample_job_def job_spec_reconcilable_def job_spec_base_def i64_from_u32_def)
  then have "update_job (as_bytes (Id 20)) ?u ?d = Inr (set_job (as_bytes (Id 20)) ?u ?d)"
    unfolding update_job_def set_job_def jobs by (simp add: ensure_def)
  moreover have "insert_claim_receipts (receipt_of sample_request (I64 150) (Id 101) sample_lease)
      (set_job (as_bytes (Id 20)) ?u ?d) = Inr (granted sample_request (I64 150) (Id 101) sample_lease ?d)"
    unfolding insert_claim_receipts_def granted_def set_job_tables jobs
    by (simp add: ensure_def sample_lease_row receipt_of_def claim_inserted_def claim_transaction_row_def)
  ultimately show ?thesis
    by (simp add: grant_lease_def Let_def tx_map_err_def tx_bind_def execute_def sql_def tx_return_def
        sample_lease_row grant_row_def receipt_of_def)
qed

lemma sample_claim_body:
  "claim_body sample_request (I64 150) (at fp sample_db 0) =
     Inr (To_Commit (Id 101, [claimed_of sample_request (I64 150) sample_lease]), drawn fp sample_claimed 9 2)"
  using sample_insert_claim [of fp 4 2] sample_grant [of fp 6 2]
  by (simp add: claim_body_def tx_bind_def tx_map_err_def tx_return_def sample_plan_maintenance
      sample_plan_leases advance_cursor_def execute_def sql_def sample_claimed_def cursor_moved_def)

lemma sample_claim:
  "claim_jobs sample_env sample_request sample_db =
     (Inr (ClaimOutcome_Committed \<lparr>claims_transaction_id = Id 101,
        claims_jobs = [claimed_of sample_request (I64 150) sample_lease], claims_stale_jobs = []\<rparr>),
      sample_claimed)"
proof -
  have "validate_claim sample_request = Inr (I64 150)"
    by (simp add: validate_claim_def sample_request_def ensure_def i64_checked_add_def
        i64_in_range_def i64_of_int_def)
  then show ?thesis
    using sample_claim_body [of False]
    by (simp add: claim_jobs_def run_tx_def tx_start_def Let_def sample_env_of_def)
qed

lemma sample_claimed_ok: "db_ok sample_claimed"
  using db_ok_claim_jobs [OF sample_claim sample_db_ok] .

text \<open>The same commit with its outcome lost.\<close>

lemma sample_store_commit_lost:
  "store_commit None (sample_env_of True) sample_batch sample_store =
     (Inl (CommitError_Indeterminate \<lparr>ic_transaction_id = Id 1, ic_storage_error = Failpoint\<rparr>),
      sample_store\<lparr>store_writer := None, store_db := sample_db\<rparr>)"
proof -
  have "on_connection (Read_Write Strict) (sample_env_of True) = sample_env_of True"
    by (simp add: on_connection_def sample_env_of_def)
  moreover have "commit (sample_env_of True) limits_new sample_batch empty_db =
      (Inl (CommitError_Indeterminate \<lparr>ic_transaction_id = Id 1, ic_storage_error = Failpoint\<rparr>), sample_db)"
    using sample_commit_body [of True]
    by (simp add: commit_def sample_valid run_tx_def tx_start_def Let_def sample_env_of_def commit_indeterminate_def)
      (simp add: sample_batch_def push_operation_def commit_batch_new_def)
  ultimately show ?thesis
    by (simp add: store_commit_def with_writer_def writer_connection_def sample_store_def new_store_def
        poison_def)
qed

lemma sample_recover:
  "store_recover_transaction None sample_env (Id 1) (sample_store\<lparr>store_writer := None, store_db := sample_db\<rparr>) =
     (Inr (TransactionRecovery_Committed (receipt_of_row (transaction_row sample_batch (I64 1)))),
      sample_store\<lparr>store_db := sample_db\<rparr>)"
proof -
  have "on_connection (Read_Write Strict) sample_env = sample_env"
    by (simp add: on_connection_def sample_env_of_def)
  moreover have "List.find (\<lambda>r. tx_transaction_id r = as_bytes (Id 1)) (transactions sample_db) =
      Some (transaction_row sample_batch (I64 1))"
    by (simp add: sample_db_def)
  ultimately show ?thesis
    by (simp add: store_recover_transaction_def writer_connection_def open_writer_def sample_store_def
        new_store_def run_reads_def recover_transaction_one_read one_read_def query_def sql_def tx_start_def)
qed

section \<open>A second job in the partition\<close>

definition later_job :: job_spec where
  "later_job = job_spec_reconcilable (Id 21) ''q'' ''p'' [5]"

definition later_batch :: commit_batch where
  "later_batch = push_operation (EnqueueJob later_job) (commit_batch_new (Id 2) (I64 8))"

definition later_started :: db where
  "later_started = sample_db\<lparr>transactions := [transaction_row sample_batch (I64 1), transaction_row later_batch (I64 2)]\<rparr>"

definition later_db :: db where
  "later_db = later_started\<lparr>jobs := [new_jobs_row (Id 1) sample_job (I64 1), new_jobs_row (Id 2) later_job (I64 2)]\<rparr>"

lemma later_valid: "validate_batch limits_new later_batch = Inr ()"
  by (simp add: validate_batch_def later_batch_def later_job_def sample_defs limits_new_def limit_defs id_zero_def
      ensure_def within_limit_def)

lemma later_transaction_row [simp]:
  "tx_transaction_id (transaction_row later_batch n) = as_bytes (Id 2)"
  "tx_transaction_sequence (transaction_row later_batch n) = n"
  by (simp_all add: transaction_row_def later_batch_def sample_defs)

lemma later_enqueue:
  "apply_enqueue (Id 2) later_job (at fp later_started n) = Inr ((), at fp later_db (n + 4))"
  by (simp add: apply_enqueue_def tx_defs load_job_def later_db_def later_started_def
      sample_job_def later_job_def job_spec_reconcilable_def job_spec_base_def
      sample_db_def insert_jobs_def new_jobs_row_def jobs_check_def activate_partition_def ensure_def
      sql_max_plus_one_def sql_coalesce_max_def i64_checked_add_def i64_in_range_def i64_of_int_def
      transaction_exists_def i64_from_u32_def)

lemma later_commit_body:
  "commit_body later_batch (at fp sample_db 0) =
     Inr (To_Commit (receipt_of_row (transaction_row later_batch (I64 2))), at fp later_db 7)"
proof -
  have "lookup_transaction (Id 2) (at fp sample_db 0) = Inr (None, at fp sample_db 1)"
    by (simp add: lookup_transaction_def tx_defs sample_db_def)
  moreover have "next_transaction_sequence (at fp sample_db 1) = Inr (I64 2, at fp sample_db 2)"
    by (simp add: next_transaction_sequence_def tx_defs sample_db_def sql_max_plus_one_def
        sql_coalesce_max_def i64_checked_add_def i64_in_range_def i64_of_int_def numeral_2_eq_2)
  moreover have "execute (insert_transactions (transaction_row later_batch (I64 2))) (at fp sample_db 2) =
      Inr ((), at fp later_started 3)"
    by (simp add: tx_defs insert_transactions_def transaction_exists_def ensure_def sample_db_def
        later_started_def)
  moreover have "batch_transaction_id later_batch = Id 2" "batch_expected_stream_versions later_batch = []"
    "batch_committed_at_ms later_batch = I64 8" "batch_operations later_batch = [EnqueueJob later_job]"
    by (simp_all add: later_batch_def push_operation_def commit_batch_new_def)
  ultimately show ?thesis
    by (simp add: commit_body_def Let_def tx_bind_def tx_map_err_def tx_return_def keeping_def later_enqueue
        flush_stream_versions_def receipt_of_row_def transaction_row_def)
qed

lemma later_commit:
  "commit sample_env limits_new later_batch sample_db =
     (Inr (receipt_of_row (transaction_row later_batch (I64 2))), later_db)"
  using later_commit_body [of False]
  by (simp add: commit_def later_valid run_tx_def tx_start_def Let_def sample_env_of_def)

lemma later_db_ok: "db_ok later_db"
  using db_ok_commit [OF later_commit sample_db_ok] .

lemma sample_reachable: "reachable (sample_store\<lparr>store_db := sample_db\<rparr>)" "reachable (sample_store\<lparr>store_db := later_db\<rparr>)"
proof -
  have env: "on_connection (Read_Write Strict) sample_env = sample_env"
    by (simp add: on_connection_def sample_env_of_def)
  have "store_commit None sample_env later_batch (sample_store\<lparr>store_db := sample_db\<rparr>) =
      (Inr (receipt_of_row (transaction_row later_batch (I64 2))), sample_store\<lparr>store_db := later_db\<rparr>)"
    by (simp add: store_commit_def with_writer_def writer_connection_def sample_store_def new_store_def
        later_commit poison_def env)
  then have second: "store_step (sample_store\<lparr>store_db := sample_db\<rparr>) (Call (Call_Commit later_batch)
      (Commit_Result (Inr (receipt_of_row (transaction_row later_batch (I64 2)))))) (sample_store\<lparr>store_db := later_db\<rparr>)"
    by (auto simp: store_step_Call respond_iff)
  have first: "store_step sample_store (Call (Call_Commit sample_batch)
      (Commit_Result (Inr (receipt_of_row (transaction_row sample_batch (I64 1)))))) (sample_store\<lparr>store_db := sample_db\<rparr>)"
    using sample_store_commit by (auto simp: store_step_Call respond_iff)
  note runs_step = runs.step [where step = store_step]
  show "reachable (sample_store\<lparr>store_db := sample_db\<rparr>)"
    using runs_step [OF first runs.stop] unfolding reachable_def sample_store_def by blast
  show "reachable (sample_store\<lparr>store_db := later_db\<rparr>)"
    using runs_step [OF first runs_step [OF second runs.stop]] unfolding reachable_def sample_store_def by blast
qed

section \<open>The leased job\<close>

definition sample_leased :: jobs_row where
  "sample_leased = grant_row sample_request (I64 150) (Id 101) sample_lease (new_jobs_row (Id 1) sample_job (I64 1))"

lemma sample_claimed_jobs: "jobs sample_claimed = [sample_leased]"
  by (simp add: sample_claimed_def cursor_moved_def granted_def set_job_def claim_inserted_def sample_db_def
      sample_lease_row sample_leased_def sample_job_def job_spec_reconcilable_def job_spec_base_def)

lemma sample_leased_row:
  "jobs_job_id sample_leased = as_bytes (Id 20)" "state_of sample_leased = Leased"
  "jobs_lease_token sample_leased = Some (as_bytes (Id 100))" "jobs_lease_expires_at_ms sample_leased = Some (I64 150)"
  "jobs_attempt sample_leased = I64 1" "jobs_max_attempts sample_leased = i64_from_u32 (spec_max_attempts sample_job)"
  by (simp_all add: sample_leased_def grant_row_def leased_row_def sample_lease_def state_of_def job_state_decode_def
      new_jobs_row_def sample_job_def job_spec_reconcilable_def job_spec_base_def i64_from_u32_def
      decoded_job_def i64_as_u32_def)

lemma sample_find_leased: "find_job (Id 20) sample_claimed = Some sample_leased"
  by (simp add: find_job_def sample_claimed_jobs sample_leased_row)

lemma sample_find_pending: "find_job (Id 20) sample_db = Some (new_jobs_row (Id 1) sample_job (I64 1))"
  by (simp add: find_job_def sample_db_def sample_job_def job_spec_reconcilable_def job_spec_base_def)

lemma sample_healthy [simp]: "healthy (tx_start sample_env d)"
  by (simp add: healthy_def tx_start_def)

lemma tx_start_db [simp]: "tx_db (tx_start e d) = d"
  by (simp add: tx_start_def)

section \<open>The lease expires\<close>

definition expiry_request :: claim_request where
  "expiry_request = sample_request\<lparr>req_now_ms := I64 200\<rparr>"

definition sample_expired :: db where
  "sample_expired = maintained expiry_request (Id 100) sample_leased (claim_inserted expiry_request (Id 100) 1 (I64 3) sample_claimed)"

lemma sample_leased_ok: "job_row_ok sample_leased"
  using sample_claimed_ok by (simp add: db_ok_def jobs_ok_def rows_ok_def sample_claimed_jobs)

lemma sample_leased_queue: "jobs_queue sample_leased = ''q''" "jobs_partition_key sample_leased = ''p''"
  "jobs_state sample_leased = I64 1" "jobs_effect_mode sample_leased = effect_mode_encode RequiresReconciliation"
  by (simp_all add: sample_leased_def grant_row_def leased_row_def new_jobs_row_def sample_job_def
      job_spec_reconcilable_def job_spec_base_def)

lemma sample_leased_target: "maintenance_target (decoded_job sample_leased) = Uncertain"
proof -
  have "row_effect_mode (decoded_job sample_leased) = RequiresReconciliation"
    by (simp add: decoded_job_def sample_leased_queue effect_mode_decode_def)
  then show ?thesis by (simp add: maintenance_target_def)
qed

lemma expiry_plan_maintenance:
  "plan_maintenance expiry_request (at fp sample_claimed n) = Inr ([maintenance_of sample_leased], at fp sample_claimed (n + 1))"
  using row_to_job_ok [OF sample_leased_ok]
  by (simp add: plan_maintenance_def tx_defs sample_claimed_jobs sample_leased_queue sample_leased_row sql_limit_def
      expired_before_def expiry_request_def sample_request_def maintenance_limit_def u64_as_i64_def maintenance_of_def)

lemma sample_claimed_partitions: "queue_partitions ''q'' sample_claimed = [''p'']"
  by (simp add: queue_partitions_def sample_claimed_def cursor_moved_def claim_inserted_def sample_db_def)

lemma expiry_plan_leases:
  "\<exists>n'. plan_leases expiry_request (at fp sample_claimed n) = Inr (([], None), at fp sample_claimed n')"
proof -
  have "partition_head ''q'' ''p'' (at fp sample_claimed m) = Inr (Some (decoded_job sample_leased), at fp sample_claimed (m + 1))" for m
    using row_to_job_ok [OF sample_leased_ok]
    by (simp add: partition_head_def tx_defs sample_claimed_jobs is_active_in_def sample_leased_queue
        active_states_sql_def sql_limit_def)
  moreover have "\<not> job_ready n (decoded_job sample_leased)" for n
    by (simp add: job_ready_def sample_leased_row)
  moreover have "\<exists>c. flatten (map_of (queue_cursors sample_claimed) ''q'') = Some c \<and> claim_order (Some c) [''p''] = [''p'']"
    by (simp add: sample_claimed_def cursor_moved_def granted_def set_job_def claim_inserted_def sample_db_def sample_request_def
        claim_order_def partition_point_def)
  ultimately show ?thesis
    by (auto simp: plan_leases_def expiry_request_def sample_request_def tx_bind_def tx_map_err_def query_def sql_def
        sample_claimed_partitions tx_return_def)
qed

lemma sample_claimed_log: "map tx_transaction_sequence (transactions sample_claimed) = [I64 1, I64 2]"
  "map tx_transaction_id (transactions sample_claimed) = [as_bytes (Id 1), as_bytes (Id 101)]"
  by (simp_all add: sample_claimed_def cursor_moved_def claim_inserted_def sample_db_def claim_transaction_row_def)

lemma expiry_insert_claim:
  "insert_claim_transaction (Id 100) expiry_request 1 (drawn fp sample_claimed n k) =
     Inr ((), drawn fp (claim_inserted expiry_request (Id 100) 1 (I64 3) sample_claimed) (n + 2) k)"
proof -
  have "next_transaction_sequence (drawn fp sample_claimed n k) = Inr (I64 3, drawn fp sample_claimed (n + 1) k)"
    by (simp add: next_transaction_sequence_def query_def sql_def sample_claimed_log sql_max_plus_one_def
        sql_coalesce_max_def i64_checked_add_def i64_in_range_def i64_of_int_def)
  moreover have "tx_transaction_sequence ` set (transactions sample_claimed) = {I64 1, I64 2}"
    "tx_transaction_id ` set (transactions sample_claimed) = {as_bytes (Id 1), as_bytes (Id 101)}"
    using arg_cong [OF sample_claimed_log(1), of set] arg_cong [OF sample_claimed_log(2), of set] by simp_all
  then have "insert_transactions (claim_transaction_row (Id 100) expiry_request 1 (I64 3)) sample_claimed =
      Inr (claim_inserted expiry_request (Id 100) 1 (I64 3) sample_claimed)"
    by (simp add: insert_transactions_def claim_transaction_row_def transaction_exists_def ensure_def claim_inserted_def)
  ultimately show ?thesis
    by (simp add: insert_claim_transaction_def tx_bind_def execute_def sql_def)
qed

lemma expiry_maintenance:
  "perform_maintenance expiry_request (Id 100) (maintenance_of sample_leased)
     (drawn fp (claim_inserted expiry_request (Id 100) 1 (I64 3) sample_claimed) n k) =
     Inr ((), drawn fp sample_expired (n + 1) k)"
proof -
  let ?d = "claim_inserted expiry_request (Id 100) 1 (I64 3) sample_claimed"
  have rows: "rows_ok ?d"
    using sample_claimed_ok by (auto simp: claim_inserted_def db_ok_def jobs_ok_def rows_ok_def transaction_exists_def)
  have find: "find_job (Id 20) ?d = Some sample_leased" "row_job_id (decoded_job sample_leased) = Id 20"
    using sample_find_leased row_job_id_found [OF sample_find_leased] by (simp_all add: find_job_def claim_inserted_def)
  have "set_nonterminal (Id 20) Uncertain None (Id 100) (drawn fp ?d n k) =
      Inr ((), called 1 (return_job sample_leased Uncertain None (Id 100) ?d) (drawn fp ?d n k))"
    using set_nonterminal_result [of "drawn fp ?d n k" "Id 20" sample_leased Uncertain None "Id 100"]
    using rows find by (simp add: healthy_def sample_leased_row)
  then show ?thesis
    by (simp add: perform_maintenance_def maintenance_of_def sample_leased_target tx_bind_def tx_map_err_def lift_simps
        ensure_transition_def ensure_def sample_leased_row find called_def sample_expired_def maintained_def)
qed

lemma expiry_claim:
  "claim_jobs sample_env expiry_request sample_claimed = (Inr (ClaimOutcome_MaintenanceCommitted (Id 100)), sample_expired)"
proof -
  have "validate_claim expiry_request = Inr (I64 250)"
    by (simp add: validate_claim_def expiry_request_def sample_request_def ensure_def i64_checked_add_def
        i64_in_range_def i64_of_int_def)
  moreover obtain n where "plan_leases expiry_request (at False sample_claimed 1) = Inr (([], None), at False sample_claimed n)"
    using expiry_plan_leases by blast
  ultimately show ?thesis
    using expiry_insert_claim [of False n 1] expiry_maintenance [of False "n + 2" 1]
    by (simp add: claim_jobs_def claim_body_def tx_bind_def tx_map_err_def tx_return_def expiry_plan_maintenance [of False 0, simplified]
        run_tx_def tx_start_def Let_def advance_cursor_def sample_env_of_def [of False, THEN arg_cong [where f = env_begin]]
        sample_env_of_def [of False, THEN arg_cong [where f = env_commit]] sample_env_of_def [of False, THEN arg_cong [where f = env_failpoint]])
qed

text \<open>The job is then uncertain.\<close>

definition sample_uncertain :: jobs_row where
  "sample_uncertain = nonterminal_row Uncertain None (Id 100) sample_leased"

lemma sample_expired_jobs: "jobs sample_expired = [sample_uncertain]"
  by (simp add: sample_expired_def maintained_def sample_leased_target return_job_def set_job_def sql_update_def
      claim_inserted_def sample_claimed_jobs sample_uncertain_def)

lemma sample_uncertain_row:
  "jobs_job_id sample_uncertain = as_bytes (Id 20)" "state_of sample_uncertain = Uncertain"
  by (simp_all add: sample_uncertain_def sample_leased_row nonterminal_row_def state_of_def job_state_decode_def)

lemma sample_find_uncertain: "find_job (Id 20) sample_expired = Some sample_uncertain"
  by (simp add: find_job_def sample_expired_jobs sample_uncertain_row)

lemma sample_expired_ok: "db_ok sample_expired"
  using db_ok_claim_jobs [OF expiry_claim sample_claimed_ok] .

text \<open>The first claim with its outcome lost, and its recovery.\<close>

lemma sample_claim_lost:
  "store_claim_jobs None (sample_env_of True) sample_request (sample_store\<lparr>store_db := sample_db\<rparr>) =
     (Inl (ClaimError_Indeterminate \<lparr>icl_transaction_id = Id 101, icl_proposed_jobs = [Id 20], icl_storage_error = Failpoint\<rparr>),
      sample_store\<lparr>store_writer := None, store_db := sample_claimed\<rparr>)"
proof -
  have "validate_claim sample_request = Inr (I64 150)"
    by (simp add: validate_claim_def sample_request_def ensure_def i64_checked_add_def
        i64_in_range_def i64_of_int_def)
  then have "claim_jobs (sample_env_of True) sample_request sample_db =
      (Inl (ClaimError_Indeterminate \<lparr>icl_transaction_id = Id 101, icl_proposed_jobs = [Id 20], icl_storage_error = Failpoint\<rparr>), sample_claimed)"
    using sample_claim_body [of True]
    by (simp add: claim_jobs_def run_tx_def tx_start_def Let_def sample_env_of_def claim_indeterminate_def claimed_of_def
        sample_lease_row)
  moreover have "on_connection (Read_Write Strict) (sample_env_of True) = sample_env_of True"
    by (simp add: on_connection_def sample_env_of_def)
  ultimately show ?thesis
    by (simp add: store_claim_jobs_def with_writer_def writer_connection_def sample_store_def new_store_def poison_def)
qed

lemma expiry_committed: "\<exists>ex. claim_committed expiry_request ex (Id 100) [] sample_claimed sample_expired"
  using expiry_claim sample_claimed_ok by (cases rule: claim_jobs_cases) (auto split: if_splits)

lemma sample_committed: "\<exists>ex leases. claim_committed sample_request ex (Id 101) leases sample_db sample_claimed"
  using sample_claim sample_db_ok by (cases rule: claim_jobs_cases) (auto split: if_splits)

section \<open>Reads of the sample\<close>

text \<open>A read that makes one driver call succeeds.\<close>

lemma sample_reads:
  assumes "\<And>s. tx_db s = d \<Longrightarrow> m s = one_read y s"
  shows "\<exists>x st'. with_reader None sample_env (tx_map_err g m) (sample_store\<lparr>store_db := d\<rparr>) = (Inr x, st')"
proof -
  have "m (tx_start (on_connection Read_Only sample_env) d) = one_read y (tx_start (on_connection Read_Only sample_env) d)"
    by (rule assms) (simp add: tx_start_def)
  moreover have "env_fault (on_connection Read_Only sample_env) n = None" for n
    by (simp add: on_connection_def)
  ultimately have "run_reads Read_Only sample_env (tx_map_err g m) d = Inr y"
    by (simp add: run_reads_def tx_map_err_def one_read_def query_def sql_def tx_start_def)
  then show ?thesis
    by (simp add: with_reader_def pool_take_def open_reader_def sample_store_def new_store_def read_pool_new_def)
qed

section \<open>Two partitions\<close>

text \<open>A job in a second partition of the queue, and an environment in which every claim goes through.\<close>

definition other_job :: job_spec where
  "other_job = job_spec_reconcilable (Id 22) ''q'' ''o'' [6]"

definition two_db :: db where
  "two_db = activate_partition ''q'' ''o'' (I64 2)
     (sample_db\<lparr>jobs := jobs sample_db @ [new_jobs_row (Id 1) other_job (I64 2)]\<rparr>)"

definition well_env :: env where
  "well_env = sample_env\<lparr>env_random := (\<lambda>_. Inr 100)\<rparr>"

lemma two_db_tables:
  "jobs two_db = [new_jobs_row (Id 1) sample_job (I64 1), new_jobs_row (Id 1) other_job (I64 2)]"
  "active_partitions two_db = [((''q'', ''p''), I64 1), ((''q'', ''o''), I64 2)]"
  "transactions two_db = transactions sample_db" "queue_cursors two_db = []"
  by (simp_all add: two_db_def activate_partition_def sample_db_def)

lemma two_db_ok: "db_ok two_db"
proof -
  have "find_job (Id 22) sample_db = None" "length (jobs sample_db) = 1" "transaction_exists (as_bytes (Id 1)) sample_db"
    by (simp_all add: find_job_def sample_db_def sample_job_def job_spec_reconcilable_def job_spec_base_def transaction_exists_def)
  moreover have "spec_job_id other_job = Id 22" "spec_max_attempts other_job \<noteq> 0"
    "spec_queue other_job = ''q''" "spec_partition_key other_job = ''o''"
    by (simp_all add: other_job_def job_spec_reconcilable_def job_spec_base_def)
  moreover have "i64_of_int 2 = I64 2"
    by (simp add: i64_of_int_def)
  ultimately have "apply_enqueue (Id 1) other_job (tx_start sample_env sample_db) =
      Inr ((), called 4 two_db (tx_start sample_env sample_db))"
    using apply_enqueue_result [of "tx_start sample_env sample_db" "Id 1" other_job] sample_db_ok
    by (simp add: two_db_def Let_def db_ok_def jobs_ok_rows)
  then have "tx_yields (apply_enqueue (Id 1) other_job) (tx_db (tx_start sample_env sample_db)) ()
      (tx_db (called 4 two_db (tx_start sample_env sample_db)))"
    unfolding tx_yields_def by blast
  then have "jobs_ok two_db"
    using jobs_ok_apply_enqueue sample_db_ok by (simp add: db_ok_def)
  then show ?thesis
    using sample_db_ok by (simp add: db_ok_def two_db_def activate_partition_def transactions_ok_def events_ok_def
        streams_ok_def projections_ok_def history_def versions_ok_def stored_version_def)
qed

lemma well_env_all_well: "all_well well_env two_db"
  by (simp add: all_well_def well_env_def sample_env_of_def supplied_def id_new_def transaction_exists_def
      two_db_tables sample_db_def)

lemma two_db_ready:
  "ready_partitions sample_request two_db = {''p'', ''o''}" "leased_partitions sample_request two_db = [''o'']"
  "expired_rows sample_request two_db = []" "validate_claim sample_request = Inr (I64 150)"
proof -
  have heads: "partition_jobs (jobs two_db) ''q'' ''p'' = [new_jobs_row (Id 1) sample_job (I64 1)]"
    "partition_jobs (jobs two_db) ''q'' ''o'' = [new_jobs_row (Id 1) other_job (I64 2)]"
    by (simp_all add: partition_jobs_def two_db_tables is_active_in_def new_jobs_row_def sample_job_def other_job_def
        job_spec_reconcilable_def job_spec_base_def active_states_sql_def)
  have ready: "job_ready (I64 100) (decoded_job (new_jobs_row (Id 1) sample_job (I64 1)))"
    "job_ready (I64 100) (decoded_job (new_jobs_row (Id 1) other_job (I64 2)))"
    by (simp_all add: job_ready_def decoded_job_def new_jobs_row_def sample_job_def other_job_def
        job_spec_reconcilable_def job_spec_base_def state_of_def job_state_decode_def)
  have parts: "queue_partitions ''q'' two_db = [''o'', ''p'']"
    by (simp add: queue_partitions_def two_db_tables)
  have will: "will_lease sample_request two_db ''p''" "will_lease sample_request two_db ''o''"
    using heads ready by (simp_all add: will_lease_def sample_request_def)
  then show "ready_partitions sample_request two_db = {''p'', ''o''}"
    using will_lease_set [of two_db sample_request] two_db_ok parts
    by (auto simp: db_ok_def sample_request_def)
  show "leased_partitions sample_request two_db = [''o'']"
    using will parts by (simp add: leased_partitions_def sample_request_def two_db_tables)
  show "expired_rows sample_request two_db = []"
    by (simp add: expired_rows_def two_db_tables new_jobs_row_def sql_limit_def)
  show "validate_claim sample_request = Inr (I64 150)"
    by (simp add: validate_claim_def sample_request_def ensure_def i64_checked_add_def i64_in_range_def i64_of_int_def)
qed

lemma two_claim:
  obtains c d' where "claim_jobs well_env sample_request two_db = (Inr (ClaimOutcome_Committed c), d')"
    "map claimed_partition_key (claims_jobs c) = [''o'']" "db_ok d'" "queue_partitions ''q'' d' = [''o'', ''p'']"
proof -
  have "length (transactions two_db) < 2 ^ 63 - 1"
    by (simp add: two_db_tables sample_db_def)
  from claim_goes_through [OF well_env_all_well two_db_ok two_db_ready(4) this]
  obtain out d' where run: "claim_jobs well_env sample_request two_db = (Inr out, d')" .
  then show thesis
    using two_db_ok
  proof (cases rule: claim_jobs_cases)
    case (committed ex t leases)
    note keys = claim_committed_partitions(1) [OF committed(3) two_db_ok]
    then have "leases \<noteq> []"
      by (auto simp: two_db_ready)
    moreover have "active_partitions (fold (granted req e t) ls d) = active_partitions d" for req e t ls d
      by (induction ls arbitrary: d) simp_all
    then have "active_partitions d' = active_partitions two_db"
      using committed(3) by (auto simp: claim_committed_def two_db_ready cursor_moved_def claim_inserted_def)
    then have "queue_partitions ''q'' d' = [''o'', ''p'']"
      by (simp add: queue_partitions_def two_db_tables)
    ultimately show ?thesis
      using run committed keys
      by (intro that [of "\<lparr>claims_transaction_id = t, claims_jobs = map (claimed_of sample_request ex) leases,
          claims_stale_jobs = []\<rparr>" d']) (simp_all add: two_db_ready)
  qed (simp_all add: two_db_ready)
qed


section \<open>The same batch through the Node bindings\<close>

definition node_input :: batch_input where
  "node_input = \<lparr>bi_transaction_id = Some (to_hex (Id 1)), bi_committed_at_ms = I64 7,
     bi_expected_stream_versions = None,
     bi_events = Some [\<lparr>ei_event_id = None, ei_stream_id = ''s'', ei_event_type = ''t'', ei_occurred_at_ms = I64 5,
       ei_payload = Some [1]\<rparr>],
     bi_projection_patches = Some [\<lparr>pi_projection = ''v'', pi_expected_version = I64 0,
       pi_puts = Some [\<lparr>pui_key = [3], pui_value = [4]\<rparr>], pi_deletes = None\<rparr>],
     bi_enqueue_jobs = Some [\<lparr>ji_job_id = Some (to_hex (Id 20)), ji_queue = ''q'', ji_partition_key = ''p'',
       ji_payload = [2], ji_effect_mode = None, ji_idempotency_key = None, ji_not_before_ms = None,
       ji_max_attempts = None\<rparr>],
     bi_ack_jobs = None\<rparr>"

lemma node_input_batch: "build_batch driver (\<lambda>_. Inr 10) node_input 0 = Inr (sample_batch, 1)"
  by (simp add: build_batch_def node_input_def draw_bind_def draw_lift_def id_or_new_def parse_js_id_def
      from_hex_to_hex unwrap_list_def id_new_def event_of_input_def patch_of_input_def spec_of_input_def
      sample_batch_def sample_event_def sample_patch_def sample_job_def i64_as_u64_def)

lemma node_input_lost:
  "node_commit driver (\<lambda>_. Inr 10) None (sample_env_of True) node_input (Some sample_store) =
     (Inl (map_commit_error driver (CommitError_Indeterminate \<lparr>ic_transaction_id = Id 1, ic_storage_error = Failpoint\<rparr>)),
      Some (sample_store\<lparr>store_writer := None, store_db := sample_db\<rparr>))"
  by (simp add: node_commit_def node_input_batch on_store_def translate_def sample_store_commit_lost)

lemma node_input_recovered:
  "node_recover_transaction driver None sample_env (to_hex (Id 1))
      (Some (sample_store\<lparr>store_writer := None, store_db := sample_db\<rparr>)) =
     (Inr (transaction_recovery_output (TransactionRecovery_Committed (receipt_of_row (transaction_row sample_batch (I64 1))))),
      Some (sample_store\<lparr>store_db := sample_db\<rparr>))"
  by (simp add: node_recover_transaction_def on_store_def translate_def parse_js_id_def from_hex_to_hex sample_recover)

lemma node_store_reachable: "reachable sample_store"
  unfolding reachable_def sample_store_def by (rule exI)+ (rule runs.stop)


section \<open>The leased job completed by a worker\<close>

definition turn_sample :: turn_env where
  "turn_sample = \<lparr>te_open = (\<lambda>_. None), te_env = (\<lambda>_. sample_env), te_now = (\<lambda>_. I64 120),
     te_random = (\<lambda>n. Inr (word_of_nat (50 + n)))\<rparr>"

definition turn_job :: claimed_job where
  "turn_job = claimed_of sample_request (I64 150) sample_lease"

definition turn_completed :: event where
  \<open>turn_completed = event_with_json_payload (Id 52) ''thread:x'' ''thread.turn-completed'' (I64 120) (str_bytes ''{"turn":1}'')\<close>

definition turn_batch :: commit_batch where
  "turn_batch = completion (Id 50) (I64 120) turn_completed 0 ''x'' turn_job"

definition turn_started :: turn_state where
  "turn_started = turn_start (sample_store\<lparr>store_db := sample_claimed\<rparr>) []"

lemma turn_completion_batch:
  obtains pool where "completion_batch turn_sample ''x'' turn_job turn_started =
     (Inr turn_batch, \<lparr>ts_store = sample_store\<lparr>store_db := sample_claimed, store_readers := pool\<rparr>, ts_ticks = 5, ts_effects = []\<rparr>)"
proof -
  have "map_of (projection_meta sample_claimed) threads = None"
    by (simp add: sample_claimed_def cursor_moved_def granted_def set_job_def claim_inserted_def sample_db_def threads_def)
  then have "with_reader None sample_env (projection_version threads) (sample_store\<lparr>store_db := sample_claimed\<rparr>) =
      (Inr 0, sample_store\<lparr>store_db := sample_claimed,
         store_readers := pool_put Read_Only (store_readers sample_store)\<rparr>)"
    by (simp add: with_reader_def pool_take_def open_reader_def sample_store_def new_store_def read_pool_new_def
        run_reads_def projection_version_def version_query_def tx_defs on_connection_def sample_env_of_def i64_as_u64_def)
  then show thesis
    by (intro that [of "pool_put Read_Only (store_readers sample_store)"])
      (simp add: completion_batch_def new_batch_def turn_event_def status_patch_def turn_bind_def turn_new_id_def
        turn_now_def turn_return_def turn_lift_def turn_read_def turn_call_def attempt_def turn_sample_def turn_started_def
        turn_start_def id_new_def turn_batch_def completion_def turn_completed_def thread_stream_def idle_def
        commit_batch_new_def push_operation_def acknowledge_job_def)
qed

abbreviation turn_db0 :: db where
  "turn_db0 \<equiv> sample_claimed\<lparr>transactions := transactions sample_claimed @ [transaction_row turn_batch (I64 3)]\<rparr>"

abbreviation turn_db1 :: db where
  "turn_db1 \<equiv> turn_db0\<lparr>events := events sample_claimed @ [(event_to_row (Id 50) turn_completed 1)\<lparr>ev_global_sequence := I64 2\<rparr>],
     events_seq := I64 2\<rparr>"

abbreviation turn_db2 :: db where
  "turn_db2 \<equiv> turn_db1\<lparr>projection_meta := AList.update threads (I64 1) (projection_meta sample_claimed),
     projection_entries := AList.update (threads, str_bytes ''x'') (str_bytes idle) (projection_entries sample_claimed)\<rparr>"

lemma turn_batch_parts:
  "batch_transaction_id turn_batch = Id 50" "batch_committed_at_ms turn_batch = I64 120"
  "batch_expected_stream_versions turn_batch = []"
  "batch_operations turn_batch = [AppendEvent turn_completed,
     ProjectionPatch (patch_push (Put (str_bytes ''x'') (str_bytes idle)) (projection_patch_new threads 0)),
     AckJob \<lparr>ack_job_id = Id 20, ack_lease_token = Id 100, ack_result_digest = None\<rparr>]"
  by (simp_all add: turn_batch_def completion_def turn_job_def sample_lease_row) (simp add: sample_lease_def)

lemma turn_batch_valid: "validate_batch limits_new turn_batch = Inr ()"
  by (simp add: validate_batch_def turn_batch_def completion_def turn_job_def turn_completed_def sample_lease_def
      sample_lease_row id_zero_def event_with_json_payload_def patch_push_def projection_patch_new_def patch_validate_def
      limits_new_def limit_defs ensure_def within_limit_def u64_saturating_add_def threads_def idle_def)

lemma turn_append:
  "append_event (Id 50) [] turn_completed (at False turn_db0 n) = Inr ([(''thread:x'', 1)], at False turn_db1 (n + 2))"
proof -
  have "map_of (streams sample_claimed) ''thread:x'' = None" "events_seq sample_claimed = I64 1"
    "events sample_claimed = [(event_to_row (Id 1) sample_event 1)\<lparr>ev_global_sequence := I64 1\<rparr>]"
    by (simp_all add: sample_claimed_def cursor_moved_def granted_def set_job_def claim_inserted_def sample_db_def)
  then show ?thesis
    by (simp add: append_event_def tx_defs current_stream_version_def insert_event_def
        sample_event_def turn_completed_def event_with_json_payload_def event_to_row_def
        insert_events_def transaction_exists_def transaction_row_def turn_batch_parts i64_checked_add_def
        u64_checked_add_def ensure_def i64_in_range_def i64_of_int_def i64_as_u64_def)
qed

lemma turn_patch:
  "apply_projection_patch (patch_push (Put (str_bytes ''x'') (str_bytes idle)) (projection_patch_new threads 0))
     (at False turn_db1 n) = Inr ((), at False turn_db2 (n + 3))"
proof -
  have "map_of (projection_meta sample_claimed) threads = None"
    by (simp add: sample_claimed_def cursor_moved_def granted_def set_job_def claim_inserted_def sample_db_def threads_def)
  then show ?thesis
    by (simp add: apply_projection_patch_def patch_validate_def tx_defs version_query_def patch_push_def
        projection_patch_new_def u64_saturating_add_def upsert_projection_entry_def ensure_def i64_as_u64_def u64_as_i64_def
        update_conv')
qed

lemma turn_ack:
  "\<exists>d. apply_ack (Id 50) (I64 120) \<lparr>ack_job_id = Id 20, ack_lease_token = Id 100, ack_result_digest = None\<rparr> (at False turn_db2 n) =
     Inr ((), at False d (n + 3))"
proof -
  have "rows_ok sample_claimed"
    using sample_claimed_ok by (simp add: db_ok_def jobs_ok_rows)
  then have "rows_ok turn_db2"
    by (auto simp: rows_ok_def transaction_exists_def)
  moreover have "find_job (Id 20) turn_db2 = Some sample_leased"
    using sample_find_leased by (simp add: find_job_def)
  ultimately show ?thesis
    using apply_ack_result [of "at False turn_db2 n"] by (simp add: healthy_def sample_leased_row called_def)
qed

lemma turn_flush: "\<exists>d'. flush_stream_versions [(''thread:x'', 1)] (at False d n) = Inr ((), at False d' (n + 1))"
  by (simp add: flush_stream_versions_def tx_defs)

lemma turn_commit_body: "\<exists>x d n. commit_body turn_batch (at False sample_claimed 0) = Inr (To_Commit x, at False d n)"
proof -
  have ids: "tx_transaction_id ` set (transactions sample_claimed) = {as_bytes (Id 1), as_bytes (Id 101)}"
    "tx_transaction_sequence ` set (transactions sample_claimed) = {I64 1, I64 2}"
    using arg_cong [OF sample_claimed_log(1), of set] arg_cong [OF sample_claimed_log(2), of set] by simp_all
  have "as_bytes (Id 50) \<notin> tx_transaction_id ` set (transactions sample_claimed)"
    by (simp add: ids(1))
  then have "List.find (\<lambda>r. tx_transaction_id r = as_bytes (Id 50)) (transactions sample_claimed) = None"
    by (force simp: find_None_iff)
  then have "lookup_transaction (Id 50) (at False sample_claimed 0) = Inr (None, at False sample_claimed 1)"
    by (simp add: lookup_transaction_def tx_defs)
  moreover have "next_transaction_sequence (at False sample_claimed 1) = Inr (I64 3, at False sample_claimed 2)"
    by (simp add: next_transaction_sequence_def tx_defs sample_claimed_log sql_max_plus_one_def
        sql_coalesce_max_def i64_checked_add_def i64_in_range_def i64_of_int_def numeral_2_eq_2)
  moreover have "execute (insert_transactions (transaction_row turn_batch (I64 3))) (at False sample_claimed 2) =
      Inr ((), at False turn_db0 3)"
    using ids by (simp add: tx_defs insert_transactions_def transaction_exists_def ensure_def transaction_row_def
        turn_batch_parts)
  moreover obtain d where "apply_ack (Id 50) (I64 120)
      \<lparr>ack_job_id = Id 20, ack_lease_token = Id 100, ack_result_digest = None\<rparr> (at False turn_db2 8) = Inr ((), at False d 11)"
    using turn_ack [of 8] by auto
  moreover obtain d' where "flush_stream_versions [(''thread:x'', 1)] (at False d 11) = Inr ((), at False d' 12)"
    using turn_flush [of d 11] by auto
  ultimately show ?thesis
    using turn_append [of 3] turn_patch [of 5]
    by (simp add: commit_body_def Let_def tx_bind_def tx_map_err_def tx_return_def turn_batch_parts keeping_def)
qed

lemma turn_store_commit:
  obtains receipt st' where "store_commit None sample_env turn_batch
    (sample_store\<lparr>store_db := sample_claimed, store_readers := pool\<rparr>) = (Inr receipt, st')"
proof -
  have env: "on_connection (Read_Write Strict) sample_env = sample_env"
    by (simp add: on_connection_def sample_env_of_def)
  obtain x d n where "commit_body turn_batch (at False sample_claimed 0) = Inr (To_Commit x, at False d n)"
    using turn_commit_body by blast
  then have "commit sample_env limits_new turn_batch sample_claimed = (Inr x, d)"
    by (simp add: commit_def turn_batch_valid run_tx_def tx_start_def Let_def sample_env_of_def)
  then show thesis
    by (intro that) (simp add: store_commit_def with_writer_def writer_connection_def sample_store_def new_store_def
        poison_def env)
qed

lemma turn_completes: obtains s' where "complete_turn turn_sample ''x'' turn_job turn_started = (Inr (), s')"
proof -
  obtain pool where "completion_batch turn_sample ''x'' turn_job turn_started =
     (Inr turn_batch, \<lparr>ts_store = sample_store\<lparr>store_db := sample_claimed, store_readers := pool\<rparr>, ts_ticks = 5, ts_effects = []\<rparr>)"
    by (rule turn_completion_batch)
  moreover obtain receipt st' where "store_commit None sample_env turn_batch
    (sample_store\<lparr>store_db := sample_claimed, store_readers := pool\<rparr>) = (Inr receipt, st')"
    by (rule turn_store_commit)
  ultimately show thesis
    using that by (simp add: complete_turn_def commit_or_recover_def turn_bind_def attempt_def turn_sample_def
        turn_return_def turn_lift_def)
qed

end
