(* ===== verification/Row_Types.thy ===== *)
theory Row_Types
  imports Store_Runs
begin

text \<open>
  The types of the stored rows. SQLite does not enforce what the store reads out of a column: an
  identifier is a blob of any length, a state, a mode or a version any 64-bit integer, and the
  conversions of \<open>row_to_job\<close>, \<open>row_to_persisted_event\<close> and \<open>recover_claim\<close> fail on others. A
  database is typed when every row converts. Every transaction keeps the database typed, whatever fails, and on
  a typed database no conversion fails: the storage errors that a read reports are failures of the driver,
  and those of a writing call are never a row that does not convert.
\<close>

section \<open>Typed rows\<close>

definition id_typed :: "blob \<Rightarrow> bool" where
  "id_typed b \<longleftrightarrow> length b = 16"

definition job_row_typed :: "jobs_row \<Rightarrow> bool" where
  "job_row_typed r \<longleftrightarrow> id_typed (jobs_job_id r) \<and> pred_option id_typed (jobs_lease_token r) \<and>
     effect_mode_decode (jobs_effect_mode r) \<noteq> None \<and> job_state_decode (jobs_state r) \<noteq> None \<and>
     u32_try_from (jobs_max_attempts r) \<noteq> None \<and> u32_try_from (jobs_attempt r) \<noteq> None"

definition receipt_typed :: "claim_receipts_row \<Rightarrow> bool" where
  "receipt_typed c \<longleftrightarrow> id_typed (cr_job_id c) \<and> id_typed (cr_lease_token c)"

definition typed_db :: "db \<Rightarrow> bool" where
  "typed_db d \<longleftrightarrow> list_all job_row_typed (jobs d) \<and> list_all event_row_ok (events d) \<and>
     list_all receipt_typed (claim_receipts d)"

lemma id_typed_as_bytes [simp]: "id_typed (as_bytes i)"
  by (simp add: id_typed_def)

lemma typed_db_simps [simp]:
  "typed_db (d\<lparr>transactions := x1\<rparr>) = typed_db d"
  "typed_db (d\<lparr>events_seq := x2\<rparr>) = typed_db d"
  "typed_db (d\<lparr>streams := x3\<rparr>) = typed_db d"
  "typed_db (d\<lparr>projection_meta := x4\<rparr>) = typed_db d"
  "typed_db (d\<lparr>projection_entries := x5\<rparr>) = typed_db d"
  "typed_db (d\<lparr>queue_cursors := x6\<rparr>) = typed_db d"
  "typed_db (d\<lparr>active_partitions := x7\<rparr>) = typed_db d"
  by (simp_all add: typed_db_def)

lemma typed_db_rows:
  "typed_db d \<Longrightarrow> r \<in> set (jobs d) \<Longrightarrow> job_row_typed r"
  "typed_db d \<Longrightarrow> ev \<in> set (events d) \<Longrightarrow> event_row_ok ev"
  "typed_db d \<Longrightarrow> c \<in> set (claim_receipts d) \<Longrightarrow> receipt_typed c"
  by (simp_all add: typed_db_def list_all_iff)

lemma db_ok_typed: "db_ok d \<Longrightarrow> typed_db d"
  by (fastforce simp: db_ok_def jobs_ok_def rows_ok_def job_row_ok_def receipts_ok_def events_ok_def typed_db_def
      list_all_iff job_row_typed_def receipt_typed_def id_typed_def [abs_def])

text \<open>A typed row converts.\<close>

lemma id_from_blob_typed: "id_typed b \<Longrightarrow> id_from_blob b = Inr (from_bytes b)"
  by (simp add: id_from_blob_def id_try_from_def id_typed_def)

lemma opt_id_from_blob_typed: "pred_option id_typed v \<Longrightarrow> opt_id_from_blob v = Inr (map_option from_bytes v)"
  by (rule opt_id_from_blob_ok) (simp add: id_typed_def [abs_def])

lemma row_to_job_typed: "job_row_typed r \<Longrightarrow> row_to_job r = Inr (decoded_job r)"
  by (auto simp: job_row_typed_def row_to_job_def decoded_job_def state_of_def id_from_blob_typed
      opt_id_from_blob_typed)

lemma rows_to_jobs_typed:
  "typed_db d \<Longrightarrow> set rows \<subseteq> set (jobs d) \<Longrightarrow> map_result row_to_job rows = Inr (map decoded_job rows)"
  by (intro map_result_all_Inr) (auto intro: row_to_job_typed typed_db_rows)

lemma collect_events_typed:
  "typed_db d \<Longrightarrow> set rows \<subseteq> set (events d) \<Longrightarrow> collect_events rows = Inr (map decoded_event rows)"
  unfolding collect_events_def
  by (intro map_result_all_Inr) (auto intro: row_to_persisted_event_ok typed_db_rows)

lemma map_transpose_Inr_all: "(\<And>x. v = Some x \<Longrightarrow> f x = Inr (g x)) \<Longrightarrow> map_transpose f v = Inr (map_option g v)"
  by (cases v) simp_all

section \<open>Sound computations\<close>

text \<open>
  The storage errors that a sound computation may report in an environment: those that the driver
  injects, and, if it writes, every error that is not a failed conversion.
\<close>

fun conversion_failed :: "storage_error \<Rightarrow> bool" where
  "conversion_failed (StorageError_Sqlite (Corrupt _)) = True"
| "conversion_failed _ = False"

definition admitted :: "bool \<Rightarrow> env \<Rightarrow> storage_error \<Rightarrow> bool" where
  "admitted may_write e s \<longleftrightarrow> (\<exists>n f. env_fault e n = Some f \<and> s = from_sqlite f) \<or> may_write \<and> \<not> conversion_failed s"

text \<open>\<open>carried\<close> gives the storage error inside an error.\<close>

definition sound :: "bool \<Rightarrow> ('e \<Rightarrow> storage_error option) \<Rightarrow> ('e, 'a) tx \<Rightarrow> bool" where
  "sound may_write carried m \<longleftrightarrow> (\<forall>s. typed_db (tx_db s) \<longrightarrow>
     (\<forall>e. m s = Inl e \<longrightarrow> pred_option (admitted may_write (tx_env s)) (carried e)) \<and>
     (\<forall>x s'. m s = Inr (x, s') \<longrightarrow> typed_db (tx_db s') \<and> tx_env s' = tx_env s))"

fun error_storage :: "error \<Rightarrow> storage_error option" where
  "error_storage (Error_Storage s) = Some s"
| "error_storage _ = None"

fun cause_storage :: "indeterminate_cause \<Rightarrow> storage_error option" where
  "cause_storage (Commit_Step s) = Some s"
| "cause_storage Failpoint = None"

fun commit_storage :: "commit_error \<Rightarrow> storage_error option" where
  "commit_storage (CommitError_Storage s) = Some s"
| "commit_storage (CommitError_Indeterminate i) = cause_storage (ic_storage_error i)"
| "commit_storage _ = None"

fun claim_storage :: "claim_error \<Rightarrow> storage_error option" where
  "claim_storage (ClaimError_Storage s) = Some s"
| "claim_storage (ClaimError_Indeterminate i) = cause_storage (icl_storage_error i)"
| "claim_storage _ = None"

fun lease_storage :: "lease_error \<Rightarrow> storage_error option" where
  "lease_storage (LeaseError_Storage s) = Some s"
| "lease_storage (LeaseError_Indeterminate i) = cause_storage (il_storage_error i)"
| "lease_storage _ = None"

fun recovery_storage :: "recovery_error \<Rightarrow> storage_error option" where
  "recovery_storage (RecoveryError_Storage s) = Some s"

named_theorems soundness

lemma soundI:
  assumes "\<And>s e. typed_db (tx_db s) \<Longrightarrow> m s = Inl e \<Longrightarrow> pred_option (admitted w (tx_env s)) (c e)"
    and "\<And>s x s'. typed_db (tx_db s) \<Longrightarrow> m s = Inr (x, s') \<Longrightarrow> typed_db (tx_db s') \<and> tx_env s' = tx_env s"
  shows "sound w c m"
  using assms unfolding sound_def by blast

lemma sound_Inl:
  "sound w c m \<Longrightarrow> typed_db (tx_db s) \<Longrightarrow> m s = Inl e \<Longrightarrow> pred_option (admitted w (tx_env s)) (c e)"
  unfolding sound_def by blast

lemma sound_Inr:
  "sound w c m \<Longrightarrow> typed_db (tx_db s) \<Longrightarrow> m s = Inr (x, s') \<Longrightarrow> typed_db (tx_db s') \<and> tx_env s' = tx_env s"
  unfolding sound_def by blast

lemma sound_return [soundness]: "sound w c (tx_return x)"
  by (simp add: sound_def tx_return_def)

lemma sound_bind [soundness]:
  assumes m: "sound w c m" and f: "\<And>x. sound w c (f x)"
  shows "sound w c (tx_bind m f)"
proof (rule soundI)
  fix s e assume typed: "typed_db (tx_db s)" and "tx_bind m f s = Inl e"
  then consider "m s = Inl e" | x t where "m s = Inr (x, t)" "f x t = Inl e"
    by (auto simp: tx_bind_def err_bind_Inl)
  then show "pred_option (admitted w (tx_env s)) (c e)"
  proof cases
    case 1
    with sound_Inl [OF m typed] show ?thesis by simp
  next
    case (2 x t)
    with sound_Inr [OF m typed 2(1)] sound_Inl [OF f, of t x e] show ?thesis by simp
  qed
next
  fix s y s' assume typed: "typed_db (tx_db s)" and "tx_bind m f s = Inr (y, s')"
  then obtain x t where x: "m s = Inr (x, t)" "f x t = Inr (y, s')"
    by (auto simp: tx_bind_def)
  with sound_Inr [OF m typed x(1)] sound_Inr [OF f, of t x y s'] show "typed_db (tx_db s') \<and> tx_env s' = tx_env s"
    by simp
qed

lemma sound_lift [soundness]: "(\<And>e. r = Inl e \<Longrightarrow> c e = None) \<Longrightarrow> sound w c (tx_lift r)"
  by (cases r) (auto simp: sound_def tx_lift_def)

lemma sound_map_err:
  assumes m: "sound w c m" and fails: "fails_with P m"
    and carried: "\<And>e s. P e \<Longrightarrow> c' (f e) = Some s \<Longrightarrow> c e = Some s"
  shows "sound w c' (tx_map_err f m)"
proof (rule soundI)
  fix s e assume typed: "typed_db (tx_db s)" and "tx_map_err f m s = Inl e"
  then obtain e' where e': "m s = Inl e'" "e = f e'"
    by (auto simp: tx_map_err_def map_err_Inl)
  moreover have "P e'"
    using fails e'(1) by (simp add: fails_with_def)
  ultimately show "pred_option (admitted w (tx_env s)) (c' e)"
    using sound_Inl [OF m typed, of e'] carried [of e'] by (cases "c' e") auto
next
  fix s x s' assume "typed_db (tx_db s)" "tx_map_err f m s = Inr (x, s')"
  with sound_Inr [OF m, of s x s'] show "typed_db (tx_db s') \<and> tx_env s' = tx_env s"
    by (simp add: tx_map_err_def)
qed

lemma sound_wrapped [soundness]:
  "sound w Some m \<Longrightarrow> sound w error_storage (tx_map_err Error_Storage m)"
  "sound w Some m \<Longrightarrow> sound w commit_storage (tx_map_err CommitError_Storage m)"
  "sound w Some m \<Longrightarrow> sound w claim_storage (tx_map_err ClaimError_Storage m)"
  "sound w Some m \<Longrightarrow> sound w lease_storage (tx_map_err LeaseError_Storage m)"
  "sound w Some m \<Longrightarrow> sound w recovery_storage (tx_map_err RecoveryError_Storage m)"
  by (erule sound_map_err [where P = "\<lambda>_. True"], simp add: fails_with_def, simp)+

lemma sound_error_to_commit [soundness]:
  "sound w error_storage m \<Longrightarrow> sound w commit_storage (tx_map_err error_to_commit m)"
  by (erule sound_map_err [where P = "\<lambda>_. True"], simp add: fails_with_def) (case_tac e; simp)

lemma sound_error_to_claim [soundness]:
  "sound w error_storage m \<Longrightarrow> sound w claim_storage (tx_map_err error_to_claim m)"
  by (erule sound_map_err [where P = "\<lambda>_. True"], simp add: fails_with_def) (case_tac e; simp)

lemma sound_for_each [soundness]: "(\<And>x. sound w c (f x)) \<Longrightarrow> sound w c (tx_for_each f xs)"
  by (induction xs) (auto intro: soundness)

lemma sound_fold [soundness]: "(\<And>v x. sound w c (f v x)) \<Longrightarrow> sound w c (tx_fold f v xs)"
  by (induction xs arbitrary: v) (auto intro: soundness)

lemma sound_sql:
  assumes typed: "\<And>d x d'. typed_db d \<Longrightarrow> stmt d = Inr (x, d') \<Longrightarrow> typed_db d'"
    and failed: "\<And>d e. typed_db d \<Longrightarrow> stmt d = Inl e \<Longrightarrow> w"
  shows "sound w Some (sql stmt)"
proof (rule soundI)
  fix s e assume s: "typed_db (tx_db s)" and "sql stmt s = Inl e"
  then consider f where "env_fault (tx_env s) (tx_calls s) = Some f" "e = from_sqlite f"
    | f where "stmt (tx_db s) = Inl f" "e = from_sqlite f"
    by (auto simp: sql_def map_err_Inl err_bind_Inl split: option.splits)
  then show "pred_option (admitted w (tx_env s)) (Some e)"
  proof cases
    case (1 f)
    then show ?thesis by (auto simp: admitted_def)
  next
    case (2 f)
    then show ?thesis using failed [OF s 2(1)] by (simp add: admitted_def from_sqlite_def)
  qed
next
  fix s x s' assume s: "typed_db (tx_db s)" and "sql stmt s = Inr (x, s')"
  then obtain d' where "stmt (tx_db s) = Inr (x, d')" "s' = s\<lparr>tx_db := d', tx_calls := Suc (tx_calls s)\<rparr>"
    by (auto simp: sql_def split: option.splits)
  with typed [OF s] show "typed_db (tx_db s') \<and> tx_env s' = tx_env s" by simp
qed

lemma sound_read [soundness]: "sound w Some (query (\<lambda>d. Inr (f d)))"
  unfolding query_def by (rule sound_sql) auto

lemma sound_query [soundness]: "sound True Some (query q)"
  unfolding query_def by (rule sound_sql) auto

lemma sound_execute [soundness]:
  assumes "\<And>d d'. typed_db d \<Longrightarrow> w d = Inr d' \<Longrightarrow> typed_db d'"
  shows "sound True Some (execute w)"
proof -
  let ?run = "sql (\<lambda>d. err_bind (w d) (\<lambda>d'. Inr ((), d')))"
  have sound: "sound True Some ?run"
    by (rule sound_sql) (auto dest: assms)
  have run: "execute w s = (if env_read_only (tx_env s) then Inl (from_sqlite ReadOnlyDatabase) else ?run s)" for s
    by (simp only: execute_def)
  show ?thesis
  proof (rule soundI)
    fix s e assume "typed_db (tx_db s)" "execute w s = Inl e"
    with sound_Inl [OF sound, of s e] show "pred_option (admitted True (tx_env s)) (Some e)"
      by (cases "env_read_only (tx_env s)") (auto simp: run admitted_def from_sqlite_def)
  next
    fix s x s' assume "typed_db (tx_db s)" "execute w s = Inr (x, s')"
    with sound_Inr [OF sound, of s x s'] show "typed_db (tx_db s') \<and> tx_env s' = tx_env s"
      by (cases "env_read_only (tx_env s)") (auto simp: run)
  qed
qed

lemma sound_random_id [soundness]: "sound True error_storage tx_random_id"
  by (rule soundI) (auto simp: tx_random_id_def id_new_def admitted_def err_bind_Inl split: sum.splits)

text \<open>A query whose rows all convert.\<close>

lemma query_lift_steps:
  "tx_bind (query (\<lambda>d. Inr (f d))) (\<lambda>x. tx_bind (tx_lift (g x)) (k x)) s =
     (case env_fault (tx_env s) (tx_calls s) of
        Some e \<Rightarrow> Inl (from_sqlite e)
      | None \<Rightarrow> err_bind (g (f (tx_db s))) (\<lambda>y. k (f (tx_db s)) y (s\<lparr>tx_calls := Suc (tx_calls s)\<rparr>)))"
  by (cases "g (f (tx_db s))") (simp_all add: tx_bind_def tx_lift_def query_def sql_def split: option.split)

lemma sound_rows:
  assumes rows: "\<And>d. typed_db d \<Longrightarrow> \<exists>y. g (f d) = Inr y" and k: "\<And>x y. sound w Some (k x y)"
  shows "sound w Some (tx_bind (query (\<lambda>d. Inr (f d))) (\<lambda>x. tx_bind (tx_lift (g x)) (k x)))"
proof -
  let ?t = "\<lambda>s. s\<lparr>tx_calls := Suc (tx_calls s)\<rparr>"
  have same: "tx_db (?t s) = tx_db s" "tx_env (?t s) = tx_env s" for s by simp_all
  show ?thesis
  proof (rule soundI, unfold query_lift_steps)
    fix s e assume s: "typed_db (tx_db s)"
      and e: "(case env_fault (tx_env s) (tx_calls s) of Some f \<Rightarrow> Inl (from_sqlite f)
        | None \<Rightarrow> err_bind (g (f (tx_db s))) (\<lambda>y. k (f (tx_db s)) y (?t s))) = Inl e"
    obtain y where "g (f (tx_db s)) = Inr y"
      using rows [OF s] by blast
    with e sound_Inl [OF k, of "?t s", unfolded same, OF s] show "pred_option (admitted w (tx_env s)) (Some e)"
      by (auto simp: admitted_def split: option.splits)
  next
    fix s z s' assume s: "typed_db (tx_db s)"
      and z: "(case env_fault (tx_env s) (tx_calls s) of Some f \<Rightarrow> Inl (from_sqlite f)
        | None \<Rightarrow> err_bind (g (f (tx_db s))) (\<lambda>y. k (f (tx_db s)) y (?t s))) = Inr (z, s')"
    with sound_Inr [OF k, of "?t s", unfolded same, OF s] show "typed_db (tx_db s') \<and> tx_env s' = tx_env s"
      by (auto split: option.splits)
  qed
qed

lemma sound_rows_lift:
  assumes "\<And>d. typed_db d \<Longrightarrow> \<exists>y. g (f d) = Inr y"
  shows "sound w Some (tx_bind (query (\<lambda>d. Inr (f d))) (\<lambda>x. tx_lift (g x)))"
proof -
  have "(\<lambda>x. tx_lift (g x)) = (\<lambda>x. tx_bind (tx_lift (g x)) tx_return)"
    by (rule ext, case_tac "g x") (simp_all add: tx_bind_def tx_lift_def tx_return_def fun_eq_iff)
  with sound_rows [of g f w "\<lambda>_. tx_return", OF assms sound_return] show ?thesis
    by (simp only:)
qed

section \<open>The reads\<close>

lemma sound_load_job [soundness]: "sound w Some (load_job i)"
  unfolding load_job_def
  by (rule sound_rows_lift, rule exI, rule map_transpose_Inr_all, rule row_to_job_typed)
    (auto simp: find_Some_iff intro: typed_db_rows)

lemma sound_require_job [soundness]: "sound w error_storage (require_job i)"
  unfolding require_job_def by (intro soundness) (simp add: ok_or_Inl)

lemma sound_jobs_rows:
  assumes "\<And>d. set (f d) \<subseteq> set (jobs d)"
  shows "\<And>d. typed_db d \<Longrightarrow> \<exists>js. map_result row_to_job (f d) = Inr js"
  using rows_to_jobs_typed [OF _ assms] by blast

lemma sound_row_to_job_rows [soundness]:
  assumes "\<And>d. set (rows d) \<subseteq> set (jobs d)" "\<And>x y. sound w Some (k x y)"
  shows "sound w Some (tx_bind (query (\<lambda>d. Inr (rows d))) (\<lambda>rows. tx_bind (tx_lift (map_result row_to_job rows)) (k rows)))"
  using sound_jobs_rows [of rows, OF assms(1)] assms(2) by (intro sound_rows)

lemma sound_events_after: "sound w Some (events_after after limit)"
  and sound_stream_events: "sound w Some (stream_events s from_version limit)"
  unfolding events_after_def stream_events_def
  by (rule sound_rows_lift, rule exI, erule collect_events_typed, rule order_trans [OF set_sql_limit], auto)+

lemma sound_last_events: "sound w Some (last_events limit)"
  unfolding last_events_def
  by (rule sound_rows, rule exI, erule collect_events_typed, rule order_trans [OF set_sql_limit])
    (auto intro: soundness)

lemma sound_get_event: "sound w Some (get_event i)"
  unfolding get_event_def
  by (rule sound_rows_lift, rule exI, rule map_transpose_Inr_all)
    (auto simp: find_Some_iff row_to_persisted_event_ok typed_db_rows)

lemma sound_stream_version [soundness]:
  "sound w Some (stream_version s)" "sound w Some (current_stream_version s)"
  unfolding stream_version_def current_stream_version_def by (intro soundness)+

lemma sound_projection_reads:
  "sound w error_storage (version_query p)"
  "sound w error_storage (projection_get p key)"
  "sound w error_storage (scan p start bound after limit)"
  "sound w error_storage projections_list"
  "sound w error_storage (projection_entry_count p)"
  unfolding version_query_def projection_get_def scan_def projections_list_def projection_entry_count_def
  by (intro soundness)+

lemma sound_get_job: "sound w error_storage (get_job i)"
  unfolding get_job_def by (intro soundness)

lemma sound_jobs_lift:
  assumes "\<And>d. set (rows d) \<subseteq> set (jobs d)"
  shows "sound w Some (tx_bind (query (\<lambda>d. Inr (rows d)))
    (\<lambda>rows. tx_lift (err_bind (map_result row_to_job rows) (\<lambda>js. Inr (h rows js)))))"
  using rows_to_jobs_typed [OF _ assms] by (intro sound_rows_lift) force

lemma sound_list_jobs: "sound w error_storage (list_jobs q s limit)"
  unfolding list_jobs_def
  by (intro sound_wrapped sound_jobs_lift) (rule order_trans [OF set_sql_limit], auto)

lemma sound_list_jobs_page: "sound w error_storage (list_jobs_page q s after limit)"
  unfolding list_jobs_page_def
  by (intro sound_bind sound_lift sound_wrapped sound_jobs_lift, simp add: ok_or_Inl, simp add: ok_or_Inl)
    (rule order_trans [OF set_sql_limit], auto)

lemma sound_recover_transaction: "sound w Some (recover_transaction i)"
  unfolding recover_transaction_def by (intro soundness)

lemma recover_row_typed:
  assumes "typed_db d" "x \<in> set (receipt_rows i d)"
  shows "\<exists>y. recover_row now_ms x = Inr y"
proof -
  obtain c j where x: "x = (c, j)" by (cases x)
  with assms(2) have "c \<in> set (claim_receipts d)" "j \<in> set (jobs d)"
    by (auto simp: receipt_rows_def)
  with assms(1) have "receipt_typed c" "job_row_typed j"
    by (auto intro: typed_db_rows)
  with x have "recover_row now_ms x \<noteq> Inl e" for e
    by (auto simp: recover_row_def receipt_typed_def job_row_typed_def id_from_blob_typed
        opt_id_from_blob_typed err_bind_Inl split: if_splits)
  then show ?thesis by (cases "recover_row now_ms x") auto
qed

lemma sound_recover_claim: "sound w recovery_storage (recover_claim i now_ms)"
proof -
  have "\<exists>y. map_result (recover_row now_ms) (receipt_rows i d) = Inr y" if "typed_db d" for d
  proof -
    have "\<forall>x \<in> set (receipt_rows i d). recover_row now_ms x = Inr (projr (recover_row now_ms x))"
      using recover_row_typed [OF that, where now_ms = now_ms] by (metis sum.sel(2))
    then show ?thesis by (intro exI) (rule map_result_all_Inr)
  qed
  then show ?thesis
    unfolding recover_claim_def by (intro sound_wrapped sound_rows) (auto intro!: soundness)
qed

text \<open>Every row of the tables converts, as \<open>load_job\<close>, the event queries and \<open>recover_claim\<close> convert it.\<close>

definition rows_convert :: "db \<Rightarrow> bool" where
  "rows_convert d \<longleftrightarrow> (\<forall>r \<in> set (jobs d). \<exists>j. row_to_job r = Inr j) \<and>
     (\<forall>r \<in> set (events d). \<exists>p. row_to_persisted_event r = Inr (Inr p)) \<and>
     (\<forall>i now_ms. \<forall>x \<in> set (receipt_rows i d). \<exists>y. recover_row now_ms x = Inr y)"

lemma typed_rows_convert: "typed_db d \<Longrightarrow> rows_convert d"
  unfolding rows_convert_def
  by (auto dest: typed_db_rows row_to_job_typed row_to_persisted_event_ok recover_row_typed)

section \<open>The writes\<close>

lemma typed_update_job:
  assumes "update_job i u d = Inr d'" "typed_db d" "\<And>r. job_row_typed r \<Longrightarrow> job_row_typed (u r)"
  shows "typed_db d'"
  using assms by (auto simp: update_job_def typed_db_def list_all_iff sql_update_def)

lemma sound_update_job [soundness]:
  "(\<And>r. job_row_typed r \<Longrightarrow> job_row_typed (u r)) \<Longrightarrow> sound True Some (execute (update_job i u))"
  by (rule sound_execute) (rule typed_update_job)

lemma sound_change [soundness]:
  "(\<And>d. typed_db d \<Longrightarrow> typed_db (f d)) \<Longrightarrow> sound True Some (execute (\<lambda>d. Inr (f d)))"
  by (rule sound_execute) auto

lemma sound_drain [soundness]: "sound True Some (drain_partition_if_empty q p)"
  unfolding drain_partition_if_empty_def by (intro soundness) (simp add: drain_partition_def)

lemma u32_try_from_zero: "u32_try_from (I64 0) = Some 0"
  by (simp add: u32_try_from_def i64_as_u32_def)

lemma job_row_typed_changes [simp]:
  "job_row_typed r \<Longrightarrow> job_row_typed (terminal_row s n t g e r)"
  "job_row_typed r \<Longrightarrow> job_row_typed (nonterminal_row s m t r)"
  "job_row_typed r \<Longrightarrow> job_row_typed (leased_row a token worker x t r)"
  "job_row_typed (new_jobs_row t spec n)"
  "job_row_typed (r\<lparr>jobs_error_summary := v\<rparr>) = job_row_typed r"
  "job_row_typed (r\<lparr>jobs_lease_expires_at_ms := y\<rparr>) = job_row_typed r"
  by (simp_all add: job_row_typed_def terminal_row_def nonterminal_row_def leased_row_def new_jobs_row_def
      u32_try_from_zero del: job_state_encode.simps)

lemma sound_set_terminal [soundness]: "sound True Some (set_terminal j s n t g e)"
  unfolding set_terminal_def by (intro soundness) simp

lemma sound_set_nonterminal [soundness]: "sound True Some (set_nonterminal i s m t)"
  unfolding set_nonterminal_def by (intro soundness) simp

lemma sound_ensured [soundness]:
  "sound w error_storage (tx_lift (ensure_transition j s))"
  "sound w error_storage (tx_lift (ensure_lease_token j t))"
  by (auto simp: ensure_transition_def ensure_lease_token_def ensure_Inl intro!: soundness)

lemma sound_apply_enqueue [soundness]: "sound True error_storage (apply_enqueue t s)"
  unfolding apply_enqueue_def
  by (intro sound_bind sound_wrapped sound_load_job sound_lift sound_query sound_execute sound_change)
    (auto simp: ensure_Inl insert_jobs_def activate_partition_def typed_db_def)

lemma sound_apply_ack [soundness]: "sound True error_storage (apply_ack t n a)"
  unfolding apply_ack_def by (intro soundness)

lemma sound_apply_fail [soundness]: "sound True error_storage (apply_fail t n f)"
  unfolding apply_fail_def Let_def
  by (auto intro!: soundness simp: ok_or_Inl split: option.splits)

lemma sound_apply_cancel [soundness]: "sound True error_storage (apply_cancel t n c)"
  unfolding apply_cancel_def
  by (auto intro!: soundness simp: ensure_lease_token_def ensure_Inl split: option.splits if_splits)

lemma sound_apply_resolve [soundness]: "sound True error_storage (apply_resolve t n r)"
  unfolding apply_resolve_def by (auto intro!: soundness split: resolution.split)

lemma sound_apply_extend_lease [soundness]: "sound True lease_storage (apply_extend_lease x n)"
  unfolding apply_extend_lease_def Let_def
  by (auto intro!: soundness simp: ok_or_Inl ensure_Inl typed_db_def list_all_iff sql_update_def receipt_typed_def)

section \<open>The transactions\<close>

lemma sound_apply_mutation [soundness]: "sound True error_storage (apply_mutation p m)"
  by (cases m) (auto simp: clear_entries_def upsert_projection_entry_def insert_projection_entry_def intro!: soundness)

lemma sound_apply_projection_patch [soundness]: "sound True error_storage (apply_projection_patch p)"
  unfolding apply_projection_patch_def
  by (auto intro!: soundness sound_projection_reads(1) simp: ensure_Inl map_err_Inl)

lemma sound_append_event [soundness]: "sound True commit_storage (append_event t sv e)"
proof -
  have "typed_db d'" if "insert_events (event_to_row t e v) d = Inr d'" "typed_db d" for v d d'
    using that by (auto simp: insert_events_def typed_db_def)
  then have "sound True Some (insert_event t e v)" for v
    unfolding insert_event_def by (intro sound_execute)
  then show ?thesis
    unfolding append_event_def
    by (auto intro!: soundness simp: ok_or_Inl split: option.split prod.split)
qed

lemma sound_keeping [soundness]: "sound w c m \<Longrightarrow> sound w c (keeping sv m)"
  unfolding keeping_def by (intro soundness)

lemma sound_extend_operation [soundness]:
  "sound True commit_storage (tx_map_err lease_to_commit (apply_extend_lease x n))"
  by (rule sound_map_err [OF sound_apply_extend_lease apply_extend_lease_determinate]) (case_tac e; simp)

lemma sound_apply_operation [soundness]: "sound True commit_storage (apply_operation b sv op)"
  by (cases op) (simp_all, (intro soundness)+)

lemma sound_flush [soundness]: "sound True Some (flush_stream_versions sv)"
  unfolding flush_stream_versions_def by (auto intro!: soundness split: prod.split)

lemma sound_insert_transactions [soundness]: "sound True Some (execute (insert_transactions r))"
  by (rule sound_execute) (auto simp: insert_transactions_def)

lemma sound_next_sequence [soundness]: "sound True Some next_transaction_sequence"
  unfolding next_transaction_sequence_def by (rule sound_query)

lemma sound_check_expected [soundness]: "sound True commit_storage (check_expected_version sv x)"
  unfolding check_expected_version_def by (auto intro!: soundness)

lemma sound_commit_body: "sound True commit_storage (commit_body b)"
  unfolding commit_body_def lookup_transaction_def Let_def
  by (auto intro!: soundness split: option.split prod.split)

lemma sound_plan_maintenance [soundness]: "sound True Some (plan_maintenance req)"
  unfolding plan_maintenance_def
  by (intro sound_row_to_job_rows soundness) (rule order_trans [OF set_sql_limit], auto)

lemma sound_partition_head [soundness]: "sound True Some (partition_head q p)"
proof -
  have "\<exists>y. map_transpose row_to_job (case sql_limit n (sort_key jobs_enqueue_sequence (filter (is_active_in q p) (jobs d))) of
      [] \<Rightarrow> None | r # _ \<Rightarrow> Some r) = Inr y" if "typed_db d" for n d
  proof (rule exI, rule map_transpose_Inr_all, rule row_to_job_typed)
    fix r assume "(case sql_limit n (sort_key jobs_enqueue_sequence (filter (is_active_in q p) (jobs d))) of
      [] \<Rightarrow> None | r # _ \<Rightarrow> Some r) = Some r"
    then have "r \<in> set (sql_limit n (sort_key jobs_enqueue_sequence (filter (is_active_in q p) (jobs d))))"
      by (auto split: list.splits)
    then show "job_row_typed r"
      using that set_sql_limit by (fastforce intro: typed_db_rows)
  qed
  then show ?thesis
    unfolding partition_head_def by (rule sound_rows_lift)
qed

lemma sound_lease_loop [soundness]: "sound True error_storage (lease_loop req leases l ps)"
  by (induction ps arbitrary: leases l) (auto intro!: soundness split: option.split)

lemma sound_plan_leases [soundness]: "sound True error_storage (plan_leases req)"
  unfolding plan_leases_def by (auto intro!: soundness)

lemma sound_perform_maintenance [soundness]: "sound True claim_storage (perform_maintenance req t a)"
  unfolding perform_maintenance_def by (auto intro!: soundness split: job_state.split)

lemma sound_grant_lease [soundness]: "sound True claim_storage (grant_lease req x t c l)"
  unfolding grant_lease_def Let_def
  by (intro sound_wrapped sound_bind sound_update_job sound_execute sound_return)
    (auto simp: insert_claim_receipts_def typed_db_def receipt_typed_def)

lemma sound_claim_body: "sound True claim_storage (claim_body req x)"
  unfolding claim_body_def insert_claim_transaction_def advance_cursor_def
  by (auto intro!: soundness split: option.split prod.split)

section \<open>The calls\<close>

lemma run_tx_typed:
  assumes "run_tx e storage indet body d = (r, d')" "sound True c body" "typed_db d"
    and "\<And>s. c (storage s) = Some s" "\<And>x cause. c (indet x cause) = cause_storage cause"
  shows "typed_db d' \<and> (\<forall>err s. r = Inl err \<longrightarrow> c err = Some s \<longrightarrow> \<not> conversion_failed s)"
proof -
  let ?s = "tx_start e d"
  have start: "typed_db (tx_db ?s)"
    using assms(3) by (simp add: tx_start_def)
  have failed: "\<not> conversion_failed s" if "body ?s = Inl err" "c err = Some s" for err s
    using sound_Inl [OF assms(2) start that(1)] that(2) by (auto simp: admitted_def from_sqlite_def)
  have yielded: "typed_db (tx_db t)" if "body ?s = Inr (x, t)" for x t
    using sound_Inr [OF assms(2) start that] by simp
  show ?thesis
    using assms(1, 3) failed yielded
    by (fastforce simp: run_tx_def assms(4, 5) from_sqlite_def
        split: option.splits sum.splits tx_end.splits commit_outcome.splits if_splits)
qed

text \<open>The storage error that an answer reports.\<close>

definition reported_by :: "('e \<Rightarrow> storage_error option) \<Rightarrow> 'e + 'a \<Rightarrow> storage_error option" where
  "reported_by c r = (case r of Inl e \<Rightarrow> c e | Inr _ \<Rightarrow> None)"

fun reported :: "response \<Rightarrow> storage_error option" where
  "reported (Commit_Result r) = reported_by commit_storage r"
| "reported (Recovered_Transaction r) = reported_by recovery_storage r"
| "reported (Event_List r) = reported_by error_storage r"
| "reported (Event_Found r) = reported_by error_storage r"
| "reported (Version_Result r) = reported_by error_storage r"
| "reported (Value_Found r) = reported_by error_storage r"
| "reported (Entry_List r) = reported_by error_storage r"
| "reported (Projection_List r) = reported_by error_storage r"
| "reported (Claim_Result r) = reported_by claim_storage r"
| "reported (Lease_Result r) = reported_by lease_storage r"
| "reported (Recovered_Claim r) = reported_by recovery_storage r"
| "reported (Job_Found r) = reported_by error_storage r"
| "reported (Job_List r) = reported_by error_storage r"
| "reported (Job_Page r) = reported_by error_storage r"

fun writing :: "request \<Rightarrow> bool" where
  "writing (Call_Commit _) = True"
| "writing (Call_Claim_Jobs _) = True"
| "writing (Call_Extend_Lease _ _ _ _) = True"
| "writing _ = False"

text \<open>A failure of the driver: the connection could not be opened, or a call failed.\<close>

definition driver_failure :: "open_outcome \<Rightarrow> env \<Rightarrow> storage_error \<Rightarrow> bool" where
  "driver_failure opn e s \<longleftrightarrow> opn = Some s \<or> (\<exists>n f. env_fault e n = Some f \<and> s = from_sqlite f)"

lemma run_reads_reported:
  assumes "sound False c m" "typed_db d" "reported_by c (run_reads conn e m d) = Some s"
  shows "\<exists>n f. env_fault e n = Some f \<and> s = from_sqlite f"
proof -
  obtain err where "m (tx_start (on_connection conn e) d) = Inl err" "c err = Some s"
    using assms(3) by (auto simp: run_reads_def reported_by_def err_bind_Inl split: sum.splits)
  with sound_Inl [OF assms(1), of "tx_start (on_connection conn e) d" err] assms(2) show ?thesis
    by (auto simp: tx_start_def on_connection_def admitted_def)
qed

lemma with_reader_reported:
  assumes "with_reader opn e m st = (r, st')" "sound False error_storage m" "store_ok st"
    and "reported_by error_storage r = Some s"
  shows "driver_failure opn e s"
proof -
  have typed: "typed_db (store_db st)" and pool: "pool_ok (store_readers st)"
    using assms(3) by (auto simp: store_ok_def intro: db_ok_typed)
  obtain c p where take: "pool_take opn (store_readers st) = (c, p)" by fastforce
  show ?thesis
  proof (cases c)
    case (Inl err)
    then have "opn = Some err" "r = Inl (Error_Storage err)"
      using take assms(1) by (auto simp: pool_take_def open_reader_def with_reader_def split: if_splits option.splits)
    with assms(4) show ?thesis by (simp add: driver_failure_def reported_by_def)
  next
    case (Inr conn)
    then have "r = run_reads conn e m (store_db st)"
      using take assms(1) by (simp add: with_reader_def)
    with run_reads_reported [OF assms(2) typed] assms(4) show ?thesis
      by (auto simp: driver_failure_def)
  qed
qed

lemma writer_reported:
  assumes "with_writer storage indeterminate run opn st = (r, st')" "\<And>s. c (storage s) = Some s"
    and "reported_by c r = Some s"
    and "\<And>conn q d'. run conn (store_db st) = (q, d') \<Longrightarrow> reported_by c q = Some s \<Longrightarrow> \<not> conversion_failed s"
  shows "opn = Some s \<or> \<not> conversion_failed s"
proof -
  obtain x t where conn: "writer_connection opn st = (x, t)" by fastforce
  then show ?thesis
  proof (cases rule: writer_connection_cases)
    case (unavailable err)
    then have "opn = Some err"
      using conn by (auto simp: writer_connection_def open_writer_def split: option.splits)
    with unavailable conn assms(1, 2, 3) show ?thesis
      by (auto simp: with_writer_def reported_by_def)
  next
    case (live y)
    obtain q d where "run y (store_db st) = (q, d)" by fastforce
    with live conn assms(1) have "run y (store_db st) = (r, d)"
      by (auto simp: with_writer_def)
    with assms(3, 4) show ?thesis by blast
  qed
qed

lemma err_bind_reported: "reported_by c (err_bind r (\<lambda>x. Inr (f x))) = reported_by c r"
  by (cases r) (simp_all add: reported_by_def)

lemma run_tx_reported:
  assumes "run_tx e storage indet body d = (r, d')" "sound True c body" "typed_db d"
    and "\<And>s. c (storage s) = Some s" "\<And>x cause. c (indet x cause) = cause_storage cause"
    and "reported_by c r = Some s"
  shows "\<not> conversion_failed s"
  using run_tx_typed [OF assms(1-5)] assms(6) by (auto simp: reported_by_def split: sum.splits)

lemma commit_reported:
  assumes "commit e l b d = (r, d')" "typed_db d" "reported_by commit_storage r = Some s"
  shows "\<not> conversion_failed s"
proof (cases "validate_batch l b")
  case (Inl v)
  with assms show ?thesis by (auto simp: commit_def reported_by_def)
next
  case (Inr u)
  obtain q d'' where run: "run_tx e CommitError_Storage (commit_indeterminate b) (commit_body b) d = (q, d'')"
    by fastforce
  with assms(1, 3) Inr have "reported_by commit_storage q = Some s"
    by (auto simp: commit_def err_bind_reported)
  with run_tx_reported [OF run sound_commit_body assms(2)] show ?thesis
    by (simp add: commit_indeterminate_def)
qed

lemma claim_jobs_reported:
  assumes "claim_jobs e req d = (r, d')" "typed_db d" "reported_by claim_storage r = Some s"
  shows "\<not> conversion_failed s"
proof (cases "validate_claim req")
  case (Inl v)
  with assms show ?thesis by (auto simp: claim_jobs_def reported_by_def)
next
  case (Inr x)
  obtain q d'' where run: "run_tx e ClaimError_Storage claim_indeterminate (claim_body req x) d = (q, d'')"
    by fastforce
  with assms(1, 3) Inr have "reported_by claim_storage q = Some s"
    by (auto simp: claim_jobs_def err_bind_reported)
  with run_tx_reported [OF run sound_claim_body assms(2)] show ?thesis
    by (simp add: claim_indeterminate_def)
qed

lemma extend_lease_reported:
  assumes "extend_lease e i t x n d = (r, d')" "typed_db d" "reported_by lease_storage r = Some s"
  shows "\<not> conversion_failed s"
proof -
  let ?body = "tx_bind (apply_extend_lease \<lparr>extend_job_id = i, extend_lease_token = t, extend_new_expiry_ms = x\<rparr> n)
    (\<lambda>receipt. tx_return (To_Commit receipt))
      :: (lease_error, (lease_extension_receipt, lease_extension_receipt) tx_end) tx"
  have body: "sound True lease_storage ?body" by (intro soundness)
  obtain q d'' where run: "run_tx e LeaseError_Storage lease_indeterminate ?body d = (q, d'')"
    by fastforce
  with assms(1, 3) have "reported_by lease_storage q = Some s"
    by (auto simp: extend_lease_def err_bind_reported)
  with run_tx_reported [OF run body assms(2)] show ?thesis
    by (simp add: lease_indeterminate_def)
qed

lemma recovery_reported:
  assumes "writer_connection opn st = (x, t)" "typed_db (store_db t)" "sound False recovery_storage m"
    and "r = (case x of Inl err \<Rightarrow> Inl (RecoveryError_Storage err) | Inr conn \<Rightarrow> run_reads conn e m (store_db t))"
    and "reported_by recovery_storage r = Some s"
  shows "driver_failure opn e s"
  using assms(1)
proof (cases rule: writer_connection_cases)
  case (unavailable err)
  then have "opn = Some err"
    using assms(1) by (auto simp: writer_connection_def open_writer_def split: option.splits)
  with unavailable assms(4, 5) show ?thesis by (simp add: driver_failure_def reported_by_def)
next
  case (live conn)
  with run_reads_reported [OF assms(3, 2)] assms(4, 5) show ?thesis
    by (auto simp: driver_failure_def)
qed

lemma run_reads_map_err: "run_reads c e (tx_map_err f m) d = map_err f (run_reads c e m d)"
  unfolding run_reads_def tx_map_err_def by (cases "m (tx_start (on_connection c e) d)") auto

lemma recover_calls_reported:
  assumes "store_ok st"
  shows "store_recover_transaction opn e i st = (r, st') \<Longrightarrow> reported_by recovery_storage r = Some s \<Longrightarrow>
      driver_failure opn e s"
    and "store_recover_claim opn e i n st = (q, st') \<Longrightarrow> reported_by recovery_storage q = Some s \<Longrightarrow>
      driver_failure opn e s"
proof -
  obtain x t where conn: "writer_connection opn st = (x, t)" by fastforce
  have t: "typed_db (store_db t)"
    using writer_connection_extends [OF conn assms] assms by (simp add: store_ok_def db_ok_typed)
  show "driver_failure opn e s"
    if "store_recover_transaction opn e i st = (r, st')" "reported_by recovery_storage r = Some s"
    using that recovery_reported [OF conn t sound_wrapped(5) [OF sound_recover_transaction] refl]
    by (auto simp: store_recover_transaction_def conn run_reads_map_err split: sum.splits)
  show "driver_failure opn e s"
    if "store_recover_claim opn e i n st = (q, st')" "reported_by recovery_storage q = Some s"
    using that recovery_reported [OF conn t sound_recover_claim refl]
    by (auto simp: store_recover_claim_def conn split: sum.splits)
qed

lemmas sound_reads = sound_wrapped(1) [OF sound_events_after] sound_wrapped(1) [OF sound_stream_events]
  sound_wrapped(1) [OF sound_last_events] sound_wrapped(1) [OF sound_get_event]
  sound_wrapped(1) [OF sound_stream_version(1)] sound_projection_reads sound_get_job sound_list_jobs
  sound_list_jobs_page

lemma read_reported:
  assumes "perform opn e q st = (r, st')" "store_ok st" "reported r = Some s" "\<not> writing q"
  shows "driver_failure opn e s"
  using assms
  by (cases q) (auto simp: respond_iff projection_scan_prefix_def projection_scan_prefix_page_def
    projection_scan_range_def projection_version_def
    elim: with_reader_reported recover_calls_reported intro: sound_reads)

lemma write_reported:
  assumes "perform opn e q st = (r, st')" "store_ok st" "reported r = Some s" "writing q"
  shows "opn = Some s \<or> \<not> conversion_failed s"
proof -
  have typed: "typed_db (store_db st)"
    using assms(2) by (simp add: store_ok_def db_ok_typed)
  consider b where "q = Call_Commit b" | req where "q = Call_Claim_Jobs req"
    | i t x n where "q = Call_Extend_Lease i t x n"
    using assms(4) by (cases q) auto
  then show ?thesis
  proof cases
    case (1 b)
    then obtain a where a: "store_commit opn e b st = (a, st')" "r = Commit_Result a"
      using assms(1) by (auto simp: respond_iff)
    from writer_reported [OF a(1) [unfolded store_commit_def], of commit_storage s] show ?thesis
      using assms(3) a(2) commit_reported [OF _ typed] by auto
  next
    case (2 req)
    then obtain a where a: "store_claim_jobs opn e req st = (a, st')" "r = Claim_Result a"
      using assms(1) by (auto simp: respond_iff)
    from writer_reported [OF a(1) [unfolded store_claim_jobs_def], of claim_storage s] show ?thesis
      using assms(3) a(2) claim_jobs_reported [OF _ typed] by auto
  next
    case (3 i t x n)
    then obtain a where a: "store_extend_lease opn e i t x n st = (a, st')" "r = Lease_Result a"
      using assms(1) by (auto simp: respond_iff)
    from writer_reported [OF a(1) [unfolded store_extend_lease_def], of lease_storage s] show ?thesis
      using assms(3) a(2) extend_lease_reported [OF _ typed] by auto
  qed
qed

end
