(* ===== verification/Read_Results.thy ===== *)
theory Read_Results
  imports Store_Recovery
begin

text \<open>
  What the read calls of the store return: pages of the event log and of a stream, the last
  events, an event by its ID, entries of a projection by key or prefix, and pages of jobs. Each
  read is one driver call on a connection of the pool and leaves the file as it is.
\<close>

section \<open>Reads through the pool\<close>

lemma run_reads_map_err_one_read:
  assumes "run_reads c e m d = Inr x" "\<And>s. tx_db s = d \<Longrightarrow> m s = tx_map_err g (one_read y) s"
  shows "x = y"
proof -
  have "m (tx_start (on_connection c e) d) = tx_map_err g (one_read y) (tx_start (on_connection c e) d)"
    by (rule assms(2)) (simp add: tx_start_def)
  then show ?thesis
    using assms(1) one_read_cases [of y "tx_start (on_connection c e) d"]
    by (auto simp: run_reads_def tx_map_err_def)
qed

lemma reader_one_read:
  assumes "with_reader opn e m st = (Inr x, st')" "store_ok st"
    and "\<And>s. tx_db s = store_db st \<Longrightarrow> m s = tx_map_err g (one_read y) s"
  shows "x = y \<and> store_db st' = store_db st"
proof -
  have "pool_ok (store_readers st)"
    using assms(2) by (simp add: store_ok_def)
  from with_reader_effect [OF assms(1) this]
  have "run_reads Read_Only e m (store_db st) = Inr x"
    by simp
  then show ?thesis
    using run_reads_map_err_one_read [OF _ assms(3)] with_reader_same [OF assms(1, 2)] by blast
qed

lemma map_err_reader_one_read:
  assumes "with_reader opn e (tx_map_err g m) st = (Inr x, st')" "store_ok st"
    and "\<And>s. tx_db s = store_db st \<Longrightarrow> m s = one_read y s"
  shows "x = y \<and> store_db st' = store_db st"
  using assms(1, 2) by (rule reader_one_read) (rule tx_map_err_one_read, rule assms(3))

section \<open>Events\<close>

lemma decoded_event_sequence [simp]:
  "persisted_global_sequence (decoded_event r) = i64_as_u64 (ev_global_sequence r)"
  "persisted_stream_version (decoded_event r) = i64_as_u64 (ev_stream_version r)"
  by (simp_all add: decoded_event_def)

lemma numbered_at:
  assumes "numbered (map f rows)" "i < length rows"
  shows "unat (i64_as_u64 (f (rows ! i))) = Suc i"
proof -
  have "i64_int (f (rows ! i)) = int i + 1"
    using numbered_nth [OF assms(1), of i] assms(2) by simp
  then have "int (unat (i64_as_u64 (f (rows ! i)))) = int i + 1"
    using i64_as_u64_unat [of "f (rows ! i)"] by simp
  then show ?thesis by linarith
qed

text \<open>The sequence of the last row of a page is where the next page starts.\<close>

lemma page_cursor:
  assumes "numbered (map f rows)" "take n (drop a rows) \<noteq> []"
  shows "unat (i64_as_u64 (f (last (take n (drop a rows))))) = a + length (take n (drop a rows))"
proof -
  let ?page = "take n (drop a rows)"
  have i: "length ?page - 1 < n" "a \<le> length rows"
    using assms(2) by auto
  have "last ?page = ?page ! (length ?page - 1)"
    by (rule last_conv_nth [OF assms(2)])
  also have "\<dots> = rows ! (a + (length ?page - 1))"
    unfolding nth_take [OF i(1)] by (rule nth_drop [OF i(2)])
  finally have "last ?page = rows ! (a + (length ?page - 1))" .
  moreover have "a + (length ?page - 1) < length rows"
    using assms(2) by auto
  ultimately have "unat (i64_as_u64 (f (last ?page))) = Suc (a + (length ?page - 1))"
    using numbered_at [OF assms(1)] by simp
  then show ?thesis
    using assms(2) by (cases ?page) auto
qed

text \<open>
  A cursor that does not fit in 63 bits is negative after \<open>as i64\<close>, and every event comes after
  it.
\<close>

lemma events_after_negative:
  assumes "events_ok (tx_db s)" "2 ^ 63 \<le> unat after" "unat limit < 2 ^ 63"
  shows "events_after after limit s =
    one_read (map decoded_event (take (unat limit) (events (tx_db s)))) s"
proof -
  let ?rows = "events (tx_db s)"
  have numbered: "numbered (map ev_global_sequence ?rows)"
    using assms(1) by (simp add: events_ok_def)
  have negative: "i64_int (u64_as_i64 after) < 0"
  proof (rule ccontr)
    assume "\<not> i64_int (u64_as_i64 after) < 0"
    then have "int (unat (i64_as_u64 (u64_as_i64 after))) = i64_int (u64_as_i64 after)"
      by (intro i64_as_u64_unat) simp
    moreover have "i64_int (u64_as_i64 after) < 2 ^ 63"
      using i64_int_range [of "u64_as_i64 after"] by (simp add: i64_in_range_def)
    ultimately have "int (unat after) < 2 ^ 63" by simp
    moreover have "int (2 ^ 63) \<le> int (unat after)"
      using assms(2) by (simp only: of_nat_le_iff)
    then have "2 ^ 63 \<le> int (unat after)"
      by (simp only: of_nat_power of_nat_numeral)
    ultimately show False by linarith
  qed
  then have "filter (\<lambda>r. u64_as_i64 after < ev_global_sequence r) ?rows = ?rows"
    using numbered_filter_greater [OF numbered, of "u64_as_i64 after"] by simp
  then have rows: "sort_key ev_global_sequence (filter (\<lambda>r. u64_as_i64 after < ev_global_sequence r) ?rows) = ?rows"
    using numbered_sort_key [OF numbered] by (metis filter_True)
  have "collect_events (take (unat limit) ?rows) = Inr (map decoded_event (take (unat limit) ?rows))"
    using assms(1) by (intro collect_events_ok) (auto simp: events_ok_def dest: in_set_takeD)
  then show ?thesis
    unfolding events_after_def by (intro query_lift_one_read) (simp only: sql_limit_take [OF assms(3)] rows)
qed

lemma last_events_one_read:
  assumes "events_ok (tx_db s)" "unat limit < 2 ^ 63"
  shows "last_events limit s =
    one_read (map decoded_event (drop (length (events (tx_db s)) - unat limit) (events (tx_db s)))) s"
proof -
  let ?rows = "events (tx_db s)"
  have numbered: "numbered (map ev_global_sequence ?rows)"
    using assms(1) by (simp add: events_ok_def)
  have rows: "sort_key ev_global_sequence ?rows = ?rows"
    using numbered_sort_key [OF numbered, of "\<lambda>_. True"] by simp
  have "collect_events (take (unat limit) (rev ?rows)) = Inr (map decoded_event (take (unat limit) (rev ?rows)))"
    using assms(1) by (intro collect_events_ok) (auto simp: events_ok_def dest: in_set_takeD)
  then show ?thesis
    by (simp add: last_events_def tx_bind_def query_def sql_def one_read_def tx_lift_def tx_return_def
        sql_limit_take [OF assms(2)] rows rev_map take_rev split: option.split)
qed

lemma get_event_one_read:
  assumes "events_ok (tx_db s)"
  shows "get_event i s = one_read (map_option decoded_event
    (List.find (\<lambda>r. ev_event_id r = as_bytes i) (events (tx_db s)))) s"
proof -
  let ?row = "List.find (\<lambda>r. ev_event_id r = as_bytes i) (events (tx_db s))"
  have "map_transpose (\<lambda>r. flatten_row (row_to_persisted_event r)) ?row = Inr (map_option decoded_event ?row)"
  proof (cases ?row)
    case (Some r)
    then have "r \<in> set (events (tx_db s))"
      by (auto simp: find_Some_iff)
    then have "row_to_persisted_event r = Inr (Inr (decoded_event r))"
      using assms by (intro row_to_persisted_event_ok) (simp add: events_ok_def)
    with Some show ?thesis by (simp add: flatten_row_def)
  qed simp
  then show ?thesis
    unfolding get_event_def by (intro query_lift_one_read)
qed

section \<open>Jobs\<close>

definition listed_job :: "jobs_row \<Rightarrow> job_info" where
  "listed_job r = into_info (decoded_job r)"

lemma map_result_rows:
  assumes "rows_ok d" "set rows \<subseteq> set (jobs d)"
  shows "map_result row_to_job rows = Inr (map decoded_job rows)"
  using assms by (intro map_result_row_to_job) (auto simp: rows_ok_def)

lemma lift_bind: "tx_bind (tx_lift (Inr x)) f = f x"
  by (simp add: tx_bind_def tx_lift_def)

lemma list_jobs_page_one_read:
  assumes "rows_ok (tx_db s)" "unat after < 2 ^ 63" "unat limit < 2 ^ 63"
  shows "list_jobs_page q st after limit s = tx_map_err Error_Storage (one_read
    (let page = take (unat limit) (filter (job_matches q st) (drop (unat after) (jobs (tx_db s))))
     in (map listed_job page, if page = [] then after else i64_as_u64 (jobs_enqueue_sequence (last page))))) s"
proof -
  let ?rows = "jobs (tx_db s)"
  let ?page = "take (unat limit) (filter (job_matches q st) (drop (unat after) ?rows))"
  have numbered: "numbered (map jobs_enqueue_sequence ?rows)"
    using assms(1) by (simp add: rows_ok_def)
  have fits: "i64_try_from v = Some (u64_as_i64 v)" if "unat v < 2 ^ 63" for v
    using that by (simp add: i64_try_from_def u64_as_i64_def)
  have "filter (\<lambda>r. u64_as_i64 after < jobs_enqueue_sequence r \<and> job_matches q st r) ?rows =
      filter (job_matches q st) (filter (\<lambda>r. u64_as_i64 after < jobs_enqueue_sequence r) ?rows)"
    by (simp add: conj_commute)
  also have "\<dots> = filter (job_matches q st) (drop (unat after) ?rows)"
    by (simp only: numbered_filter_greater [OF numbered] u64_as_i64_int [OF assms(2)] nat_int)
  finally have selected: "sort_key jobs_enqueue_sequence
      (filter (\<lambda>r. u64_as_i64 after < jobs_enqueue_sequence r \<and> job_matches q st r) ?rows) =
      filter (job_matches q st) (drop (unat after) ?rows)"
    by (metis numbered_sort_key [OF numbered])
  have "map_result row_to_job ?page = Inr (map decoded_job ?page)"
    using assms(1) by (rule map_result_rows) (auto dest!: in_set_takeD in_set_dropD)
  then have "err_bind (map_result row_to_job ?page) (\<lambda>js. Inr (map into_info js,
        if ?page = [] then after else i64_as_u64 (jobs_enqueue_sequence (last ?page)))) =
      Inr (let page = ?page in (map listed_job page, if page = [] then after else i64_as_u64 (jobs_enqueue_sequence (last page))))"
    by (simp add: Let_def listed_job_def)
  then show ?thesis
    unfolding list_jobs_page_def fits [OF assms(2)] fits [OF assms(3)] ok_or.simps lift_bind
    by (intro tx_map_err_one_read query_lift_one_read) (simp only: selected sql_limit_take [OF assms(3)])
qed

text \<open>Pages of a filtered table: the next page starts after the last row of this one.\<close>

lemma filter_append_cons:
  assumes "filter P zs = us @ r # vs"
  shows "\<exists>xs ys. zs = xs @ r # ys \<and> filter P xs = us \<and> filter P ys = vs"
  using assms
proof (induction zs arbitrary: us)
  case (Cons z zs)
  show ?case
  proof (cases "P z \<and> us = []")
    case True
    with Cons.prems have "z # zs = [] @ r # zs \<and> filter P [] = us \<and> filter P zs = vs" by simp
    then show ?thesis by blast
  next
    case False
    then have "filter P zs = (if P z then tl us else us) @ r # vs" "P z \<Longrightarrow> us = z # tl us"
      using Cons.prems by (cases us; auto split: if_splits)+
    with Cons.IH obtain xs ys where "zs = xs @ r # ys" "filter P xs = (if P z then tl us else us)" "filter P ys = vs"
      by blast
    then have "z # zs = (z # xs) @ r # ys \<and> filter P (z # xs) = us \<and> filter P ys = vs"
      using \<open>P z \<Longrightarrow> us = z # tl us\<close> by auto
    then show ?thesis by blast
  qed
qed simp

lemma filtered_page_cursor:
  assumes "numbered (map f rows)" "take n (filter P (drop a rows)) \<noteq> []"
  shows "filter P (drop a rows) = take n (filter P (drop a rows)) @
    filter P (drop (unat (i64_as_u64 (f (last (take n (filter P (drop a rows))))))) rows)"
proof -
  let ?all = "filter P (drop a rows)" and ?page = "take n (filter P (drop a rows))"
  obtain r where r: "r = last ?page" by simp
  have "?all = butlast ?page @ r # drop n ?all"
    unfolding r using append_butlast_last_id [OF assms(2)] append_take_drop_id [of n ?all]
    by (metis append_Cons append_Nil append_assoc)
  then obtain xs ys where split: "drop a rows = xs @ r # ys" and rest: "filter P ys = drop n ?all"
    using filter_append_cons by metis
  have "a \<le> length rows"
    using assms(2) by (cases "a \<le> length rows") auto
  have len: "length (drop a rows) = length xs + 1 + length ys"
    by (simp only: split length_append list.size)
  then have i: "a + length xs < length rows" by simp
  have "rows ! (a + length xs) = drop a rows ! length xs"
    using \<open>a \<le> length rows\<close> by simp
  also have "\<dots> = r"
    by (simp only: split nth_append_length)
  finally have "unat (i64_as_u64 (f (last ?page))) = Suc (a + length xs)"
    using numbered_at [OF assms(1) i] unfolding r [symmetric] by simp
  moreover have "drop (Suc (a + length xs)) rows = drop (Suc (length xs)) (drop a rows)"
    by (simp add: add.commute)
  moreover have "drop (Suc (length xs)) (drop a rows) = ys"
    by (simp only: split) simp
  ultimately have "filter P (drop (unat (i64_as_u64 (f (last ?page)))) rows) = drop n ?all"
    using rest by simp
  then show ?thesis by simp
qed

end
