(* ===== verification/Projection_Results.thy ===== *)
theory Projection_Results
  imports Job_Results Store_Projections
begin

text \<open>
  A projection patch where no driver call fails: a valid patch for the current version is
  always applied, whatever its mutations are; there is no other error than an invalid patch and
  a version conflict.
\<close>

definition has_projection :: "string \<Rightarrow> tx_state \<Rightarrow> bool" where
  "has_projection p s \<longleftrightarrow> p \<in> fst ` set (projection_meta (tx_db s))"

text \<open>The computation succeeds and keeps the connection and the projections.\<close>

definition goes_on :: "(error, unit) tx \<Rightarrow> string \<Rightarrow> tx_state \<Rightarrow> tx_state \<Rightarrow> bool" where
  "goes_on m p s s' \<longleftrightarrow> m s = Inr ((), s') \<and> healthy s' \<and> has_projection p s'"

lemma goes_on_execute:
  assumes "healthy s" "has_projection p s" "w (tx_db s) = Inr d" "projection_meta d = projection_meta (tx_db s)"
  shows "goes_on (tx_map_err g (execute w)) p s (called 1 d s)"
  using assms by (simp add: goes_on_def has_projection_def tx_map_err_def healthy_execute)

lemma upsert_succeeds:
  "has_projection p s \<Longrightarrow> upsert_projection_entry p k v (tx_db s) =
     Inr ((tx_db s)\<lparr>projection_entries := AList.update (p, k) v (projection_entries (tx_db s))\<rparr>)"
  by (simp add: has_projection_def upsert_projection_entry_def ensure_def map_of_eq_None_iff)

lemma clear_entries_succeeds:
  assumes "healthy s" "has_projection p s"
  shows "goes_on (clear_entries p) p s (called 1 ((tx_db s)\<lparr>projection_entries :=
    filter (\<lambda>e. fst (fst e) \<noteq> p) (projection_entries (tx_db s))\<rparr>) s)"
  unfolding clear_entries_def using assms by (rule goes_on_execute) simp_all

lemma insert_entries_succeed:
  assumes "healthy s" "has_projection p s" "distinct (map entry_key es)"
    and "\<forall>e \<in> set es. map_of (projection_entries (tx_db s)) (p, entry_key e) = None"
  shows "\<exists>s'. goes_on (tx_for_each (\<lambda>e. tx_map_err Error_Storage
      (execute (insert_projection_entry p (entry_key e) (entry_value e)))) es) p s s'"
  using assms
proof (induction es arbitrary: s)
  case Nil
  then show ?case by (simp add: goes_on_def tx_return_def)
next
  case (Cons e es)
  let ?d = "(tx_db s)\<lparr>projection_entries := AList.update (p, entry_key e) (entry_value e) (projection_entries (tx_db s))\<rparr>"
  have "insert_projection_entry p (entry_key e) (entry_value e) (tx_db s) = Inr ?d"
    using Cons.prems upsert_succeeds [of p s] by (simp add: insert_projection_entry_def ensure_def)
  with Cons.prems(1, 2) have first: "goes_on (tx_map_err Error_Storage
      (execute (insert_projection_entry p (entry_key e) (entry_value e)))) p s (called 1 ?d s)"
    by (rule goes_on_execute) simp
  have fresh: "map_of (projection_entries ?d) (p, entry_key x) = None" if "x \<in> set es" for x
    using that Cons.prems(3, 4) by (auto simp: update_conv' image_iff)
  have "\<exists>s'. goes_on (tx_for_each (\<lambda>e. tx_map_err Error_Storage
      (execute (insert_projection_entry p (entry_key e) (entry_value e)))) es) p (called 1 ?d s) s'"
    using first Cons.prems(3) fresh by (intro Cons.IH) (simp_all add: goes_on_def)
  then obtain s' where "goes_on (tx_for_each (\<lambda>e. tx_map_err Error_Storage
      (execute (insert_projection_entry p (entry_key e) (entry_value e)))) es) p (called 1 ?d s) s'" ..
  with first show ?case
    by (auto simp: goes_on_def tx_bind_def)
qed

lemma apply_mutation_succeeds:
  assumes "healthy s" "has_projection p s" "mutation_ok m"
  shows "\<exists>s'. goes_on (apply_mutation p m) p s s'"
proof (cases m)
  case (Put k v)
  have "goes_on (apply_mutation p m) p s (called 1 ((tx_db s)\<lparr>projection_entries :=
      AList.update (p, k) v (projection_entries (tx_db s))\<rparr>) s)"
    unfolding Put apply_mutation.simps
    using assms(1, 2) upsert_succeeds [OF assms(2)] by (rule goes_on_execute) simp
  then show ?thesis by blast
next
  case (Delete k)
  have "goes_on (apply_mutation p m) p s (called 1 ((tx_db s)\<lparr>projection_entries :=
      filter (\<lambda>e. fst e \<noteq> (p, k)) (projection_entries (tx_db s))\<rparr>) s)"
    unfolding Delete apply_mutation.simps using assms(1, 2) by (rule goes_on_execute) simp_all
  then show ?thesis by blast
next
  case Clear
  then show ?thesis
    using clear_entries_succeeds [OF assms(1, 2)] by auto
next
  case (Replace es)
  let ?d = "(tx_db s)\<lparr>projection_entries := filter (\<lambda>e. fst (fst e) \<noteq> p) (projection_entries (tx_db s))\<rparr>"
  note clear = clear_entries_succeeds [OF assms(1, 2)]
  have "map_of (projection_entries ?d) (p, k) = None" for k
    by (simp add: map_of_filter_keys [where P = "\<lambda>x. fst x \<noteq> p"])
  with clear assms(3) Replace obtain s' where "goes_on (tx_for_each (\<lambda>e. tx_map_err Error_Storage
      (execute (insert_projection_entry p (entry_key e) (entry_value e)))) es) p (called 1 ?d s) s'"
    using insert_entries_succeed [of "called 1 ?d s" p es] by (auto simp: goes_on_def)
  with clear Replace show ?thesis
    by (auto simp: goes_on_def tx_bind_def)
qed

lemma apply_mutations_succeed:
  assumes "healthy s" "has_projection p s" "\<forall>m \<in> set ms. mutation_ok m"
  shows "\<exists>s'. goes_on (tx_for_each (apply_mutation p) ms) p s s'"
  using assms
proof (induction ms arbitrary: s)
  case Nil
  then show ?case by (simp add: goes_on_def tx_return_def)
next
  case (Cons m ms)
  then obtain b where first: "goes_on (apply_mutation p m) p s b"
    using apply_mutation_succeeds [of s p m] by auto
  have "\<exists>s'. goes_on (tx_for_each (apply_mutation p) ms) p b s'"
    using first Cons.prems(3) by (intro Cons.IH) (simp_all add: goes_on_def)
  then obtain s' where "goes_on (tx_for_each (apply_mutation p) ms) p b s'" ..
  with first show ?case
    by (auto simp: goes_on_def tx_bind_def)
qed

lemma version_query_result:
  "healthy s \<Longrightarrow> version_query p s = Inr (stored_projection_version (tx_db s) p, called 1 (tx_db s) s)"
  by (simp add: version_query_def tx_map_err_def tx_bind_def healthy_query tx_return_def stored_projection_version_def)

lemma apply_projection_patch_result:
  assumes "healthy s"
  shows "case patch_validate p of
      Inl v \<Rightarrow> apply_projection_patch p s = Inl (Error_Validation v)
    | Inr _ \<Rightarrow>
        let actual = stored_projection_version (tx_db s) (patch_projection p) in
        if actual \<noteq> patch_expected_version p
        then apply_projection_patch p s = Inl (Error_Conflict (Conflict_ProjectionVersion
          (patch_projection p) (patch_expected_version p) actual))
        else \<exists>s'. apply_projection_patch p s = Inr ((), s')"
proof (cases "patch_validate p")
  case (Inl v)
  then show ?thesis
    by (simp add: apply_projection_patch_def tx_bind_def tx_lift_def)
next
  case (Inr u)
  show ?thesis
  proof (cases "stored_projection_version (tx_db s) (patch_projection p) = patch_expected_version p")
    case False
    with Inr show ?thesis
      by (simp add: apply_projection_patch_def tx_bind_def lift_simps version_query_result [OF assms] Let_def)
  next
    case True
    let ?d = "(tx_db s)\<lparr>projection_meta := AList.update (patch_projection p) (u64_as_i64 (patch_new_version p))
      (projection_meta (tx_db s))\<rparr>"
    have "\<forall>m \<in> set (patch_mutations p). mutation_ok m"
      using Inr by (auto simp: patch_validate_def split: if_splits dest: validate_mutations_ok)
    moreover have "has_projection (patch_projection p) (called 2 ?d s)"
      by (simp add: has_projection_def dom_update)
    ultimately obtain s' where "goes_on (tx_for_each (apply_mutation (patch_projection p)) (patch_mutations p))
        (patch_projection p) (called 2 ?d s) s'"
      using apply_mutations_succeed [of "called 2 ?d s" "patch_projection p" "patch_mutations p"] assms by auto
    then have "apply_projection_patch p s = Inr ((), s')"
      using True Inr assms
      by (simp add: apply_projection_patch_def tx_bind_def lift_simps version_query_result [OF assms] tx_map_err_def
          healthy_execute goes_on_def eval_nat_numeral)
    with True Inr show ?thesis by (simp add: Let_def)
  qed
qed

end
