(* ===== verification/Command_Line.thy ===== *)
theory Command_Line
  imports Facade_Ops
begin

text \<open>
  The command line, \<open>src/main.rs\<close>: parsing, the dispatch to a command, and each command over the
  facade. A command is a computation on \<open>cli_state\<close>: the path it opened, the store, the files, what it has
  printed. What a call changes in the store is written through to the file (\<open>write_through\<close>), and SQLite may leave
  or remove its own files beside a database that is opened (\<open>settle\<close>). Printed lines carry the data they are formatted from, and so do the errors;
  \<open>Command_Text\<close> has their texts. The
  environment \<open>cli_env\<close> gives every call of the facade its faults.
\<close>

section \<open>Errors\<close>

datatype usage_error =
    Unknown_Flag string
  | Missing_Db
  | Requires_Value string
  | Invalid_Number string string
  | Unknown_Job_State string
  | Invalid_Id string string
  | Invalid_Hex string string
  | Unknown_Command "string list"
  | Requires_Argument string
  | Requires_Resolution

datatype not_found =
    No_Database string
  | No_Stream string
  | No_Projection string
  | No_Entry string string
  | No_Job string

datatype op_failure =
    Op_Error error
  | Op_Commit commit_error
  | Op_Io string

datatype cli_error =
    Cli_Usage usage_error
  | Cli_Not_Found not_found
  | Cli_Findings nat
  | Cli_Op op_failure

fun report :: "cli_error \<Rightarrow> u8" where
  "report (Cli_Usage m) = 2"
| "report (Cli_Not_Found m) = 4"
| "report (Cli_Findings n) = 3"
| "report (Cli_Op m) = 1"

section \<open>Arguments\<close>

record parsed =
  arg_db :: string
  arg_positional :: "string list"
  arg_limit :: "usize option"
  arg_from :: "u64 option"
  arg_after :: "u64 option"
  arg_prefix :: "string option"
  arg_queue :: "string option"
  arg_state :: "string option"
  arg_out :: "string option"
  arg_overwrite :: bool
  arg_include_payloads :: bool

text \<open>
  \<open>str::parse\<close> for a 64-bit unsigned integer: decimal digits with an optional plus sign, within range.
\<close>

definition digit_value :: "char \<Rightarrow> nat option" where
  "digit_value c = (let n = of_char c :: nat in if 48 \<le> n \<and> n \<le> 57 then Some (n - 48) else None)"

fun parse_digits :: "nat \<Rightarrow> string \<Rightarrow> nat option" where
  "parse_digits acc [] = Some acc"
| "parse_digits acc (c # s) =
     (case digit_value c of None \<Rightarrow> None | Some v \<Rightarrow> parse_digits (10 * acc + v) s)"

definition parse_u64 :: "string \<Rightarrow> u64 option" where
  "parse_u64 s =
     (let digits = (case s of c # t \<Rightarrow> if c = CHR ''+'' \<and> t \<noteq> [] then t else s | [] \<Rightarrow> s) in
      if digits = [] then None
      else case parse_digits 0 digits of
        None \<Rightarrow> None
      | Some n \<Rightarrow> if n < 2 ^ 64 then Some (word_of_nat n) else None)"

definition number_flag :: "string \<Rightarrow> string \<Rightarrow> usage_error + u64" where
  "number_flag flag raw = ok_or (parse_u64 raw) (Invalid_Number flag raw)"

text \<open>The flags while they are collected: the database is still optional.\<close>

record options =
  opt_db :: "string option"
  opt_rest :: parsed

definition options_init :: options where
  "options_init = \<lparr>opt_db = None, opt_rest = \<lparr>arg_db = [], arg_positional = [], arg_limit = None,
     arg_from = None, arg_after = None, arg_prefix = None, arg_queue = None, arg_state = None,
     arg_out = None, arg_overwrite = False, arg_include_payloads = False\<rparr>\<rparr>"

definition set_rest :: "(parsed \<Rightarrow> parsed) \<Rightarrow> options \<Rightarrow> options" where
  "set_rest f opts = opts\<lparr>opt_rest := f (opt_rest opts)\<rparr>"

definition value_flags :: "string list" where
  "value_flags = [''--db'', ''--limit'', ''--from'', ''--after'', ''--prefix'', ''--queue'', ''--state'', ''--out'']"

definition set_value :: "string \<Rightarrow> string \<Rightarrow> options \<Rightarrow> usage_error + options" where
  "set_value flag v opts =
     (if flag = ''--db'' then Inr (opts\<lparr>opt_db := Some v\<rparr>)
      else if flag = ''--limit'' then
        err_bind (number_flag flag v) (\<lambda>n. Inr (set_rest (\<lambda>p. p\<lparr>arg_limit := Some n\<rparr>) opts))
      else if flag = ''--from'' then
        err_bind (number_flag flag v) (\<lambda>n. Inr (set_rest (\<lambda>p. p\<lparr>arg_from := Some n\<rparr>) opts))
      else if flag = ''--after'' then
        err_bind (number_flag flag v) (\<lambda>n. Inr (set_rest (\<lambda>p. p\<lparr>arg_after := Some n\<rparr>) opts))
      else if flag = ''--prefix'' then Inr (set_rest (\<lambda>p. p\<lparr>arg_prefix := Some v\<rparr>) opts)
      else if flag = ''--queue'' then Inr (set_rest (\<lambda>p. p\<lparr>arg_queue := Some v\<rparr>) opts)
      else if flag = ''--state'' then Inr (set_rest (\<lambda>p. p\<lparr>arg_state := Some v\<rparr>) opts)
      else Inr (set_rest (\<lambda>p. p\<lparr>arg_out := Some v\<rparr>) opts))"

text \<open>The loop over the arguments. A flag that takes a value consumes the next argument, whatever it is.\<close>

fun parse_loop :: "string list \<Rightarrow> options \<Rightarrow> usage_error + options" where
  "parse_loop [] opts = Inr opts"
| "parse_loop [arg] opts =
     (if arg \<in> set value_flags then Inl (Requires_Value arg)
      else if arg = ''--overwrite'' then Inr (set_rest (\<lambda>p. p\<lparr>arg_overwrite := True\<rparr>) opts)
      else if arg = ''--include-payloads'' then Inr (set_rest (\<lambda>p. p\<lparr>arg_include_payloads := True\<rparr>) opts)
      else if prefix ''--'' arg then Inl (Unknown_Flag arg)
      else Inr (set_rest (\<lambda>p. p\<lparr>arg_positional := arg_positional p @ [arg]\<rparr>) opts))"
| "parse_loop (arg # next # args) opts =
     (if arg \<in> set value_flags then err_bind (set_value arg next opts) (parse_loop args)
      else if arg = ''--overwrite'' then
        parse_loop (next # args) (set_rest (\<lambda>p. p\<lparr>arg_overwrite := True\<rparr>) opts)
      else if arg = ''--include-payloads'' then
        parse_loop (next # args) (set_rest (\<lambda>p. p\<lparr>arg_include_payloads := True\<rparr>) opts)
      else if prefix ''--'' arg then Inl (Unknown_Flag arg)
      else parse_loop (next # args) (set_rest (\<lambda>p. p\<lparr>arg_positional := arg_positional p @ [arg]\<rparr>) opts))"

definition parse :: "string list \<Rightarrow> cli_error + parsed" where
  "parse args = map_err Cli_Usage
     (err_bind (parse_loop args options_init) (\<lambda>opts.
      err_bind (ok_or (opt_db opts) Missing_Db) (\<lambda>db.
      Inr ((opt_rest opts)\<lparr>arg_db := db\<rparr>))))"

definition parse_state :: "string \<Rightarrow> cli_error + job_state" where
  "parse_state raw =
     (let s = map ascii_lower raw in
      if s = ''pending'' then Inr Pending
      else if s = ''leased'' then Inr Leased
      else if s = ''retry-wait'' \<or> s = ''retrywait'' then Inr RetryWait
      else if s = ''uncertain'' then Inr Uncertain
      else if s = ''succeeded'' then Inr Succeeded
      else if s = ''dead'' then Inr Dead
      else if s = ''cancelled'' then Inr Cancelled
      else Inl (Cli_Usage (Unknown_Job_State s)))"

definition parse_id :: "string \<Rightarrow> string \<Rightarrow> cli_error + id" where
  "parse_id raw what = map_err (\<lambda>_. Cli_Usage (Invalid_Id what raw)) (from_hex raw)"

text \<open>The loop over \<open>chunks(2)\<close>: an odd last digit is an error.\<close>

fun parse_hex_pairs :: "u8 list \<Rightarrow> u8 list option" where
  "parse_hex_pairs [] = Some []"
| "parse_hex_pairs [_] = None"
| "parse_hex_pairs (h # l # rest) =
     (case (hex_value h, hex_value l) of
        (Some hi, Some lo) \<Rightarrow> map_option ((#) (or (push_bit 4 hi) lo)) (parse_hex_pairs rest)
      | _ \<Rightarrow> None)"

definition parse_hex :: "string \<Rightarrow> string \<Rightarrow> cli_error + blob" where
  "parse_hex raw what = ok_or (parse_hex_pairs (str_bytes raw)) (Cli_Usage (Invalid_Hex what raw))"

section \<open>Running a command\<close>

datatype printed =
    Print_Usage
  | Print_Opened string
  | Print_Health store_stats
  | Print_Verify_Ok
  | Print_Doctor_Ok
  | Print_Finding verify_finding
  | Print_Stats store_stats
  | Print_Event persisted_event
  | Print_Projection string u64
  | Print_Entry blob blob
  | Print_Value blob
  | Print_Job_Row job_info
  | Print_Next u64
  | Print_Job job_info
  | Print_Uncertain job_info
  | Print_Backup string u32
  | Print_Export string
  | Print_Exported string
  | Print_Migration migration_status
  | Print_Resolved string

record cli_env =
  ce_open :: "nat \<Rightarrow> open_outcome"
  ce_env :: "nat \<Rightarrow> env"
  ce_migrate :: migrate_env
  ce_created :: bool
  ce_file_size :: "string + u64"
  ce_pragmas :: pragmas
  ce_backup :: backup_env
  ce_write :: "string option"
  ce_truncated :: bool
  ce_side :: "string \<Rightarrow> content option"
  ce_now_ms :: i64
  ce_random :: "string + 128 word"

record cli_state =
  cs_path :: string
  cs_store :: store
  cs_files :: file_system
  cs_out :: "printed list"
  cs_calls :: nat

type_synonym 'a cli = "cli_state \<Rightarrow> (cli_error + 'a) \<times> cli_state"

definition cli_return :: "'a \<Rightarrow> 'a cli" where
  "cli_return x = (\<lambda>s. (Inr x, s))"

definition cli_lift :: "cli_error + 'a \<Rightarrow> 'a cli" where
  "cli_lift r = (\<lambda>s. (r, s))"

definition cli_bind :: "'a cli \<Rightarrow> ('a \<Rightarrow> 'b cli) \<Rightarrow> 'b cli" where
  "cli_bind m f = (\<lambda>s. case m s of (Inl e, s) \<Rightarrow> (Inl e, s) | (Inr x, s) \<Rightarrow> f x s)"

definition cli_print :: "printed list \<Rightarrow> unit cli" where
  "cli_print ls = (\<lambda>s. (Inr (), s\<lparr>cs_out := cs_out s @ ls\<rparr>))"

definition cli_fail :: "cli_error \<Rightarrow> 'a cli" where
  "cli_fail e = cli_lift (Inl e)"

text \<open>What a call has changed in the tables of the store is in its file.\<close>

definition write_through :: "string \<Rightarrow> store \<Rightarrow> store \<Rightarrow> file_system \<Rightarrow> file_system" where
  "write_through path st st' fs =
     (if store_db st' = store_db st then fs
      else case fs path of
        Some (Database f) \<Rightarrow> fs(path \<mapsto> Database (f\<lparr>file_schema := Schema_V2 (store_db st')\<rparr>))
      | _ \<Rightarrow> fs)"

text \<open>
  The files that SQLite keeps beside a database while it is open: the log and its index, also for a reading
  connection when the database is in WAL mode, and the rollback journal. What is left of them in the end is a
  parameter.
\<close>

definition side_paths :: "string \<Rightarrow> string set" where
  "side_paths path = {path @ ''-wal'', path @ ''-shm'', path @ ''-journal''}"

definition settle :: "cli_env \<Rightarrow> string \<Rightarrow> file_system \<Rightarrow> file_system" where
  "settle ce path fs = (\<lambda>p. if p \<in> side_paths path then ce_side ce p else fs p)"

text \<open>A call of the facade; its error is an operational one.\<close>

definition facade_call :: "cli_env \<Rightarrow> (open_outcome \<Rightarrow> env \<Rightarrow> store \<Rightarrow> ('e + 'a) \<times> store) \<Rightarrow>
    ('e \<Rightarrow> op_failure) \<Rightarrow> 'a cli" where
  "facade_call ce op fail = (\<lambda>s.
     let (r, st) = op (ce_open ce (cs_calls s)) (ce_env ce (cs_calls s)) (cs_store s) in
     (map_err (\<lambda>e. Cli_Op (fail e)) r, s\<lparr>cs_store := st,
        cs_files := write_through (cs_path s) (cs_store s) st (cs_files s), cs_calls := Suc (cs_calls s)\<rparr>))"

definition read_call :: "cli_env \<Rightarrow> (error, 'a) tx \<Rightarrow> 'a cli" where
  "read_call ce m = facade_call ce (\<lambda>opn e. with_reader opn e m) Op_Error"

definition storage_read :: "cli_env \<Rightarrow> (storage_error, 'a) tx \<Rightarrow> 'a cli" where
  "storage_read ce m = read_call ce (tx_map_err Error_Storage m)"

definition or_default :: "'a option \<Rightarrow> 'a \<Rightarrow> 'a" where
  "or_default v x = (case v of None \<Rightarrow> x | Some y \<Rightarrow> y)"

text \<open>\<open>parsed.positional.get(i)\<close> or a usage error.\<close>

definition positional :: "parsed \<Rightarrow> nat \<Rightarrow> string \<Rightarrow> string cli" where
  "positional p i message = cli_lift
     (if i < length (arg_positional p) then Inr (arg_positional p ! i)
      else Inl (Cli_Usage (Requires_Argument message)))"

section \<open>The commands\<close>

definition report_findings :: "printed \<Rightarrow> verify_report \<Rightarrow> unit cli" where
  "report_findings ok r =
     (if report_is_ok r then cli_print [ok]
      else cli_bind (cli_print (map Print_Finding (findings r))) (\<lambda>_.
        cli_fail (Cli_Findings (length (findings r)))))"

definition verify_call :: "cli_env \<Rightarrow> db_file \<Rightarrow> verify_report cli" where
  "verify_call ce f = facade_call ce (\<lambda>opn e. store_verify opn e (ce_pragmas ce) f) Op_Error"

definition cmd_verify :: "cli_env \<Rightarrow> db_file \<Rightarrow> unit cli" where
  "cmd_verify ce f = cli_bind (verify_call ce f) (report_findings Print_Verify_Ok)"

definition cmd_doctor :: "cli_env \<Rightarrow> db_file \<Rightarrow> parsed \<Rightarrow> unit cli" where
  "cmd_doctor ce f p =
     cli_bind (cli_print [Print_Opened (arg_db p)]) (\<lambda>_.
     cli_bind (facade_call ce (\<lambda>opn e. store_stats_of opn e (ce_file_size ce) f) Op_Error) (\<lambda>s.
     cli_bind (cli_print [Print_Health s]) (\<lambda>_.
     cli_bind (verify_call ce f) (report_findings Print_Doctor_Ok))))"

definition cmd_stats :: "cli_env \<Rightarrow> db_file \<Rightarrow> unit cli" where
  "cmd_stats ce f =
     cli_bind (facade_call ce (\<lambda>opn e. store_stats_of opn e (ce_file_size ce) f) Op_Error) (\<lambda>s.
     cli_print [Print_Stats s])"

definition cmd_events_tail :: "cli_env \<Rightarrow> parsed \<Rightarrow> unit cli" where
  "cmd_events_tail ce p =
     cli_bind (storage_read ce (last_events (or_default (arg_limit p) 10))) (\<lambda>es.
     cli_print (map Print_Event es))"

definition cmd_events_stream :: "cli_env \<Rightarrow> parsed \<Rightarrow> unit cli" where
  "cmd_events_stream ce p =
     cli_bind (positional p 1 ''events stream requires a <stream-id>'') (\<lambda>stream_id.
     cli_bind (storage_read ce (stream_events stream_id (or_default (arg_from p) 1)
       (or_default (arg_limit p) 100))) (\<lambda>es.
     cli_bind (if es = [] then storage_read ce (stream_version stream_id) else cli_return 1) (\<lambda>version.
     if es = [] \<and> version = 0 then cli_fail (Cli_Not_Found (No_Stream stream_id))
     else cli_print (map Print_Event es))))"

definition cmd_projections_list :: "cli_env \<Rightarrow> unit cli" where
  "cmd_projections_list ce =
     cli_bind (read_call ce projections_list) (\<lambda>ps.
     cli_print (map (\<lambda>(projection, version). Print_Projection projection version) ps))"

definition cmd_projections_scan :: "cli_env \<Rightarrow> parsed \<Rightarrow> unit cli" where
  "cmd_projections_scan ce p =
     cli_bind (positional p 1 ''projections scan requires a <projection>'') (\<lambda>projection.
     cli_bind (read_call ce (projection_version projection)) (\<lambda>version.
     if version = 0 then cli_fail (Cli_Not_Found (No_Projection projection))
     else
       cli_bind (cli_lift (case arg_prefix p of
         Some raw \<Rightarrow> parse_hex raw ''--prefix'' | None \<Rightarrow> Inr [])) (\<lambda>pre.
       cli_bind (read_call ce (projection_scan_prefix projection pre (or_default (arg_limit p) 100))) (\<lambda>es.
       cli_print (map (\<lambda>en. Print_Entry (entry_key en) (entry_value en)) es)))))"

definition cmd_projections_get :: "cli_env \<Rightarrow> parsed \<Rightarrow> unit cli" where
  "cmd_projections_get ce p =
     cli_bind (positional p 1 ''projections get requires a <projection>'') (\<lambda>projection.
     cli_bind (positional p 2 ''projections get requires a <key-hex>'') (\<lambda>key_raw.
     cli_bind (cli_lift (parse_hex key_raw ''key'')) (\<lambda>key.
     cli_bind (read_call ce (projection_get projection key)) (\<lambda>found.
     case found of
       Some v \<Rightarrow> cli_print [Print_Value v]
     | None \<Rightarrow> cli_fail (Cli_Not_Found (No_Entry key_raw projection))))))"

definition cmd_jobs_list :: "cli_env \<Rightarrow> parsed \<Rightarrow> unit cli" where
  "cmd_jobs_list ce p =
     cli_bind (cli_lift (case arg_state p of
       None \<Rightarrow> Inr None | Some raw \<Rightarrow> err_bind (parse_state raw) (\<lambda>s. Inr (Some s)))) (\<lambda>state.
     let limit = or_default (arg_limit p) 100 in
     cli_bind (read_call ce (list_jobs_page (arg_queue p) state (or_default (arg_after p) 0) limit))
       (\<lambda>(js, cursor). cli_print (map Print_Job_Row js @
          (if length js = unat limit then [Print_Next cursor] else []))))"

definition cmd_jobs_show :: "cli_env \<Rightarrow> parsed \<Rightarrow> unit cli" where
  "cmd_jobs_show ce p =
     cli_bind (positional p 1 ''jobs show requires a <job-id>'') (\<lambda>raw.
     cli_bind (cli_lift (parse_id raw ''job id'')) (\<lambda>job_id.
     cli_bind (read_call ce (get_job job_id)) (\<lambda>found.
     case found of
       Some job \<Rightarrow> cli_print [Print_Job job]
     | None \<Rightarrow> cli_fail (Cli_Not_Found (No_Job raw)))))"

definition cmd_jobs_uncertain :: "cli_env \<Rightarrow> parsed \<Rightarrow> unit cli" where
  "cmd_jobs_uncertain ce p =
     cli_bind (read_call ce (list_jobs None (Some Uncertain) (or_default (arg_limit p) 100))) (\<lambda>js.
     cli_print (map Print_Uncertain js))"

text \<open>\<open>backup\<close>: the largest version of the status, zero when there is none.\<close>

definition backup_call :: "cli_env \<Rightarrow> db_file \<Rightarrow> string \<Rightarrow> bool \<Rightarrow> unit cli" where
  "backup_call ce f dest overwrite = (\<lambda>s.
     case store_backup (ce_open ce (cs_calls s)) (ce_backup ce) f dest overwrite (cs_store s, cs_files s) of
       (r, st, fs) \<Rightarrow> (map_err (\<lambda>e. Cli_Op (Op_Error e)) r,
         s\<lparr>cs_store := st, cs_files := settle ce dest (write_through (cs_path s) (cs_store s) st fs),
           cs_calls := Suc (cs_calls s)\<rparr>))"

definition status_call :: "cli_env \<Rightarrow> db_file \<Rightarrow> migration_status list cli" where
  "status_call ce f = facade_call ce (\<lambda>opn e. store_migrations_status opn e f) Op_Error"

definition cmd_backup :: "cli_env \<Rightarrow> db_file \<Rightarrow> parsed \<Rightarrow> string \<Rightarrow> unit cli" where
  "cmd_backup ce f p dest =
     cli_bind (backup_call ce f dest (arg_overwrite p)) (\<lambda>_.
     cli_bind (status_call ce f) (\<lambda>statuses.
     cli_print [Print_Backup dest (fold max (map ms_version statuses) 0)]))"

text \<open>\<open>std::fs::write\<close> truncates the file before it writes, unless it cannot open it.\<close>

definition write_file :: "cli_env \<Rightarrow> string \<Rightarrow> unit cli" where
  "write_file ce path = (\<lambda>s.
     case ce_write ce of
       None \<Rightarrow> (Inr (), s\<lparr>cs_files := (cs_files s)(path \<mapsto> Other_File)\<rparr>)
     | Some msg \<Rightarrow> (Inl (Cli_Op (Op_Io msg)),
         if ce_truncated ce then s\<lparr>cs_files := (cs_files s)(path \<mapsto> Other_File)\<rparr> else s))"

definition cmd_diagnostic_export :: "cli_env \<Rightarrow> db_file \<Rightarrow> parsed \<Rightarrow> unit cli" where
  "cmd_diagnostic_export ce f p =
     cli_bind (facade_call ce (\<lambda>opn e. store_diagnostic_export_with opn e (ce_file_size ce) f
       (arg_include_payloads p)) Op_Error) (\<lambda>export.
     case arg_out p of
       None \<Rightarrow> cli_print [Print_Export export]
     | Some path \<Rightarrow> cli_bind (write_file ce path) (\<lambda>_. cli_print [Print_Exported path]))"

definition cmd_migrations_status :: "cli_env \<Rightarrow> db_file \<Rightarrow> unit cli" where
  "cmd_migrations_status ce f =
     cli_bind (status_call ce f) (\<lambda>statuses. cli_print (map Print_Migration statuses))"

text \<open>\<open>jobs resolve\<close> on the opened store.\<close>

definition cmd_jobs_resolve :: "cli_env \<Rightarrow> string \<Rightarrow> id \<Rightarrow> resolution \<Rightarrow> unit cli" where
  "cmd_jobs_resolve ce raw_id job_id res =
     cli_bind (read_call ce (get_job job_id)) (\<lambda>found.
     if found = None then cli_fail (Cli_Not_Found (No_Job raw_id))
     else
       cli_bind (cli_lift (map_err (\<lambda>e. Cli_Op (Op_Error e)) (id_new (ce_random ce)))) (\<lambda>transaction_id.
       cli_bind (facade_call ce (\<lambda>opn e. store_commit opn e
         (resolve_uncertain_job job_id res (commit_batch_new transaction_id (ce_now_ms ce)))) Op_Commit) (\<lambda>_.
       cli_print [Print_Resolved raw_id])))"

section \<open>The dispatch\<close>

datatype command =
    Doctor
  | Verify
  | Stats
  | Events_Tail
  | Events_Stream
  | Projections_List
  | Projections_Scan
  | Projections_Get
  | Jobs_List
  | Jobs_Show
  | Jobs_Uncertain
  | Jobs_Resolve
  | Backup string
  | Diagnostic_Export
  | Migrations_Status

text \<open>The pairs of a command and its first positional argument that the code accepts.\<close>

definition command_of :: "string \<Rightarrow> string option \<Rightarrow> command option" where
  "command_of name sub =
     (case sub of
        None \<Rightarrow>
          if name = ''doctor'' then Some Doctor
          else if name = ''verify'' then Some Verify
          else if name = ''stats'' then Some Stats
          else if name = ''diagnostic-export'' then Some Diagnostic_Export
          else None
      | Some s \<Rightarrow>
          if name = ''events'' \<and> s = ''tail'' then Some Events_Tail
          else if name = ''events'' \<and> s = ''stream'' then Some Events_Stream
          else if name = ''projections'' \<and> s = ''list'' then Some Projections_List
          else if name = ''projections'' \<and> s = ''scan'' then Some Projections_Scan
          else if name = ''projections'' \<and> s = ''get'' then Some Projections_Get
          else if name = ''jobs'' \<and> s = ''list'' then Some Jobs_List
          else if name = ''jobs'' \<and> s = ''show'' then Some Jobs_Show
          else if name = ''jobs'' \<and> s = ''uncertain'' then Some Jobs_Uncertain
          else if name = ''jobs'' \<and> s = ''resolve'' then Some Jobs_Resolve
          else if name = ''backup'' then Some (Backup s)
          else if name = ''migrations'' \<and> s = ''status'' then Some Migrations_Status
          else None)"

fun run_command :: "cli_env \<Rightarrow> db_file \<Rightarrow> parsed \<Rightarrow> command \<Rightarrow> unit cli" where
  "run_command ce f p Doctor = cmd_doctor ce f p"
| "run_command ce f p Verify = cmd_verify ce f"
| "run_command ce f p Stats = cmd_stats ce f"
| "run_command ce f p Events_Tail = cmd_events_tail ce p"
| "run_command ce f p Events_Stream = cmd_events_stream ce p"
| "run_command ce f p Projections_List = cmd_projections_list ce"
| "run_command ce f p Projections_Scan = cmd_projections_scan ce p"
| "run_command ce f p Projections_Get = cmd_projections_get ce p"
| "run_command ce f p Jobs_List = cmd_jobs_list ce p"
| "run_command ce f p Jobs_Show = cmd_jobs_show ce p"
| "run_command ce f p Jobs_Uncertain = cmd_jobs_uncertain ce p"
| "run_command ce f p Jobs_Resolve = cli_return ()"
| "run_command ce f p (Backup dest) = cmd_backup ce f p dest"
| "run_command ce f p Diagnostic_Export = cmd_diagnostic_export ce f p"
| "run_command ce f p Migrations_Status = cmd_migrations_status ce f"

text \<open>A path that exists but holds no database fails when SQLite first reads it.\<close>

fun database_of :: "content \<Rightarrow> error + db_file" where
  "database_of (Database f) = Inr f"
| "database_of Other_File = Inl (sqlite_failure (DriverFault ''file is not a database''))"

type_synonym outcome = "(cli_error + unit) \<times> printed list \<times> file_system"

definition cli_start :: "string \<Rightarrow> store \<Rightarrow> file_system \<Rightarrow> cli_state" where
  "cli_start path st fs = \<lparr>cs_path = path, cs_store = st, cs_files = fs, cs_out = [], cs_calls = 1\<rparr>"

text \<open>The commands other than \<open>jobs resolve\<close>: they open the existing file.\<close>

definition inspect :: "cli_env \<Rightarrow> parsed \<Rightarrow> command \<Rightarrow> file_system \<Rightarrow> outcome" where
  "inspect ce p c fs =
     (case fs (arg_db p) of
        None \<Rightarrow> (Inl (Cli_Not_Found (No_Database (arg_db p))), [], fs)
      | Some file_content \<Rightarrow>
          (case err_bind (database_of file_content) (\<lambda>f. err_bind
              (store_open_existing (ce_open ce 0) (ce_migrate ce) (arg_db p) (Some f))
              (\<lambda>st. Inr (f, st))) of
             Inl err \<Rightarrow> (Inl (Cli_Op (Op_Error err)), [], settle ce (arg_db p) fs)
           | Inr (f, st) \<Rightarrow>
               (case run_command ce f p c (cli_start (arg_db p) st fs) of
                  (r, s) \<Rightarrow> (r, cs_out s, settle ce (arg_db p) (cs_files s)))))"

definition resolution_of :: "parsed \<Rightarrow> cli_error + resolution" where
  "resolution_of p =
     (if length (arg_positional p) \<le> 2 then Inl (Cli_Usage Requires_Resolution)
      else if arg_positional p ! 2 = ''retry'' then Inr Retry
      else if arg_positional p ! 2 = ''succeeded'' then Inr MarkSucceeded
      else if arg_positional p ! 2 = ''dead'' then Inr MarkDead
      else Inl (Cli_Usage Requires_Resolution))"

definition resolve_args :: "parsed \<Rightarrow> cli_error + string \<times> id \<times> resolution" where
  "resolve_args p =
     err_bind (if 1 < length (arg_positional p) then Inr (arg_positional p ! 1)
       else Inl (Cli_Usage (Requires_Argument ''jobs resolve requires a <job-id>''))) (\<lambda>raw_id.
     err_bind (parse_id raw_id ''job id'') (\<lambda>job_id.
     err_bind (resolution_of p) (\<lambda>res. Inr (raw_id, job_id, res))))"

text \<open>\<open>jobs resolve\<close> opens the store for writing, which may migrate it; the command runs on the migrated file.\<close>

definition jobs_resolve :: "cli_env \<Rightarrow> parsed \<Rightarrow> file_system \<Rightarrow> outcome" where
  "jobs_resolve ce p fs =
     (case resolve_args p of
        Inl e \<Rightarrow> (Inl e, [], fs)
      | Inr (raw_id, job_id, res) \<Rightarrow>
          (case fs (arg_db p) of
             None \<Rightarrow> (Inl (Cli_Not_Found (No_Database (arg_db p))), [], fs)
           | Some file_content \<Rightarrow>
               (case database_of file_content of
                  Inl err \<Rightarrow> (Inl (Cli_Op (Op_Error err)), [], settle ce (arg_db p) fs)
                | Inr f \<Rightarrow>
                    (case store_open (ce_open ce 0) (ce_created ce) (ce_migrate ce) (Some f) of
                       (Inl err, g) \<Rightarrow> (Inl (Cli_Op (Op_Error err)), [],
                         settle ce (arg_db p) (fs(arg_db p := map_option Database g)))
                     | (Inr st, g) \<Rightarrow>
                         (case cmd_jobs_resolve ce raw_id job_id res
                             (cli_start (arg_db p) st (fs(arg_db p := map_option Database g))) of
                            (r, s) \<Rightarrow> (r, cs_out s, settle ce (arg_db p) (cs_files s)))))))"

definition first_positional :: "parsed \<Rightarrow> string option" where
  "first_positional p = (case arg_positional p of [] \<Rightarrow> None | s # _ \<Rightarrow> Some s)"

text \<open>An optional leading \<open>store\<close> is dropped.\<close>

definition strip_store :: "string list \<Rightarrow> string list" where
  "strip_store args = (if hd args = ''store'' \<and> 1 < length args then tl args else args)"

definition run :: "cli_env \<Rightarrow> string list \<Rightarrow> file_system \<Rightarrow> outcome" where
  "run ce args fs =
     (if args = [] \<or> hd args = ''--help'' \<or> hd args = ''help'' then (Inr (), [Print_Usage], fs)
      else let args = strip_store args in
        case parse (tl args) of
          Inl e \<Rightarrow> (Inl e, [], fs)
        | Inr p \<Rightarrow>
            (case command_of (hd args) (first_positional p) of
               None \<Rightarrow> (Inl (Cli_Usage (Unknown_Command args)), [], fs)
             | Some c \<Rightarrow> if c = Jobs_Resolve then jobs_resolve ce p fs else inspect ce p c fs))"

definition exit_code :: "outcome \<Rightarrow> u8" where
  "exit_code = (\<lambda>(r, out, fs). case r of Inl e \<Rightarrow> report e | Inr _ \<Rightarrow> 0)"

end
