(* ===== verification/Command_Text.thy ===== *)
theory Command_Text
  imports Command_Line Error_Texts
begin

text \<open>
  What the command line writes, \<open>src/main.rs\<close>: the text of the printed lines on the standard output, and of
  an error on the standard error. A text is its UTF-8 bytes. The driver's own messages are the parameter \<open>driver\<close>.
\<close>

section \<open>Formatting\<close>

definition line :: "string \<Rightarrow> string" where
  "line s = s @ [CHR 0x0A]"

definition debug_option :: "('a \<Rightarrow> string) \<Rightarrow> 'a option \<Rightarrow> string" where
  "debug_option f v = (case v of None \<Rightarrow> ''None'' | Some x \<Rightarrow> ''Some('' @ f x @ '')'')"

fun separated :: "string \<Rightarrow> string list \<Rightarrow> string" where
  "separated sep [] = []"
| "separated sep [s] = s"
| "separated sep (s # t # ts) = s @ sep @ separated sep (t # ts)"

text \<open>The map from state names to counts, on one line.\<close>

definition debug_counts :: "(string \<times> u64) list \<Rightarrow> string" where
  "debug_counts m = ''{'' @ separated '', '' (map (\<lambda>(k, n). debug_str k @ '': '' @ show_u64 n) m) @ ''}''"

fun effect_mode_debug :: "effect_mode \<Rightarrow> string" where
  "effect_mode_debug RequiresReconciliation = ''RequiresReconciliation''"
| "effect_mode_debug ExplicitlyIdempotent = ''ExplicitlyIdempotent''"

text \<open>\<open>{stats:#?}\<close>: one line for each field, nested values further in, a comma after each.\<close>

definition pretty_field :: "string \<Rightarrow> string \<Rightarrow> string" where
  "pretty_field name v = line (''    '' @ name @ '': '' @ v @ '','')"

definition pretty_option :: "i64 option \<Rightarrow> string" where
  "pretty_option v = (case v of None \<Rightarrow> ''None''
     | Some n \<Rightarrow> line ''Some('' @ line (''        '' @ show_i64 n @ '','') @ ''    )'')"

definition pretty_counts :: "(string \<times> u64) list \<Rightarrow> string" where
  "pretty_counts m = (if m = [] then ''{}'' else
     line ''{'' @ concat (map (\<lambda>(k, n). line (''        '' @ debug_str k @ '': '' @ show_u64 n @ '','')) m) @ ''    }'')"

definition pretty_stats :: "store_stats \<Rightarrow> string" where
  "pretty_stats s = line ''StoreStats {'' @
     pretty_field ''transactions'' (show_u64 (st_transactions s)) @
     pretty_field ''events'' (show_u64 (st_events s)) @
     pretty_field ''streams'' (show_u64 (st_streams s)) @
     pretty_field ''projections'' (show_u64 (st_projections s)) @
     pretty_field ''projection_entries'' (show_u64 (st_projection_entries s)) @
     pretty_field ''jobs_by_state'' (pretty_counts (st_jobs_by_state s)) @
     pretty_field ''active_partitions'' (show_u64 (st_active_partitions s)) @
     pretty_field ''file_size_bytes'' (show_u64 (st_file_size_bytes s)) @
     pretty_field ''migration_version'' (show_u32 (st_migration_version s)) @
     pretty_field ''oldest_active_lease_ms'' (pretty_option (st_oldest_active_lease_ms s)) @
     pretty_field ''oldest_uncertain_job_ms'' (pretty_option (st_oldest_uncertain_job_ms s)) @ ''}''"

section \<open>Standard output\<close>

definition em_dash :: string where
  "em_dash = [CHR 0xE2, CHR 0x80, CHR 0x94]"

definition usage_text :: string where
  "usage_text = concat (map line [
     ''minisqlite '' @ em_dash @ '' atomic events, state, and jobs on SQLite'',
     [],
     ''USAGE:'',
     ''    minisqlite [store] <command> --db <path> [options]'',
     [],
     ''COMMANDS:'',
     ''    doctor                         open the store and run a quick health check'',
     ''    verify                         run full integrity and semantic checks'',
     ''    stats                          print store-wide statistics'',
     ''    events tail [--limit N]        print the most recent events'',
     ''    events stream <stream-id> [--from V] [--limit N]'',
     ''                                   print one stream'' @ [CHR 0x27] @ ''s events from version V'',
     ''    projections list               list projections and versions'',
     ''    projections scan <projection> [--prefix HEX] [--limit N]'',
     ''                                   scan a projection'' @ [CHR 0x27] @ ''s entries in key order'',
     ''    projections get <projection> <key-hex>'',
     ''                                   print one projection entry'',
     ''    jobs list [--queue Q] [--state S] [--after N]'',
     ''                                   list jobs, optionally filtered; --after'',
     ''                                   pages by the printed cursor'',
     ''    jobs show <job-id>             print one job'' @ [CHR 0x27] @ ''s full status'',
     ''    jobs uncertain [--limit N]     list jobs with uncertain outcomes'',
     ''    jobs resolve <job-id> <retry|succeeded|dead>'',
     ''                                   resolve an uncertain job (opens read-write)'',
     ''    backup <dest> [--overwrite]    copy the database to <dest>'',
     ''    diagnostic-export [--out FILE] [--include-payloads]'',
     ''                                   write a redacted diagnostic export'',
     ''    migrations status              print migration versions and checksums'',
     [],
     ''EXIT CODES:'',
     ''    0 success   1 operational error   2 usage error'',
     ''    3 verification findings          4 not found'',
     [],
     ''Except for `jobs resolve`, the CLI never creates or migrates databases; it'',
     ''opens existing files read-only. To create or migrate a store, open it with'',
     ''the library (StoreBuilder::open).''])"

definition event_text :: "persisted_event \<Rightarrow> string" where
  "event_text e = show_u64 (persisted_global_sequence e) @ '' '' @ to_hex (event_id (persisted_event e)) @ '' '' @
     event_stream_id (persisted_event e) @ ''@'' @ show_u64 (persisted_stream_version e) @ '' '' @
     event_type (persisted_event e)"

definition job_text :: "job_info \<Rightarrow> string list" where
  "job_text j = (let spec = info_spec j in
     [''job_id: '' @ to_hex (info_job_id j),
      ''queue: '' @ spec_queue spec,
      ''partition_key: '' @ spec_partition_key spec,
      ''state: '' @ job_state_debug (info_state j),
      ''attempt: '' @ show_u32 (info_attempt j) @ '' / '' @ show_u32 (spec_max_attempts spec),
      ''effect_mode: '' @ effect_mode_debug (spec_effect_mode spec),
      ''payload_len: '' @ show_nat (length (spec_payload spec)),
      ''not_before_ms: '' @ show_i64 (spec_not_before_ms spec),
      ''worker_id: '' @ debug_option debug_str (info_worker_id j),
      ''lease_expires_at_ms: '' @ debug_option show_i64 (info_lease_expires_at_ms j),
      ''retry_after_ms: '' @ debug_option show_i64 (info_retry_after_ms j),
      ''terminal_at_ms: '' @ debug_option show_i64 (info_terminal_at_ms j),
      ''error_summary: '' @ debug_option debug_str (info_error_summary j)])"

definition health_text :: "store_stats \<Rightarrow> string list" where
  "health_text s =
     [''schema version: '' @ show_u32 (st_migration_version s),
      ''transactions: '' @ show_u64 (st_transactions s) @ '', events: '' @ show_u64 (st_events s) @
        '', streams: '' @ show_u64 (st_streams s),
      ''jobs by state: '' @ debug_counts (st_jobs_by_state s) @ '', active partitions: '' @
        show_u64 (st_active_partitions s),
      ''file size: '' @ show_u64 (st_file_size_bytes s) @ '' bytes'']"

text \<open>What an invocation of \<open>println!\<close> or \<open>print!\<close> writes; the usage and the export have their own line ends.\<close>

fun printed_text :: "printed \<Rightarrow> string" where
  "printed_text Print_Usage = usage_text"
| "printed_text (Print_Opened db) = line (''store opened: '' @ db)"
| "printed_text (Print_Health s) = concat (map line (health_text s))"
| "printed_text Print_Doctor_Ok = line ''verify: ok''"
| "printed_text Print_Verify_Ok = line ''ok''"
| "printed_text (Print_Finding f) = line (vf_check f @ '': '' @ vf_detail f)"
| "printed_text (Print_Stats s) = line (pretty_stats s)"
| "printed_text (Print_Event e) = line (event_text e)"
| "printed_text (Print_Projection p version) = line (p @ '' v'' @ show_u64 version)"
| "printed_text (Print_Entry k v) = line (hex k @ '' '' @ hex v)"
| "printed_text (Print_Value v) = line (hex v)"
| "printed_text (Print_Job_Row j) =
     line (to_hex (info_job_id j) @ '' '' @ spec_queue (info_spec j) @ '' '' @ spec_partition_key (info_spec j) @ '' '' @
       job_state_debug (info_state j) @ '' attempt '' @ show_u32 (info_attempt j))"
| "printed_text (Print_Next cursor) = line (''next: --after '' @ show_u64 cursor)"
| "printed_text (Print_Job j) = concat (map line (job_text j))"
| "printed_text (Print_Uncertain j) =
     line (to_hex (info_job_id j) @ '' '' @ spec_queue (info_spec j) @ '' '' @ spec_partition_key (info_spec j) @
       '' attempt '' @ show_u32 (info_attempt j))"
| "printed_text (Print_Backup dest version) =
     line (''backup written to '' @ dest @ '' (schema version '' @ show_u32 version @ '')'')"
| "printed_text (Print_Exported path) = line (''diagnostic export written to '' @ path)"
| "printed_text (Print_Export export) = export"
| "printed_text (Print_Migration m) =
     line (''v'' @ show_u32 (ms_version m) @ '' applied_at_ms='' @ show_i64 (ms_applied_at_ms m) @ '' checksum='' @
       (if ms_checksum_ok m then ''ok'' else ''MISMATCH''))"
| "printed_text (Print_Resolved raw_id) = line (''job '' @ raw_id @ '' resolved'')"

definition stdout_text :: "outcome \<Rightarrow> string" where
  "stdout_text = (\<lambda>(r, out, fs). concat (map printed_text out))"

section \<open>Standard error\<close>

fun usage_error_text :: "usage_error \<Rightarrow> string" where
  "usage_error_text (Unknown_Flag arg) = ''unknown flag: '' @ arg"
| "usage_error_text Missing_Db = ''missing required --db <path>''"
| "usage_error_text (Requires_Value flag) = flag @ '' requires a value''"
| "usage_error_text (Invalid_Number flag raw) = ''invalid '' @ flag @ '': '' @ raw"
| "usage_error_text (Unknown_Job_State s) = ''unknown job state: '' @ s"
| "usage_error_text (Invalid_Id what raw) = ''invalid '' @ what @ '': '' @ raw"
| "usage_error_text (Invalid_Hex what raw) = ''invalid '' @ what @ '' hex: '' @ raw"
| "usage_error_text (Unknown_Command args) =
     line (''unknown command: '' @ separated '' '' args) @ usage_text"
| "usage_error_text (Requires_Argument message) = message"
| "usage_error_text Requires_Resolution = ''jobs resolve requires a resolution: retry | succeeded | dead''"

fun not_found_text :: "not_found \<Rightarrow> string" where
  "not_found_text (No_Database db) = ''database file '' @ db @ '' does not exist''"
| "not_found_text (No_Stream s) = ''stream not found: '' @ s"
| "not_found_text (No_Projection p) = ''projection not found: '' @ p"
| "not_found_text (No_Entry key_raw p) = ''no entry for key '' @ key_raw @ '' in projection '' @ p"
| "not_found_text (No_Job raw) = ''job not found: '' @ raw"

text \<open>\<open>op_err\<close>: the text of the error that a call returned.\<close>

fun op_failure_text :: "(sqlite_error \<Rightarrow> string) \<Rightarrow> op_failure \<Rightarrow> string" where
  "op_failure_text driver (Op_Error e) = error_text driver e"
| "op_failure_text driver (Op_Commit e) = commit_error_text driver e"
| "op_failure_text driver (Op_Io msg) = msg"

fun cli_error_text :: "(sqlite_error \<Rightarrow> string) \<Rightarrow> cli_error \<Rightarrow> string" where
  "cli_error_text driver (Cli_Usage u) = usage_error_text u"
| "cli_error_text driver (Cli_Not_Found n) = not_found_text n"
| "cli_error_text driver (Cli_Findings n) = ''verify reported '' @ show_nat n @ '' finding(s)''"
| "cli_error_text driver (Cli_Op e) = op_failure_text driver e"

definition stderr_text :: "(sqlite_error \<Rightarrow> string) \<Rightarrow> outcome \<Rightarrow> string" where
  "stderr_text driver = (\<lambda>(r, out, fs). case r of
     Inl e \<Rightarrow> line (''error: '' @ cli_error_text driver e) | Inr _ \<Rightarrow> [])"

end
