(* ===== verification/Export_Results.thy ===== *)
theory Export_Results
  imports Diagnostic_Export
begin

text \<open>
  What the diagnostic export writes: which rows, that every record stands on a line of its own, that
  escaping loses nothing, and that the text does not depend on what it must not reveal.
\<close>

section \<open>The rows of the export\<close>

text \<open>\<open>writes m d ls\<close>: on \<open>d\<close>, when \<open>m\<close> answers, it has written the lines \<open>ls\<close> and changed nothing.\<close>

definition writes :: "(error, string list) tx \<Rightarrow> db \<Rightarrow> string list \<Rightarrow> bool" where
  "writes m d ls \<longleftrightarrow> (\<forall>out d'. tx_yields m d out d' \<longrightarrow> out = ls \<and> d' = d)"

lemma writesD: "writes m d ls \<Longrightarrow> tx_yields m d out d' \<Longrightarrow> out = ls \<and> d' = d"
  by (simp add: writes_def)

named_theorems writes_rules

lemma writes_concat_Nil [writes_rules]: "writes (tx_concat []) d []"
  unfolding writes_def by (auto dest!: yields_return)

lemma writes_concat_Cons [writes_rules]:
  assumes "writes m d ls" "writes (tx_concat ms) d ks"
  shows "writes (tx_concat (m # ms)) d (ls @ ks)"
  unfolding writes_def
proof (intro allI impI)
  fix out d' assume "tx_yields (tx_concat (m # ms)) d out d'"
  then obtain xs e ys where "tx_yields m d xs e" "tx_yields (tx_concat ms) e ys d'" "out = xs @ ys"
    by (auto dest!: yields_bind yields_return)
  with writesD [OF assms(1)] writesD [OF assms(2)] show "out = ls @ ks \<and> d' = d" by blast
qed

lemma writes_select_lines [writes_rules]: "writes (select_lines rows line) d (map line (rows d))"
  unfolding select_lines_def writes_def by (auto dest!: yields_bind yields_select yields_return)

lemma writes_export_loop:
  assumes "distinct (map key (table d))" "sort_key key (filter (\<lambda>r. after < key r) (table d)) = rows"
  shows "writes (export_loop table key line after) d (map line rows)"
proof -
  note loop = yields_export_loop [where table = table and key = key and d = d, OF _ assms(1)]
  show ?thesis
    unfolding writes_def assms(2) [symmetric] using loop by blast
qed

lemma writes_numbered:
  assumes "numbered (map key (table d))"
  shows "writes (export_loop table key line (I64 0)) d (map line (table d))"
proof (rule writes_export_loop)
  show "distinct (map key (table d))"
    by (rule numbered_distinct [OF assms])
  have "filter (\<lambda>r. I64 0 < key r) (table d) = table d"
    using numbered_filter_greater [OF assms, of "I64 0"] by simp
  then show "sort_key key (filter (\<lambda>r. I64 0 < key r) (table d)) = table d"
    using numbered_sort_key [OF assms, of "\<lambda>_. True"] by simp
qed

lemma string_greater_Nil: "'''' < (s :: string) \<longleftrightarrow> s \<noteq> ''''"
  by (cases s) simp_all

lemma writes_entries: "writes (export_loop entry_rows fst line 0) d (map line (entry_rows d))"
proof (rule writes_export_loop)
  have fst: "map fst (entry_rows d) = [1..<Suc (length (projection_entries d))]"
    by (simp add: entry_rows_def enumerate_eq_zip)
  then show "distinct (map fst (entry_rows d))"
    by (simp only: distinct_upt)
  have "0 < n" if "n \<in> set (map fst (entry_rows d))" for n
    using that unfolding fst by auto
  then have "filter (\<lambda>r. 0 < fst r) (entry_rows d) = entry_rows d"
    by (intro filter_True) auto
  moreover have "sort_key fst (entry_rows d) = entry_rows d"
    by (rule sort_key_id_if_sorted) (simp only: fst sorted_upt)
  ultimately show "sort_key fst (filter (\<lambda>r. 0 < fst r) (entry_rows d)) = entry_rows d"
    by simp
qed

text \<open>The lines after the first two, table by table. A stream with an empty ID is left out.\<close>

definition export_lines :: "bool \<Rightarrow> db \<Rightarrow> string list" where
  "export_lines include_payloads d =
     map transaction_line (transactions d) @
     map (event_line include_payloads) (events d) @
     map stream_line (sort_key fst (filter (\<lambda>s. fst s \<noteq> '''') (streams d))) @
     map projection_line (sort_key fst (projection_meta d)) @
     map (entry_line include_payloads) (entry_rows d) @
     map (job_line include_payloads) (jobs d) @
     map partition_line (sort_key fst (active_partitions d)) @
     map claim_receipt_line (claim_receipts d)"

lemma writes_export_lines:
  assumes "db_ok d"
  shows "writes (export_tables incl) d (export_lines incl d)"
proof -
  have ok: "numbered (map tx_transaction_sequence (transactions d))"
    "numbered (map ev_global_sequence (events d))" "numbered (map jobs_enqueue_sequence (jobs d))"
    "distinct (map fst (streams d))"
    using assms
    by (simp_all add: db_ok_def transactions_ok_def events_ok_def streams_ok_def jobs_ok_def rows_ok_def)
  have streams: "writes export_streams d
      (map stream_line (sort_key fst (filter (\<lambda>s. fst s \<noteq> '''') (streams d))))"
    unfolding export_streams_def
    by (intro writes_export_loop ok) (simp add: string_greater_Nil)
  have projections: "writes (export_projections incl) d
      (map projection_line (sort_key fst (projection_meta d)) @ map (entry_line incl) (entry_rows d) @ [])"
    unfolding export_projections_def by (intro writes_rules writes_entries)
  have numbered: "writes export_transactions d (map transaction_line (transactions d))"
    "writes (export_events incl) d (map (event_line incl) (events d))"
    "writes (export_jobs incl) d (map (job_line incl) (jobs d))"
    unfolding export_transactions_def export_events_def export_jobs_def
    by (intro writes_numbered ok)+
  have selected: "writes export_partitions d (map partition_line (sort_key fst (active_partitions d)))"
    "writes export_claim_receipts d (map claim_receipt_line (claim_receipts d))"
    unfolding export_partitions_def export_claim_receipts_def by (rule writes_select_lines)+
  show ?thesis
    using writes_concat_Cons [OF numbered(1) writes_concat_Cons [OF numbered(2) writes_concat_Cons [OF streams
      writes_concat_Cons [OF projections writes_concat_Cons [OF numbered(3) writes_concat_Cons [OF selected(1)
      writes_concat_Cons [OF selected(2) writes_concat_Nil]]]]]]]
    by (simp add: export_lines_def export_tables_def)
qed

lemma diagnostic_export_yields:
  assumes "tx_yields (diagnostic_export file_size f incl) d out d'" "db_ok d"
  obtains x where "tx_yields (stats file_size f) d x d" "d' = d"
    "out = concat (header_line x incl # stats_line x # export_lines incl d)"
proof -
  obtain x e ls where "tx_yields (stats file_size f) d x e" "tx_yields (export_tables incl) e ls d'"
    "out = concat (header_line x incl # stats_line x # ls)"
    using assms(1) unfolding diagnostic_export_def by (auto dest!: yields_bind yields_return)
  moreover from this(1) have "e = d" by (rule stats_yields)
  ultimately show thesis
    using that writesD [OF writes_export_lines [OF assms(2)]] by blast
qed

section \<open>Every record on its own line\<close>

definition plain :: "string \<Rightarrow> bool" where
  "plain s \<longleftrightarrow> CHR 0x0A \<notin> set s"

lemma plain_append [simp]: "plain (s @ t) \<longleftrightarrow> plain s \<and> plain t"
  by (auto simp: plain_def)

lemma plain_Nil [simp]: "plain []"
  by (simp add: plain_def)

lemma plain_Cons [simp]: "plain (c # s) \<longleftrightarrow> c \<noteq> CHR 0x0A \<and> plain s"
  by (auto simp: plain_def)

lemma digit_char: "n < 10 \<Longrightarrow> (of_char (char_of (48 + n) :: char) :: nat) = 48 + n"
  by simp

lemma plain_show_nat [simp]: "plain (show_nat n)"
proof (induction n rule: show_nat.induct)
  case (1 n)
  have "(char_of (48 + k) :: char) \<noteq> CHR 0x0A" if "k < 10" for k :: nat
  proof
    assume "(char_of (48 + k) :: char) = CHR 0x0A"
    then have "(of_char (char_of (48 + k) :: char) :: nat) = of_char CHR 0x0A" by simp
    with digit_char [OF that] show False by simp
  qed
  from this [of "n mod 10"] this [of n] 1 show ?case
    by (subst show_nat.simps) simp
qed

lemma plain_show [simp]: "plain (show_i64 a)" "plain (show_u64 w)" "plain (show_bool b)"
  by (simp_all add: show_i64_def show_u64_def show_bool_def)

lemma hex_digit_in: "k < 16 \<Longrightarrow> hex_digits ! k \<in> set hex_digits"
  by (intro nth_mem) (simp add: hex_digits_def)

lemma plain_hex_digit [simp]: "k < 16 \<Longrightarrow> hex_digits ! k \<noteq> CHR 0x0A"
  using hex_digit_in [of k] by (auto simp: hex_digits_def)

lemma plain_hex [simp]: "plain (hex bs)"
  using unat_high_nibble unat_low_nibble by (induction bs) (simp_all add: hex_Cons)

lemma plain_escape_char: "plain (json_escape_char c)"
proof -
  let ?n = "of_char c :: nat"
  have "plain [c]" if "?n \<noteq> 10"
    using that by auto
  moreover have "?n div 16 < 16" "?n mod 16 < 16" if "?n < 32"
    using that by simp_all
  ultimately show ?thesis
    by (simp add: json_escape_char_def Let_def)
qed

lemma plain_escape [simp]: "plain (json_escape s)"
  using plain_escape_char by (induction s) (simp_all add: json_escape_def)

lemma plain_quote [simp]: "plain (quote s) \<longleftrightarrow> plain s" "plain (json_string s)"
  by (simp_all add: quote_def json_string_def)

lemma plain_opt [simp]: "plain (opt_i64 v)" "plain (opt_string t)"
  by (simp_all add: opt_i64_def opt_string_def split: option.split)

lemma plain_join: "\<forall>(name, v) \<in> set fs. plain name \<and> plain v \<Longrightarrow> plain (join_fields fs)"
  by (induction fs rule: join_fields.induct) simp_all

definition one_line :: "string \<Rightarrow> bool" where
  "one_line l \<longleftrightarrow> (\<exists>s. plain s \<and> l = s @ [CHR 0x0A])"

lemma one_line_json:
  "plain kind \<Longrightarrow> \<forall>(name, v) \<in> set fs. plain name \<and> plain v \<Longrightarrow> one_line (json_line kind fs)"
  unfolding one_line_def json_line_def
  by (intro exI [where x = "json_object ((''kind'', quote kind) # fs)"])
    (simp add: json_object_def plain_join)

lemma plain_fields:
  "\<forall>(name, v) \<in> set (payload_fields p incl). plain name \<and> plain v"
  "\<forall>(name, v) \<in> set (value_fields p incl). plain name \<and> plain v"
  "\<forall>(name, v) \<in> set (error_summary_fields e incl). plain name \<and> plain v"
  by (simp_all add: payload_fields_def value_fields_def error_summary_fields_def)

lemma plain_state_name [simp]: "plain (state_name v)"
proof (cases "job_state_decode v")
  case (Some t)
  then show ?thesis by (cases t) (simp_all add: state_name_def)
qed (simp add: state_name_def)

lemma plain_object: "\<forall>(name, v) \<in> set fs. plain name \<and> plain v \<Longrightarrow> plain (json_object fs)"
  by (simp add: json_object_def plain_join)

lemma one_line_records:
  "one_line (header_line x incl)" "one_line (stats_line x)" "one_line (transaction_line t)"
  "one_line (event_line incl ev)" "one_line (stream_line sv)" "one_line (projection_line pv)"
  "one_line (entry_line incl en)" "one_line (job_line incl j)" "one_line (partition_line ap)"
  "one_line (claim_receipt_line c)"
proof -
  have "plain (json_object (map (\<lambda>(state, n). (json_escape state, show_u64 n)) (st_jobs_by_state x)))"
    by (rule plain_object) auto
  then show "one_line (stats_line x)"
    unfolding stats_line_def by (intro one_line_json) simp_all
  show "one_line (header_line x incl)" "one_line (transaction_line t)" "one_line (claim_receipt_line c)"
    unfolding header_line_def transaction_line_def claim_receipt_line_def
    by (intro one_line_json; simp)+
  show "one_line (event_line incl ev)" "one_line (job_line incl j)"
    unfolding event_line_def job_line_def
    by (intro one_line_json; simp add: plain_fields ball_Un)+
  show "one_line (stream_line sv)" "one_line (projection_line pv)" "one_line (partition_line ap)"
    unfolding stream_line_def projection_line_def partition_line_def
    by (auto intro!: one_line_json split: prod.split)
  obtain n p k v where "en = (n, (p, k), v)" by (metis surj_pair)
  then show "one_line (entry_line incl en)"
    by (simp add: entry_line_def) (intro one_line_json; simp add: plain_fields)
qed

lemma export_lines_records: "\<forall>l \<in> set (export_lines incl d). one_line l"
  by (auto simp: export_lines_def one_line_records)

section \<open>Escaping loses nothing\<close>

text \<open>A reader of the escaped text, for the statement that it can be read back.\<close>

definition hex_digit_value :: "char \<Rightarrow> nat option" where
  "hex_digit_value c = map_option (\<lambda>v. unat v) (hex_value (of_char c))"

fun json_unescape :: "string \<Rightarrow> string option" where
  "json_unescape [] = Some []"
| "json_unescape (c # s) =
     (if c \<noteq> CHR 0x5C then map_option ((#) c) (json_unescape s)
      else case s of
        [] \<Rightarrow> None
      | e # s' \<Rightarrow>
          if e = CHR 0x22 \<or> e = CHR 0x5C then map_option ((#) e) (json_unescape s')
          else if e = CHR ''n'' then map_option ((#) (CHR 0x0A)) (json_unescape s')
          else if e = CHR ''r'' then map_option ((#) (CHR 0x0D)) (json_unescape s')
          else if e = CHR ''t'' then map_option ((#) (CHR 0x09)) (json_unescape s')
          else if e = CHR ''u'' then
            (case s' of
               _ # _ # h # l # rest \<Rightarrow>
                 (case (hex_digit_value h, hex_digit_value l) of
                    (Some hi, Some lo) \<Rightarrow> map_option ((#) (char_of (16 * hi + lo))) (json_unescape rest)
                  | _ \<Rightarrow> None)
             | _ \<Rightarrow> None)
          else None)"

lemma hex_digit_value: "k < 16 \<Longrightarrow> hex_digit_value (hex_digits ! k) = Some k"
  by (simp add: hex_digit_value_def hex_value_digit unat_of_nat)

lemma json_unescape_char: "json_unescape (json_escape_char c @ s) = map_option ((#) c) (json_unescape s)"
proof -
  let ?n = "of_char c :: nat"
  have c: "?n = of_char d \<longleftrightarrow> c = d" for d by simp
  have codes: "?n = 0x22 \<longleftrightarrow> c = CHR 0x22" "?n = 0x5C \<longleftrightarrow> c = CHR 0x5C" "?n = 0x0A \<longleftrightarrow> c = CHR 0x0A"
    "?n = 0x0D \<longleftrightarrow> c = CHR 0x0D" "?n = 0x09 \<longleftrightarrow> c = CHR 0x09"
    unfolding c [symmetric] by simp_all
  show ?thesis
  proof (cases "c \<in> {CHR 0x22, CHR 0x5C, CHR 0x0A, CHR 0x0D, CHR 0x09}")
    case True
    then show ?thesis by (auto simp: json_escape_char_def)
  next
    case False
    show ?thesis
    proof (cases "?n < 0x20")
      case True
      have "hex_digit_value (hex_digits ! (?n div 16)) = Some (?n div 16)"
        "hex_digit_value (hex_digits ! (?n mod 16)) = Some (?n mod 16)"
        using True by (simp_all add: hex_digit_value)
      moreover have "char_of (16 * (?n div 16) + ?n mod 16) = c"
        by (simp only: mult_div_mod_eq char_of_char)
      ultimately show ?thesis
        using True False by (simp add: json_escape_char_def Let_def codes)
    qed (use False in \<open>simp add: json_escape_char_def Let_def codes\<close>)
  qed
qed

lemma json_unescape_escape: "json_unescape (json_escape s) = Some s"
  by (induction s) (simp_all add: json_escape_def json_unescape_char)

section \<open>What the export does not reveal\<close>

text \<open>
  A database with everything hidden that the export must not show: every lease token, and unless
  payloads are asked for, all payloads, values and error summaries but for their length.
\<close>

definition hide_blob :: "bool \<Rightarrow> blob \<Rightarrow> blob" where
  "hide_blob incl b = (if incl then b else replicate (length b) 0)"

definition hide_summary :: "bool \<Rightarrow> string option \<Rightarrow> string option" where
  "hide_summary incl s = (if incl then s else map_option (\<lambda>t. replicate (length t) CHR ''x'') s)"

definition hide_job :: "bool \<Rightarrow> jobs_row \<Rightarrow> jobs_row" where
  "hide_job incl r = r\<lparr>jobs_payload := hide_blob incl (jobs_payload r), jobs_lease_token := None,
     jobs_error_summary := hide_summary incl (jobs_error_summary r)\<rparr>"

definition hide_event :: "bool \<Rightarrow> events_row \<Rightarrow> events_row" where
  "hide_event incl r = r\<lparr>ev_payload := hide_blob incl (ev_payload r)\<rparr>"

definition hide_receipt :: "claim_receipts_row \<Rightarrow> claim_receipts_row" where
  "hide_receipt r = r\<lparr>cr_lease_token := []\<rparr>"

definition redact :: "bool \<Rightarrow> db \<Rightarrow> db" where
  "redact incl d = d\<lparr>events := map (hide_event incl) (events d),
     projection_entries := map (\<lambda>(k, v). (k, hide_blob incl v)) (projection_entries d),
     jobs := map (hide_job incl) (jobs d),
     claim_receipts := map hide_receipt (claim_receipts d)\<rparr>"

definition redact_state :: "bool \<Rightarrow> tx_state \<Rightarrow> tx_state" where
  "redact_state incl s = s\<lparr>tx_db := redact incl (tx_db s)\<rparr>"

text \<open>\<open>blind incl m\<close>: what \<open>m\<close> answers does not depend on what is hidden.\<close>

fun same_answer :: "bool \<Rightarrow> 'e + 'a \<times> tx_state \<Rightarrow> 'e + 'a \<times> tx_state" where
  "same_answer incl (Inl e) = Inl e"
| "same_answer incl (Inr (x, s)) = Inr (x, redact_state incl s)"

definition blind :: "bool \<Rightarrow> ('e, 'a) tx \<Rightarrow> bool" where
  "blind incl m \<longleftrightarrow> (\<forall>s. m (redact_state incl s) = same_answer incl (m s))"

named_theorems blind_rules

lemma blind_return [blind_rules]: "blind incl (tx_return x)"
  by (simp add: blind_def tx_return_def)

lemma blind_lift [blind_rules]: "blind incl (tx_lift r)"
  by (cases r) (simp_all add: blind_def tx_lift_def)

lemma blind_bind [blind_rules]:
  assumes "blind incl m" "\<And>x. blind incl (f x)"
  shows "blind incl (tx_bind m f)"
  unfolding blind_def
proof
  fix s
  show "tx_bind m f (redact_state incl s) = same_answer incl (tx_bind m f s)"
    using assms by (cases "m s") (auto simp: blind_def tx_bind_def)
qed

text \<open>A query whose rows are hidden in the same way.\<close>

lemma select_redacted:
  assumes "\<And>d. f (redact incl d) = h (f d)"
  shows "select f (redact_state incl s) = (case select f s of
     Inl e \<Rightarrow> Inl e | Inr (x, t) \<Rightarrow> Inr (h x, redact_state incl t))"
  using assms
  by (simp add: select_def tx_map_err_def query_def sql_def redact_state_def split: option.split)

lemma blind_select:
  assumes "\<And>d. f (redact incl d) = f d"
  shows "blind incl (select f)"
  unfolding blind_def select_redacted [where h = "\<lambda>x. x" and f = f, OF assms]
  by (auto split: sum.split)

lemma blind_select_lines:
  assumes "\<And>d. rows (redact incl d) = map g (rows d)" "\<And>r. line (g r) = line r"
  shows "blind incl (select_lines rows line)"
  unfolding blind_def select_lines_def tx_bind_def
  using assms(2) select_redacted [where f = rows and h = "map g", OF assms(1)]
  by (auto split: sum.split simp: tx_return_def o_def)

lemma blind_export_loop:
  fixes key :: "'r \<Rightarrow> 'k::linorder"
  assumes "\<And>d. table (redact incl d) = map g (table d)" "\<And>r. line (g r) = line r" "\<And>r. key (g r) = key r"
  shows "blind incl (export_loop table key line after)"
proof -
  have page: "page table key a (redact incl d) = map g (page table key a d)" for a d
    by (simp add: page_take assms(1, 3) filter_map o_def sort_key_map take_map)
  have "export_loop table key line after (redact_state incl s) = same_answer incl (export_loop table key line after s)" for s
    using assms(2, 3) page
  proof (induction table key line after s rule: export_loop.induct)
    case (1 table key line after s)
    note red = select_redacted [where f = "page table key after" and h = "map g", OF "1.prems"(3)]
    show ?case
    proof (cases "select (page table key after) s")
      case (Inl e)
      with red [of s] show ?thesis
        by (subst (1 2) export_loop.simps) simp
    next
      case (Inr p)
      obtain rows t where p: "p = (rows, t)" by fastforce
      note sel = Inr [unfolded p]
      show ?thesis
      proof (cases "length rows < unat export_page_size")
        case True
        with red [of s] sel "1.prems"(1) show ?thesis
          by (subst (1 2) export_loop.simps) (simp add: o_def)
      next
        case False
        then have "rows \<noteq> []" by (auto simp: export_page_size_def)
        then have last: "key (last (map g rows)) = key (last rows)"
          by (simp add: last_map "1.prems"(2))
        have IH: "export_loop table key line (key (last rows)) (redact_state incl t) =
            same_answer incl (export_loop table key line (key (last rows)) t)"
          by (rule "1.IH" [OF sel refl False]) (rule "1.prems")+
        show ?thesis
          using red [of s] sel False last IH "1.prems"(1)
          by (subst (1 2) export_loop.simps) (auto simp: o_def split: sum.split)
      qed
    qed
  qed
  then show ?thesis by (simp add: blind_def)
qed

lemma blind_concat [blind_rules]: "\<forall>m \<in> set ms. blind incl m \<Longrightarrow> blind incl (tx_concat ms)"
  by (induction ms) (auto intro!: blind_rules)

lemma redact_tables [simp]:
  "transactions (redact incl d) = transactions d" "streams (redact incl d) = streams d"
  "projection_meta (redact incl d) = projection_meta d"
  "active_partitions (redact incl d) = active_partitions d"
  "events (redact incl d) = map (hide_event incl) (events d)"
  "jobs (redact incl d) = map (hide_job incl) (jobs d)"
  "claim_receipts (redact incl d) = map hide_receipt (claim_receipts d)"
  "projection_entries (redact incl d) = map (\<lambda>(k, v). (k, hide_blob incl v)) (projection_entries d)"
  by (simp_all add: redact_def)

lemma hide_job_sel [simp]:
  "jobs_state (hide_job incl r) = jobs_state r"
  "jobs_lease_expires_at_ms (hide_job incl r) = jobs_lease_expires_at_ms r"
  "jobs_updated_transaction_id (hide_job incl r) = jobs_updated_transaction_id r"
  "jobs_enqueue_sequence (hide_job incl r) = jobs_enqueue_sequence r"
  "ev_global_sequence (hide_event incl ev) = ev_global_sequence ev"
  by (simp_all add: hide_job_def hide_event_def)

lemma length_hide_blob [simp]: "length (hide_blob incl b) = length b"
  by (simp add: hide_blob_def)

lemma hidden_fields [simp]:
  "payload_fields (hide_blob incl b) incl = payload_fields b incl"
  "value_fields (hide_blob incl b) incl = value_fields b incl"
  "error_summary_fields (hide_summary incl e) incl = error_summary_fields e incl"
  by (simp_all add: payload_fields_def value_fields_def error_summary_fields_def hide_blob_def
      hide_summary_def option.map_comp o_def)

lemma hidden_lines [simp]:
  "job_line incl (hide_job incl r) = job_line incl r"
  "event_line incl (hide_event incl ev) = event_line incl ev"
  "claim_receipt_line (hide_receipt c) = claim_receipt_line c"
  "entry_line incl (n, k, hide_blob incl v) = entry_line incl (n, k, v)"
  by (simp_all add: job_line_def hide_job_def event_line_def hide_event_def claim_receipt_line_def
      hide_receipt_def entry_line_def split: prod.split)

lemma blind_stats [blind_rules]: "blind incl (stats file_size f)"
proof -
  have groups: "state_groups (redact incl d) = state_groups d" for d
    by (simp add: state_groups_def filter_map o_def sql_count_def)
  have leased: "map jobs_lease_expires_at_ms (filter (\<lambda>r. jobs_state r = v) (map (hide_job incl) (jobs d))) =
      map jobs_lease_expires_at_ms (filter (\<lambda>r. jobs_state r = v) (jobs d))" for d v
    by (simp add: filter_map o_def)
  have uncertain: "uncertain_times (redact incl d) = uncertain_times d" for d
    by (simp add: uncertain_times_def filter_map o_def)
  show ?thesis
    unfolding stats_def
    by (intro blind_rules blind_select; simp add: groups leased uncertain sql_count_def)
qed

lemma blind_export_tables [blind_rules]: "blind incl (export_tables incl)"
proof -
  have entries: "entry_rows (redact incl d) = map (\<lambda>(n, k, v). (n, k, hide_blob incl v)) (entry_rows d)" for d
    by (simp add: entry_rows_def enumerate_eq_zip zip_map2 split_beta)
  have "blind incl export_transactions"
    unfolding export_transactions_def by (rule blind_export_loop [where g = "\<lambda>r. r"]) simp_all
  moreover have "blind incl (export_events incl)"
    unfolding export_events_def
    by (rule blind_export_loop [where g = "hide_event incl"]) simp_all
  moreover have "blind incl export_streams"
    unfolding export_streams_def by (rule blind_export_loop [where g = "\<lambda>r. r"]) simp_all
  moreover have "blind incl (export_jobs incl)"
    unfolding export_jobs_def by (rule blind_export_loop [where g = "hide_job incl"]) simp_all
  moreover have "blind incl (export_projections incl)"
    unfolding export_projections_def
    by (intro blind_concat)
       (auto simp: entries intro!: blind_select_lines [where g = "\<lambda>r. r"]
         blind_export_loop [where g = "\<lambda>(n, k, v). (n, k, hide_blob incl v)"])
  moreover have "blind incl export_partitions" "blind incl export_claim_receipts"
    unfolding export_partitions_def export_claim_receipts_def
    by (auto intro: blind_select_lines [where g = "\<lambda>r. r"] blind_select_lines [where g = hide_receipt])
  ultimately show ?thesis
    unfolding export_tables_def by (intro blind_concat) simp
qed

lemma blind_diagnostic_export: "blind incl (diagnostic_export file_size f incl)"
  unfolding diagnostic_export_def by (intro blind_rules)

section \<open>The export ends\<close>

text \<open>\<open>answers m\<close>: without driver faults \<open>m\<close> returns a value.\<close>

definition answers :: "('e, 'a) tx \<Rightarrow> bool" where
  "answers m \<longleftrightarrow> (\<forall>s. (\<forall>n. env_fault (tx_env s) n = None) \<longrightarrow>
     (\<exists>x s'. m s = Inr (x, s') \<and> tx_env s' = tx_env s))"

lemma answersE:
  assumes "answers m" "\<forall>n. env_fault (tx_env s) n = None"
  obtains x s' where "m s = Inr (x, s')" "tx_env s' = tx_env s"
  using assms unfolding answers_def by blast

named_theorems answers_rules

lemma answers_return [answers_rules]: "answers (tx_return x)"
  by (simp add: answers_def tx_return_def)

lemma answers_bind [answers_rules]:
  assumes "answers m" "\<And>x. answers (f x)"
  shows "answers (tx_bind m f)"
  unfolding answers_def
proof (intro allI impI)
  fix s :: tx_state
  assume "\<forall>n. env_fault (tx_env s) n = None"
  with assms(1) obtain x t where t: "m s = Inr (x, t)" "tx_env t = tx_env s"
    "\<forall>n. env_fault (tx_env t) n = None"
    by (metis answersE)
  with assms(2) obtain y u where "f x t = Inr (y, u)" "tx_env u = tx_env t"
    by (metis answersE)
  with t show "\<exists>x s'. tx_bind m f s = Inr (x, s') \<and> tx_env s' = tx_env s"
    by (simp add: tx_bind_def)
qed

lemma answers_select [answers_rules]: "answers (select f)"
  by (simp add: answers_def select_def tx_map_err_def query_def sql_def)

lemma answers_select_lines [answers_rules]: "answers (select_lines rows line)"
  unfolding select_lines_def by (intro answers_rules)

lemma answers_concat [answers_rules]: "\<forall>m \<in> set ms. answers m \<Longrightarrow> answers (tx_concat ms)"
  by (induction ms) (auto intro!: answers_rules)

lemma answers_export_loop [answers_rules]: "answers (export_loop table key line after)"
proof -
  have "\<exists>x s'. export_loop table key line after s = Inr (x, s') \<and> tx_env s' = tx_env s"
    if "\<forall>n. env_fault (tx_env s) n = None" for s
    using that
  proof (induction table key line after s rule: export_loop.induct)
    case (1 table key line after s)
    obtain rows t where sel: "select (page table key after) s = Inr (rows, t)" "tx_env t = tx_env s"
      using answersE [OF answers_select "1.prems"] by blast
    show ?case
    proof (cases "length rows < unat export_page_size")
      case True
      with sel show ?thesis by (subst export_loop.simps) simp
    next
      case False
      obtain rest u where "export_loop table key line (key (last rows)) t = Inr (rest, u)" "tx_env u = tx_env t"
        using "1.IH" [OF sel(1) refl False] "1.prems" sel(2) by auto
      with False sel show ?thesis by (subst export_loop.simps) simp
    qed
  qed
  then show ?thesis by (simp add: answers_def)
qed

lemma answers_diagnostic_export: "answers (diagnostic_export (Inr bytes) f incl)"
proof -
  have "answers (tx_lift (map_err g (Inr b :: string + u64)) :: (error, u64) tx)" for g b
    by (simp add: answers_def tx_lift_def)
  then have "answers (stats (Inr bytes) f)"
    unfolding stats_def by (intro answers_rules)
  moreover have "answers (export_tables incl)"
    unfolding export_tables_def export_transactions_def export_events_def export_streams_def
      export_projections_def export_jobs_def export_partitions_def export_claim_receipts_def
    by (intro answers_rules) (auto intro!: answers_rules)
  ultimately show ?thesis
    unfolding diagnostic_export_def by (intro answers_rules)
qed

lemma answers_query [answers_rules]: "answers (query (\<lambda>d. Inr (f d)))"
  by (simp add: answers_def query_def sql_def)

lemma answers_map_err [answers_rules]: "answers m \<Longrightarrow> answers (tx_map_err g m)"
  by (fastforce simp: answers_def tx_map_err_def)

lemma answers_status [answers_rules]: "answers (status f)"
proof -
  have "answers (status_queries f ms)" for ms
    by (induction ms) (auto intro!: answers_rules)
  then show ?thesis by (simp add: status_def)
qed

lemma answers_verify: "answers (verify p f)"
  unfolding verify_def verify_checks_def semantic_checks_def select_findings_def checksum_findings_def
    no_migrations_finding_def
  by (intro answers_rules) (auto intro!: answers_rules)

end
