(* ===== verification/Facade_Results.thy ===== *)
theory Facade_Results
  imports Facade_Ops Export_Results Claim_Results
begin

text \<open>What the operational methods of the facade answer on a store.\<close>

lemma with_reader_healthy:
  assumes "pool_take None (store_readers st) = (Inr conn, pool)"
  shows "with_reader None e m st =
    (run_reads conn e m (store_db st), st\<lparr>store_readers := pool_put conn pool\<rparr>)"
  using assms by (simp add: with_reader_def)

lemma pool_take_None: "\<exists>conn pool. pool_take None p = (Inr conn, pool)"
  by (simp add: pool_take_def open_reader_def)

text \<open>An answer of a reader is what its computation yields on the store's database.\<close>

lemma with_reader_yields:
  assumes "with_reader opn e m st = (Inr x, st')"
  shows "\<exists>b. tx_yields m (store_db st) x b"
  using assms run_reads_yields
  by (fastforce simp: with_reader_def split: prod.splits sum.splits)

lemma with_reader_db: "store_db (snd (with_reader opn e m st)) = store_db st"
  by (simp add: with_reader_def split: prod.split sum.split)

lemma with_reader_answers:
  assumes "answers m" "\<forall>n. env_fault e n = None"
  shows "\<exists>x st'. with_reader None e m st = (Inr x, st')"
proof -
  obtain conn pool where take: "pool_take None (store_readers st) = (Inr conn, pool)"
    using pool_take_None by blast
  have "\<forall>n. env_fault (tx_env (tx_start (on_connection conn e) (store_db st))) n = None"
    using assms(2) by (simp add: tx_start_def on_connection_def)
  with assms(1) obtain x s where "m (tx_start (on_connection conn e) (store_db st)) = Inr (x, s)"
    by (metis answersE)
  then show ?thesis
    by (simp add: with_reader_healthy [OF take] run_reads_def)
qed

lemma up_to_date_checksums:
  assumes "up_to_date f"
  shows "status_each migrations f \<noteq> [] \<and> checksums_ok f"
proof -
  have "checked f migration_1" "checked f migration_2"
    using assms by (simp_all add: up_to_date_def migrations_def)
  then show ?thesis
    by (auto simp: checksums_ok_def migrations_def checked_def status_of_def)
qed

lemma with_reader_blind:
  assumes "blind incl m"
  shows "fst (with_reader opn e m (st\<lparr>store_db := redact incl (store_db st)\<rparr>)) = fst (with_reader opn e m st)"
proof -
  have "run_reads conn e m (redact incl d) = run_reads conn e m d" for conn d
  proof -
    have "tx_start (on_connection conn e) (redact incl d) = redact_state incl (tx_start (on_connection conn e) d)"
      by (simp add: tx_start_def redact_state_def)
    with assms show ?thesis
      by (cases "m (tx_start (on_connection conn e) d)") (auto simp: run_reads_def blind_def)
  qed
  then show ?thesis
    by (simp add: with_reader_def split: prod.split sum.split)
qed

lemma with_reader_same_file:
  assumes "store_db s = store_db t" "store_readers s = store_readers t"
  shows "fst (with_reader opn e m s) = fst (with_reader opn e m t)"
  using assms by (simp add: with_reader_def split: prod.split sum.split)

lemma healthy_up_to_date:
  assumes "healthy_migration e" "up_to_date f"
  shows "migrate e f = (Inr (), f)"
proof -
  have agrees: "schema_agrees f" and checked: "\<forall>m \<in> set migrations. checked f m"
    and v2: "\<exists>d. file_schema f = Schema_V2 d"
    using assms(2) by (simp_all add: up_to_date_def)
  have none: "pending f = []"
    using checked by (auto simp: pending_def checked_def filter_empty_conv)
  have "List.find (mismatched f) migrations = None"
    using checked by (auto simp: find_None_iff mismatched_def checked_def)
  moreover have "upgraded e f = f"
  proof -
    have "schema_migrations f \<noteq> None"
    proof
      assume "schema_migrations f = None"
      then have "find_applied 1 f = None"
        by (simp add: find_applied_def applied_rows_def)
      moreover have "find_applied 1 f \<noteq> None"
        using v2 find_applied_schemas(3) [OF agrees] by blast
      ultimately show False by simp
    qed
    with v2 none show ?thesis
      by (cases f) (auto simp: upgraded_def create_migrations_table_def applied_rows_def)
  qed
  ultimately show ?thesis
    using migrate_exact [OF assms(1) agrees] none by simp
qed

lemma healthy_empty:
  assumes "healthy_migration e"
  shows "migrate e empty_file = (Inr (), upgraded e empty_file)"
    and "schema_db (file_schema (upgraded e empty_file)) = empty_db"
proof -
  have "List.find (mismatched empty_file) migrations = None"
    by (simp add: find_None_iff mismatched_def find_applied_def empty_file_def applied_rows_def)
  moreover have "checks_hold empty_db"
    by (simp add: checks_hold_def empty_db_def)
  ultimately show "migrate e empty_file = (Inr (), upgraded e empty_file)"
    using migrate_exact [OF assms schema_agrees_empty] by (simp add: empty_file_def)
  show "schema_db (file_schema (upgraded e empty_file)) = empty_db"
    by (simp add: upgraded_def empty_file_def)
qed


section \<open>Reads leave the database\<close>

text \<open>
  \<open>run_reads\<close> and \<open>with_reader\<close> keep no database. They need none: a connection of the pool is read-only, and every
  read of the facade is built of statements that leave the tables on such a connection.
\<close>

lemma pooled_read_leaves_db:
  assumes "reads_only m" "m (tx_start (on_connection Read_Only e) d) = Inr (x, s)"
  shows "tx_db s = d"
proof -
  have "env_read_only (tx_env (tx_start (on_connection Read_Only e) d))" "tx_db (tx_start (on_connection Read_Only e) d) = d"
    by (simp_all add: tx_start_def on_connection_def)
  with assms show ?thesis
    unfolding reads_only_def by metis
qed

lemma reads_only_events:
  "reads_only (events_after a l)" "reads_only (stream_events s v l)" "reads_only (last_events l)"
  "reads_only (get_event i)" "reads_only (stream_version s)"
  unfolding events_after_def stream_events_def last_events_def get_event_def stream_version_def
  by (auto intro!: read_only)

lemma reads_only_projections:
  "reads_only (projection_version p)" "reads_only (projection_get p k)"
  "reads_only (projection_scan_prefix p pre l)" "reads_only projections_list"
  unfolding projection_version_def version_query_def projection_get_def projection_scan_prefix_def
    projection_scan_prefix_page_def scan_def projections_list_def
  by (auto intro!: read_only)

lemma reads_only_jobs:
  "reads_only (get_job i)" "reads_only (list_jobs q st l)" "reads_only (list_jobs_page q st a l)"
  unfolding get_job_def list_jobs_def list_jobs_page_def
  by (auto intro!: read_only)

lemma reads_only_select [read_only]: "reads_only (select f)"
  unfolding select_def by (intro read_only)

lemma reads_only_concat [read_only]: "(\<And>m. m \<in> set ms \<Longrightarrow> reads_only m) \<Longrightarrow> reads_only (tx_concat ms)"
  by (induction ms) (auto intro!: read_only)

lemma reads_only_findings [read_only]: "reads_only (select_findings rows describe)"
  unfolding select_findings_def by (intro read_only)

lemma reads_only_status [read_only]: "reads_only (status f)"
proof -
  have "reads_only (status_queries f ms)" for ms
    by (induction ms) (auto intro!: read_only split: option.split)
  then show ?thesis
    by (auto simp: status_def intro!: read_only)
qed

lemma reads_only_verify: "reads_only (verify p f)"
  unfolding verify_def verify_checks_def semantic_checks_def checksum_findings_def no_migrations_finding_def
  by (auto intro!: read_only)

lemma reads_only_stats [read_only]: "reads_only (stats sz f)"
  unfolding stats_def by (intro read_only)

lemma export_loop_leaves_db:
  assumes "export_loop table key line after s = Inr (x, s')" "env_read_only (tx_env s)"
  shows "tx_db s' = tx_db s \<and> tx_env s' = tx_env s"
  using assms
proof (induction table key line after s arbitrary: x rule: export_loop.induct)
  case (1 table key line after s)
  note loop = "1.prems"(1) [unfolded export_loop.simps [of table key line after s]]
  obtain rows t where sel: "select (page table key after) s = Inr (rows, t)"
    using loop by (auto split: sum.splits)
  have t: "tx_db t = tx_db s \<and> tx_env t = tx_env s"
    using sel "1.prems"(2) reads_only_select unfolding reads_only_def by metis
  show ?case
  proof (cases "length rows < unat export_page_size")
    case True
    with loop sel t show ?thesis by simp
  next
    case False
    then obtain rest where "export_loop table key line (key (last rows)) t = Inr (rest, s')"
      using loop sel by (auto split: sum.splits)
    then show ?thesis
      using "1.IH" [OF sel refl False] t "1.prems"(2) by simp
  qed
qed

lemma reads_only_export_loop [read_only]: "reads_only (export_loop table key line after)"
  unfolding reads_only_def using export_loop_leaves_db by blast

lemma reads_only_export: "reads_only (diagnostic_export sz f incl)"
  unfolding diagnostic_export_def export_tables_def export_transactions_def export_events_def export_streams_def
    export_projections_def export_jobs_def export_partitions_def export_claim_receipts_def select_lines_def
  by (auto intro!: read_only)

end
