(* ===== verification/Command_Results.thy ===== *)
theory Command_Results
  imports Command_Text Facade_Results
begin

text \<open>
  What the command line writes and reads: the files an invocation can change, and that it accepts as
  arguments the values that it prints.
\<close>

section \<open>Which files a command changes\<close>

text \<open>
  \<open>writes_only W m\<close>: \<open>m\<close> changes no file outside \<open>W\<close>, whatever store and database it runs on. A command that
  inspects makes only calls that leave the tables (\<open>leaves_db\<close>).
\<close>

definition writes_only :: "string set \<Rightarrow> 'a cli \<Rightarrow> bool" where
  "writes_only W m \<longleftrightarrow> (\<forall>s r s' path. m s = (r, s') \<longrightarrow> path \<notin> W \<longrightarrow> cs_files s' path = cs_files s path)"

lemma writes_onlyD:
  "writes_only W m \<Longrightarrow> m s = (r, s') \<Longrightarrow> path \<notin> W \<Longrightarrow> cs_files s' path = cs_files s path"
  unfolding writes_only_def by blast

definition leaves_db :: "(open_outcome \<Rightarrow> env \<Rightarrow> store \<Rightarrow> ('e + 'a) \<times> store) \<Rightarrow> bool" where
  "leaves_db op \<longleftrightarrow> (\<forall>opn e st. store_db (snd (op opn e st)) = store_db st)"

lemma leaves_db_reader:
  "leaves_db (\<lambda>opn e. with_reader opn e m)"
  "leaves_db (\<lambda>opn e. store_verify opn e pr f)" "leaves_db (\<lambda>opn e. store_stats_of opn e sz f)"
  "leaves_db (\<lambda>opn e. store_migrations_status opn e f)"
  "leaves_db (\<lambda>opn e. store_diagnostic_export_with opn e sz f incl)"
  by (simp_all add: leaves_db_def with_reader_db store_verify_def store_stats_of_def store_migrations_status_def
      store_diagnostic_export_with_def)

lemma write_through_same: "store_db st' = store_db st \<Longrightarrow> write_through path st st' fs = fs"
  by (simp add: write_through_def)

lemma write_through_elsewhere: "path' \<noteq> path \<Longrightarrow> write_through path st st' fs path' = fs path'"
  by (simp add: write_through_def split: option.split content.split)

lemma settle_elsewhere: "path' \<notin> side_paths path \<Longrightarrow> settle ce path fs path' = fs path'"
  by (simp add: settle_def)

named_theorems files_rules

lemma writes_only_return [files_rules]: "writes_only W (cli_return x)"
  by (simp add: writes_only_def cli_return_def)

lemma writes_only_lift [files_rules]: "writes_only W (cli_lift r)"
  by (simp add: writes_only_def cli_lift_def)

lemma writes_only_fail [files_rules]: "writes_only W (cli_fail e)"
  unfolding cli_fail_def by (rule files_rules)

lemma writes_only_print [files_rules]: "writes_only W (cli_print ls)"
  by (auto simp: writes_only_def cli_print_def)

lemma writes_only_bind [files_rules]:
  assumes "writes_only W m" "\<And>x. writes_only W (f x)"
  shows "writes_only W (cli_bind m f)"
  unfolding writes_only_def
proof (intro allI impI)
  fix s r s' path
  assume run: "cli_bind m f s = (r, s')" and path: "path \<notin> W"
  obtain a t where m: "m s = (a, t)" by fastforce
  have t: "cs_files t path = cs_files s path"
    using writes_onlyD [OF assms(1) m path] .
  show "cs_files s' path = cs_files s path"
  proof (cases a)
    case (Inl e)
    with run m t show ?thesis by (simp add: cli_bind_def)
  next
    case (Inr x)
    with run m have "f x t = (r, s')" by (simp add: cli_bind_def)
    from writes_onlyD [OF assms(2) this path] t show ?thesis by simp
  qed
qed

lemma writes_only_if [files_rules]:
  "writes_only W m \<Longrightarrow> writes_only W n \<Longrightarrow> writes_only W (if b then m else n)"
  by simp

lemma writes_only_option [files_rules]:
  "writes_only W m \<Longrightarrow> (\<And>x. writes_only W (f x)) \<Longrightarrow> writes_only W (case v of None \<Rightarrow> m | Some x \<Rightarrow> f x)"
  by (simp split: option.split)

lemma writes_only_prod [files_rules]:
  "(\<And>x y. writes_only W (f x y)) \<Longrightarrow> writes_only W (case p of (x, y) \<Rightarrow> f x y)"
  by (simp split: prod.split)

lemma writes_only_facade: "leaves_db op \<Longrightarrow> writes_only W (facade_call ce op fail)"
  by (auto simp: writes_only_def facade_call_def leaves_db_def split_def Let_def write_through_same)

lemmas writes_only_readers [files_rules] = leaves_db_reader [THEN writes_only_facade]

lemma writes_only_reads [files_rules]:
  "writes_only W (read_call ce m)" "writes_only W (storage_read ce n)"
  "writes_only W (positional p i message)" "writes_only W (verify_call ce f)" "writes_only W (status_call ce f)"
  unfolding storage_read_def read_call_def positional_def verify_call_def status_call_def
  by (rule files_rules)+

lemma writes_only_report [files_rules]: "writes_only W (report_findings ok r)"
  unfolding report_findings_def by (intro files_rules)

lemma store_backup_files:
  assumes "store_backup opn e f dest overwrite (st, fs) = (r, st', fs')" "path \<noteq> dest"
  shows "fs' path = fs path"
  using assms backup_elsewhere [of e f dest overwrite fs _ _ path]
  by (auto simp: store_backup_def split: prod.splits sum.splits)

lemma store_backup_db:
  "store_backup opn e f dest overwrite (st, fs) = (r, st', fs') \<Longrightarrow> store_db st' = store_db st"
  by (auto simp: store_backup_def Let_def writer_connection_def split: prod.splits sum.splits option.splits if_splits)

lemma writes_only_backup: "writes_only (insert dest (side_paths dest)) (backup_call ce f dest overwrite)"
  by (auto simp: writes_only_def backup_call_def settle_elsewhere write_through_same [OF store_backup_db]
      dest: store_backup_files split: prod.splits)

lemma writes_only_write_file: "writes_only {path} (write_file ce path)"
  by (auto simp: writes_only_def write_file_def split: option.splits if_splits)

text \<open>The file that a command may write, and the databases that it opens.\<close>

fun output_of :: "parsed \<Rightarrow> command \<Rightarrow> string set" where
  "output_of p (Backup dest) = {dest}"
| "output_of p Diagnostic_Export = set_option (arg_out p)"
| "output_of p Jobs_Resolve = {arg_db p}"
| "output_of p _ = {}"

fun opened_by :: "parsed \<Rightarrow> command \<Rightarrow> string set" where
  "opened_by p (Backup dest) = {arg_db p, dest}"
| "opened_by p _ = {arg_db p}"

lemma writes_only_mono: "writes_only V m \<Longrightarrow> V \<subseteq> W \<Longrightarrow> writes_only W m"
  unfolding writes_only_def by blast

lemma run_command_files: "writes_only (output_of p c \<union> \<Union> (side_paths ` opened_by p c)) (run_command ce f p c)"
proof (cases c)
  case (Backup dest)
  then show ?thesis
    by (auto simp: cmd_backup_def intro!: files_rules writes_only_mono [OF writes_only_backup])
next
  case Diagnostic_Export
  then show ?thesis
    by (cases "arg_out p") (auto simp: cmd_diagnostic_export_def intro!: files_rules writes_only_mono [OF writes_only_write_file])
qed (simp_all add: cmd_doctor_def cmd_verify_def cmd_stats_def cmd_events_tail_def cmd_events_stream_def
    cmd_projections_list_def cmd_projections_scan_def cmd_projections_get_def cmd_jobs_list_def
    cmd_jobs_show_def cmd_jobs_uncertain_def cmd_migrations_status_def Let_def; intro files_rules)+

text \<open>The file that an invocation may write, and the databases it opens, read off its arguments.\<close>

definition output_path :: "string list \<Rightarrow> string set" where
  "output_path args =
     (case parse (tl (strip_store args)) of
        Inl _ \<Rightarrow> {}
      | Inr p \<Rightarrow> (case command_of (hd (strip_store args)) (first_positional p) of
            None \<Rightarrow> {} | Some c \<Rightarrow> output_of p c))"

definition opened_paths :: "string list \<Rightarrow> string set" where
  "opened_paths args =
     (case parse (tl (strip_store args)) of
        Inl _ \<Rightarrow> {}
      | Inr p \<Rightarrow> (case command_of (hd (strip_store args)) (first_positional p) of
            None \<Rightarrow> {} | Some c \<Rightarrow> opened_by p c))"

text \<open>\<open>jobs resolve\<close> writes through to the database it opened.\<close>

definition writes_store :: "'a cli \<Rightarrow> bool" where
  "writes_store m \<longleftrightarrow> (\<forall>s r s'. m s = (r, s') \<longrightarrow>
     cs_path s' = cs_path s \<and> (\<forall>path. path \<noteq> cs_path s \<longrightarrow> cs_files s' path = cs_files s path))"

named_theorems store_rules

lemma writes_store_facade [store_rules]: "writes_store (facade_call ce op fail)"
  by (auto simp: writes_store_def facade_call_def Let_def split_def write_through_elsewhere)

lemma writes_store_read [store_rules]: "writes_store (read_call ce m)"
  unfolding read_call_def by (rule store_rules)

lemma writes_store_basic [store_rules]:
  "writes_store (cli_lift r)" "writes_store (cli_fail e)" "writes_store (cli_print ls)"
  by (auto simp: writes_store_def cli_lift_def cli_fail_def cli_print_def)

lemma writes_store_bind [store_rules]:
  assumes "writes_store m" "\<And>x. writes_store (f x)"
  shows "writes_store (cli_bind m f)"
  unfolding writes_store_def
proof (intro allI impI)
  fix s r s'
  assume run: "cli_bind m f s = (r, s')"
  obtain a t where m: "m s = (a, t)" by fastforce
  have t: "cs_path t = cs_path s \<and> (\<forall>path. path \<noteq> cs_path s \<longrightarrow> cs_files t path = cs_files s path)"
    using assms(1) m unfolding writes_store_def by blast
  show "cs_path s' = cs_path s \<and> (\<forall>path. path \<noteq> cs_path s \<longrightarrow> cs_files s' path = cs_files s path)"
  proof (cases a)
    case (Inl e)
    with run m t show ?thesis by (simp add: cli_bind_def)
  next
    case (Inr x)
    with run m have "f x t = (r, s')" by (simp add: cli_bind_def)
    then have "cs_path s' = cs_path t \<and> (\<forall>path. path \<noteq> cs_path t \<longrightarrow> cs_files s' path = cs_files t path)"
      using assms(2) unfolding writes_store_def by blast
    with t show ?thesis by simp
  qed
qed

lemma writes_store_resolve: "writes_store (cmd_jobs_resolve ce raw i res)"
  unfolding cmd_jobs_resolve_def by (auto intro!: store_rules)

lemma jobs_resolve_files:
  assumes "jobs_resolve ce p fs = (r, out, fs')" "path \<noteq> arg_db p" "path \<notin> side_paths (arg_db p)"
  shows "fs' path = fs path"
  using assms writes_store_resolve
  by (fastforce simp: jobs_resolve_def cli_start_def writes_store_def settle_elsewhere
      split: sum.splits prod.splits option.splits)

lemma opened_by_db: "arg_db p \<in> opened_by p c"
  by (cases c) simp_all

lemma inspect_files:
  assumes "inspect ce p c fs = (r, out, fs')" "path \<notin> output_of p c" "path \<notin> \<Union> (side_paths ` opened_by p c)"
  shows "fs' path = fs path"
proof -
  have "path \<notin> output_of p c \<union> \<Union> (side_paths ` opened_by p c)"
    using assms(2, 3) by simp
  note files = writes_onlyD [OF run_command_files _ this]
  have "path \<notin> side_paths (arg_db p)"
    using assms(3) opened_by_db by blast
  then show ?thesis
    using assms(1) files
    by (fastforce simp: inspect_def cli_start_def settle_elsewhere split: sum.splits prod.splits option.splits)
qed

lemma run_files:
  assumes "run ce args fs = (r, out, fs')" "path \<notin> output_path args" "path \<notin> \<Union> (side_paths ` opened_paths args)"
  shows "fs' path = fs path"
  using assms inspect_files jobs_resolve_files
  by (auto simp: run_def output_path_def opened_paths_def Let_def split: sum.splits option.splits if_splits)

section \<open>Usage errors and missing files\<close>

text \<open>\<open>no_usage m\<close>: \<open>m\<close> does not end in a usage error.\<close>

definition no_usage :: "'a cli \<Rightarrow> bool" where
  "no_usage m \<longleftrightarrow> (\<forall>s u s'. m s \<noteq> (Inl (Cli_Usage u), s'))"

named_theorems usage_rules

lemma no_usage_print [usage_rules]: "no_usage (cli_print ls)"
  by (simp add: no_usage_def cli_print_def)

lemma no_usage_bind [usage_rules]:
  assumes "no_usage m" "\<And>x. no_usage (f x)"
  shows "no_usage (cli_bind m f)"
  using assms by (auto simp: no_usage_def cli_bind_def split: prod.splits sum.splits)

lemma no_usage_facade [usage_rules]: "no_usage (facade_call ce op fail)"
  by (auto simp: no_usage_def facade_call_def Let_def map_err_Inl split: prod.splits)

lemma no_usage_calls [usage_rules]:
  "no_usage (read_call ce m)" "no_usage (status_call ce f)" "no_usage (backup_call ce f dest ov)"
  "no_usage (write_file ce path)"
  unfolding read_call_def status_call_def
  by (rule usage_rules)+
     (auto simp: no_usage_def backup_call_def write_file_def map_err_Inl split: prod.splits option.splits)

lemma no_usage_resolve: "no_usage (cmd_jobs_resolve ce raw i res)"
proof -
  have "no_usage (cli_fail (Cli_Not_Found e) :: unit cli)"
    "no_usage (cli_lift (map_err (\<lambda>e. Cli_Op (Op_Error e)) r) :: id cli)" for e r
    by (auto simp: no_usage_def cli_fail_def cli_lift_def map_err_Inl)
  then show ?thesis
    unfolding cmd_jobs_resolve_def
    by (intro usage_rules) (auto intro!: usage_rules)
qed

lemma no_usage_output:
  assumes "output_of p c \<noteq> {}" "c \<noteq> Jobs_Resolve"
  shows "no_usage (run_command ce f p c)"
  using assms
  by (cases c)
     (auto simp: cmd_backup_def cmd_diagnostic_export_def intro!: usage_rules split: option.split)

text \<open>A usage error leaves every file but those of SQLite as it was, and a missing database every file.\<close>

lemma inspect_usage:
  assumes "inspect ce p c fs = (Inl (Cli_Usage u), out, fs')" "c \<noteq> Jobs_Resolve"
    and "path \<notin> \<Union> (side_paths ` opened_by p c)"
  shows "fs' path = fs path"
proof (cases "output_of p c = {}")
  case True
  then show ?thesis
    using inspect_files [OF assms(1) _ assms(3)] by auto
next
  case False
  with assms no_usage_output [OF False assms(2)] show ?thesis
    by (auto simp: inspect_def no_usage_def split: option.splits sum.splits prod.splits)
qed

lemma jobs_resolve_usage:
  "jobs_resolve ce p fs = (Inl (Cli_Usage u), out, fs') \<Longrightarrow> fs' = fs"
  using no_usage_resolve
  by (auto simp: jobs_resolve_def no_usage_def split: option.splits sum.splits prod.splits)

lemma run_usage:
  "run ce args fs = (Inl (Cli_Usage u), out, fs') \<Longrightarrow> path \<notin> \<Union> (side_paths ` opened_paths args) \<Longrightarrow>
     fs' path = fs path"
  using inspect_usage
  by (auto dest!: jobs_resolve_usage simp: run_def opened_paths_def Let_def split: option.splits sum.splits if_splits)

lemma run_missing:
  assumes "parse (tl (strip_store args)) = Inr p" "fs (arg_db p) = None"
    and "args \<noteq> []" "hd args \<noteq> ''--help''" "hd args \<noteq> ''help''"
  shows "snd (snd (run ce args fs)) = fs"
  using assms
  by (simp add: run_def Let_def inspect_def jobs_resolve_def split: option.split sum.split prod.split)

section \<open>Arguments that the command line has printed\<close>

lemma digit_value_digit: "v < 10 \<Longrightarrow> digit_value (char_of (48 + v)) = Some v"
  by (simp add: digit_value_def Let_def)

lemma parse_digits_snoc:
  "parse_digits acc (s @ [c]) = (case parse_digits acc s of None \<Rightarrow> None
     | Some n \<Rightarrow> map_option (\<lambda>v. 10 * n + v) (digit_value c))"
  by (induction s arbitrary: acc) (simp_all split: option.split)

lemma parse_digits_show: "parse_digits 0 (show_nat n) = Some n"
proof (induction n rule: show_nat.induct)
  case (1 n)
  show ?case
  proof (cases "n < 10")
    case True
    then show ?thesis
      by (subst show_nat.simps) (simp add: digit_value_digit)
  next
    case False
    have "parse_digits 0 (show_nat (n div 10) @ [char_of (48 + n mod 10)]) = Some n"
      using 1 [OF False] by (simp add: parse_digits_snoc digit_value_digit)
    with False show ?thesis
      by (subst show_nat.simps) simp
  qed
qed

lemma show_nat_digits: "show_nat n \<noteq> [] \<and> (\<forall>c \<in> set (show_nat n). digit_value c \<noteq> None)"
proof (induction n rule: show_nat.induct)
  case (1 n)
  then show ?case
    by (subst (1 2) show_nat.simps) (auto simp: digit_value_digit)
qed

lemma parse_show_u64: "parse_u64 (show_u64 w) = Some w"
proof -
  let ?s = "show_nat (unat w)"
  obtain c t where s: "?s = c # t"
    using show_nat_digits [of "unat w"] by (cases ?s) auto
  have "digit_value (CHR ''+'') = None"
    by (simp add: digit_value_def)
  then have "c \<noteq> CHR ''+''"
    using show_nat_digits [of "unat w"] s by auto
  moreover have "unat w < 2 ^ 64"
    using unsigned_less [of w, where 'a = nat] by simp
  ultimately show ?thesis
    using parse_digits_show [of "unat w"] s by (simp add: parse_u64_def show_u64_def)
qed

lemma parse_hex_pairs_hex: "parse_hex_pairs (str_bytes (hex bs)) = Some bs"
  by (induction bs)
     (simp_all add: str_bytes_def hex_Cons hex_value_digit unat_high_nibble unat_low_nibble nibbles_join)

lemma parse_state_debug: "parse_state (job_state_debug s) = Inr s"
  by (cases s; simp only:; code_simp)

lemma parse_state_name: "parse_state (job_state_name s) =
    (if s = RetryWait then Inl (Cli_Usage (Unknown_Job_State ''retry_wait'')) else Inr s)"
  by (cases s; simp only:; code_simp)

section \<open>The texts\<close>

text \<open>Where a printed line has a value that the next invocation takes as an argument.\<close>

lemma printed_next: "butlast (drop 14 (printed_text (Print_Next w))) = show_u64 w"
  by (simp add: line_def)

lemma printed_entry_key: "take (2 * length k) (printed_text (Print_Entry k v)) = hex k"
  by (simp add: line_def)

lemma printed_row_id: "take 32 (printed_text (Print_Job_Row j)) = to_hex (info_job_id j)"
  using length_to_hex [of "info_job_id j"] by (simp add: line_def)

lemma stderr_empty: "exit_code (r, out, fs) = 0 \<longleftrightarrow> stderr_text driver (r, out, fs) = []"
proof (cases r)
  case (Inl e)
  then show ?thesis
    by (cases e) (simp_all add: exit_code_def stderr_text_def line_def)
qed (simp add: exit_code_def stderr_text_def)

text \<open>A string printed with \<open>{:?}\<close> stays on its line, whatever it contains.\<close>

lemma hex_digit_one_line: "n < 16 \<Longrightarrow> hex_digits ! n \<noteq> CHR 0x0A"
  using nth_mem [of n hex_digits] by (auto simp: hex_digits_def)

lemma debug_char_one_line: "CHR 0x0A \<notin> set (debug_char c)"
proof (cases "of_char c = (10 :: nat)")
  case True
  then show ?thesis by (simp add: backslash_def)
next
  case False
  have "c \<noteq> CHR 0x0A"
    using False by auto
  moreover have "(of_char c :: nat) < 256"
    using of_char_mod_256 [of c, where 'a = nat] by (metis mod_less_divisor zero_less_numeral)
  then have "(of_char c :: nat) div 16 < 16"
    by linarith
  ultimately show ?thesis
    using hex_digit_one_line [of "of_char c", THEN not_sym] hex_digit_one_line [of "of_char c div 16", THEN not_sym]
      hex_digit_one_line [of "of_char c mod 16", THEN not_sym] hex_digit_one_line [of 7, THEN not_sym]
      hex_digit_one_line [of 15, THEN not_sym]
    by (auto simp: backslash_def Let_def)
qed

lemma debug_str_one_line: "CHR 0x0A \<notin> set (debug_str s)"
  using debug_char_one_line by (auto simp: debug_str_def simp del: debug_char.simps)

end
