(* ===== verification/Spec2Isabelle.thy ===== *)
theory Spec2Isabelle
  imports Samples Row_Types Read_Results Projection_Results Command_Results Facade_Results Node_Results Turn_Results
begin

text \<open>
  A model of minisqlite (\<open>src/\<close> of the repository): an embedded store that keeps an event log, keyed
  projections and a job queue in one SQLite file, and changes them in atomic batches.

  Parts and their theories, in the order of their dependencies. Names follow the code.
    Prelude: machine integers at their width (\<open>i64\<close> over a 64-bit word), errors as sums, bytes,
      SQL helpers, and the locale of codecs.
    Identifiers (\<open>id.rs\<close>), Job_States and Job_Types (\<open>jobs.rs\<close>), Errors (\<open>error.rs\<close>), Config
      (\<open>config.rs\<close>), Projection_Types (\<open>projection.rs\<close>, \<open>event.rs\<close>), Transactions
      (\<open>transaction.rs\<close>), Sha256 (\<open>sha256.rs\<close>), Request_Digest (the digest of \<open>transaction.rs\<close>),
      Checksum (the checksum of \<open>store/migrations.rs\<close>): the data types and the pure functions.
    Sequences: columns numbered 1, 2, 3 and so on.
    Database: the tables with their constraints, and computations inside one SQLite transaction.
    Store_Events, Store_Projections, Store_Jobs, Store_Claims, Store_Commit: the files of
      \<open>store/\<close> with these names, every operation on a transaction (\<open>Store_Claims\<close> is the claim part
      of \<open>store/jobs.rs\<close>).
    Store_Facade (\<open>store/mod.rs\<close>, \<open>store/read_pool.rs\<close>): the connections and the public calls; the
      relation \<open>store_step\<close> is one call with its response, or a restart of the process.
    Migrations (\<open>store/migrations.rs\<close>) and Store_Open (\<open>store/mod.rs\<close>, the builder): the file with
      its \<open>schema_migrations\<close> table and schema, and opening it.
    Store_Ops (verify and statistics), Diagnostic_Export, and Facade_Ops (backup and the
      operational methods of the facade): \<open>store/ops.rs\<close>.
    Error_Texts: the Display implementations of \<open>error.rs\<close>.
    Command_Line (\<open>main.rs\<close>): arguments, commands over the facade, files and exit codes; Command_Text: what
      it writes on the standard output and the standard error.
    Node_Bindings (\<open>minisqlite-node/src/lib.rs\<close>): the handle of the Node bindings with its inputs, outputs and error codes.
    Provider_Turn (\<open>examples/synara_provider_turn.rs\<close>): the worker protocol as a client of the facade.
    Job_Specs: what each job operation means, apart from the code's statements: the row it leaves column by
      column (\<open>row_ended\<close>, \<open>row_returned\<close>, \<open>row_enqueued\<close>), the partitions that stay active, and when it is allowed
      (\<open>job_guard\<close>). A batch is the fold of \<open>job_op\<close> over its operations.
    Job_Invariant, Job_Steps, Job_Evolution, Claim_Steps, Commit_Steps, Store_Reads, Store_Invariant,
      Transition_Systems, Store_Runs, Row_Types (every row converts to its type), Store_Recovery, Claim_Progress (fairness and progress of claims), and
      the theories with \<open>_Results\<close> in their name: the lemmas. Samples: inputs of the witnesses.

  SQLite and the operating system are parameters. An environment \<open>env\<close> says which driver calls
  fail, what the random generator draws, and whether COMMIT succeeds, fails with the changes lost,
  or fails with the changes durable; all theorems hold for every environment. That a dropped
  transaction is rolled back and that a failed statement changes nothing is how \<open>run_tx\<close> and \<open>sql\<close>
  are defined; it is SQLite's documented behaviour. The statements of the store are translated to
  list operations on the tables in rowid order; a rowid that no column declares is the position of
  the row. The other parameters are, in the same way: the driver calls and COMMITs of the
  migrations (\<open>migrate_env\<close>), the answers of SQLite's integrity and foreign key checks (\<open>pragmas\<close>),
  the calls of its backup interface (\<open>backup_env\<close>), and for the command line one environment for each
  call of the facade (\<open>cli_env\<close>). The file system is a map from paths to contents; a database is one entry, its
  log included, and what SQLite leaves of its files beside a database (-wal, -shm, -journal) is a parameter of the command line.
  The calls of the command line write the tables of the store through to the entry of the database. A read through the pool keeps no database:
  its connection is read-only, and the \<open>reads_only\<close> lemmas of Facade_Results show that the reads leave the tables there.
  The reads of one call run on one snapshot: the calls are serialised.

  The lemmas. \<open>db_ok\<close> is the invariant of the file: numbered logs, stream versions that
  count events, projection entries with their metadata row, job rows that satisfy the schema
  and decode, at most the head of a partition being in progress, the index of active
  partitions exact, and each live lease recorded in a receipt. Each operation has a lemma that says
  what it does when it succeeds (\<open>_yields\<close>), and each transaction a case rule for its outcomes
  (\<open>commit_cases\<close>, \<open>claim_jobs_cases\<close>, \<open>extend_lease_cases\<close>). The locales are the contracts between
  the layers: \<open>codec\<close> and \<open>exact_codec\<close> for stored values, \<open>tx_invariant\<close> for a transaction and its
  invariant, \<open>evolving_system\<close> for runs of the store; each is interpreted on the model.

  \<open>sound\<close> of Row_Types is the type discipline of the rows: a sound computation keeps a typed database typed and reports
  no row that does not convert. The lemmas about the operational part go by small predicates on computations, each with a rule for every
  combinator: \<open>finds\<close> (a check has no finding exactly when a condition holds of the tables), \<open>writes\<close>
  (an export appends exactly these lines), \<open>answers\<close> (without faults there is a result), \<open>blind\<close> (the
  result does not depend on what \<open>redact\<close> hides), \<open>writes_only\<close> and \<open>no_usage\<close> (a command changes only
  these files, and gives no usage error after it has changed one).

  Bounds. No definition uses fuel: loops of the code are recursions over lists, but for the loop over
  pages of the export, which ends because each full page moves the cursor up (\<open>export_loop\<close>), and the polling loop of
  the worker (\<open>claim_one\<close>), whose value is \<open>None\<close> when it does not end. List lengths are
  naturals; a length that the code casts to a fixed width is cast here.

  Not modelled: the benches, the tests, the flag behind
  the failpoint (whether it is armed is part of the environment), what the pragmas that a connection sets
  change in SQLite, the conversions
  of the napi crate between JavaScript values and the inputs and outputs, the escapes of unprintable characters outside
  ASCII in quoted texts, the lines that the example prints, and the
  concurrency of the mutexes (calls are serialised, as they are by the code's locks).
\<close>

section \<open>Commits\<close>

text \<open>
  C1. A commit is atomic. It either leaves the database as it was, or applies the whole batch:
  exactly one new transaction row with the columns of the batch, the events of the batch in order at the end of the
  log, numbered on without a gap in the log and in their streams, whose versions count them, the
  projection patches in order on the contents and the versions, and its job operations in order on the tables of the
  jobs. These tables are exactly those that the fold of job_op over the operations gives (each enqueue, acknowledgement, failure,
  cancellation, resolution and lease extension with all columns it writes), every operation found the job in a state
  that allows it (job_guard), and the state machine is followed. Every expected stream version held. A success returns the receipt of the row that is in the log; an error
  that is not Indeterminate persisted nothing.
\<close>

theorem commit_atomic:
  assumes "db_ok d"
  shows "case commit e l b d of
      (Inr receipt, d') \<Rightarrow>
        (\<exists>seq. receipt = \<lparr>receipt_transaction_id = batch_transaction_id b, receipt_transaction_sequence = i64_as_u64 seq,
             receipt_committed_at_ms = batch_committed_at_ms b\<rparr> \<and> batch_committed b seq d d') \<or>
        (d' = d \<and> (\<exists>t \<in> set (transactions d). tx_transaction_id t = as_bytes (batch_transaction_id b) \<and>
           tx_request_digest t = request_digest b \<and> receipt = receipt_of_row t))
    | (Inl err, d') \<Rightarrow> d' = d \<or> (\<not> commit_determinate err \<and> (\<exists>seq. batch_committed b seq d d'))"
proof -
  obtain r d' where run: "commit e l b d = (r, d')"
    by (cases "commit e l b d")
  from run assms show ?thesis
    by (cases rule: commit_cases) (auto simp: run receipt_of_row_def transaction_row_def)
qed

theorem commit_atomic_witness:
  "case commit sample_env limits_new sample_batch empty_db of
      (Inr receipt, d') \<Rightarrow>
        (\<exists>seq. receipt = \<lparr>receipt_transaction_id = batch_transaction_id sample_batch,
             receipt_transaction_sequence = i64_as_u64 seq, receipt_committed_at_ms = batch_committed_at_ms sample_batch\<rparr> \<and>
           batch_committed sample_batch seq empty_db d') \<or>
        (d' = empty_db \<and> (\<exists>t \<in> set (transactions empty_db).
           tx_transaction_id t = as_bytes (batch_transaction_id sample_batch) \<and>
           tx_request_digest t = request_digest sample_batch \<and> receipt = receipt_of_row t))
    | (Inl err, d') \<Rightarrow> d' = empty_db \<or>
        (\<not> commit_determinate err \<and> (\<exists>seq. batch_committed sample_batch seq empty_db d'))"
  by (rule commit_atomic [OF db_ok_empty])

text \<open>
  C2. Resubmission is idempotent. Once a batch was answered with a receipt, submitting it again
  after any number of further calls and restarts changes nothing and answers with the same
  receipt, unless the storage fails.
\<close>

theorem resubmission_idempotent:
  assumes "store_ok st"
    and "store_step st (Call (Call_Commit b) (Commit_Result (Inr receipt))) st1"
    and "runs store_step st1 labels st2"
    and "store_step st2 (Call (Call_Commit b) (Commit_Result r)) st3"
  shows "store_db st3 = store_db st2 \<and> (r = Inr receipt \<or> (\<exists>s. r = Inl (CommitError_Storage s)))"
proof -
  obtain opn e where first: "store_commit opn e b st = (Inr receipt, st1)"
    using assms(2) by (auto simp: store_step_Call respond_iff)
  obtain opn' e' where second: "store_commit opn' e' b st2 = (r, st3)"
    using assms(4) by (auto simp: store_step_Call respond_iff)
  note st1 = store_commit_extends [OF first assms(1)]
  note st2 = runs_later [OF assms(3) conjunct1 [OF st1]]
  obtain t where "validate_batch (store_limits st) b = Inr ()" "t \<in> set (transactions (store_db st1))"
    "tx_transaction_id t = as_bytes (batch_transaction_id b)" "tx_request_digest t = request_digest b"
    "receipt = receipt_of_row t"
    using first assms(1) by (rule store_commit_success)
  then show ?thesis
    using resubmitted [OF st2(1) _ _ _ second, of t] st1 st2(2, 3)
    by (auto simp: store_extends_def same_config_def)
qed

theorem resubmission_idempotent_witness:
  "store_step sample_store (Call (Call_Commit sample_batch)
      (Commit_Result (Inr (receipt_of_row (transaction_row sample_batch (I64 1)))))) (sample_store\<lparr>store_db := sample_db\<rparr>) \<and>
   store_db (snd (store_commit None sample_env sample_batch (sample_store\<lparr>store_db := sample_db\<rparr>))) = sample_db"
proof -
  let ?st = "sample_store\<lparr>store_db := sample_db\<rparr>"
  obtain r st3 where again: "store_commit None sample_env sample_batch ?st = (r, st3)"
    by (cases "store_commit None sample_env sample_batch ?st")
  have step: "store_step sample_store (Call (Call_Commit sample_batch)
      (Commit_Result (Inr (receipt_of_row (transaction_row sample_batch (I64 1)))))) ?st"
    using sample_store_commit by (auto simp: store_step_Call respond_iff)
  moreover have "store_step ?st (Call (Call_Commit sample_batch) (Commit_Result r)) st3"
    using again by (auto simp: store_step_Call respond_iff)
  ultimately have "store_db st3 = store_db ?st"
    using resubmission_idempotent [of sample_store, OF _ step runs.stop]
    by (simp add: sample_store_def new_store_ok)
  with step again show ?thesis by simp
qed

text \<open>
  C3. A transaction ID is bound to its content. A valid batch whose ID is in the log with
  another digest is rejected and changes nothing.
\<close>

theorem reused_id_rejected:
  assumes "db_ok d" "t \<in> set (transactions d)" "tx_transaction_id t = as_bytes (batch_transaction_id b)"
    and "tx_request_digest t \<noteq> request_digest b" "validate_batch l b = Inr ()"
    and "commit e l b d = (r, d')"
  shows "d' = d \<and> (r = Inl DuplicateIdWithDifferentContent \<or> (\<exists>s. r = Inl (CommitError_Storage s)))"
  using commit_present [OF assms(6) _ assms(2, 3, 5)] assms(1, 4) by (auto simp: db_ok_def)

theorem reused_id_rejected_witness:
  "\<exists>r. commit sample_env limits_new (sample_batch\<lparr>batch_transaction_id := Id 101\<rparr>) sample_claimed = (r, sample_claimed) \<and>
     (r = Inl DuplicateIdWithDifferentContent \<or> (\<exists>s. r = Inl (CommitError_Storage s)))"
proof -
  let ?b = "sample_batch\<lparr>batch_transaction_id := Id 101\<rparr>"
  let ?t = "claim_transaction_row (Id 101) sample_request 1 (I64 2)"
  obtain r d' where run: "commit sample_env limits_new ?b sample_claimed = (r, d')"
    by (cases "commit sample_env limits_new ?b sample_claimed")
  have "transactions sample_claimed = [transaction_row sample_batch (I64 1), ?t]"
    by (simp add: sample_claimed_def cursor_moved_def granted_def set_job_def claim_inserted_def sample_db_def)
  moreover have "length (tx_request_digest ?t) = 16" "length (request_digest ?b) = 32"
    by (simp_all add: claim_transaction_row_def length_checksum length_request_digest)
  moreover have valid: "validate_batch limits_new ?b = Inr ()"
    by (simp add: validate_batch_def sample_defs limits_new_def limit_defs id_zero_def ensure_def
        patch_validate_def u64_saturating_add_def within_limit_def)
  ultimately have "?t \<in> set (transactions sample_claimed)" "tx_request_digest ?t \<noteq> request_digest ?b"
    by auto
  moreover have "tx_transaction_id ?t = as_bytes (batch_transaction_id ?b)"
    by (simp add: claim_transaction_row_def)
  ultimately show ?thesis
    using reused_id_rejected [OF sample_claimed_ok _ _ _ valid run, of ?t] run by blast
qed

text \<open>
  C4. Recovery of a commit is truthful. After a commit whose outcome is unknown, recovering its
  transaction reports Committed, with the receipt of the batch, when the batch is in the
  database, and Absent when nothing of it is.
\<close>

theorem indeterminate_commit_recovered:
  assumes "store_ok st"
    and "store_step st (Call (Call_Commit b) (Commit_Result (Inl (CommitError_Indeterminate i)))) st1"
    and "store_step st1 (Call (Call_Recover_Transaction (ic_transaction_id i)) (Recovered_Transaction (Inr res))) st2"
  shows "case res of
      TransactionRecovery_Committed receipt \<Rightarrow> \<exists>seq. batch_committed b seq (store_db st) (store_db st2) \<and>
        receipt = receipt_of_row (transaction_row b seq)
    | TransactionRecovery_Absent \<Rightarrow> store_db st2 = store_db st"
proof -
  obtain opn e where call: "store_commit opn e b st = (Inl (CommitError_Indeterminate i), st1)"
    using assms(2) by (auto simp: store_step_Call respond_iff)
  obtain opn' e' where recover: "store_recover_transaction opn' e' (ic_transaction_id i) st1 = (Inr res, st2)"
    using assms(3) by (auto simp: store_step_Call respond_iff)
  from recovery_after_indeterminate [OF call recover assms(1)] show ?thesis .
qed

theorem indeterminate_commit_recovered_witness:
  "\<exists>seq. batch_committed sample_batch seq empty_db sample_db"
proof -
  have "store_step sample_store (Call (Call_Commit sample_batch) (Commit_Result (Inl (CommitError_Indeterminate
      \<lparr>ic_transaction_id = Id 1, ic_storage_error = Failpoint\<rparr>))))
      (sample_store\<lparr>store_writer := None, store_db := sample_db\<rparr>)"
    using sample_store_commit_lost by (auto simp: store_step_Call respond_iff)
  moreover have "store_step (sample_store\<lparr>store_writer := None, store_db := sample_db\<rparr>)
      (Call (Call_Recover_Transaction (Id 1)) (Recovered_Transaction (Inr (TransactionRecovery_Committed
        (receipt_of_row (transaction_row sample_batch (I64 1)))))))
      (sample_store\<lparr>store_db := sample_db\<rparr>)"
    using sample_recover by (auto simp: store_step_Call respond_iff)
  ultimately show ?thesis
    using indeterminate_commit_recovered [of sample_store sample_batch
      "\<lparr>ic_transaction_id = Id 1, ic_storage_error = Failpoint\<rparr>"] new_store_ok
    by (fastforce simp: sample_store_def new_store_def)
qed

text \<open>C5. Everything a store reaches satisfies the invariant of the database and of the pool.\<close>

theorem reachable_store_ok:
  assumes "reachable st"
  shows "db_ok (store_db st) \<and> length (pool_idle (store_readers st)) \<le> unat (pool_max_idle (store_readers st)) \<and>
    (\<forall>c \<in> set (pool_idle (store_readers st)). c = Read_Only)"
  using reachable_ok [OF assms] by (simp add: store_ok_def pool_ok_def)

theorem reachable_store_ok_witness:
  "reachable sample_store \<and> db_ok (store_db sample_store)"
proof -
  have "reachable sample_store"
    unfolding reachable_def sample_store_def by (rule exI)+ (rule runs.stop)
  with reachable_store_ok [OF this] show ?thesis by simp
qed

text \<open>
  C6. The store is sound for the types of its columns. Every row of a reachable store converts: the
  blobs of its identifiers have sixteen bytes, the numbers of states, modes and versions are in range. So no call
  ever reports a row that does not convert, and the only storage errors of a read are failures of the driver: of opening its
  connection or of a call. This holds in every environment, whatever fails.
\<close>

theorem rows_always_convert:
  assumes "reachable st" "perform opn e q st = (r, st')"
  shows "rows_convert (store_db st) \<and> rows_convert (store_db st') \<and>
    (\<forall>s. reported r = Some s \<longrightarrow>
       (if writing q then opn = Some s \<or> \<not> conversion_failed s else driver_failure opn e s))"
proof -
  have ok: "store_ok st" "store_ok st'"
    using reachable_ok [OF assms(1)] perform_extends [OF assms(2)] by auto
  then have "rows_convert (store_db st)" "rows_convert (store_db st')"
    by (simp_all add: store_ok_def db_ok_typed typed_rows_convert)
  then show ?thesis
    using write_reported [OF assms(2) ok(1)] read_reported [OF assms(2) ok(1)] by simp
qed

theorem rows_always_convert_witness:
  "\<exists>r st'. perform None sample_env (Call_Job (Id 20)) (sample_store\<lparr>store_db := sample_db\<rparr>) = (r, st') \<and>
     reported r = None \<and> rows_convert sample_db \<and> jobs sample_db \<noteq> []"
proof -
  obtain r st' where call: "perform None sample_env (Call_Job (Id 20)) (sample_store\<lparr>store_db := sample_db\<rparr>) = (r, st')"
    by fastforce
  have "\<not> driver_failure None sample_env s" for s
    by (simp add: driver_failure_def)
  with rows_always_convert [OF sample_reachable(1) call] have "reported r = None" "rows_convert sample_db"
    by (cases "reported r"; simp)+
  with call show ?thesis by (intro exI conjI) (assumption | simp add: sample_db_def)+
qed

text \<open>
  C7. The logs only grow. Whatever calls and restarts come between two states, the
  transactions and the events of the earlier one are the first ones of the later one, byte for
  byte.
\<close>

theorem logs_only_grow:
  assumes "store_ok st" "runs store_step st labels st'"
  shows "prefix (transactions (store_db st)) (transactions (store_db st')) \<and>
    prefix (events (store_db st)) (events (store_db st'))"
  using system.runs_related [OF assms(2, 1)] by (simp add: store_extends_def db_extends_def)

theorem logs_only_grow_witness:
  "prefix (transactions empty_db) (transactions sample_db) \<and> prefix (events empty_db) (events sample_db)"
proof -
  have "store_step sample_store (Call (Call_Commit sample_batch)
      (Commit_Result (Inr (receipt_of_row (transaction_row sample_batch (I64 1)))))) (sample_store\<lparr>store_db := sample_db\<rparr>)"
    using sample_store_commit by (auto simp: store_step_Call respond_iff)
  from logs_only_grow [OF _ runs.step [where step = store_step, OF this runs.stop]] show ?thesis
    using new_store_ok by (simp add: sample_store_def) (simp add: new_store_def)
qed

text \<open>
  C8. The life of a job. In every later state a job still exists with the specification it was
  enqueued with, its attempts have not decreased, its state is reachable by transitions of the
  state machine, and if it had reached a terminal state its row is unchanged.
\<close>

theorem job_lifecycle:
  assumes "store_ok st" "runs store_step st labels st'" "r \<in> set (jobs (store_db st))"
  shows "\<exists>s \<in> set (jobs (store_db st')). same_spec r s \<and> jobs_attempt r \<le> jobs_attempt s \<and>
    can_transition_to\<^sup>*\<^sup>* (state_of r) (state_of s) \<and> (is_terminal (state_of r) \<longrightarrow> s = r)"
  using system.runs_related [OF assms(2, 1)] assms(3)
  by (auto simp: store_extends_def db_extends_def job_evolves_def row_evolves_def)

theorem job_lifecycle_witness:
  "\<exists>s \<in> set (jobs sample_db). same_spec (new_jobs_row (Id 1) sample_job (I64 1)) s"
  using job_lifecycle [OF _ runs.stop, of "sample_store\<lparr>store_db := sample_db\<rparr>" "new_jobs_row (Id 1) sample_job (I64 1)"]
    sample_db_ok
  by (auto simp: store_ok_def sample_store_def new_store_def sample_db_def)

text \<open>
  C9. A store opened read-only never writes: through a read-only writer connection no call
  changes the file, and the connection is never replaced by one that can write.
\<close>

theorem read_only_store_never_writes:
  assumes "store_ok st" "store_writer st = Some Read_Only"
    and "runs store_step st labels st'" "Reopen \<notin> set labels"
  shows "store_db st' = store_db st \<and> store_writer st' = Some Read_Only"
  using assms(3, 1, 2, 4)
proof (induction rule: runs.induct)
  case (step st l t ls u)
  then obtain q r where "l = Call q r"
    by (cases l) auto
  with step store_step_extends [OF step.hyps(1)] read_only_step [of st q r t] show ?case
    by auto
qed simp

theorem read_only_store_never_writes_witness:
  "store_db (snd (store_commit None sample_env sample_batch
     (sample_store\<lparr>store_writer := Some Read_Only, store_db := sample_db\<rparr>))) = sample_db"
proof -
  let ?st = "sample_store\<lparr>store_writer := Some Read_Only, store_db := sample_db\<rparr>"
  obtain r st' where run: "store_commit None sample_env sample_batch ?st = (r, st')"
    by (cases "store_commit None sample_env sample_batch ?st")
  have step: "store_step ?st (Call (Call_Commit sample_batch) (Commit_Result r)) st'"
    using run by (auto simp: store_step_Call respond_iff)
  have "store_ok ?st"
    using sample_db_ok by (simp add: store_ok_def sample_store_def new_store_def)
  from read_only_store_never_writes [OF this _ runs.step [where step = store_step, OF step runs.stop]] run
  show ?thesis by simp
qed

text \<open>
  C10. Numbering. In every reachable state the transactions and the events are numbered 1, 2, 3
  and so on in the order of the log, the events of each stream have the versions 1, 2, 3 and so
  on, and the version stored for a stream is the number of its events.
\<close>

theorem log_numbering:
  assumes "reachable st"
  shows "map (i64_int \<circ> tx_transaction_sequence) (transactions (store_db st)) =
      map int [1..<Suc (length (transactions (store_db st)))] \<and>
    map (i64_int \<circ> ev_global_sequence) (events (store_db st)) =
      map int [1..<Suc (length (events (store_db st)))] \<and>
    map (i64_int \<circ> ev_stream_version) (history (store_db st) s) =
      map int [1..<Suc (length (history (store_db st) s))] \<and>
    i64_int (stored_version (store_db st) s) = int (length (history (store_db st) s))"
  using reachable_ok [OF assms]
  by (simp add: store_ok_def db_ok_def transactions_ok_def events_ok_def streams_ok_def versions_ok_def
      numbered_def)

theorem log_numbering_witness:
  "i64_int (stored_version (store_db sample_store) ''s'') = int (length (history (store_db sample_store) ''s''))"
proof -
  have "reachable sample_store"
    unfolding reachable_def sample_store_def by (rule exI)+ (rule runs.stop)
  with log_numbering [OF this, of "''s''"] show ?thesis by simp
qed

text \<open>
  C11. Partitions are served in order. Of two unfinished jobs of one partition the one enqueued
  later is Pending: it has never been leased ahead of the earlier one, so at most one job of a
  partition is leased, waits for a retry or is uncertain. And no partition is overlooked: the index of active partitions
  has one row for each partition that has an unfinished job, and no other.
\<close>

theorem partition_in_order:
  assumes "reachable st"
  shows "(\<forall>r \<in> set (jobs (store_db st)). \<forall>s \<in> set (jobs (store_db st)).
      jobs_queue r = jobs_queue s \<and> jobs_partition_key r = jobs_partition_key s \<and>
      \<not> is_terminal (state_of r) \<and> \<not> is_terminal (state_of s) \<and>
      jobs_enqueue_sequence r < jobs_enqueue_sequence s \<longrightarrow> state_of s = Pending) \<and>
    distinct (map fst (active_partitions (store_db st))) \<and>
    (\<forall>q p. (q, p) \<in> fst ` set (active_partitions (store_db st)) \<longleftrightarrow>
       (\<exists>r \<in> set (jobs (store_db st)). jobs_queue r = q \<and> jobs_partition_key r = p \<and> \<not> is_terminal (state_of r)))"
proof -
  have jobs: "jobs_ok (store_db st)"
    using reachable_ok [OF assms] by (simp add: store_ok_def db_ok_def)
  then have parts: "partitions_ok (store_db st)" and rows: "\<forall>r \<in> set (jobs (store_db st)). job_row_ok r"
    by (simp_all add: jobs_ok_def rows_ok_def)
  have "partition_jobs (jobs (store_db st)) q p \<noteq> [] \<longleftrightarrow>
      (\<exists>r \<in> set (jobs (store_db st)). jobs_queue r = q \<and> jobs_partition_key r = p \<and> \<not> is_terminal (state_of r))" for q p
    using rows jobs_active_iff by (auto simp: partition_jobs_def filter_empty_conv is_active_in_def)
  with parts later_is_pending [OF jobs] show ?thesis
    by (simp add: partitions_ok_def)
qed

theorem partition_in_order_witness:
  "state_of (new_jobs_row (Id 2) later_job (I64 2)) = Pending \<and> (''q'', ''p'') \<in> fst ` set (active_partitions later_db)"
proof -
  let ?r = "new_jobs_row (Id 1) sample_job (I64 1)" and ?s = "new_jobs_row (Id 2) later_job (I64 2)"
  have rows: "jobs later_db = [?r, ?s]"
    by (simp add: later_db_def)
  have keys: "jobs_queue ?r = ''q''" "jobs_queue ?s = ''q''" "jobs_partition_key ?r = ''p''" "jobs_partition_key ?s = ''p''"
    "state_of ?r = Pending" "state_of ?s = Pending" "jobs_enqueue_sequence ?r < jobs_enqueue_sequence ?s"
    by (simp_all add: new_jobs_row_def sample_job_def later_job_def job_spec_reconcilable_def job_spec_base_def
        state_of_def job_state_decode_def)
  show ?thesis
    using partition_in_order [OF sample_reachable(2)] rows keys by simp
qed

text \<open>
  C12. Attempts are bounded: no reachable job has run more often than its limit, the counters
  fit in 32 bits, and a job that may still be leased has an attempt left.
\<close>

theorem attempts_bounded:
  assumes "reachable st" "r \<in> set (jobs (store_db st))"
  shows "0 \<le> i64_int (jobs_attempt r) \<and> i64_int (jobs_attempt r) \<le> i64_int (jobs_max_attempts r) \<and>
    i64_int (jobs_max_attempts r) < 2 ^ 32 \<and>
    (state_of r = Pending \<or> state_of r = RetryWait \<longrightarrow> jobs_attempt r < jobs_max_attempts r)"
  using reachable_ok [OF assms(1)] assms(2) job_row_bounds
  by (auto simp: store_ok_def db_ok_def jobs_ok_def rows_ok_def)

theorem attempts_bounded_witness:
  "i64_int (jobs_attempt (new_jobs_row (Id 2) later_job (I64 2))) \<le>
     i64_int (jobs_max_attempts (new_jobs_row (Id 2) later_job (I64 2)))"
  using attempts_bounded [OF sample_reachable(2), of "new_jobs_row (Id 2) later_job (I64 2)"]
  by (simp add: sample_store_def new_store_def later_db_def)

section \<open>Jobs\<close>

text \<open>
  C13. Acknowledging. Where no driver call fails, an acknowledgement with the token of the lease ends the job: its row
  is that of a Succeeded job (no lease, no retry time, the time of the end, the digest of the result where one is
  given, the transaction), its partition stays active only if it has another unfinished job, and nothing else changes.
  Otherwise it changes nothing and reports, in this order, an unknown job, a state that cannot succeed, a stale token.
\<close>

theorem acknowledge_result:
  assumes "healthy s" "db_ok (tx_db s)"
  shows "apply_ack t n a s = (case find_job (ack_job_id a) (tx_db s) of
      None \<Rightarrow> Inl (Error_Validation (JobDoesNotExist (ack_job_id a)))
    | Some r \<Rightarrow>
        if state_of r \<noteq> Leased \<and> state_of r \<noteq> Uncertain
        then Inl (Error_Conflict (Conflict_JobTransition (ack_job_id a) (state_of r) Succeeded))
        else if jobs_lease_token r \<noteq> Some (as_bytes (ack_lease_token a))
        then Inl (Error_Validation (StaleLeaseToken (ack_job_id a)))
        else Inr ((), called 3 (job_ended (ack_job_id a) Succeeded n t (ack_result_digest a) None (tx_db s)) s))"
proof -
  have ok: "jobs_ok (tx_db s)" and rows: "rows_ok (tx_db s)"
    using assms(2) by (simp_all add: db_ok_def jobs_ok_rows)
  note result = apply_ack_result [OF assms(1) rows, of t n a]
  show ?thesis
  proof (cases "find_job (ack_job_id a) (tx_db s)")
    case (Some r)
    then show ?thesis
      using finish_found [OF Some ok] by (simp add: result)
  qed (simp add: result)
qed

theorem acknowledge_result_witness:
  "\<exists>s' r. apply_ack (Id 2) (I64 120) \<lparr>ack_job_id = Id 20, ack_lease_token = Id 100, ack_result_digest = Some [7]\<rparr>
     (tx_start sample_env sample_claimed) = Inr ((), s') \<and> jobs (tx_db s') = [r] \<and> state_of r = Succeeded \<and>
     jobs_result_digest r = Some [7] \<and> jobs_terminal_at_ms r = Some (I64 120) \<and> active_partitions (tx_db s') = []"
  using acknowledge_result [of "tx_start sample_env sample_claimed" "Id 2" "I64 120"
      "\<lparr>ack_job_id = Id 20, ack_lease_token = Id 100, ack_result_digest = Some [7]\<rparr>"] sample_claimed_ok
  by (simp add: sample_find_leased sample_leased_row job_ended_def change_job_def sample_claimed_jobs
      still_active_def ended_unfinished split_def Let_def)

text \<open>
  C14. Failing. A failure report with the token of the lease ends the job as Dead when its
  attempts are used up, at the time of the report, and otherwise sets it to RetryWait until the given time or for the
  default delay of thirty seconds, unless that time overflows; either way the row has the summary of the error and no
  lease. Every other report is an error that changes nothing.
\<close>

theorem failure_result:
  assumes "healthy s" "db_ok (tx_db s)"
  shows "apply_fail t n f s = (case find_job (fail_job_id f) (tx_db s) of
      None \<Rightarrow> Inl (Error_Validation (JobDoesNotExist (fail_job_id f)))
    | Some r \<Rightarrow>
        let to = if jobs_attempt r < jobs_max_attempts r then RetryWait else Dead in
        if state_of r \<noteq> Leased \<and> \<not> (state_of r = Uncertain \<and> to = Dead)
        then Inl (Error_Conflict (Conflict_JobTransition (fail_job_id f) (state_of r) to))
        else if jobs_lease_token r \<noteq> Some (as_bytes (fail_lease_token f))
        then Inl (Error_Validation (StaleLeaseToken (fail_job_id f)))
        else if to = Dead
        then Inr ((), called 3 (job_ended (fail_job_id f) Dead n t None (Some (fail_error_summary f)) (tx_db s)) s)
        else case (case fail_retry_after_ms f of Some m \<Rightarrow> Some m | None \<Rightarrow> i64_checked_add n (I64 30000)) of
          None \<Rightarrow> Inl (Error_Validation DefaultRetryOverflow)
        | Some m \<Rightarrow> Inr ((), called 3
            (job_returned (fail_job_id f) RetryWait (Some m) (Some (fail_error_summary f)) t (tx_db s)) s))"
proof -
  have ok: "jobs_ok (tx_db s)" and rows: "rows_ok (tx_db s)"
    using assms(2) by (simp_all add: db_ok_def jobs_ok_rows)
  note result = apply_fail_result [OF assms(1) ok, of t n f, unfolded default_retry_delay_ms_def]
  show ?thesis
  proof (cases "find_job (fail_job_id f) (tx_db s)")
    case (Some r)
    then show ?thesis
      using finish_found [OF Some ok] return_found [OF Some] by (simp add: result Let_def split: option.split)
  qed (simp add: result)
qed

theorem failure_result_witness:
  "\<exists>s' r. apply_fail (Id 2) (I64 120) \<lparr>fail_job_id = Id 20, fail_lease_token = Id 100, fail_error_summary = ''e'',
      fail_retry_after_ms = Some (I64 500)\<rparr> (tx_start sample_env sample_claimed) = Inr ((), s') \<and>
     jobs (tx_db s') = [r] \<and> state_of r = RetryWait \<and> jobs_retry_after_ms r = Some (I64 500) \<and>
     jobs_error_summary r = Some ''e''"
proof -
  have "jobs_attempt sample_leased < jobs_max_attempts sample_leased"
    by (simp add: sample_leased_row sample_job_def job_spec_reconcilable_def job_spec_base_def i64_from_u32_def)
  with failure_result [of "tx_start sample_env sample_claimed" "Id 2" "I64 120" "\<lparr>fail_job_id = Id 20, fail_lease_token = Id 100,
      fail_error_summary = ''e'', fail_retry_after_ms = Some (I64 500)\<rparr>"] sample_claimed_ok show ?thesis
    by (simp add: sample_find_leased sample_leased_row(2, 3) job_returned_def change_job_def sample_claimed_jobs
        sample_leased_row(1))
qed

text \<open>
  C15. Cancelling. Without a token only a pending job is cancelled, with a token only the leased
  job that holds it. The row is then that of a Cancelled job, and its partition stays active only if it has another
  unfinished job.
\<close>

theorem cancellation_result:
  assumes "healthy s" "db_ok (tx_db s)"
  shows "apply_cancel t n c s = (case find_job (cancel_job_id c) (tx_db s) of
      None \<Rightarrow> Inl (Error_Validation (JobDoesNotExist (cancel_job_id c)))
    | Some r \<Rightarrow>
        if state_of r \<noteq> Pending \<and> state_of r \<noteq> Leased
        then Inl (Error_Conflict (Conflict_JobTransition (cancel_job_id c) (state_of r) Cancelled))
        else if cancel_lease_token c = None \<and> state_of r \<noteq> Pending
        then Inl (Error_Validation (CancelRequiresToken (cancel_job_id c)))
        else if cancel_lease_token c \<noteq> None \<and> jobs_lease_token r \<noteq> map_option as_bytes (cancel_lease_token c)
        then Inl (Error_Validation (StaleLeaseToken (cancel_job_id c)))
        else Inr ((), called 3 (job_ended (cancel_job_id c) Cancelled n t None None (tx_db s)) s))"
proof -
  have ok: "jobs_ok (tx_db s)" and rows: "rows_ok (tx_db s)"
    using assms(2) by (simp_all add: db_ok_def jobs_ok_rows)
  note result = apply_cancel_result [OF assms(1) rows, of t n c]
  show ?thesis
  proof (cases "find_job (cancel_job_id c) (tx_db s)")
    case (Some r)
    then show ?thesis
      using finish_found [OF Some ok] by (simp add: result)
  qed (simp add: result)
qed

theorem cancellation_result_witness:
  "\<exists>s'. apply_cancel (Id 2) (I64 120) \<lparr>cancel_job_id = Id 20, cancel_lease_token = None\<rparr> (tx_start sample_env sample_db) = Inr ((), s')"
  using cancellation_result [of "tx_start sample_env sample_db" "Id 2" "I64 120"
      "\<lparr>cancel_job_id = Id 20, cancel_lease_token = None\<rparr>"] sample_db_ok
  by (simp add: sample_find_pending)

text \<open>
  C16. Resolving. A resolution of an uncertain job returns it to Pending, or ends it as Succeeded or Dead with the
  summary that says so; a retry with no attempt left ends it as Dead. A job that is pending, waits for a retry or has
  ended is not changed, and the error names the transition that is not allowed. (The statement leaves out a job that
  is still leased, see leased_job_resolved.)
\<close>

theorem resolution_result:
  assumes "healthy s" "db_ok (tx_db s)"
    and "\<forall>r. find_job (resolve_job_id c) (tx_db s) = Some r \<longrightarrow> state_of r \<noteq> Leased"
  shows "apply_resolve t n c s = (case find_job (resolve_job_id c) (tx_db s) of
      None \<Rightarrow> Inl (Error_Validation (JobDoesNotExist (resolve_job_id c)))
    | Some r \<Rightarrow>
        let (to, summary) = (case resolve_resolution c of
            Retry \<Rightarrow> if jobs_attempt r < jobs_max_attempts r then (Pending, None)
              else (Dead, Some ''retry resolution exhausted max_attempts'')
          | MarkSucceeded \<Rightarrow> (Succeeded, None)
          | MarkDead \<Rightarrow> (Dead, Some ''resolved as dead'')) in
        if state_of r \<noteq> Uncertain
        then Inl (Error_Conflict (Conflict_JobTransition (resolve_job_id c) (state_of r) to))
        else if to = Pending
        then Inr ((), called 2 (job_returned (resolve_job_id c) Pending None None t (tx_db s)) s)
        else Inr ((), called 3 (job_ended (resolve_job_id c) to n t None summary (tx_db s)) s))"
proof -
  have ok: "jobs_ok (tx_db s)" and rows: "rows_ok (tx_db s)"
    using assms(2) by (simp_all add: db_ok_def jobs_ok_rows)
  note result = apply_resolve_result [OF assms(1) rows, of t n c]
  show ?thesis
  proof (cases "find_job (resolve_job_id c) (tx_db s)")
    case (Some r)
    then show ?thesis
      using finish_found [OF Some ok] return_found [OF Some] assms(3) by (simp add: result Let_def split: resolution.split)
  qed (simp add: result)
qed

theorem resolution_result_witness:
  "\<exists>s' r. apply_resolve (Id 2) (I64 300) \<lparr>resolve_job_id = Id 20, resolve_resolution = MarkDead\<rparr>
     (tx_start sample_env sample_expired) = Inr ((), s') \<and> jobs (tx_db s') = [r] \<and> state_of r = Dead \<and>
     jobs_error_summary r = Some ''resolved as dead'' \<and> jobs_terminal_at_ms r = Some (I64 300)"
  using resolution_result [of "tx_start sample_env sample_expired" "\<lparr>resolve_job_id = Id 20, resolve_resolution = MarkDead\<rparr>"
      "Id 2" "I64 300"] sample_expired_ok
  by (simp add: sample_find_uncertain sample_uncertain_row job_ended_def change_job_def sample_expired_jobs Let_def)

text \<open>
  C17. Enqueuing. A new job gets the next sequence number and becomes the last row of the table, with every column
  of its specification, pending and without an attempt; its partition is made active at that number unless it is. A job ID
  that is in use is an error.
\<close>

theorem enqueue_result:
  assumes "healthy s" "db_ok (tx_db s)" "transaction_exists (as_bytes t) (tx_db s)"
    and "spec_max_attempts spec \<noteq> 0" "length (jobs (tx_db s)) < 2 ^ 63 - 1"
  shows "apply_enqueue t spec s = (case find_job (spec_job_id spec) (tx_db s) of
      Some _ \<Rightarrow> Inl (Error_Validation (JobAlreadyExists (spec_job_id spec)))
    | None \<Rightarrow> Inr ((), called 4 (job_enqueued t spec (tx_db s)) s))"
proof -
  have "i64_int (i64_of_int (int (length (jobs (tx_db s))) + 1)) = int (length (jobs (tx_db s))) + 1"
    using assms(5) by (intro i64_int_of_int) (simp add: i64_in_range_def)
  note activate = activate_enqueued [OF this, of spec t]
  have "rows_ok (tx_db s)"
    using assms(2) by (simp add: db_ok_def jobs_ok_rows)
  from apply_enqueue_result [OF assms(1) this assms(3-5)] show ?thesis
    by (simp only: Let_def activate)
qed

theorem enqueue_result_witness:
  "\<exists>s'. apply_enqueue (Id 1) later_job (tx_start sample_env sample_db) = Inr ((), s') \<and>
     jobs (tx_db s') = jobs sample_db @ [row_enqueued (Id 1) later_job (I64 2)]"
proof -
  have "find_job (Id 21) sample_db = None" "length (jobs sample_db) = 1" "transaction_exists (as_bytes (Id 1)) sample_db"
    by (simp_all add: find_job_def sample_db_def sample_job_def job_spec_reconcilable_def job_spec_base_def transaction_exists_def)
  moreover have "spec_job_id later_job = Id 21" "spec_max_attempts later_job \<noteq> 0"
    by (simp_all add: later_job_def job_spec_reconcilable_def job_spec_base_def)
  ultimately show ?thesis
    using enqueue_result [of "tx_start sample_env sample_db" "Id 1" later_job] sample_db_ok
    by (simp add: job_enqueued_def Let_def i64_of_int_def)
qed

text \<open>
  C18. Extending a lease. The holder of a live lease moves its expiry to a later time, in the job
  and in the receipts of the lease; every other request is a conflict that names its reason.
\<close>

theorem lease_extension_result:
  assumes "healthy s" "db_ok (tx_db s)"
  shows "apply_extend_lease x n s = (case find_job (extend_job_id x) (tx_db s) of
      None \<Rightarrow> Inl (LeaseError_Conflict (JobNotFound (extend_job_id x)))
    | Some r \<Rightarrow>
        if state_of r \<noteq> Leased
        then Inl (LeaseError_Conflict (NotLeased (extend_job_id x) (state_of r)))
        else if jobs_lease_token r \<noteq> Some (as_bytes (extend_lease_token x))
        then Inl (LeaseError_Conflict (InvalidToken (extend_job_id x)))
        else let e = the (jobs_lease_expires_at_ms r) in
          if e < n then Inl (LeaseError_Conflict (LeaseExpired (extend_job_id x) e n))
          else if extend_new_expiry_ms x \<le> e
          then Inl (LeaseError_Conflict (ExpiryNotLater (extend_job_id x) e (extend_new_expiry_ms x)))
          else Inr (\<lparr>ext_receipt_job_id = extend_job_id x, ext_receipt_attempt = row_attempt (decoded_job r),
              ext_receipt_lease_expires_at_ms = extend_new_expiry_ms x\<rparr>,
            called 3 (extend_job r (extend_lease_token x) (extend_new_expiry_ms x) (tx_db s)) s))"
  using assms by (intro apply_extend_lease_result) (simp_all add: db_ok_def jobs_ok_rows)

theorem lease_extension_result_witness:
  "\<exists>receipt s'. apply_extend_lease \<lparr>extend_job_id = Id 20, extend_lease_token = Id 100, extend_new_expiry_ms = I64 200\<rparr>
     (I64 120) (tx_start sample_env sample_claimed) = Inr (receipt, s')"
  using lease_extension_result [of "tx_start sample_env sample_claimed"
      "\<lparr>extend_job_id = Id 20, extend_lease_token = Id 100, extend_new_expiry_ms = I64 200\<rparr>" "I64 120"] sample_claimed_ok
  by (simp add: sample_find_leased sample_leased_row)

section \<open>Claims\<close>

text \<open>
  C19. A claim is atomic and its outcome says what it did. Noop: nothing was expired and no
  partition could be leased. Otherwise the database holds the whole claim (its row,
  the maintenance, the leases, the cursor) and the response lists exactly the leases it granted: at most as
  many as asked for, from different partitions, in the order of the round. Each of these jobs was
  ready and the first unfinished job of its partition, and is now leased to the worker with the token and
  expiry of the response, with one more attempt. An error that is not Indeterminate persisted nothing.
\<close>

theorem claim_atomic:
  assumes "db_ok d"
  shows "case claim_jobs e req d of
      (Inr ClaimOutcome_Noop, d') \<Rightarrow> d' = d \<and> expired_rows req d = [] \<and> leased_partitions req d = []
    | (Inr (ClaimOutcome_Committed c), d') \<Rightarrow>
        (\<exists>ex leases. validate_claim req = Inr ex \<and> leases \<noteq> [] \<and> claims_stale_jobs c = [] \<and>
           claims_jobs c = map (claimed_of req ex) leases \<and>
           claim_committed req ex (claims_transaction_id c) leases d d' \<and>
           (\<forall>j \<in> set (claims_jobs c). leased_now req ex d d' j)) \<and>
        length (claims_jobs c) \<le> unat (req_limit req) \<and>
        map claimed_partition_key (claims_jobs c) = leased_partitions req d \<and> distinct (leased_partitions req d)
    | (Inr (ClaimOutcome_MaintenanceCommitted t), d') \<Rightarrow>
        (\<exists>ex. validate_claim req = Inr ex \<and> expired_rows req d \<noteq> [] \<and> claim_committed req ex t [] d d')
    | (Inl err, d') \<Rightarrow> d' = d \<or>
        (\<not> claim_determinate err \<and> (\<exists>ex t leases. validate_claim req = Inr ex \<and> claim_committed req ex t leases d d'))"
proof -
  obtain r d' where run: "claim_jobs e req d = (r, d')"
    by (cases "claim_jobs e req d")
  from run assms show ?thesis
  proof (cases rule: claim_jobs_cases)
    case (committed ex t leases)
    note granted = claim_committed_partitions [OF committed(3) assms] claimed_leased_now [OF committed(3) assms]
    show ?thesis
    proof (cases "leases = []")
      case True
      with committed show ?thesis by (auto simp: run claim_committed_def)
    next
      case False
      with committed granted show ?thesis by (auto simp: run)
    qed
  next
    case (indeterminate ex t leases c b')
    then show ?thesis
      unfolding run by (auto simp: claim_indeterminate_def)
  qed (auto simp: run)
qed

theorem claim_atomic_witness:
  "\<exists>ex leases. validate_claim sample_request = Inr ex \<and> leases \<noteq> [] \<and>
     [claimed_of sample_request (I64 150) sample_lease] = map (claimed_of sample_request ex) leases \<and>
     claim_committed sample_request ex (Id 101) leases sample_db sample_claimed \<and>
     leased_now sample_request ex sample_db sample_claimed (claimed_of sample_request (I64 150) sample_lease)"
  using claim_atomic [OF sample_db_ok, of sample_request sample_env] by (auto simp: sample_claim)

text \<open>
  C20. Maintenance. A committed claim treats the first 64 expired leases of the queue, by
  expiry: a job that requires reconciliation becomes Uncertain and is not leased again, an idempotent job
  goes back to Pending, or ends as Dead when its attempts are used up. Every job that is neither
  expired nor leased by the claim keeps its row.
\<close>

theorem expired_leases_maintained:
  assumes "db_ok d" "claim_committed req ex t leases d d'" "r \<in> set (jobs d)"
  shows "length (expired_rows req d) \<le> 64 \<and>
    (r \<in> set (expired_rows req d) \<longrightarrow> state_of r = Leased \<and> (\<forall>l \<in> set leases. lease_id l \<noteq> jobs_job_id r) \<and>
       (\<exists>s \<in> set (jobs d'). jobs_job_id s = jobs_job_id r \<and> state_of s =
          (case row_effect_mode (decoded_job r) of
             RequiresReconciliation \<Rightarrow> Uncertain
           | ExplicitlyIdempotent \<Rightarrow> if jobs_attempt r < jobs_max_attempts r then Pending else Dead))) \<and>
    (r \<notin> set (expired_rows req d) \<and> (\<forall>l \<in> set leases. lease_id l \<noteq> jobs_job_id r) \<longrightarrow> r \<in> set (jobs d'))"
  using length_expired_rows maintained_row_of [OF assms(2, 1, 3)] untouched_row [OF assms(2, 1, 3)] by blast

theorem expired_leases_maintained_witness:
  "\<exists>s \<in> set (jobs sample_expired). jobs_job_id s = as_bytes (Id 20) \<and> state_of s = Uncertain"
proof -
  obtain ex where "claim_committed expiry_request ex (Id 100) [] sample_claimed sample_expired"
    using expiry_committed by blast
  moreover have "sample_leased \<in> set (expired_rows expiry_request sample_claimed)"
    by (simp add: expired_rows_def sample_claimed_jobs sample_leased_queue sample_leased_row sql_limit_def
        expired_before_def expiry_request_def sample_request_def maintenance_limit_def u64_as_i64_def)
  moreover have "row_effect_mode (decoded_job sample_leased) = RequiresReconciliation"
    by (simp add: decoded_job_def sample_leased_queue effect_mode_decode_def)
  ultimately show ?thesis
    using expired_leases_maintained [OF sample_claimed_ok, of expiry_request ex "Id 100" "[]" sample_expired sample_leased]
    by (simp add: sample_claimed_jobs sample_leased_row)
qed

text \<open>
  C21. The round is fair. When a claim passes over a partition whose head is ready, because its limit was reached,
  the next claim of the queue visits that partition before every partition that was leased instead, if both still have
  unfinished jobs: no partition is leased twice while a ready one waits.
\<close>

theorem round_robin:
  assumes "db_ok d" "claim_jobs e req d = (Inr (ClaimOutcome_Committed c), d')"
    and "p \<in> ready_partitions req d" "p \<notin> claimed_partition_key ` set (claims_jobs c)" "j \<in> set (claims_jobs c)"
    and "db_ok d2" "map_of (queue_cursors d2) (req_queue req) = map_of (queue_cursors d') (req_queue req)"
    and "{p, claimed_partition_key j} \<subseteq> set (queue_partitions (req_queue req) d2)"
  shows "precedes (claim_order (flatten (map_of (queue_cursors d2) (req_queue req)))
    (queue_partitions (req_queue req) d2)) p (claimed_partition_key j)"
proof -
  let ?leased = "leased_partitions req d"
  obtain ex leases where jobs: "claims_jobs c = map (claimed_of req ex) leases"
    and committed: "claim_committed req ex (claims_transaction_id c) leases d d'"
    using assms(2, 1) by (cases rule: claim_jobs_cases) (auto split: if_splits)
  then have keys: "map claimed_partition_key (claims_jobs c) = ?leased"
    using claim_committed_partitions(1) assms(1) by simp
  then have j: "claimed_partition_key j \<in> set ?leased" "p \<notin> set ?leased"
    using assms(4, 5) by (metis image_eqI list.set_map)+
  then have "map_of (queue_cursors d') (req_queue req) = Some (Some (last ?leased))"
    using committed by (auto simp: claim_committed_def cursor_moved_def update_conv')
  then show ?thesis
    using passed_over_goes_first [OF _ assms(3) j(2, 1) _ assms(8)] assms(1, 6, 7) by (simp add: db_ok_def jobs_ok_def)
qed

theorem round_robin_witness:
  "\<exists>c d'. claim_jobs well_env sample_request two_db = (Inr (ClaimOutcome_Committed c), d') \<and>
     precedes (claim_order (flatten (map_of (queue_cursors d') ''q'')) (queue_partitions ''q'' d')) ''p'' ''o''"
proof -
  obtain c d' where run: "claim_jobs well_env sample_request two_db = (Inr (ClaimOutcome_Committed c), d')"
    and keys: "map claimed_partition_key (claims_jobs c) = [''o'']" and ok: "db_ok d'"
    and parts: "queue_partitions ''q'' d' = [''o'', ''p'']"
    by (rule two_claim)
  then obtain j where j: "claims_jobs c = [j]" "claimed_partition_key j = ''o''"
    by auto
  have "req_queue sample_request = ''q''"
    by (simp add: sample_request_def)
  then show ?thesis
    using round_robin [OF two_db_ok run, of "''p''" j d'] run ok parts j by (auto simp: two_db_ready)
qed

text \<open>
  C22. Claims make progress. In good conditions (nothing fails, the generator draws unused numbers, the log is not full) a valid
  claim succeeds, and leases a job of as many partitions with a ready head as its limit allows; only when there is none
  (or the limit is zero) it just maintains expired leases, and when there are none of these either, it does nothing.
\<close>

theorem claim_progress:
  assumes "db_ok d" "all_well e d" "validate_claim req = Inr ex" "length (transactions d) < 2 ^ 63 - 1"
  shows "let n = min (unat (req_limit req)) (card (ready_partitions req d)) in
    if n \<noteq> 0 then \<exists>c d'. claim_jobs e req d = (Inr (ClaimOutcome_Committed c), d') \<and> length (claims_jobs c) = n \<and>
      claimed_partition_key ` set (claims_jobs c) \<subseteq> ready_partitions req d
    else if expired_rows req d \<noteq> [] then \<exists>t d'. claim_jobs e req d = (Inr (ClaimOutcome_MaintenanceCommitted t), d')
    else claim_jobs e req d = (Inr ClaimOutcome_Noop, d)"
proof -
  obtain out d' where run: "claim_jobs e req d = (Inr out, d')"
    using assms(2, 1, 3, 4) by (rule claim_goes_through)
  have leased: "length (leased_partitions req d) = min (unat (req_limit req)) (card (ready_partitions req d))"
    "set (leased_partitions req d) \<subseteq> ready_partitions req d"
    using assms(1) length_leased_partitions by (simp_all add: db_ok_def)
  show ?thesis
    using run assms(1)
  proof (cases rule: claim_jobs_cases)
    case (committed ex t leases)
    have keys: "map claimed_partition_key (map (claimed_of req ex) leases) = leased_partitions req d"
      using claim_committed_partitions(1) [OF committed(3) assms(1)] .
    have subset: "claimed_partition_key ` set (map (claimed_of req ex) leases) \<subseteq> ready_partitions req d"
      using leased(2) by (simp only: keys [symmetric] set_map)
    have n: "length leases = min (unat (req_limit req)) (card (ready_partitions req d))"
      using arg_cong [OF keys, of length] leased(1) by simp
    have "expired_rows req d \<noteq> [] \<or> leases \<noteq> []"
      using committed(3) by (simp add: claim_committed_def)
    with subset run committed(2) show ?thesis
      unfolding Let_def n [symmetric] by (cases "leases = []") simp_all
  next
    case noop
    have n: "length (leased_partitions req d) = 0"
      using noop by simp
    with noop run show ?thesis
      unfolding Let_def leased(1) [symmetric] n by simp
  qed simp_all
qed

theorem claim_progress_witness:
  "\<exists>c d'. claim_jobs well_env sample_request two_db = (Inr (ClaimOutcome_Committed c), d') \<and> length (claims_jobs c) = 1"
proof -
  have "length (transactions two_db) < 2 ^ 63 - 1"
    by (simp add: two_db_tables sample_db_def)
  moreover have "min (unat (req_limit sample_request)) (card (ready_partitions sample_request two_db)) = 1"
    unfolding two_db_ready by (simp add: sample_request_def)
  ultimately show ?thesis
    using claim_progress [OF two_db_ok well_env_all_well two_db_ready(4)] by auto
qed

text \<open>
  C23. Recovery of a claim is truthful. After a claim whose outcome is unknown, recovering its
  transaction reports Absent when nothing of it is in the database, and otherwise exactly the leases of
  the claim, by job ID, or that there was only maintenance; leases that have expired meanwhile are listed
  as stale.
\<close>

theorem indeterminate_claim_recovered:
  assumes "store_ok st"
    and "store_step st (Call (Call_Claim_Jobs req) (Claim_Result (Inl (ClaimError_Indeterminate i)))) st1"
    and "store_step st1 (Call (Call_Recover_Claim (icl_transaction_id i) n) (Recovered_Claim (Inr res))) st2"
  shows "res = ClaimRecovery_Absent \<and> store_db st2 = store_db st \<or>
    (\<exists>ex leases. validate_claim req = Inr ex \<and> icl_proposed_jobs i = map (\<lambda>l. row_job_id (lease_job l)) leases \<and>
       claim_committed req ex (icl_transaction_id i) leases (store_db st) (store_db st2) \<and>
       res = recovered_claim req ex (icl_transaction_id i) leases n)"
proof -
  obtain opn e where call: "store_claim_jobs opn e req st = (Inl (ClaimError_Indeterminate i), st1)"
    using assms(2) by (auto simp: store_step_Call respond_iff)
  obtain opn' e' where recover: "store_recover_claim opn' e' (icl_transaction_id i) n st1 = (Inr res, st2)"
    using assms(3) by (auto simp: store_step_Call respond_iff)
  obtain ex leases d' where claim: "validate_claim req = Inr ex"
    "icl_proposed_jobs i = map (\<lambda>l. row_job_id (lease_job l)) leases"
    "claim_committed req ex (icl_transaction_id i) leases (store_db st) d'" "db_ok d'"
    and st1: "store_db st1 = store_db st \<or> store_db st1 = d'"
    using call assms(1) by (rule indeterminate_claim_cases)
  have ok: "db_ok (store_db st)"
    using assms(1) by (simp add: store_ok_def)
  note read = store_recover_claim_yields [OF recover]
  from st1 show ?thesis
  proof
    assume "store_db st1 = store_db st"
    with read recover_claim_absent claim_committed_fresh(1) [OF claim(3, 4)] ok show ?thesis by auto
  next
    assume "store_db st1 = d'"
    with read recover_claim_committed [OF _ claim(3) ok claim(4)] claim(1-3) show ?thesis by auto
  qed
qed

theorem indeterminate_claim_recovered_witness:
  "\<exists>ex leases. validate_claim sample_request = Inr ex \<and> [Id 20] = map (\<lambda>l. row_job_id (lease_job l)) leases \<and>
     claim_committed sample_request ex (Id 101) leases sample_db sample_claimed"
proof -
  let ?i = "\<lparr>icl_transaction_id = Id 101, icl_proposed_jobs = [Id 20], icl_storage_error = Failpoint\<rparr>"
  let ?st = "sample_store\<lparr>store_db := sample_db\<rparr>" and ?st1 = "sample_store\<lparr>store_writer := None, store_db := sample_claimed\<rparr>"
  have ok: "store_ok ?st" "store_ok ?st1"
    using sample_db_ok sample_claimed_ok by (simp_all add: store_ok_def sample_store_def new_store_def)
  obtain ex leases where "claim_committed sample_request ex (Id 101) leases sample_db sample_claimed"
    using sample_committed by blast
  then obtain res where "run_reads (Read_Write Strict) sample_env (recover_claim (Id 101) (I64 120)) sample_claimed = Inr res"
    using recover_claim_answers [OF _ sample_db_ok sample_claimed_ok, of sample_request ex "Id 101" leases sample_env] by auto
  then have "store_recover_claim None sample_env (Id 101) (I64 120) ?st1 = (Inr res, sample_store\<lparr>store_db := sample_claimed\<rparr>)"
    by (simp add: store_recover_claim_def writer_connection_def open_writer_def sample_store_def new_store_def)
  then have recover: "store_step ?st1 (Call (Call_Recover_Claim (icl_transaction_id ?i) (I64 120)) (Recovered_Claim (Inr res)))
      (sample_store\<lparr>store_db := sample_claimed\<rparr>)"
    by (auto simp: store_step_Call respond_iff)
  have claim: "store_step ?st (Call (Call_Claim_Jobs sample_request) (Claim_Result (Inl (ClaimError_Indeterminate ?i)))) ?st1"
    using sample_claim_lost by (auto simp: store_step_Call respond_iff)
  have "length (transactions sample_claimed) = 2" "length (transactions sample_db) = 1"
    using arg_cong [OF sample_claimed_log(1), of length] by (simp, simp add: sample_db_def)
  then have "sample_claimed \<noteq> sample_db"
    by auto
  with indeterminate_claim_recovered [OF ok(1) claim recover] show ?thesis
    by simp metis
qed

section \<open>Reads\<close>

text \<open>
  C24. The event log is read in pages. Reading after a sequence below 2^63 returns the next events in order, as
  they were appended: exactly those whose sequence is greater, up to the limit, and the sequence of the last one is the
  cursor at which the next page starts. The file is not changed. (For greater cursors see events_after_negative.)
  Reading a stream from a version returns the events of that stream and no others, beginning with that version.
\<close>

theorem event_pages:
  assumes "store_ok st" "perform opn e (Call_Events_After after limit) st = (Event_List (Inr es), st')"
    and "unat limit < 2 ^ 63" "unat after < 2 ^ 63"
  shows "es = map decoded_event (take (unat limit)
      (filter (\<lambda>r. int (unat after) < i64_int (ev_global_sequence r)) (events (store_db st)))) \<and>
    es = map decoded_event (take (unat limit) (drop (unat after) (events (store_db st)))) \<and>
    (1 \<le> unat from_version \<and> unat from_version < 2 ^ 63 \<and> tx_db s = store_db st \<longrightarrow>
       stream_events stream_id from_version limit s = one_read (map decoded_event (take (unat limit)
         (drop (unat from_version - 1) (filter (\<lambda>r. ev_stream_id r = stream_id) (events (store_db st)))))) s) \<and>
    (es \<noteq> [] \<longrightarrow> unat (persisted_global_sequence (last es)) = unat after + length es) \<and>
    store_db st' = store_db st"
proof -
  let ?page = "take (unat limit) (drop (unat after) (events (store_db st)))"
  have ok: "events_ok (store_db st)"
    using assms(1) by (simp add: store_ok_def db_ok_def)
  have "with_reader opn e (tx_map_err Error_Storage (events_after after limit)) st = (Inr es, st')"
    using assms(2) by (auto simp: respond_iff)
  moreover have "events_after after limit s = one_read (map decoded_event ?page) s" if "tx_db s = store_db st" for s
    using events_after_one_read [OF _ assms(4, 3), of s] ok that by simp
  ultimately have "es = map decoded_event ?page \<and> store_db st' = store_db st"
    using map_err_reader_one_read assms(1) by metis
  then have es: "es = map decoded_event ?page" and db: "store_db st' = store_db st"
    by simp_all
  have "unat (persisted_global_sequence (last es)) = unat after + length es" if "es \<noteq> []"
    using page_cursor [of ev_global_sequence "events (store_db st)" "unat limit" "unat after"] ok that
    by (simp add: es last_map events_ok_def)
  moreover have "streams_ok (store_db st)"
    using assms(1) by (simp add: store_ok_def db_ok_def)
  then have "stream_events stream_id from_version limit s = one_read (map decoded_event (take (unat limit)
      (drop (unat from_version - 1) (filter (\<lambda>r. ev_stream_id r = stream_id) (events (store_db st)))))) s"
    if "1 \<le> unat from_version" "unat from_version < 2 ^ 63" "tx_db s = store_db st"
    using stream_events_one_read [OF _ _ that(1, 2) assms(3), of s] ok that(3)
    by (simp add: streams_ok_def history_def)
  moreover have "filter (\<lambda>r. int (unat after) < i64_int (ev_global_sequence r)) (events (store_db st)) =
      drop (unat after) (events (store_db st))"
    using numbered_filter_greater [of ev_global_sequence "events (store_db st)" "u64_as_i64 after"]
      u64_as_i64_int [OF assms(4)] ok by (simp add: less_i64_def events_ok_def)
  ultimately show ?thesis using es db by simp
qed

theorem event_pages_witness:
  "\<exists>es. perform None sample_env (Call_Events_After 0 5) (sample_store\<lparr>store_db := sample_db\<rparr>) =
       (Event_List (Inr es), snd (perform None sample_env (Call_Events_After 0 5) (sample_store\<lparr>store_db := sample_db\<rparr>))) \<and>
     es = map decoded_event (events sample_db) \<and> unat (persisted_global_sequence (last es)) = 1 \<and>
     stream_events ''s'' 1 5 (tx_start sample_env sample_db) = one_read (map decoded_event (take 5
       (filter (\<lambda>r. ev_stream_id r = ''s'') (events sample_db)))) (tx_start sample_env sample_db)"
proof -
  let ?st = "sample_store\<lparr>store_db := sample_db\<rparr>" and ?read = "tx_map_err Error_Storage (events_after 0 5)"
  have ok: "store_ok ?st"
    using sample_db_ok by (simp add: store_ok_def sample_store_def new_store_def)
  then have events: "events_ok sample_db"
    by (simp add: store_ok_def db_ok_def sample_store_def)
  have "events_after 0 5 s = one_read (map decoded_event (events sample_db)) s" if "tx_db s = sample_db" for s
    using events_after_one_read [of s 0 5] events that by (simp add: sample_db_def)
  then obtain es st' where "with_reader None sample_env ?read ?st = (Inr es, st')"
    using sample_reads by metis
  then have run: "perform None sample_env (Call_Events_After 0 5) ?st = (Event_List (Inr es), st')"
    by (simp add: respond_def)
  have page: "take 5 (events sample_db) = events sample_db" and one: "length (events sample_db) = 1"
    by (simp_all add: sample_db_def)
  note result = event_pages [OF ok run, THEN conjunct2, THEN conjunct1]
    event_pages [OF ok run, THEN conjunct2, THEN conjunct2, THEN conjunct2, THEN conjunct1]
    event_pages [OF ok run, of 1 "tx_start sample_env sample_db" "''s''", THEN conjunct2, THEN conjunct2, THEN conjunct1]
  have pages: "es = map decoded_event (take 5 (events sample_db))"
    and cursor: "es \<noteq> [] \<longrightarrow> unat (persisted_global_sequence (last es)) = length es"
    using result(1) by simp (use result(2) in simp)
  have es: "es = map decoded_event (events sample_db)"
    using pages page by simp
  have stream: "stream_events ''s'' 1 5 (tx_start sample_env sample_db) = one_read (map decoded_event (take 5
       (filter (\<lambda>r. ev_stream_id r = ''s'') (events sample_db)))) (tx_start sample_env sample_db)"
    using result(3) by simp
  have "length es = 1"
    by (simp add: es one)
  with cursor have "unat (persisted_global_sequence (last es)) = 1"
    by (cases es) simp_all
  with es run stream show ?thesis by auto
qed

text \<open>
  C25. Projections and jobs are read in pages. A prefix scan returns the entries of the projection whose keys have the
  prefix and come after the cursor, all of them up to the limit, in the order of the keys; the upper bound computed from
  the prefix neither drops nor adds a key. A page of jobs holds the jobs that match, in the order in which they were
  enqueued, starting after the cursor; the cursor returned with a page that is not empty continues exactly where it ended.
\<close>

theorem scan_and_job_pages:
  assumes "db_ok (tx_db s)" "unat limit < 2 ^ 63" "unat after_seq < 2 ^ 63"
  shows "(\<exists>es. projection_scan_prefix_page p pre after limit s =
      tx_map_err Error_Storage (one_read (take (unat limit) es)) s \<and>
    sorted_wrt (<) (map entry_key es) \<and>
    (\<forall>e. e \<in> set es \<longleftrightarrow> contents (tx_db s) p (entry_key e) = Some (entry_value e) \<and> prefix pre (entry_key e) \<and>
       (case after of None \<Rightarrow> True | Some a \<Rightarrow> a < entry_key e))) \<and>
   (\<exists>page cursor. list_jobs_page q st after_seq limit s =
      tx_map_err Error_Storage (one_read (map listed_job page, cursor)) s \<and>
    page = take (unat limit) (filter (job_matches q st) (drop (unat after_seq) (jobs (tx_db s)))) \<and>
    (page \<noteq> [] \<longrightarrow> filter (job_matches q st) (drop (unat after_seq) (jobs (tx_db s))) =
       page @ filter (job_matches q st) (drop (unat cursor) (jobs (tx_db s)))))" (is "?scan \<and> ?pages")
proof
  have "projections_ok (tx_db s)"
    using assms(1) by (simp add: db_ok_def)
  note entries = select_entries_sorted [OF this] select_entries_set [OF this]
  show ?scan
    by (rule exI, intro conjI allI, rule prefix_page_one_read [OF assms(2)]) (rule entries)+
next
  define page where "page = take (unat limit) (filter (job_matches q st) (drop (unat after_seq) (jobs (tx_db s))))"
  have rows: "rows_ok (tx_db s)"
    using assms(1) by (simp add: db_ok_def jobs_ok_rows)
  then have "numbered (map jobs_enqueue_sequence (jobs (tx_db s)))"
    by (simp add: rows_ok_def)
  note cursor = filtered_page_cursor [OF this, of "unat limit" "job_matches q st" "unat after_seq"]
  note page = list_jobs_page_one_read [OF rows assms(3, 2), of q st]
  show ?pages
    using page cursor unfolding page_def [symmetric] Let_def by (cases "page = []") auto
qed

theorem scan_and_job_pages_witness:
  "(\<exists>es. projection_scan_prefix_page ''v'' [3] None 5 (tx_start sample_env sample_db) =
      tx_map_err Error_Storage (one_read (take 5 es)) (tx_start sample_env sample_db) \<and>
    \<lparr>entry_key = [3], entry_value = [4]\<rparr> \<in> set es) \<and>
   (\<exists>page cursor. list_jobs_page None None 0 1 (tx_start sample_env later_db) =
      tx_map_err Error_Storage (one_read (map listed_job page, cursor)) (tx_start sample_env later_db) \<and>
    jobs later_db = page @ drop (unat cursor) (jobs later_db))"
proof
  have "contents sample_db ''v'' [3] = Some [4]"
    by (simp add: contents_def sample_db_def)
  with scan_and_job_pages [of "tx_start sample_env sample_db" 5 0 "''v''" "[3]" None None None] sample_db_ok
  show "\<exists>es. projection_scan_prefix_page ''v'' [3] None 5 (tx_start sample_env sample_db) =
      tx_map_err Error_Storage (one_read (take 5 es)) (tx_start sample_env sample_db) \<and>
    \<lparr>entry_key = [3], entry_value = [4]\<rparr> \<in> set es"
    by fastforce
next
  have "filter (job_matches None None) rows = rows" for rows
    by (simp add: job_matches_def filter_id_conv)
  moreover have "take 1 (jobs later_db) \<noteq> []"
    by (simp add: later_db_def)
  ultimately show "\<exists>page cursor. list_jobs_page None None 0 1 (tx_start sample_env later_db) =
      tx_map_err Error_Storage (one_read (map listed_job page, cursor)) (tx_start sample_env later_db) \<and>
    jobs later_db = page @ drop (unat cursor) (jobs later_db)"
    using scan_and_job_pages [of "tx_start sample_env later_db" 1 0 "''v''" "[3]" None None None] later_db_ok by auto
qed

section \<open>Projections\<close>

text \<open>
  C26. A projection patch is a compare-and-swap of a map. Where no driver call fails, a patch that is valid and
  expects the current version applies its mutations in order to the map of the projection, raises the version by one, and leaves
  every other projection alone; the only errors are an invalid patch and a version conflict.
\<close>

theorem projection_patch:
  assumes "healthy s"
  shows "case apply_projection_patch p s of
      Inl err \<Rightarrow> (\<exists>v. patch_validate p = Inl v \<and> err = Error_Validation v) \<or>
        (let actual = stored_projection_version (tx_db s) (patch_projection p) in
           patch_validate p = Inr () \<and> actual \<noteq> patch_expected_version p \<and>
           err = Error_Conflict (Conflict_ProjectionVersion (patch_projection p) (patch_expected_version p) actual))
    | Inr (_, s') \<Rightarrow> patch_validate p = Inr () \<and>
        stored_projection_version (tx_db s) (patch_projection p) = patch_expected_version p \<and>
        stored_projection_version (tx_db s') (patch_projection p) = patch_expected_version p + 1 \<and>
        contents (tx_db s') (patch_projection p) = patch_map (patch_mutations p) (contents (tx_db s) (patch_projection p)) \<and>
        (\<forall>q. q \<noteq> patch_projection p \<longrightarrow> contents (tx_db s') q = contents (tx_db s) q \<and>
           stored_projection_version (tx_db s') q = stored_projection_version (tx_db s) q)"
proof (cases "apply_projection_patch p s")
  case (Inl err)
  with apply_projection_patch_result [OF assms, of p] show ?thesis
    by (auto simp: Let_def split: sum.splits if_splits)
next
  case (Inr r)
  then obtain u s' where run: "apply_projection_patch p s = Inr (u, s')"
    by (cases r) simp
  then have "tx_yields (apply_projection_patch p) (tx_db s) u (tx_db s')"
    by (auto simp: tx_yields_def)
  note applied = apply_projection_patch_yields [OF this]
  show ?thesis
    using applied(1-5) by (simp add: run)
qed

theorem projection_patch_witness:
  "healthy (tx_start sample_env sample_appended) \<and>
   contents sample_patched ''v'' = patch_map [Put [3] [4]] (contents sample_appended ''v'')"
proof -
  have "patch_projection sample_patch = ''v''" "patch_mutations sample_patch = [Put [3] [4]]"
    by (simp_all add: sample_patch_def patch_push_def projection_patch_new_def)
  with projection_patch [of "tx_start sample_env sample_appended" sample_patch] sample_apply_patch [of False 0] show ?thesis
    using sample_healthy [of sample_appended] by (simp add: tx_start_def)
qed

section \<open>Digests and identifiers\<close>

text \<open>
  C27. The streaming hasher computes SHA-256 whatever the pieces in which the message is fed: the digest
  of the pieces is the digest of the padded message, block by block, and the padding loop of finish ends.
\<close>

theorem sha256_streaming: "finish (foldl update sha_new chunks) = Some (sha256_ref (concat chunks))"
proof -
  have "sha_repr (foldl update s chunks) (m @ concat chunks)" if "sha_repr s m" for s m
    using that
  proof (induction chunks arbitrary: s m)
    case (Cons c chunks)
    from Cons.IH [OF sha_repr_update [OF Cons.prems, of c]] show ?case by simp
  qed simp
  from this [OF sha_repr_new] show ?thesis
    by (intro finish_repr) simp
qed

text \<open>
  C28. The request digest is the SHA-256 of an injective encoding: two batches, of sizes that a
  process can hold, are written to the same bytes only if they agree in everything but the transaction ID.
\<close>

theorem digest_determines_batch:
  assumes "batch_fits b" "batch_fits c"
  shows "request_digest b = sha256_ref (ser_batch b) \<and>
    (ser_batch b = ser_batch c \<longleftrightarrow> b\<lparr>batch_transaction_id := t\<rparr> = c\<lparr>batch_transaction_id := t\<rparr>)"
proof -
  have "ser_batch b = ser_batch (b\<lparr>batch_transaction_id := t\<rparr>)" for b
    by (simp add: ser_batch_def)
  then show ?thesis
    using request_digest_eq ser_batch_inject [OF assms] by metis
qed

theorem digest_determines_batch_witness:
  "request_digest sample_batch = sha256_ref (ser_batch sample_batch) \<and> ser_batch sample_batch \<noteq> ser_batch later_batch"
proof -
  have "batch_fits sample_batch" "batch_fits later_batch"
    by (simp_all add: batch_fits_def sample_defs later_batch_def later_job_def len_fits_def)
  moreover have "sample_batch\<lparr>batch_transaction_id := i\<rparr> \<noteq> later_batch\<lparr>batch_transaction_id := i\<rparr>" for i
    by (simp add: sample_defs later_batch_def)
  ultimately show ?thesis
    using digest_determines_batch [of sample_batch later_batch "Id 0"] by blast
qed

text \<open>
  C29. What is printed is read back. The text of an ID is 32 lower-case digits that read back as the ID, and what parses as an
  ID is its text in any letter case; IDs are ordered as the numbers they are the big-endian bytes of. The command line
  accepts the cursor at the end of a page that it prints, the key at the start of a printed entry, the ID at the start of a
  printed job, and the state of the job list. The names that the statistics and
  the export use for states are accepted too, except that of a job waiting for a retry, whose name has an underscore. The
  Node bindings accept the names of states that they give.
\<close>

theorem texts_read_back:
  "from_hex (to_hex i) = Inr i \<and> length (to_hex i) = 32 \<and>
   (from_hex s = Inr i \<longleftrightarrow> map ascii_lower s = to_hex i) \<and>
   from_bytes (as_bytes i) = i \<and> (i < j \<longleftrightarrow> id_word i < id_word j) \<and>
   parse_u64 (butlast (drop 14 (printed_text (Print_Next w)))) = Some w \<and>
   parse_hex (take (2 * length bs) (printed_text (Print_Entry bs v))) what = Inr bs \<and>
   parse_id (take 32 (printed_text (Print_Job_Row job))) what = Inr (info_job_id job) \<and>
   parse_state (job_state_debug x) = Inr x \<and> (parse_state (job_state_name x) = Inr x \<longleftrightarrow> x \<noteq> RetryWait) \<and>
   parse_job_state (js_state_name x) = Inr x"
  using from_hex_iff [of s i] id_less_iff [of i j] parse_show_u64 [of w] parse_hex_pairs_hex [of bs]
    parse_state_debug [of x] parse_state_name [of x] parse_job_state_name [of x] from_hex_to_hex [of i] length_to_hex [of i]
  by (simp add: parse_hex_def parse_id_def printed_next printed_entry_key printed_row_id from_hex_to_hex
      del: printed_text.simps)

section \<open>The partition index and the writer\<close>

text \<open>The writer connection of the next call: the one there is, or a new one.\<close>

definition next_writer :: "open_outcome \<Rightarrow> store \<Rightarrow> connection option" where
  "next_writer opn st = (case store_writer st of Some c \<Rightarrow> Some c
     | None \<Rightarrow> (case opn of None \<Rightarrow> Some (Read_Write (store_durability st)) | Some _ \<Rightarrow> None))"

text \<open>
  C30. The writer is dropped exactly when the outcome of a COMMIT is unknown. After every other
  outcome the connection is kept, and a missing one is opened again by the next call unless the
  file cannot be opened.
\<close>

theorem writer_dropped_when_indeterminate:
  "(case store_commit opn e b st of (r, st') \<Rightarrow>
      store_writer st' = (if is_commit_indeterminate r then None else next_writer opn st)) \<and>
   (case store_claim_jobs opn e req st of (r, st') \<Rightarrow>
      store_writer st' = (if is_claim_indeterminate r then None else next_writer opn st)) \<and>
   (case store_extend_lease opn e i t x n st of (r, st') \<Rightarrow>
      store_writer st' = (if is_lease_indeterminate r then None else next_writer opn st))"
proof -
  have writer: "case with_writer storage indeterminate run opn st of (r, st') \<Rightarrow>
      store_writer st' = (if indeterminate r then None else next_writer opn st)"
    if "\<And>err. \<not> indeterminate (Inl (storage err))"
    for storage indeterminate and run :: "connection \<Rightarrow> db \<Rightarrow> ('e + 'a) \<times> db"
    using that
    by (auto simp: with_writer_def writer_connection_def open_writer_def next_writer_def poison_def
        split: option.splits sum.splits prod.splits)
  show ?thesis
    unfolding store_commit_def store_claim_jobs_def store_extend_lease_def
    by (intro conjI writer) simp_all
qed

section \<open>Opening a store\<close>

definition sample_migration :: migrate_env where
  "sample_migration = \<lparr>mig_fault = (\<lambda>_. None), mig_commit = (\<lambda>_. Commit_Ok), mig_now = (\<lambda>_. I64 5)\<rparr>"

lemma sample_migration_healthy [simp]: "healthy_migration sample_migration"
  by (simp add: healthy_migration_def sample_migration_def)

text \<open>
  C31. A run of the migrations never leaves a file half migrated: whatever fails, the versions
  recorded are those of the tables that exist, records are only added, and no row of the store is lost.
  When it succeeds the file is up to date; and without driver failures its result is exactly this: the first
  migration whose recorded checksum differs is reported, a job that violates the new CHECK constraints stops
  the second migration, and otherwise all pending migrations are applied.
\<close>

theorem migrate_consistent:
  assumes "schema_agrees f" "migrate e f = (r, f')"
  shows "schema_agrees f' \<and> prefix (applied_rows f) (applied_rows f') \<and>
    schema_db (file_schema f') = schema_db (file_schema f) \<and> (r = Inr () \<longrightarrow> up_to_date f') \<and>
    (healthy_migration e \<longrightarrow> (r, f') = (case List.find (mismatched f) migrations of
         Some m \<Rightarrow> (Inl (MigrationChecksumMismatch (m_version m)), create_migrations_table f)
       | None \<Rightarrow>
           (if pending f \<noteq> [] \<and> \<not> checks_hold (schema_db (file_schema f))
            then (Inl (from_sqlite (CheckViolation ''jobs_v2'')), create_migrations_table f)
            else (Inr (), upgraded e f))))"
  using migrate_migrated [OF assms(2, 1)] migrate_up_to_date [of e f f'] migrate_exact [of e f] assms
  by (auto simp: migrated_def)

theorem migrate_consistent_witness:
  "up_to_date (snd (migrate sample_migration empty_file)) \<and>
   schema_db (file_schema (snd (migrate sample_migration empty_file))) = empty_db"
proof -
  let ?f = "upgraded sample_migration empty_file"
  have run: "migrate sample_migration empty_file = (Inr (), ?f)"
    by (rule healthy_empty) simp
  from migrate_consistent [OF schema_agrees_empty run] show ?thesis
    by (simp add: run) (simp add: empty_file_def)
qed

text \<open>
  C32. Opening. On a missing file and without failures, open creates the empty store from which the
  runs of this development start, with an up-to-date file. On an up-to-date file it changes nothing, and
  takes the store to the state that the restart step leads to. open_existing yields a store only for a file whose
  recorded schema version is the supported one, with a read-only writer.
\<close>

theorem open_store:
  assumes "validate_limits (sb_limits b) = Inr ()" "healthy_migration e"
  shows "(\<exists>f. builder_open None created e b None =
       (Inr (new_store (sb_limits b) (sb_durability b) (sb_read_pool_size b)), Some f) \<and> up_to_date f) \<and>
    (up_to_date g \<and> schema_db (file_schema g) = store_db st \<and> store_limits st = sb_limits b \<and>
       store_durability st = sb_durability b \<and> pool_max_idle (store_readers st) = sb_read_pool_size b \<longrightarrow>
       (\<exists>st'. builder_open None created e b (Some g) = (Inr st', Some g) \<and> store_step st Reopen st')) \<and>
    (builder_open_existing opn e' path b h = Inr st'' \<longrightarrow>
       (\<exists>f. h = Some f \<and> schema_migrations f \<noteq> None \<and> max_version f = Inr supported_version \<and>
          store_db st'' = schema_db (file_schema f) \<and> store_writer st'' = Some Read_Only))"
proof (intro conjI impI)
  show "\<exists>f. builder_open None created e b None =
      (Inr (new_store (sb_limits b) (sb_durability b) (sb_read_pool_size b)), Some f) \<and> up_to_date f"
    using healthy_empty [OF assms(2)] migrate_up_to_date [of e empty_file] assms(1)
    by (simp add: builder_open_def open_writer_def new_store_def store_at_def)
next
  assume g: "up_to_date g \<and> schema_db (file_schema g) = store_db st \<and> store_limits st = sb_limits b \<and>
      store_durability st = sb_durability b \<and> pool_max_idle (store_readers st) = sb_read_pool_size b"
  then have "builder_open None created e b (Some g) =
      (Inr (store_at (Read_Write (sb_durability b)) (store_db st) b), Some g)"
    using healthy_up_to_date [OF assms(2)] assms(1) by (simp add: builder_open_def open_writer_def)
  moreover have "store_step st Reopen (store_at (Read_Write (sb_durability b)) (store_db st) b)"
    using g by (cases st) (simp add: store_step_Reopen store_at_def)
  ultimately show "\<exists>st'. builder_open None created e b (Some g) = (Inr st', Some g) \<and> store_step st Reopen st'"
    by blast
next
  assume "builder_open_existing opn e' path b h = Inr st''"
  then show "\<exists>f. h = Some f \<and> schema_migrations f \<noteq> None \<and> max_version f = Inr supported_version \<and>
      store_db st'' = schema_db (file_schema f) \<and> store_writer st'' = Some Read_Only"
    by (auto simp: builder_open_existing_def require_current_def open_reader_def store_at_def not_less
        split: if_splits option.splits)
qed

theorem open_store_witness:
  "\<exists>f. builder_open None False sample_migration store_builder_new None = (Inr sample_store, Some f) \<and> up_to_date f"
proof -
  have "validate_limits (sb_limits store_builder_new) = Inr ()"
    by (simp add: store_builder_new_def validate_limits_def limits_new_def ensure_def)
  from open_store [OF this sample_migration_healthy] show ?thesis
    by (simp add: sample_store_def store_builder_new_def)
qed

section \<open>Operations\<close>

text \<open>
  C33. The report of verify is exact: it has no finding if and only if SQLite's two checks have none, the
  file's migrations are recorded with the checksums of this build, and every semantic rule holds of the tables.
  Every reachable store satisfies all semantic rules and all declared foreign keys, and an up-to-date file passes
  the checks of the migrations.
\<close>

theorem verify_report_exact:
  assumes "store_verify opn e p f st = (Inr rep, st')"
  shows "(report_is_ok rep \<longleftrightarrow>
       (\<forall>detail \<in> set (integrity_check p (store_db st)). detail = ''ok'') \<and> foreign_key_check p (store_db st) = [] \<and>
       status_each migrations f \<noteq> [] \<and> checksums_ok f \<and> semantics_hold (store_db st)) \<and>
    (reachable st \<longrightarrow> semantics_hold (store_db st) \<and> foreign_keys_hold (store_db st)) \<and>
    (up_to_date f \<longrightarrow> status_each migrations f \<noteq> [] \<and> checksums_ok f) \<and> store_db st' = store_db st"
proof -
  obtain b where "tx_yields (verify p f) (store_db st) rep b"
    using with_reader_yields [OF assms [unfolded store_verify_def]] by blast
  moreover have "db_ok (store_db st)" if "reachable st"
    using reachable_ok [OF that] by (simp add: store_ok_def)
  moreover have "store_db st' = store_db st"
    using with_reader_db [of opn e "verify p f" st] assms by (simp add: store_verify_def)
  ultimately show ?thesis
    using verify_exact db_ok_semantics db_ok_foreign_keys up_to_date_checksums by blast
qed

text \<open>Checks of SQLite that are computed from the tables.\<close>

definition sample_pragmas :: pragmas where
  "sample_pragmas = \<lparr>integrity_check = (\<lambda>d. [''ok'']),
     foreign_key_check = (\<lambda>d. map (\<lambda>e. (''events'', Some (ev_global_sequence e), ''transactions''))
       (filter (\<lambda>e. ev_transaction_id e \<notin> tx_transaction_id ` set (transactions d)) (events d)))\<rparr>"

theorem verify_report_exact_witness:
  "\<exists>rep st'. store_verify None sample_env sample_pragmas (upgraded sample_migration empty_file)
      (sample_store\<lparr>store_db := sample_db\<rparr>) = (Inr rep, st') \<and> report_is_ok rep"
proof -
  let ?st = "sample_store\<lparr>store_db := sample_db\<rparr>" and ?f = "upgraded sample_migration empty_file"
  have "up_to_date ?f"
    using migrate_up_to_date [OF healthy_empty(1) schema_agrees_empty, of sample_migration] by simp
  moreover have "integrity_check sample_pragmas sample_db = [''ok'']" "foreign_key_check sample_pragmas sample_db = []"
    by (simp_all add: sample_pragmas_def sample_db_def event_to_row_def sample_defs transaction_row_def)
  moreover obtain rep st' where run: "store_verify None sample_env sample_pragmas ?f ?st = (Inr rep, st')"
    using with_reader_answers [OF answers_verify, of sample_env] unfolding store_verify_def by fastforce
  ultimately show ?thesis
    using verify_report_exact [OF run] sample_reachable(1) by auto
qed

text \<open>
  C34. Without driver failures the diagnostic export of a reachable store ends and is exactly this text: a header, a
  line of statistics, and one line for every transaction, event, stream (but for a stream with an empty ID), projection,
  entry, job, active partition and claim receipt, in the order of their numbers, names or rowids, although it is
  read in pages. Every record is a line of its own, and escaped text can be read back.
\<close>

theorem export_content:
  assumes "reachable st" "\<forall>n. env_fault e n = None"
  shows "(\<exists>x st'. store_diagnostic_export_with None e (Inr bytes) f incl st =
       (Inr (concat (header_line x incl # stats_line x # export_lines incl (store_db st))), st') \<and>
     st_transactions x = word_of_nat (length (transactions (store_db st))) \<and>
     st_events x = word_of_nat (length (events (store_db st))) \<and>
     (\<forall>s. map_of (st_jobs_by_state x) (job_state_name s) = (if jobs_in_state (store_db st) s = [] then None
        else Some (word_of_nat (length (jobs_in_state (store_db st) s)))))) \<and>
   (\<forall>l \<in> set (export_lines incl (store_db st)). one_line l) \<and> json_unescape (json_escape t) = Some t"
proof -
  have ok: "db_ok (store_db st)"
    using reachable_ok [OF assms(1)] by (simp add: store_ok_def)
  obtain out st' where run: "with_reader None e (diagnostic_export (Inr bytes) f incl) st = (Inr out, st')"
    using with_reader_answers [OF answers_diagnostic_export assms(2)] by blast
  obtain b where "tx_yields (diagnostic_export (Inr bytes) f incl) (store_db st) out b"
    using with_reader_yields [OF run] by blast
  then obtain x where x: "tx_yields (stats (Inr bytes) f) (store_db st) x (store_db st)"
    and out: "out = concat (header_line x incl # stats_line x # export_lines incl (store_db st))"
    using diagnostic_export_yields ok by blast
  from x have counts: "st_transactions x = sql_count (transactions (store_db st))"
    "st_events x = sql_count (events (store_db st))"
    "st_jobs_by_state x = fold (\<lambda>(k, v). btree_insert k v) (named_groups (store_db st)) []"
    by (rule stats_yields; simp add: fold_state_groups)+
  have "map_of (st_jobs_by_state x) (job_state_name s) = (if jobs_in_state (store_db st) s = [] then None
      else Some (word_of_nat (length (jobs_in_state (store_db st) s))))" for s
    using map_of_fold_btree [OF named_groups_ok(1) [OF ok], of "[]"] named_groups_ok(2) [OF ok, of s]
    by (simp add: counts(3) sql_count_word)
  with run out counts show ?thesis
    using export_lines_records json_unescape_escape
    by (auto simp: store_diagnostic_export_with_def sql_count_word)
qed

theorem export_content_witness:
  "\<exists>x st'. store_diagnostic_export_with None sample_env (Inr 4096) empty_file False
     (sample_store\<lparr>store_db := sample_db\<rparr>) =
     (Inr (concat (header_line x False # stats_line x # export_lines False sample_db)), st') \<and> st_events x = 1"
proof -
  have "length (events sample_db) = 1"
    by (simp add: sample_db_def)
  then show ?thesis
    using export_content [OF sample_reachable(1), of sample_env 4096 empty_file False] by fastforce
qed

text \<open>
  C35. The diagnostic export is confidential: on two stores that agree once the lease tokens of jobs and receipts are
  hidden (and, unless payloads were asked for, the payloads, values and error summaries but for their lengths)
  it gives the same answer, in every environment. So no export tells a lease token.
\<close>

theorem export_confidential:
  assumes "redact incl (store_db s) = redact incl (store_db t)" "store_readers s = store_readers t"
  shows "fst (store_diagnostic_export_with opn e file_size f incl s) =
    fst (store_diagnostic_export_with opn e file_size f incl t)"
proof -
  have "fst (with_reader opn e (diagnostic_export file_size f incl) (s\<lparr>store_db := redact incl (store_db s)\<rparr>)) =
      fst (with_reader opn e (diagnostic_export file_size f incl) (t\<lparr>store_db := redact incl (store_db t)\<rparr>))"
    by (rule with_reader_same_file) (simp_all add: assms)
  then show ?thesis
    unfolding store_diagnostic_export_with_def
    by (simp only: with_reader_blind [OF blind_diagnostic_export])
qed

theorem export_confidential_witness:
  "fst (store_diagnostic_export_with None sample_env (Inr 4096) empty_file True
      (sample_store\<lparr>store_db := sample_claimed\<lparr>jobs := [sample_leased\<lparr>jobs_lease_token := Some []\<rparr>]\<rparr>\<rparr>)) =
   fst (store_diagnostic_export_with None sample_env (Inr 4096) empty_file True
      (sample_store\<lparr>store_db := sample_claimed\<rparr>))"
  by (rule export_confidential) (simp_all add: redact_def sample_claimed_jobs hide_job_def)

text \<open>
  C36. A backup writes its destination and nothing else; when it succeeds the destination is the store's file.
  Without overwrite an existing destination is refused and left as it is; with it the old file is removed before the
  new one is opened, so a backup onto a path that then cannot be opened has destroyed what was there.
\<close>

theorem backup_copies:
  assumes "store_backup opn e source dest overwrite (st, fs) = (r, st', fs')"
  shows "(r = Inr () \<longrightarrow> fs' = fs(dest \<mapsto> Database source) \<and> (fs dest = None \<or> overwrite)) \<and>
    (\<forall>path. path \<noteq> dest \<longrightarrow> fs' path = fs path) \<and>
    (fs dest \<noteq> None \<and> \<not> overwrite \<longrightarrow> fs' = fs \<and> r \<noteq> Inr ()) \<and>
    (fs dest \<noteq> None \<and> overwrite \<and> bk_remove e = None \<and> bk_open e \<noteq> None \<and> store_writer st \<noteq> None \<longrightarrow> fs' dest = None) \<and>
    store_db st' = store_db st"
proof -
  obtain c st1 where w: "writer_connection opn st = (c, st1)" by fastforce
  then have db: "store_db st1 = store_db st"
    by (rule writer_connection_cases) simp_all
  show ?thesis
  proof (cases c)
    case (Inl err)
    then have "store_writer st = None"
      using w by (auto simp: writer_connection_def split: option.splits)
    with Inl w assms db show ?thesis by (auto simp: store_backup_def)
  next
    case (Inr conn)
    then have b: "backup e source dest overwrite fs = (r, fs')" and st': "st' = st1"
      using assms w by (auto simp: store_backup_def split: prod.splits)
    then show ?thesis
      using backup_Inr [of e source dest overwrite fs fs'] backup_elsewhere [OF b] db
        backup_refused [of fs dest overwrite e source] backup_removes_first [of fs dest e _ source]
      by auto
  qed
qed

theorem backup_copies_witness:
  "fst (store_backup None \<lparr>bk_remove = None, bk_open = None, bk_begin = None, bk_run = None, bk_partial = Other_File,
      bk_integrity = Inr ''ok''\<rparr> empty_file ''copy'' True (sample_store, [''copy'' \<mapsto> Other_File])) = Inr () \<and>
   snd (snd (store_backup None \<lparr>bk_remove = None, bk_open = None, bk_begin = None, bk_run = None, bk_partial = Other_File,
      bk_integrity = Inr ''ok''\<rparr> empty_file ''copy'' True (sample_store, [''copy'' \<mapsto> Other_File]))) =
     [''copy'' \<mapsto> Database empty_file]"
proof -
  let ?e = "\<lparr>bk_remove = None, bk_open = None, bk_begin = None, bk_run = None, bk_partial = Other_File,
      bk_integrity = Inr ''ok''\<rparr>"
  obtain r st' fs' where run: "store_backup None ?e empty_file ''copy'' True
      (sample_store, [''copy'' \<mapsto> Other_File]) = (r, st', fs')"
    by (metis prod_cases3)
  then have "r = Inr ()"
    by (auto simp: store_backup_def sample_store_def new_store_def writer_connection_def backup_def
        remove_destination_def check_copy_def ensure_def)
  with backup_copies [OF run] run show ?thesis by simp
qed

section \<open>The command line\<close>

text \<open>
  C37. The only file that an invocation of the command line can change is the one its arguments name for that: the
  destination of backup, the file of diagnostic-export --out, and the database of jobs resolve. Whatever a call
  changes in the store is in the file of the database, so this says that the other commands leave the database.
  Apart from these files only those change that SQLite keeps beside a database it has open (side_paths). A usage error
  (exit code 2) changes no other file than these, and where the database does not exist nothing is created or changed.
  The exit code is zero exactly when nothing is written to the standard error.
\<close>

theorem cli_changes_only_outputs:
  assumes "run ce args fs = (r, out, fs')"
  shows "(path \<notin> \<Union> (side_paths ` opened_paths args) \<longrightarrow>
       (path \<notin> output_path args \<or> exit_code (r, out, fs') = 2 \<longrightarrow> fs' path = fs path)) \<and>
    (exit_code (r, out, fs') = 0 \<longleftrightarrow> stderr_text driver (r, out, fs') = []) \<and>
    (args \<noteq> [] \<and> parse (tl (strip_store args)) = Inr p \<and> fs (arg_db p) = None \<and>
       hd args \<noteq> ''--help'' \<and> hd args \<noteq> ''help'' \<longrightarrow> fs' = fs)"
proof -
  have "\<exists>u. r = Inl (Cli_Usage u)" if "exit_code (r, out, fs') = 2"
  proof (cases r)
    case (Inl err)
    with that show ?thesis by (cases err) (simp_all add: exit_code_def)
  next
    case (Inr u)
    with that show ?thesis by (simp add: exit_code_def)
  qed
  then show ?thesis
    using run_files [OF assms, of path] stderr_empty [of r out fs' driver] run_usage [of ce args fs _ out fs' path]
      run_missing [of args p fs ce] assms by auto
qed

theorem cli_changes_only_outputs_witness:
  "\<forall>ce. \<exists>r out fs'. run ce [''stats'', ''--db'', ''f''] [''f'' \<mapsto> Database empty_file] = (r, out, fs') \<and>
     fs' ''f'' = Some (Database empty_file)"
proof
  fix ce
  let ?fs = "[''f'' \<mapsto> Database empty_file]"
  obtain r out fs' where run: "run ce [''stats'', ''--db'', ''f''] ?fs = (r, out, fs')"
    by (rule prod_cases3)
  have "''f'' \<notin> output_path [''stats'', ''--db'', ''f'']" "opened_paths [''stats'', ''--db'', ''f''] = {''f''}"
    by code_simp+
  with cli_changes_only_outputs [OF run] run
  show "\<exists>r out fs'. run ce [''stats'', ''--db'', ''f''] ?fs = (r, out, fs') \<and> fs' ''f'' = Some (Database empty_file)"
    by (auto simp: side_paths_def)
qed

section \<open>Node bindings\<close>

text \<open>
  C38. Through the Node bindings an indeterminate commit can be recovered from the error alone. Whatever calls
  have led to the handle, the code of the error tells the case, the 32 characters after "transactionId=" in its message are
  the ID that recoverTransaction takes, also when the bindings drew the ID, and its answer is "committed", with the
  receipt of the batch that the input describes, or "absent", with nothing of it in the database.
\<close>

theorem node_commit_recovery:
  assumes "reachable st0" and "rtranclp node_step (Some st0) (Some st)"
    and "node_commit driver rnd opn e input (Some st) = (Inl err, h1)" and "js_code err = ''CommitIndeterminate''"
    and "node_recover_transaction driver opn' e' (take 32 (text_after ''transactionId='' (js_message err))) h1 = (Inr out, h2)"
  shows "\<exists>b n st2. build_batch driver rnd input 0 = Inr (b, n) \<and> h2 = Some st2 \<and>
    (case tro_receipt out of
       Some r \<Rightarrow> tro_kind out = ''committed'' \<and> (\<exists>seq. batch_committed b seq (store_db st) (store_db st2) \<and>
         r = receipt_output_of (receipt_of_row (transaction_row b seq)))
     | None \<Rightarrow> tro_kind out = ''absent'' \<and> store_db st2 = store_db st)"
proof -
  have "store_ok st"
    using node_steps_reachable [OF assms(2)] assms(1) reachable_ok by (simp add: reachable_handle_def)
  obtain b n i st1 where batch: "build_batch driver rnd input 0 = Inr (b, n)"
    and call: "store_commit opn e b st = (Inl (CommitError_Indeterminate i), st1)" and "h1 = Some st1"
    and "take 32 (text_after ''transactionId='' (js_message err)) = to_hex (ic_transaction_id i)"
    using node_commit_indeterminate [OF assms(3, 4)] .
  with assms(5) obtain res st2 where recover: "store_recover_transaction opn' e' (ic_transaction_id i) st1 = (Inr res, st2)"
    and out: "h2 = Some st2" "out = transaction_recovery_output res"
    using node_recover_transaction_of_hex by metis
  from recovery_after_indeterminate [OF call recover \<open>store_ok st\<close>] out batch show ?thesis
    by (cases res) auto
qed

theorem node_commit_recovery_witness:
  "\<exists>seq. batch_committed sample_batch seq empty_db sample_db"
proof -
  let ?i = "\<lparr>ic_transaction_id = Id 1, ic_storage_error = Failpoint\<rparr>"
  let ?err = "map_commit_error (\<lambda>_. []) (CommitError_Indeterminate ?i)"
  have code: "js_code ?err = ''CommitIndeterminate''"
    by (simp add: js_err_def)
  have "take 32 (text_after ''transactionId='' (js_message ?err)) = to_hex (Id 1)"
    using transaction_id_of_message [of _ ?i] by simp
  then have recovered: "node_recover_transaction (\<lambda>_. []) None sample_env
        (take 32 (text_after ''transactionId='' (js_message ?err)))
        (Some (sample_store\<lparr>store_writer := None, store_db := sample_db\<rparr>)) =
      (Inr (transaction_recovery_output (TransactionRecovery_Committed (receipt_of_row (transaction_row sample_batch (I64 1))))),
       Some (sample_store\<lparr>store_db := sample_db\<rparr>))"
    using node_input_recovered by simp
  show ?thesis
    using node_commit_recovery [OF node_store_reachable rtranclp.rtrancl_refl node_input_lost code recovered]
    by (auto simp: node_input_batch sample_store_def new_store_def)
qed

section \<open>A worker\<close>

text \<open>
  C39. The polling loop of a worker ends, from any state of the store, if the outcome of COMMIT is known from some
  interaction on (before that, any call may fail or lose its outcome): each further poll that does not end it takes at least one expired
  lease away. It ends with an error or with a job whose lease, with the token of the answer, the worker then holds, also when
  the answer was lost and the claim recovered; a claim that succeeds never comes without a job.
\<close>

theorem claim_one_returns:
  assumes "store_ok (ts_store s)" "\<forall>n \<ge> N. certain (te_env te n)"
  shows "\<exists>r s'. claim_one te worker_id s = Some (r, s') \<and>
    (case r of Inl err \<Rightarrow> err \<noteq> Turn_Panic | Inr (t, job) \<Rightarrow> turn_held worker_id job (store_db (ts_store s')))"
  using claim_one_ends [OF assms] by blast

theorem claim_one_returns_witness:
  "\<exists>r s'. claim_one turn_sample ''w'' turn_started = Some (r, s')"
proof -
  have "store_ok (ts_store turn_started)"
    using sample_claimed_ok by (simp add: turn_started_def turn_start_def store_ok_def sample_store_def new_store_def)
  moreover have "\<forall>n \<ge> 0. certain (te_env turn_sample n)"
    by (simp add: turn_sample_def certain_def sample_env_of_def)
  ultimately show ?thesis
    using claim_one_returns [of turn_started 0 turn_sample "''w''"] by blast
qed

text \<open>
  C40. A turn is completed exactly once. When a worker completes a turn and is told that it succeeded, also after an
  unknown outcome, its recovery, and the batch submitted again, then exactly one transaction was added, with one event that says
  so, the thread is idle, and the job has ended as Succeeded by that transaction; if the drawn transaction ID was
  not used before.
\<close>

theorem turn_completed_once:
  assumes "store_ok (ts_store s)" and "complete_turn te thread_id job s = (Inr (), s')"
    and "\<And>t. id_new (te_random te (ts_ticks s)) = Inr t \<Longrightarrow> \<not> transaction_exists (as_bytes t) (store_db (ts_store s))"
  shows "\<exists>t row ev. transactions (store_db (ts_store s')) = transactions (store_db (ts_store s)) @ [row] \<and>
    tx_transaction_id row = as_bytes t \<and>
    events (store_db (ts_store s')) = events (store_db (ts_store s)) @ [ev] \<and> ev_transaction_id ev = as_bytes t \<and>
    event_stream_id (event_of_row ev) = thread_stream thread_id \<and>
    event_type (event_of_row ev) = ''thread.turn-completed'' \<and>
    contents (store_db (ts_store s')) threads (str_bytes thread_id) = Some (str_bytes idle) \<and>
    finished t (claimed_job_id job) Succeeded (store_db (ts_store s'))"
proof -
  obtain t now ev version seq where ev: "event_stream_id ev = thread_stream thread_id" "event_type ev = ''thread.turn-completed''"
    and committed: "batch_committed (completion t now ev version thread_id job) seq (store_db (ts_store s)) (store_db (ts_store s'))"
    using assms(2, 1, 3) by (rule complete_turn_applies)
  then obtain new where "events (store_db (ts_store s')) = events (store_db (ts_store s)) @ new" "appends t [ev] new"
    by (auto simp: batch_committed_def completion_def batch_events_def op_event_def)
  moreover from this obtain row where "new = [row]" "event_of_row row = ev" "ev_transaction_id row = as_bytes t"
    by (auto simp: appends_def)
  ultimately show ?thesis
    using ev committed
    by (auto simp: batch_committed_def completion_def transaction_row_def op_contents_def patch_push_def
        projection_patch_new_def patch_map_def intro!: exI [of _ t])
qed

theorem turn_completed_once_witness:
  "\<exists>s'. complete_turn turn_sample ''x'' turn_job turn_started = (Inr (), s') \<and>
     contents (store_db (ts_store s')) threads (str_bytes ''x'') = Some (str_bytes idle) \<and>
     (\<exists>t. finished t (Id 20) Succeeded (store_db (ts_store s')))"
proof -
  obtain s' where run: "complete_turn turn_sample ''x'' turn_job turn_started = (Inr (), s')"
    by (rule turn_completes)
  have "store_ok (ts_store turn_started)"
    using sample_claimed_ok by (simp add: turn_started_def turn_start_def store_ok_def sample_store_def new_store_def)
  moreover have "tx_transaction_id ` set (transactions sample_claimed) = {as_bytes (Id 1), as_bytes (Id 101)}"
    using arg_cong [OF sample_claimed_log(2), of set] by simp
  then have "\<not> transaction_exists (as_bytes t) (store_db (ts_store turn_started))"
    if "id_new (te_random turn_sample (ts_ticks turn_started)) = Inr t" for t
    using that by (auto simp: turn_started_def turn_start_def turn_sample_def id_new_def transaction_exists_def)
  moreover have "claimed_job_id turn_job = Id 20"
    by (simp add: turn_job_def sample_lease_row)
  ultimately show ?thesis
    using turn_completed_once [OF _ run] run by metis
qed

end
